(* ===== verification/Serve_Prelude.thy ===== *)
theory Serve_Prelude
  imports Main "HOL-Library.Sublist"
begin

text \<open>
  Shared vocabulary of the development: the part of JavaScript's string, number and object
  library that the modelled code uses, and the generic lemmas the component proofs share.

  Text. A JavaScript string is a list of UTF-16 code units; here it is a \<open>string\<close>
  (a list of \<open>char\<close>), that is, a string all of whose code units are below 256. On these
  strings every function below is exact: \<open>js_trim\<close> knows the no-break space,
  \<open>js_lower\<close> the accented capitals, \<open>utf8_length\<close> the two-byte encodings. A string
  with a larger code unit (a byte-order mark, an emoji) is outside the model.

  Time. Timestamps are integers, in the unit the code uses (milliseconds unless stated).
\<close>


section \<open>Strings\<close>

type_synonym url_path = string

definition code_unit :: "char \<Rightarrow> nat" where
  "code_unit c = of_char c"

definition starts_with :: "string \<Rightarrow> string \<Rightarrow> bool" where
  \<comment> \<open>\<open>s.startsWith(p)\<close>\<close>
  "starts_with p s = (take (length p) s = p)"

definition ends_with :: "string \<Rightarrow> string \<Rightarrow> bool" where
  \<comment> \<open>\<open>s.endsWith(p)\<close>\<close>
  "ends_with p s = (length p \<le> length s \<and> drop (length s - length p) s = p)"

fun contains_text :: "string \<Rightarrow> string \<Rightarrow> bool" where
  \<comment> \<open>\<open>s.includes(p)\<close>\<close>
  "contains_text p [] = (p = [])"
| "contains_text p (c # s) = (starts_with p (c # s) \<or> contains_text p s)"

fun index_of :: "string \<Rightarrow> string \<Rightarrow> nat option" where
  \<comment> \<open>\<open>s.indexOf(p)\<close>, with \<open>None\<close> for \<open>-1\<close>\<close>
  "index_of p [] = (if p = [] then Some 0 else None)"
| "index_of p (c # s) =
     (if starts_with p (c # s) then Some 0 else map_option Suc (index_of p s))"

fun split_on :: "char \<Rightarrow> string \<Rightarrow> string list" where
  \<comment> \<open>\<open>s.split(sep)\<close> for a one-character separator: never an empty list\<close>
  "split_on sep [] = [[]]"
| "split_on sep (c # s) =
     (if c = sep then [] # split_on sep s
      else case split_on sep s of [] \<Rightarrow> [[c]] | w # ws \<Rightarrow> (c # w) # ws)"

fun join_with :: "string \<Rightarrow> string list \<Rightarrow> string" where
  \<comment> \<open>\<open>parts.join(sep)\<close>\<close>
  "join_with sep [] = []"
| "join_with sep [w] = w"
| "join_with sep (w # ws) = w @ sep @ join_with sep ws"

definition is_space :: "char \<Rightarrow> bool" where
  \<comment> \<open>\<open>\s\<close> and what \<open>trim\<close> removes: tab to carriage return, space, no-break space\<close>
  "is_space c = (let n = code_unit c in (9 \<le> n \<and> n \<le> 13) \<or> n = 32 \<or> n = 160)"

definition js_trim :: "string \<Rightarrow> string" where
  "js_trim s = rev (dropWhile is_space (rev (dropWhile is_space s)))"

fun split_spaces :: "string \<Rightarrow> string list" where
  \<comment> \<open>\<open>s.split(/\s+/)\<close> on a string that is trimmed and not empty\<close>
  "split_spaces [] = [[]]"
| "split_spaces (c # s) =
     (if is_space c then
        (case s of [] \<Rightarrow> [[], []]
         | d # _ \<Rightarrow> if is_space d then split_spaces s else [] # split_spaces s)
      else case split_spaces s of [] \<Rightarrow> [[c]] | w # ws \<Rightarrow> (c # w) # ws)"

definition is_digit :: "char \<Rightarrow> bool" where
  "is_digit c = (48 \<le> code_unit c \<and> code_unit c \<le> 57)"

definition is_lower :: "char \<Rightarrow> bool" where
  "is_lower c = (97 \<le> code_unit c \<and> code_unit c \<le> 122)"

definition is_upper :: "char \<Rightarrow> bool" where
  "is_upper c = (65 \<le> code_unit c \<and> code_unit c \<le> 90)"

definition lower_char :: "char \<Rightarrow> char" where
  "lower_char c = (let n = code_unit c in
     if (65 \<le> n \<and> n \<le> 90) \<or> (192 \<le> n \<and> n \<le> 222 \<and> n \<noteq> 215) then char_of (n + 32) else c)"

definition js_lower :: "string \<Rightarrow> string" where
  \<comment> \<open>\<open>s.toLowerCase()\<close>\<close>
  "js_lower s = map lower_char s"

definition is_control :: "char \<Rightarrow> bool" where
  \<comment> \<open>\<open>\p{Cc}\<close>\<close>
  "is_control c = (code_unit c < 32 \<or> (127 \<le> code_unit c \<and> code_unit c < 160))"

definition utf8_width :: "char \<Rightarrow> nat" where
  "utf8_width c = (if code_unit c < 128 then 1 else 2)"

definition utf8_length :: "string \<Rightarrow> nat" where
  \<comment> \<open>\<open>new TextEncoder().encode(s).length\<close>\<close>
  "utf8_length s = sum_list (map utf8_width s)"

fun show_nat :: "nat \<Rightarrow> string" where
  \<comment> \<open>a number in a template string\<close>
  "show_nat n =
     (if n < 10 then [char_of (48 + n)] else show_nat (n div 10) @ [char_of (48 + n mod 10)])"

declare show_nat.simps [simp del]

section \<open>Objects used as dictionaries\<close>

text \<open>
  A plain object literal \<open>{}\<close> used as a dictionary has its own properties, in insertion
  order, and answers a read of a name it does not own from \<open>Object.prototype\<close>. Two facts
  matter to the code: a read of an inherited name is not \<open>undefined\<close>, and an assignment of
  a string to \<open>__proto__\<close> stores nothing. \<open>inherited_text\<close> is what such a property
  becomes when it is spliced into a string.
\<close>

type_synonym js_dict = "(string \<times> string) list"

definition native_function :: "string \<Rightarrow> string" where
  "native_function name = ''function '' @ name @ ''() { [native code] }''"

definition inherited_text :: "string \<Rightarrow> string option" where
  "inherited_text name =
     (if name = ''constructor'' then Some (native_function ''Object'')
      else if name = ''__proto__'' then Some ''[object Object]''
      else if name \<in> {''hasOwnProperty'', ''isPrototypeOf'', ''propertyIsEnumerable'',
                       ''toLocaleString'', ''toString'', ''valueOf'', ''__defineGetter__'',
                       ''__defineSetter__'', ''__lookupGetter__'', ''__lookupSetter__''}
      then Some (native_function name)
      else None)"

definition dict_get :: "js_dict \<Rightarrow> string \<Rightarrow> string option" where
  \<comment> \<open>\<open>obj[name]\<close>, as text; \<open>None\<close> is \<open>undefined\<close>\<close>
  "dict_get d name = (case map_of d name of Some v \<Rightarrow> Some v | None \<Rightarrow> inherited_text name)"

fun own_set :: "('k \<times> 'v) list \<Rightarrow> 'k \<Rightarrow> 'v \<Rightarrow> ('k \<times> 'v) list" where
  \<comment> \<open>\<open>map.set(k, v)\<close>: an existing key keeps its place, a new one goes last\<close>
  "own_set [] name v = [(name, v)]"
| "own_set ((k, w) # d) name v = (if k = name then (k, v) # d else (k, w) # own_set d name v)"

definition own_delete :: "('k \<times> 'v) list \<Rightarrow> 'k \<Rightarrow> ('k \<times> 'v) list" where
  \<comment> \<open>\<open>map.delete(k)\<close>\<close>
  "own_delete d name = filter (\<lambda>(k, _). k \<noteq> name) d"

definition dict_set :: "js_dict \<Rightarrow> string \<Rightarrow> string \<Rightarrow> js_dict" where
  \<comment> \<open>\<open>obj[name] = v\<close>\<close>
  "dict_set d name v = (if name = ''__proto__'' then d else own_set d name v)"

section \<open>Lemmas on strings\<close>

lemma starts_with_Nil [simp]: "starts_with [] s"
  by (simp add: starts_with_def)

lemma starts_with_append [simp]: "starts_with p (p @ s)"
  by (simp add: starts_with_def)

lemma starts_with_single [simp]: "starts_with [c] (d # s) \<longleftrightarrow> c = d"
  by (auto simp: starts_with_def)

lemma starts_with_empty [simp]: "starts_with (c # p) [] \<longleftrightarrow> False"
  by (simp add: starts_with_def)

lemma starts_with_Cons: "starts_with (c # p) (d # s) \<longleftrightarrow> c = d \<and> starts_with p s"
  by (auto simp: starts_with_def)

lemma starts_with_prefix: "starts_with p s \<longleftrightarrow> prefix p s"
  by (metis append_eq_conv_conj append_take_drop_id prefix_def starts_with_def)

lemma includes_sublist: "contains_text p s \<longleftrightarrow> sublist p s"
proof (induction s)
  case Nil
  then show ?case by auto
next
  case (Cons c s)
  then show ?case by (simp add: starts_with_prefix sublist_Cons_right)
qed

lemma index_of_Some_iff: "index_of p s \<noteq> None \<longleftrightarrow> contains_text p s"
  by (induction p s rule: index_of.induct) auto

lemma index_of_le: "index_of p s = Some i \<Longrightarrow> i + length p \<le> length s \<and> starts_with p (drop i s)"
proof (induction p s arbitrary: i rule: index_of.induct)
  case (1 p)
  then show ?case by (auto split: if_splits)
next
  case (2 p c s)
  show ?case
  proof (cases "starts_with p (c # s)")
    case True
    with "2.prems" show ?thesis
      by (auto simp: starts_with_prefix dest: prefix_length_le)
  next
    case False
    with 2 show ?thesis by auto
  qed
qed

lemma index_of_append_sep: "c \<notin> set w \<Longrightarrow> index_of [c] (w @ c # s) = Some (length w)"
  by (induction w) auto

lemma split_on_not_Nil [simp]: "split_on sep s \<noteq> []"
  by (cases s) (auto split: list.splits)

lemma join_with_Cons: "ws \<noteq> [] \<Longrightarrow> join_with sep (w # ws) = w @ sep @ join_with sep ws"
  by (cases ws) auto

lemma join_split_on: "join_with [sep] (split_on sep s) = s"
proof (induction s)
  case Nil
  then show ?case by simp
next
  case (Cons c s)
  obtain w ws where sw: "split_on sep s = w # ws"
    by (meson neq_Nil_conv split_on_not_Nil)
  show ?case
    using Cons sw by (cases ws) auto
qed

lemma split_on_sep_free: "w \<in> set (split_on sep s) \<Longrightarrow> sep \<notin> set w"
  by (induction s arbitrary: w) (auto split: if_splits list.splits)

lemma split_on_id: "sep \<notin> set s \<Longrightarrow> split_on sep s = [s]"
  by (induction s) auto

lemma split_on_append_sep:
  "sep \<notin> set w \<Longrightarrow> split_on sep (w @ sep # s) = w # split_on sep s"
  by (induction w) auto

lemma split_on_append:
  "split_on sep (xs @ ys) = butlast (split_on sep xs) @ split_on sep (last (split_on sep xs) @ ys)"
proof (induction xs)
  case (Cons c xs)
  obtain w ws where s: "split_on sep xs = w # ws" by (meson list.exhaust split_on_not_Nil)
  show ?case
  proof (cases "c = sep")
    case True
    with Cons s show ?thesis by simp
  next
    case False
    then show ?thesis using Cons s by (cases ws) auto
  qed
qed simp

lemma split_on_join:
  "ws \<noteq> [] \<Longrightarrow> \<forall>w \<in> set ws. sep \<notin> set w \<Longrightarrow> split_on sep (join_with [sep] ws) = ws"
  by (induction "[sep]" ws rule: join_with.induct) (auto simp: split_on_id split_on_append_sep)

lemma utf8_length_ge: "length s \<le> utf8_length s"
  by (induction s) (auto simp: utf8_length_def utf8_width_def)

lemma utf8_length_le: "utf8_length s \<le> 2 * length s"
  by (induction s) (auto simp: utf8_length_def utf8_width_def)

lemma utf8_length_simps [simp]:
  "utf8_length [] = 0"
  "utf8_length (c # s) = utf8_width c + utf8_length s"
  by (simp_all add: utf8_length_def)

lemma utf8_length_append [simp]: "utf8_length (s @ t) = utf8_length s + utf8_length t"
  by (simp add: utf8_length_def)

section \<open>Lemmas on objects\<close>

lemma map_of_own_set [simp]: "map_of (own_set d name v) = (map_of d)(name \<mapsto> v)"
  by (induction d name v rule: own_set.induct) (auto simp: fun_eq_iff)

lemma fst_own_set:
  "fst ` set (own_set d name v) = insert name (fst ` set d)"
  by (induction d name v rule: own_set.induct) auto

lemma distinct_own_set:
  "distinct (map fst d) \<Longrightarrow> distinct (map fst (own_set d name v))"
proof (induction d name v rule: own_set.induct)
  case (2 k w d name v)
  have "fst ` set (own_set d name v) = insert name (fst ` set d)" by (rule fst_own_set)
  with 2 show ?case by auto
qed auto

lemma length_own_set:
  "length (own_set d name v) = (if name \<in> fst ` set d then length d else Suc (length d))"
  by (induction d name v rule: own_set.induct) auto

lemma set_own_set: "set (own_set d name v) \<subseteq> insert (name, v) (set d)"
  by (induction d name v rule: own_set.induct) auto

lemma map_of_own_delete [simp]: "map_of (own_delete d name) = (map_of d)(name := None)"
  by (induction d) (auto simp: own_delete_def fun_eq_iff)

lemma distinct_own_delete:
  "distinct (map fst d) \<Longrightarrow> distinct (map fst (own_delete d name))"
  by (induction d) (auto simp: own_delete_def)

lemma set_own_delete: "set (own_delete d name) \<subseteq> set d"
  by (auto simp: own_delete_def)

lemma length_own_delete: "length (own_delete d name) \<le> length d"
  by (simp add: own_delete_def)

lemma dict_get_own: "map_of d name = Some v \<Longrightarrow> dict_get d name = Some v"
  by (simp add: dict_get_def)

lemma dict_get_set:
  "name \<noteq> ''__proto__'' \<Longrightarrow> dict_get (dict_set d name v) name = Some v"
  by (simp add: dict_get_def dict_set_def)

end
