(* ===== verification/Key_Value.thy ===== *)
theory Key_Value
  imports Serve_Prelude
begin

text \<open>
  The key-value port (\<open>core/kv/port.ts\<close>) and its two implementations under \<open>src/\<close>:
  the map-backed store of \<open>adapters/memory/memory-kv.ts\<close> and the table-backed store of
  \<open>adapters/sql/kv.ts\<close>. The port is a record of operations, passed to its clients the way
  the code injects it. The locale \<open>key_value_port\<close> states what every implementation
  promises: a read never returns an expired value, and a write or a delete touches one key.
  \<open>durable_key_value\<close> adds what the two implementations here do and an evicting provider
  does not: a value stays readable until its expiry. Values are of any type; the clients
  store parsed JSON (\<open>blob\<close>).
\<close>

section \<open>The port\<close>

record ('s, 'v) kv_port =
  kv_get :: "int \<Rightarrow> string \<Rightarrow> 's \<Rightarrow> 'v option \<times> 's"
  kv_put :: "int \<Rightarrow> string \<Rightarrow> 'v \<Rightarrow> int option \<Rightarrow> 's \<Rightarrow> 's"
  kv_delete :: "string \<Rightarrow> 's \<Rightarrow> 's"

text \<open>
  The first argument of \<open>kv_get\<close> and \<open>kv_put\<close> is the store's clock, in milliseconds;
  \<open>kv_put\<close> takes \<open>options.ttlSeconds\<close>. A read may change the state: the memory store
  drops an expired entry when it meets it.
\<close>

definition expiry_of :: "int \<Rightarrow> int option \<Rightarrow> int option" where
  \<comment> \<open>\<open>ttl === undefined ? null : now() + ttl * 1000\<close>\<close>
  "expiry_of now ttl = map_option (\<lambda>t. now + t * 1000) ttl"

definition live :: "int \<Rightarrow> int option \<Rightarrow> bool" where
  "live now expires_at = (case expires_at of None \<Rightarrow> True | Some e \<Rightarrow> now < e)"

definition visible :: "int \<Rightarrow> (string \<rightharpoonup> 'v \<times> int option) \<Rightarrow> string \<rightharpoonup> 'v" where
  \<comment> \<open>what a reader at time \<open>now\<close> may see of a store's contents\<close>
  "visible now m k = (case m k of None \<Rightarrow> None | Some (v, e) \<Rightarrow> if live now e then Some v else None)"

text \<open>What \<open>JSON.parse\<close> makes of a stored text: a value, or a syntax error (\<open>Garbage\<close>).\<close>

datatype json =
  JNull | JBool bool | JNum int | JStr string | JArr "json list" | JObj "(string \<times> json) list"

datatype blob = Blob json | Garbage

fun json_field :: "json \<Rightarrow> string \<Rightarrow> json option" where
  "json_field (JObj props) name = map_of props name"
| "json_field _ name = None"

section \<open>The contract\<close>

locale key_value_port =
  fixes kv :: "('s, 'v) kv_port"
    and contents :: "'s \<Rightarrow> string \<rightharpoonup> 'v \<times> int option"
    and invar :: "'s \<Rightarrow> bool"
  assumes get_sound: "invar s \<Longrightarrow> fst (kv_get kv now k s) = Some v \<Longrightarrow> visible now (contents s) k = Some v"
    and get_frame: "invar s \<Longrightarrow> now \<le> t \<Longrightarrow> visible t (contents (snd (kv_get kv now k s))) = visible t (contents s)"
    and put_contents: "invar s \<Longrightarrow> contents (kv_put kv now k v ttl s) = (contents s)(k \<mapsto> (v, expiry_of now ttl))"
    and delete_contents: "invar s \<Longrightarrow> contents (kv_delete kv k s) = (contents s)(k := None)"
    and get_invar: "invar s \<Longrightarrow> invar (snd (kv_get kv now k s))"
    and put_invar: "invar s \<Longrightarrow> invar (kv_put kv now k v ttl s)"
    and delete_invar: "invar s \<Longrightarrow> invar (kv_delete kv k s)"
begin

lemmas invars = get_invar put_invar delete_invar

lemma get_after_put_other:
  assumes "invar s" and "k \<noteq> k'" and "fst (kv_get kv t k (kv_put kv now k' v ttl s)) = Some w"
  shows "visible t (contents s) k = Some w"
proof -
  have "visible t (contents (kv_put kv now k' v ttl s)) k = Some w"
    using assms get_sound put_invar by blast
  then show ?thesis
    using assms by (simp add: put_contents visible_def)
qed

lemma get_after_delete: "invar s \<Longrightarrow> fst (kv_get kv t k (kv_delete kv k s)) = None"
proof (rule ccontr)
  assume s: "invar s" and "fst (kv_get kv t k (kv_delete kv k s)) \<noteq> None"
  then obtain w where "visible t (contents (kv_delete kv k s)) k = Some w"
    using get_sound delete_invar by (metis option.exhaust)
  with s show False by (simp add: delete_contents visible_def)
qed

lemma get_expired:
  assumes "invar s" and "now + ttl * 1000 \<le> t"
  shows "fst (kv_get kv t k (kv_put kv now k v (Some ttl) s)) = None"
proof (rule ccontr)
  assume "fst (kv_get kv t k (kv_put kv now k v (Some ttl) s)) \<noteq> None"
  then obtain w where "visible t (contents (kv_put kv now k v (Some ttl) s)) k = Some w"
    using assms(1) get_sound put_invar by (metis option.exhaust)
  with assms show False
    by (simp add: put_contents visible_def expiry_of_def live_def)
qed

end

locale durable_key_value = key_value_port +
  assumes get_complete: "invar s \<Longrightarrow> visible now (contents s) k = Some v \<Longrightarrow> fst (kv_get kv now k s) = Some v"
begin

lemma get_visible: "invar s \<Longrightarrow> fst (kv_get kv now k s) = visible now (contents s) k"
  by (metis get_complete get_sound option.exhaust)

lemma visible_get_later:
  "invar s \<Longrightarrow> now \<le> t \<Longrightarrow> visible t (contents (snd (kv_get kv now k s))) k' = visible t (contents s) k'"
  by (simp add: get_frame)

lemma get_after_put:
  "invar s \<Longrightarrow> fst (kv_get kv t k (kv_put kv now k' v ttl s)) =
     (if k = k' then (if live t (expiry_of now ttl) then Some v else None)
      else fst (kv_get kv t k s))"
  by (simp add: get_visible put_invar put_contents visible_def)

end

section \<open>The memory store\<close>

record 'v kv_entry =
  entry_value :: 'v
  entry_expires :: "int option"

type_synonym 'v memory_kv = "(string \<times> 'v kv_entry) list"

definition memory_get :: "int \<Rightarrow> string \<Rightarrow> 'v memory_kv \<Rightarrow> 'v option \<times> 'v memory_kv" where
  "memory_get now key entries =
     (case map_of entries key of
        None \<Rightarrow> (None, entries)
      | Some entry \<Rightarrow>
          if entry_expires entry \<noteq> None \<and> the (entry_expires entry) \<le> now
          then (None, own_delete entries key)
          else (Some (entry_value entry), entries))"

definition memory_put :: "int \<Rightarrow> string \<Rightarrow> 'v \<Rightarrow> int option \<Rightarrow> 'v memory_kv \<Rightarrow> 'v memory_kv" where
  "memory_put now key v ttl entries =
     own_set entries key \<lparr>entry_value = v,
       entry_expires = (case ttl of None \<Rightarrow> None | Some t \<Rightarrow> Some (now + t * 1000))\<rparr>"

definition memory_delete :: "string \<Rightarrow> 'v memory_kv \<Rightarrow> 'v memory_kv" where
  "memory_delete key entries = own_delete entries key"

fun memory_size :: "int \<Rightarrow> 'v memory_kv \<Rightarrow> nat" where
  "memory_size now [] = 0"
| "memory_size now ((_, entry) # entries) =
     (if entry_expires entry = None \<or> the (entry_expires entry) > now then 1 else 0)
     + memory_size now entries"

definition memory_port :: "('v memory_kv, 'v) kv_port" where
  "memory_port = \<lparr>kv_get = memory_get, kv_put = memory_put, kv_delete = memory_delete\<rparr>"

definition memory_contents :: "'v memory_kv \<Rightarrow> string \<rightharpoonup> 'v \<times> int option" where
  "memory_contents entries k = map_option (\<lambda>e. (entry_value e, entry_expires e)) (map_of entries k)"

definition memory_invar :: "'v memory_kv \<Rightarrow> bool" where
  "memory_invar entries = distinct (map fst entries)"

lemmas memory_defs = memory_port_def memory_get_def memory_put_def memory_delete_def
  memory_contents_def memory_invar_def

lemma memory_get_invar: "memory_invar s \<Longrightarrow> memory_invar (snd (memory_get now k s))"
  by (auto simp: memory_defs distinct_own_delete split: option.splits)

lemma memory_get_visible: "fst (memory_get now k s) = visible now (memory_contents s) k"
  by (cases "map_of s k")
    (auto simp: memory_get_def memory_contents_def visible_def live_def split: option.splits)

interpretation memory: durable_key_value memory_port memory_contents memory_invar
proof (unfold_locales, goal_cases)
  case (1 s now k v)
  then show ?case by (simp add: memory_port_def memory_get_visible)
next
  case (2 s now t k)
  then show ?case
    by (auto simp: memory_defs visible_def live_def fun_eq_iff split: option.splits)
next
  case (3 s now k v ttl)
  then show ?case
    by (auto simp: memory_defs expiry_of_def fun_eq_iff split: option.splits)
next
  case (4 s k)
  then show ?case by (auto simp: memory_defs fun_eq_iff)
next
  case (5 s now k)
  then show ?case by (simp add: memory_port_def memory_get_invar)
next
  case (6 s now k v ttl)
  then show ?case by (simp add: memory_defs distinct_own_set)
next
  case (7 s k)
  then show ?case by (simp add: memory_defs distinct_own_delete)
next
  case (8 s now k v)
  then show ?case by (simp add: memory_port_def memory_get_visible)
qed

section \<open>The SQL store\<close>

text \<open>The \<open>kv\<close> table: its rows in storage order, \<open>key\<close> its primary key.\<close>

record 'v kv_row =
  row_key :: string
  row_value :: 'v
  row_expires :: "int option"

type_synonym 'v kv_table = "'v kv_row list"

definition row_matches :: "int \<Rightarrow> string \<Rightarrow> 'v kv_row \<Rightarrow> bool" where
  \<comment> \<open>\<open>key = ? AND (expires_at IS NULL OR expires_at > ?)\<close>\<close>
  "row_matches now key row \<longleftrightarrow>
     row_key row = key \<and> (case row_expires row of None \<Rightarrow> True | Some e \<Rightarrow> e > now)"

definition sql_get :: "int \<Rightarrow> string \<Rightarrow> 'v kv_table \<Rightarrow> 'v option \<times> 'v kv_table" where
  "sql_get now key table =
     (case filter (row_matches now key) table of
        [] \<Rightarrow> (None, table)
      | row # _ \<Rightarrow> (Some (row_value row), table))"

fun sql_upsert :: "'v kv_row \<Rightarrow> 'v kv_table \<Rightarrow> 'v kv_table" where
  \<comment> \<open>\<open>INSERT \<dots> ON CONFLICT(key) DO UPDATE\<close>\<close>
  "sql_upsert new [] = [new]"
| "sql_upsert new (row # table) =
     (if row_key row = row_key new
      then row\<lparr>row_value := row_value new, row_expires := row_expires new\<rparr> # table
      else row # sql_upsert new table)"

definition sql_put :: "int \<Rightarrow> string \<Rightarrow> 'v \<Rightarrow> int option \<Rightarrow> 'v kv_table \<Rightarrow> 'v kv_table" where
  "sql_put now key v ttl table =
     sql_upsert \<lparr>row_key = key, row_value = v,
       row_expires = (case ttl of None \<Rightarrow> None | Some t \<Rightarrow> Some (now + t * 1000))\<rparr> table"

definition sql_delete :: "string \<Rightarrow> 'v kv_table \<Rightarrow> 'v kv_table" where
  "sql_delete key table = filter (\<lambda>row. row_key row \<noteq> key) table"

definition row_expired :: "int \<Rightarrow> 'v kv_row \<Rightarrow> bool" where
  \<comment> \<open>\<open>expires_at IS NOT NULL AND expires_at <= ?\<close>\<close>
  "row_expired now row = (case row_expires row of None \<Rightarrow> False | Some e \<Rightarrow> e \<le> now)"

definition sql_sweep_expired :: "int \<Rightarrow> 'v kv_table \<Rightarrow> nat \<times> 'v kv_table" where
  "sql_sweep_expired now table =
     (length (filter (row_expired now) table), filter (\<lambda>row. \<not> row_expired now row) table)"

definition sql_port :: "('v kv_table, 'v) kv_port" where
  "sql_port = \<lparr>kv_get = sql_get, kv_put = sql_put, kv_delete = sql_delete\<rparr>"

fun sql_contents :: "'v kv_table \<Rightarrow> string \<rightharpoonup> 'v \<times> int option" where
  "sql_contents [] k = None"
| "sql_contents (row # table) k =
     (if row_key row = k then Some (row_value row, row_expires row) else sql_contents table k)"

definition sql_invar :: "'v kv_table \<Rightarrow> bool" where
  \<comment> \<open>the primary key\<close>
  "sql_invar table = distinct (map row_key table)"

lemma sql_contents_None: "k \<notin> row_key ` set table \<Longrightarrow> sql_contents table k = None"
  by (induction table) auto

lemma sql_get_visible: "sql_invar table \<Longrightarrow> fst (sql_get now k table) = visible now (sql_contents table) k"
proof (induction table)
  case Nil
  then show ?case by (simp add: sql_get_def visible_def)
next
  case (Cons row table)
  show ?case
  proof (cases "row_key row = k")
    case True
    from Cons.prems have "row_key row \<notin> row_key ` set table"
      by (simp add: sql_invar_def)
    with True have "\<forall>r \<in> set table. row_key r \<noteq> k"
      by (metis imageI)
    then have none: "filter (row_matches now k) table = []"
      by (simp add: row_matches_def filter_empty_conv)
    from True none show ?thesis
      by (auto simp: sql_get_def visible_def live_def row_matches_def split: option.splits)
  next
    case False
    with Cons show ?thesis
      by (auto simp: sql_get_def visible_def row_matches_def sql_invar_def split: list.splits)
  qed
qed

lemma sql_contents_upsert:
  "sql_contents (sql_upsert new table) = (sql_contents table)(row_key new \<mapsto> (row_value new, row_expires new))"
  by (induction new table rule: sql_upsert.induct) (auto simp: fun_eq_iff)

lemma sql_upsert_keys: "row_key ` set (sql_upsert new table) = insert (row_key new) (row_key ` set table)"
  by (induction new table rule: sql_upsert.induct) auto

lemma sql_upsert_distinct: "sql_invar table \<Longrightarrow> sql_invar (sql_upsert new table)"
proof (induction new table rule: sql_upsert.induct)
  case (2 new row table)
  have "row_key ` set (sql_upsert new table) = insert (row_key new) (row_key ` set table)"
    by (rule sql_upsert_keys)
  with 2 show ?case by (auto simp: sql_invar_def)
qed (auto simp: sql_invar_def)

lemma sql_filter_distinct: "sql_invar table \<Longrightarrow> sql_invar (filter P table)"
  by (simp add: sql_invar_def distinct_map_filter)

lemma sql_contents_delete: "sql_contents (sql_delete k table) = (sql_contents table)(k := None)"
  by (induction table) (auto simp: sql_delete_def fun_eq_iff)

lemma snd_sql_get [simp]: "snd (sql_get now k table) = table"
  by (simp add: sql_get_def split: list.splits)

interpretation sql: durable_key_value sql_port sql_contents sql_invar
proof (unfold_locales, goal_cases)
  case (3 s now k v ttl)
  then show ?case
    by (auto simp: sql_port_def sql_put_def sql_contents_upsert expiry_of_def split: option.splits)
next
  case (4 s k)
  then show ?case by (simp add: sql_port_def sql_contents_delete)
next
  case (7 s k)
  then show ?case by (simp add: sql_port_def sql_delete_def sql_filter_distinct)
qed (simp_all add: sql_port_def sql_put_def sql_get_visible sql_upsert_distinct)

text \<open>Sweeping removes rows that no reader could see any more, and only those.\<close>

lemma sql_sweep_visible:
  assumes "sql_invar table" and "now \<le> t"
  shows "visible t (sql_contents (snd (sql_sweep_expired now table))) k = visible t (sql_contents table) k"
  using assms
proof (induction table)
  case Nil
  then show ?case by (simp add: sql_sweep_expired_def)
next
  case (Cons row table)
  then have "k = row_key row \<Longrightarrow> sql_contents (filter (\<lambda>row. \<not> row_expired now row) table) k = None"
    by (intro sql_contents_None) (auto simp: sql_invar_def)
  with Cons show ?case
    by (auto simp: sql_sweep_expired_def sql_invar_def visible_def live_def row_expired_def
        split: option.splits)
qed

lemma sql_sweep_invar: "sql_invar table \<Longrightarrow> sql_invar (snd (sql_sweep_expired now table))"
  by (simp add: sql_sweep_expired_def sql_filter_distinct)

end
