(* ===== verification/Site_Rules.thy ===== *)
theory Site_Rules
  imports Serve_Prelude
begin

text \<open>
  \<open>core/site/rules.ts\<close>: the Netlify-style control files \<open>_headers\<close> and
  \<open>_redirects\<close>. The theory translates the pattern matcher, the two line parsers with
  their limits and warnings, the redirect matcher with its substitution, and the bound on the
  stored rules. The lemmas show what a parsed rule set can contain, that a redirect never
  leaves the site, and how the matcher relates a path to its pattern.
\<close>

section \<open>Limits and names\<close>

definition MAX_CONTROL_FILE_BYTES :: nat where "MAX_CONTROL_FILE_BYTES = 64 * 1024"
definition MAX_HEADER_RULES :: nat where "MAX_HEADER_RULES = 100"
definition MAX_HEADERS_PER_RULE :: nat where "MAX_HEADERS_PER_RULE = 20"
definition MAX_HEADER_VALUE_BYTES :: nat where "MAX_HEADER_VALUE_BYTES = 2 * 1024"
definition MAX_REDIRECT_RULES :: nat where "MAX_REDIRECT_RULES = 500"
definition MAX_HOSTING_JSON_BYTES :: nat where "MAX_HOSTING_JSON_BYTES = 256 * 1024"

lemmas limit_defs = MAX_CONTROL_FILE_BYTES_def MAX_HEADER_RULES_def MAX_HEADERS_PER_RULE_def
  MAX_HEADER_VALUE_BYTES_def MAX_REDIRECT_RULES_def MAX_HOSTING_JSON_BYTES_def

definition REDIRECT_STATUSES :: "nat list" where
  "REDIRECT_STATUSES = [200, 301, 302, 307, 308]"

definition DENIED_HEADERS :: "string list" where
  "DENIED_HEADERS =
     [''cache-control'', ''etag'', ''last-modified'', ''content-length'', ''content-encoding'',
      ''content-range'', ''content-type'', ''accept-ranges'', ''vary'', ''set-cookie'',
      ''www-authenticate'', ''content-disposition'', ''x-content-type-options'']"

definition DENIED_HEADER_PREFIXES :: "string list" where
  "DENIED_HEADER_PREFIXES = [''access-control-'']"

definition isDeniedHeader :: "string \<Rightarrow> bool" where
  "isDeniedHeader name =
     (name \<in> set DENIED_HEADERS \<or> list_ex (\<lambda>p. starts_with p name) DENIED_HEADER_PREFIXES)"

definition header_name_char :: "char \<Rightarrow> bool" where
  "header_name_char c =
     (is_lower c \<or> is_digit c \<or> c \<in> set ''!#$%&*+.^_|~-'' \<or> c = CHR 0x27 \<or> c = CHR 0x60)"

definition valid_header_name :: "string \<Rightarrow> bool" where
  \<comment> \<open>\<open>HEADER_NAME.test(name)\<close>\<close>
  "valid_header_name name = (name \<noteq> [] \<and> list_all header_name_char name)"

definition has_control_char :: "string \<Rightarrow> bool" where
  \<comment> \<open>\<open>CONTROL_CHARS.test(value)\<close>\<close>
  "has_control_char value = list_ex is_control value"

record header_rule =
  hr_pattern :: string
  hr_headers :: js_dict

record redirect_rule =
  rr_from :: string
  rr_to :: string
  rr_status :: nat
  rr_force :: bool

record site_hosting =
  sh_headers :: "header_rule list"
  sh_redirects :: "redirect_rule list"
  sh_warnings :: "string list"

record parsed_headers =
  ph_rules :: "header_rule list"
  ph_warnings :: "string list"

record parsed_redirects =
  pr_rules :: "redirect_rule list"
  pr_warnings :: "string list"

record redirect_match =
  rm_to :: string
  rm_status :: nat
  rm_force :: bool

definition quoted :: "string \<Rightarrow> string" where
  "quoted s = CHR 0x22 # s @ [CHR 0x22]"

definition strip_cr :: "string \<Rightarrow> string" where
  "strip_cr s = (if s \<noteq> [] \<and> last s = CHR 0x0D then butlast s else s)"

definition splitLines :: "string \<Rightarrow> string list" where
  \<comment> \<open>\<open>text.split(/\r?\n/)\<close>: a carriage return goes only with the line feed it precedes\<close>
  "splitLines text =
     (let ls = split_on (CHR 0x0A) text in map strip_cr (butlast ls) @ [last ls])"

section \<open>Patterns\<close>

record pattern_match =
  pm_params :: js_dict
  pm_splat :: string

definition is_placeholder :: "string \<Rightarrow> bool" where
  "is_placeholder segment = (starts_with '':'' segment \<and> length segment > 1)"

fun match_segments :: "string list \<Rightarrow> string list \<Rightarrow> js_dict \<Rightarrow> pattern_match option" where
  "match_segments [] s params =
     (if s = [] then Some \<lparr>pm_params = params, pm_splat = ''''\<rparr> else None)"
| "match_segments (segment # p) s params =
     (if segment = ''*'' then Some \<lparr>pm_params = params, pm_splat = join_with ''/'' s\<rparr>
      else case s of
        [] \<Rightarrow> None
      | x # s' \<Rightarrow>
          if is_placeholder segment then
            (if x = '''' then None else match_segments p s' (dict_set params (drop 1 segment) x))
          else if segment \<noteq> x then None
          else match_segments p s' params)"

definition matchPattern :: "string \<Rightarrow> string \<Rightarrow> pattern_match option" where
  "matchPattern pattern path =
     match_segments (split_on (CHR ''/'') pattern) (split_on (CHR ''/'') path) []"

definition hasMisplacedSplat :: "string \<Rightarrow> bool" where
  "hasMisplacedSplat pattern =
     (let segments = split_on (CHR ''/'') pattern in
      list_ex (\<lambda>(i, seg). CHR ''*'' \<in> set seg \<and> (seg \<noteq> ''*'' \<or> i \<noteq> length segments - 1))
        (enumerate 0 segments))"

section \<open>The headers file\<close>

record header_state =
  hs_rules :: "header_rule list"
  hs_open :: bool
  hs_count :: nat
  hs_warnings :: "string list"

text \<open>
  \<open>hs_open\<close> says whether \<open>current\<close> is not null; it is then the rule pushed last, so a
  write through \<open>current\<close> is an update of the last rule.
\<close>

definition header_warn :: "nat \<Rightarrow> string \<Rightarrow> header_state \<Rightarrow> header_state" where
  "header_warn n msg st =
     st\<lparr>hs_warnings := hs_warnings st @ [''_headers line '' @ show_nat n @ '': '' @ msg]\<rparr>"

definition open_block :: "nat \<Rightarrow> string \<Rightarrow> header_state \<Rightarrow> string + header_state" where
  "open_block n trimmed st =
     (if \<not> starts_with ''/'' trimmed then
        Inr ((header_warn n (''a path pattern must start with '' @ quoted ''/'' @ '' (got ''
                @ quoted trimmed @ '')'') st)\<lparr>hs_open := False\<rparr>)
      else if hasMisplacedSplat trimmed then
        Inr ((header_warn n (quoted ''*'' @ '' is only allowed as the last segment'') st)
               \<lparr>hs_open := False\<rparr>)
      else if length (hs_rules st) \<ge> MAX_HEADER_RULES then
        Inl (''more than '' @ show_nat MAX_HEADER_RULES @ '' rules'')
      else
        Inr (st\<lparr>hs_rules := hs_rules st @ [\<lparr>hr_pattern = trimmed, hr_headers = []\<rparr>],
                hs_open := True, hs_count := 0\<rparr>))"

definition set_current_header :: "string \<Rightarrow> string \<Rightarrow> header_rule list \<Rightarrow> header_rule list" where
  \<comment> \<open>\<open>current.headers[name] = value\<close>\<close>
  "set_current_header name value rules =
     butlast rules @ [(last rules)\<lparr>hr_headers := dict_set (hr_headers (last rules)) name value\<rparr>]"

definition put_header :: "nat \<Rightarrow> string \<Rightarrow> string \<Rightarrow> header_state \<Rightarrow> string + header_state" where
  "put_header n name value st =
     (let unset = (dict_get (hr_headers (last (hs_rules st))) name = None) in
      if \<not> valid_header_name name then
        Inr (header_warn n (quoted name @ '' is not a valid header name'') st)
      else if isDeniedHeader name then
        Inr (header_warn n (quoted name @ '' cannot be set by a rule'') st)
      else if has_control_char value then
        Inr (header_warn n (quoted name @ '' has a control character in its value'') st)
      else if utf8_length value > MAX_HEADER_VALUE_BYTES then
        Inl (''a header value is larger than '' @ show_nat MAX_HEADER_VALUE_BYTES @ '' bytes'')
      else if hs_count st \<ge> MAX_HEADERS_PER_RULE \<and> unset then
        Inl (''more than '' @ show_nat MAX_HEADERS_PER_RULE @ '' headers on one rule'')
      else
        Inr (st\<lparr>hs_count := (if unset then hs_count st + 1 else hs_count st),
                hs_rules := set_current_header name value (hs_rules st)\<rparr>))"

definition header_line :: "nat \<Rightarrow> string \<Rightarrow> header_state \<Rightarrow> string + header_state" where
  "header_line n trimmed st =
     (if \<not> hs_open st then Inr (header_warn n ''header outside any path block'' st)
      else case index_of '':'' trimmed of
        None \<Rightarrow> Inr (header_warn n (''expected '' @ quoted ''Name: value'') st)
      | Some colon \<Rightarrow>
          if colon = 0 then Inr (header_warn n (''expected '' @ quoted ''Name: value'') st)
          else put_header n (js_lower (js_trim (take colon trimmed)))
                 (js_trim (drop (colon + 1) trimmed)) st)"

definition headers_line :: "nat \<Rightarrow> string \<Rightarrow> header_state \<Rightarrow> string + header_state" where
  "headers_line n line st =
     (let trimmed = js_trim line in
      if trimmed = '''' \<or> starts_with ''#'' trimmed then Inr st
      else if \<not> (line \<noteq> [] \<and> is_space (hd line)) then open_block n trimmed st
      else header_line n trimmed st)"

fun headers_loop :: "nat \<Rightarrow> string list \<Rightarrow> header_state \<Rightarrow> string + header_state" where
  "headers_loop i [] st = Inr st"
| "headers_loop i (line # lines) st =
     (case headers_line (i + 1) line st of
        Inl reason \<Rightarrow> Inl reason
      | Inr st' \<Rightarrow> headers_loop (i + 1) lines st')"

definition headers_init :: header_state where
  "headers_init = \<lparr>hs_rules = [], hs_open = False, hs_count = 0, hs_warnings = []\<rparr>"

definition ignore_headers :: "string \<Rightarrow> parsed_headers" where
  "ignore_headers reason = \<lparr>ph_rules = [], ph_warnings = [''_headers ignored: '' @ reason]\<rparr>"

definition parseHeaders :: "string \<Rightarrow> parsed_headers" where
  "parseHeaders text =
     (if utf8_length text > MAX_CONTROL_FILE_BYTES then
        ignore_headers (''the file is larger than '' @ show_nat MAX_CONTROL_FILE_BYTES @ '' bytes'')
      else case headers_loop 0 (splitLines text) headers_init of
        Inl reason \<Rightarrow> ignore_headers reason
      | Inr st \<Rightarrow>
          \<lparr>ph_rules = filter (\<lambda>r. length (hr_headers r) > 0) (hs_rules st),
           ph_warnings = hs_warnings st\<rparr>)"

fun merge_headers :: "js_dict \<Rightarrow> js_dict \<Rightarrow> js_dict" where
  \<comment> \<open>\<open>for (const [name, value] of Object.entries(rule.headers)) out[name] = value\<close>\<close>
  "merge_headers out [] = out"
| "merge_headers out ((name, value) # entries) = merge_headers (dict_set out name value) entries"

fun match_headers_loop :: "header_rule list \<Rightarrow> string \<Rightarrow> js_dict \<Rightarrow> js_dict" where
  "match_headers_loop [] path out = out"
| "match_headers_loop (rule # rules) path out =
     (if matchPattern (hr_pattern rule) path = None then match_headers_loop rules path out
      else match_headers_loop rules path (merge_headers out (hr_headers rule)))"

definition matchHeaders :: "header_rule list \<Rightarrow> string \<Rightarrow> js_dict" where
  "matchHeaders rules path = match_headers_loop rules path []"

section \<open>Reading a status\<close>

text \<open>
  \<open>Number(statusToken)\<close>: the decimal, hexadecimal, octal and binary literals of the
  language, as an exact value \<open>m * 10 ^ e\<close>. \<open>None\<close> stands for \<open>NaN\<close> and the
  infinities. \<open>number_is s n\<close> is \<open>Number(s) === n\<close> for an integer between 128 and 511:
  the literal rounds to \<open>n\<close> exactly when it lies within half a unit in the last place of
  \<open>n\<close> (a tie goes to \<open>n\<close>, whose significand is even).
\<close>

definition digit_value :: "char \<Rightarrow> int option" where
  "digit_value c =
     (if is_digit c then Some (of_char c - 48)
      else if 97 \<le> code_unit c \<and> code_unit c \<le> 102 then Some (of_char c - 87)
      else if 65 \<le> code_unit c \<and> code_unit c \<le> 70 then Some (of_char c - 55)
      else None)"

definition radix_value :: "int \<Rightarrow> string \<Rightarrow> int option" where
  "radix_value base s =
     (if s \<noteq> [] \<and> list_all (\<lambda>c. case digit_value c of None \<Rightarrow> False | Some d \<Rightarrow> d < base) s
      then Some (foldl (\<lambda>n c. n * base + the (digit_value c)) 0 s) else None)"

definition exponent_value :: "string \<Rightarrow> int option" where
  \<comment> \<open>what follows the mantissa: nothing, or \<open>e\<close>, an optional sign and digits\<close>
  "exponent_value s =
     (case s of
        [] \<Rightarrow> Some 0
      | c # r \<Rightarrow>
          if c = CHR ''e'' \<or> c = CHR ''E'' then
            (case r of
               [] \<Rightarrow> None
             | d # r' \<Rightarrow>
                 if d = CHR ''-'' then map_option uminus (radix_value 10 r')
                 else if d = CHR ''+'' then radix_value 10 r'
                 else radix_value 10 r)
          else None)"

definition unsigned_decimal :: "string \<Rightarrow> (int \<times> int) option" where
  "unsigned_decimal s =
     (let ip = takeWhile is_digit s; rest = dropWhile is_digit s;
          (fp, rest') = (case rest of
              [] \<Rightarrow> ([], [])
            | c # r \<Rightarrow> if c = CHR ''.'' then (takeWhile is_digit r, dropWhile is_digit r)
                       else ([], rest))
      in case radix_value 10 (ip @ fp) of
           None \<Rightarrow> None
         | Some m \<Rightarrow> map_option (\<lambda>e. (m, e - int (length fp))) (exponent_value rest'))"

definition js_number :: "string \<Rightarrow> (int \<times> int) option" where
  "js_number text =
     (let s = js_trim text; plain = map_option (\<lambda>n. (n, 0)) in
      case s of
        [] \<Rightarrow> Some (0, 0)
      | c # r \<Rightarrow>
          if c = CHR ''-'' then map_option (\<lambda>(m, e). (- m, e)) (unsigned_decimal r)
          else if c = CHR ''+'' then unsigned_decimal r
          else if starts_with ''0x'' s \<or> starts_with ''0X'' s then plain (radix_value 16 (drop 2 s))
          else if starts_with ''0o'' s \<or> starts_with ''0O'' s then plain (radix_value 8 (drop 2 s))
          else if starts_with ''0b'' s \<or> starts_with ''0B'' s then plain (radix_value 2 (drop 2 s))
          else unsigned_decimal s)"

definition half_ulp_bits :: "nat \<Rightarrow> nat" where
  "half_ulp_bits n = (if n < 256 then 46 else 45)"

definition number_is :: "string \<Rightarrow> nat \<Rightarrow> bool" where
  "number_is text n =
     (case js_number text of
        None \<Rightarrow> False
      | Some (m, e) \<Rightarrow>
          if 0 \<le> e then \<bar>m * 10 ^ nat e - int n\<bar> * 2 ^ half_ulp_bits n \<le> 1
          else \<bar>m - int n * 10 ^ nat (- e)\<bar> * 2 ^ half_ulp_bits n \<le> 10 ^ nat (- e))"

section \<open>The redirects file\<close>

definition internalTargetProblem :: "string \<Rightarrow> string option" where
  "internalTargetProblem to =
     (if \<not> starts_with ''/'' to then
        Some (quoted to @ '' must be a path inside the site (start with '' @ quoted ''/'' @ '')'')
      else if starts_with ''//'' to then Some (quoted to @ '' points at another origin'')
      else if contains_text ''://'' to \<or> contains_text [CHR 0x5C] to then
        Some (quoted to @ '' is not a plain path'')
      else None)"

record redirect_state =
  rs_rules :: "redirect_rule list"
  rs_warnings :: "string list"

definition redirect_warn :: "nat \<Rightarrow> string \<Rightarrow> redirect_state \<Rightarrow> redirect_state" where
  "redirect_warn n msg st =
     st\<lparr>rs_warnings := rs_warnings st @ [''_redirects line '' @ show_nat n @ '': '' @ msg]\<rparr>"

definition status_of_token :: "string option \<Rightarrow> nat option" where
  \<comment> \<open>the status, or \<open>None\<close> when it is not one of \<open>REDIRECT_STATUSES\<close>\<close>
  "status_of_token tok =
     (case tok of None \<Rightarrow> Some 301 | Some t \<Rightarrow> find (number_is t) REDIRECT_STATUSES)"

definition token_text :: "string option \<Rightarrow> string" where
  "token_text tok = (case tok of None \<Rightarrow> ''undefined'' | Some t \<Rightarrow> t)"

definition split_force :: "string \<Rightarrow> string option \<Rightarrow> bool \<times> string \<times> string option" where
  \<comment> \<open>the \<open>!\<close> on the status, or on the target when no status is given\<close>
  "split_force to statusToken =
     (case statusToken of
        Some t \<Rightarrow> if ends_with ''!'' t then (True, to, Some (butlast t)) else (False, to, Some t)
      | None \<Rightarrow> if ends_with ''!'' to then (True, butlast to, None) else (False, to, None))"

definition redirect_fields ::
  "nat \<Rightarrow> string \<Rightarrow> string \<Rightarrow> string option \<Rightarrow> redirect_state \<Rightarrow> string + redirect_state" where
  "redirect_fields n from to0 token0 st =
     (let (force, to, statusToken) = split_force to0 token0 in
      if \<not> starts_with ''/'' from then
        Inr (redirect_warn n (quoted from @ '' must start with '' @ quoted ''/'') st)
      else if hasMisplacedSplat from then
        Inr (redirect_warn n (quoted ''*'' @ '' is only allowed as the last segment'') st)
      else case status_of_token statusToken of
        None \<Rightarrow>
          Inr (redirect_warn n (''status must be one of ''
                 @ join_with '', '' (map show_nat REDIRECT_STATUSES)
                 @ '' (got '' @ quoted (token_text statusToken) @ '')'') st)
      | Some status \<Rightarrow>
          (case internalTargetProblem to of
             Some problem \<Rightarrow> Inr (redirect_warn n problem st)
           | None \<Rightarrow>
               if length (rs_rules st) \<ge> MAX_REDIRECT_RULES then
                 Inl (''more than '' @ show_nat MAX_REDIRECT_RULES @ '' rules'')
               else
                 Inr (st\<lparr>rs_rules := rs_rules st @
                   [\<lparr>rr_from = from, rr_to = to, rr_status = status, rr_force = force\<rparr>]\<rparr>)))"

definition redirects_line :: "nat \<Rightarrow> string \<Rightarrow> redirect_state \<Rightarrow> string + redirect_state" where
  "redirects_line n raw st =
     (let line = js_trim (case index_of ''#'' raw of None \<Rightarrow> raw | Some k \<Rightarrow> take k raw) in
      if line = '''' then Inr st
      else case split_spaces line of
        [from, to] \<Rightarrow> redirect_fields n from to None st
      | [from, to, status] \<Rightarrow> redirect_fields n from to (Some status) st
      | tokens \<Rightarrow>
          if length tokens < 2
          then Inr (redirect_warn n (''expected '' @ quoted ''from to [status]'') st)
          else Inr (redirect_warn n ''too many fields'' st))"

fun redirects_loop :: "nat \<Rightarrow> string list \<Rightarrow> redirect_state \<Rightarrow> string + redirect_state" where
  "redirects_loop i [] st = Inr st"
| "redirects_loop i (line # lines) st =
     (case redirects_line (i + 1) line st of
        Inl reason \<Rightarrow> Inl reason
      | Inr st' \<Rightarrow> redirects_loop (i + 1) lines st')"

definition ignore_redirects :: "string \<Rightarrow> parsed_redirects" where
  "ignore_redirects reason = \<lparr>pr_rules = [], pr_warnings = [''_redirects ignored: '' @ reason]\<rparr>"

definition parseRedirects :: "string \<Rightarrow> parsed_redirects" where
  "parseRedirects text =
     (if utf8_length text > MAX_CONTROL_FILE_BYTES then
        ignore_redirects (''the file is larger than '' @ show_nat MAX_CONTROL_FILE_BYTES @ '' bytes'')
      else case redirects_loop 0 (splitLines text) \<lparr>rs_rules = [], rs_warnings = []\<rparr> of
        Inl reason \<Rightarrow> ignore_redirects reason
      | Inr st \<Rightarrow> \<lparr>pr_rules = rs_rules st, pr_warnings = rs_warnings st\<rparr>)"

definition ident_start :: "char \<Rightarrow> bool" where
  "ident_start c = (is_lower c \<or> is_upper c \<or> c = CHR ''_'')"

definition ident_char :: "char \<Rightarrow> bool" where
  "ident_char c = (ident_start c \<or> is_digit c)"

definition replacement :: "pattern_match \<Rightarrow> string \<Rightarrow> string" where
  \<comment> \<open>the callback of \<open>target.replace\<close>\<close>
  "replacement m name =
     (if name = ''splat'' then pm_splat m
      else case dict_get (pm_params m) name of None \<Rightarrow> CHR '':'' # name | Some value \<Rightarrow> value)"

function substitute :: "string \<Rightarrow> pattern_match \<Rightarrow> string" where
  "substitute [] m = []"
| "substitute (c # s) m =
     (if c = CHR '':'' \<and> s \<noteq> [] \<and> ident_start (hd s)
      then replacement m (takeWhile ident_char s) @ substitute (dropWhile ident_char s) m
      else c # substitute s m)"
  by pat_completeness auto
termination
  by (relation "measure (\<lambda>(s, m). length s)") (auto simp: le_imp_less_Suc length_dropWhile_le)

fun matchRedirect :: "redirect_rule list \<Rightarrow> string \<Rightarrow> redirect_match option" where
  "matchRedirect [] path = None"
| "matchRedirect (rule # rules) path =
     (case matchPattern (rr_from rule) path of
        None \<Rightarrow> matchRedirect rules path
      | Some matched \<Rightarrow>
          let to = substitute (rr_to rule) matched in
          if internalTargetProblem to \<noteq> None then matchRedirect rules path
          else Some \<lparr>rm_to = to, rm_status = rr_status rule, rm_force = rr_force rule\<rparr>)"

section \<open>The bound on the stored rules\<close>

text \<open>\<open>JSON.stringify\<close> of a rule set: the keys in the order the objects are built with.\<close>

definition hex_digit :: "nat \<Rightarrow> char" where
  "hex_digit n = (if n < 10 then char_of (48 + n) else char_of (87 + n))"

definition json_char :: "char \<Rightarrow> string" where
  "json_char c =
     (if c = CHR 0x22 then [CHR 0x5C, CHR 0x22]
      else if c = CHR 0x5C then [CHR 0x5C, CHR 0x5C]
      else if c = CHR 0x08 then [CHR 0x5C, CHR ''b'']
      else if c = CHR 0x0C then [CHR 0x5C, CHR ''f'']
      else if c = CHR 0x0A then [CHR 0x5C, CHR ''n'']
      else if c = CHR 0x0D then [CHR 0x5C, CHR ''r'']
      else if c = CHR 0x09 then [CHR 0x5C, CHR ''t'']
      else if code_unit c < 32 then
        [CHR 0x5C, CHR ''u'', CHR ''0'', CHR ''0'', hex_digit (code_unit c div 16),
         hex_digit (code_unit c mod 16)]
      else [c])"

definition json_text :: "string \<Rightarrow> string" where
  "json_text s = quoted (concat (map json_char s))"

definition json_array :: "string list \<Rightarrow> string" where
  "json_array items = ''['' @ join_with '','' items @ '']''"

definition json_object :: "(string \<times> string) list \<Rightarrow> string" where
  \<comment> \<open>the values are already serialised\<close>
  "json_object props =
     CHR 0x7B # join_with '','' (map (\<lambda>(k, v). json_text k @ '':'' @ v) props) @ [CHR 0x7D]"

definition header_rule_json :: "header_rule \<Rightarrow> string" where
  "header_rule_json r =
     json_object [(''pattern'', json_text (hr_pattern r)),
       (''headers'', json_object (map (\<lambda>(k, v). (k, json_text v)) (hr_headers r)))]"

definition redirect_rule_json :: "redirect_rule \<Rightarrow> string" where
  "redirect_rule_json r =
     json_object [(''from'', json_text (rr_from r)), (''to'', json_text (rr_to r)),
       (''status'', show_nat (rr_status r)), (''force'', if rr_force r then ''true'' else ''false'')]"

definition hosting_json :: "site_hosting \<Rightarrow> string" where
  "hosting_json h =
     json_object [(''headers'', json_array (map header_rule_json (sh_headers h))),
       (''redirects'', json_array (map redirect_rule_json (sh_redirects h))),
       (''warnings'', json_array (map json_text (sh_warnings h)))]"

definition boundHosting :: "site_hosting \<Rightarrow> site_hosting" where
  "boundHosting hosting =
     (if utf8_length (hosting_json hosting) \<le> MAX_HOSTING_JSON_BYTES then hosting
      else \<lparr>sh_headers = [], sh_redirects = [],
             sh_warnings = sh_warnings hosting @
               [''rules dropped: the parsed rules exceed '' @ show_nat MAX_HOSTING_JSON_BYTES
                  @ '' bytes'']\<rparr>)"

section \<open>What a pattern matches\<close>

definition segment_fits :: "string \<Rightarrow> string \<Rightarrow> bool" where
  "segment_fits segment x = (if is_placeholder segment then x \<noteq> '''' else segment = x)"

definition literal_part :: "string \<Rightarrow> string list" where
  \<comment> \<open>the segments of a pattern before its \<open>*\<close>\<close>
  "literal_part pattern = takeWhile (\<lambda>seg. seg \<noteq> ''*'') (split_on (CHR ''/'') pattern)"

definition fill :: "pattern_match \<Rightarrow> string \<Rightarrow> string" where
  "fill m segment = (if is_placeholder segment then the (map_of (pm_params m) (drop 1 segment)) else segment)"

definition placeholder_names :: "string list \<Rightarrow> string list" where
  "placeholder_names segs = map (drop 1) (filter is_placeholder segs)"

lemma placeholder_names_simps [simp]:
  "placeholder_names [] = []"
  "placeholder_names (x # xs) =
     (if is_placeholder x then drop 1 x # placeholder_names xs else placeholder_names xs)"
  by (simp_all add: placeholder_names_def)

lemma segment_fits_simps [simp]:
  "is_placeholder segment \<Longrightarrow> segment_fits segment x = (x \<noteq> [])"
  "\<not> is_placeholder segment \<Longrightarrow> segment_fits segment x = (segment = x)"
  by (auto simp: segment_fits_def)

lemma fill_literal [simp]: "\<not> is_placeholder segment \<Longrightarrow> fill m segment = segment"
  by (simp add: fill_def)

lemma placeholder_not_star [simp]: "is_placeholder segment \<Longrightarrow> segment \<noteq> ''*''"
  by (auto simp: is_placeholder_def)

lemma match_segments_iff:
  "match_segments p s params \<noteq> None \<longleftrightarrow>
     (let q = takeWhile (\<lambda>seg. seg \<noteq> ''*'') p in
        length q \<le> length s \<and> (''*'' \<notin> set p \<longrightarrow> length s = length q)
        \<and> list_all2 segment_fits q (take (length q) s))"
proof (induction p s params rule: match_segments.induct)
  case (1 s params)
  then show ?case by simp
next
  case (2 segment p s params)
  show ?case
  proof (cases "segment = ''*''")
    case True
    then show ?thesis by simp
  next
    case False
    then show ?thesis
      using 2 by (cases s) (auto simp: Let_def)
  qed
qed

lemma match_segments_params:
  "match_segments p s params = Some m \<Longrightarrow>
   name \<notin> set (placeholder_names (takeWhile (\<lambda>seg. seg \<noteq> ''*'') p)) \<Longrightarrow>
   map_of (pm_params m) name = map_of params name"
proof (induction p s params rule: match_segments.induct)
  case (2 segment p s params)
  then show ?case
    by (auto simp: dict_set_def split: if_splits list.splits)
qed (auto split: if_splits)

lemma match_segments_fill:
  assumes "match_segments p s params = Some m"
    and "distinct (placeholder_names (takeWhile (\<lambda>seg. seg \<noteq> ''*'') p))"
    and "''__proto__'' \<notin> set (placeholder_names p)"
  shows "\<exists>rest. s = map (fill m) (takeWhile (\<lambda>seg. seg \<noteq> ''*'') p) @ rest
           \<and> pm_splat m = join_with ''/'' rest \<and> (''*'' \<notin> set p \<longrightarrow> rest = [])"
  using assms
proof (induction p s params rule: match_segments.induct)
  case (1 s params)
  then show ?case by (auto split: if_splits)
next
  case (2 segment p s params)
  show ?case
  proof (cases "segment = ''*''")
    case True
    with "2.prems" show ?thesis by auto
  next
    case False
    with "2.prems"(1) obtain x s' where s: "s = x # s'" by (cases s) auto
    show ?thesis
    proof (cases "is_placeholder segment")
      case ph: True
      with "2.prems"(1) False s have m: "match_segments p s' (dict_set params (drop 1 segment) x) = Some m"
        and x: "x \<noteq> ''''" by (auto split: if_splits)
      have "map_of (pm_params m) (drop 1 segment) = map_of (dict_set params (drop 1 segment) x) (drop 1 segment)"
        using m "2.prems"(2) ph False
        by (intro match_segments_params) auto
      also have "\<dots> = Some x"
        using "2.prems"(3) ph by (auto simp: dict_set_def)
      finally have "fill m segment = x" using ph by (simp add: fill_def)
      moreover have "\<exists>rest. s' = map (fill m) (takeWhile (\<lambda>seg. seg \<noteq> ''*'') p) @ rest
           \<and> pm_splat m = join_with ''/'' rest \<and> (''*'' \<notin> set p \<longrightarrow> rest = [])"
        using "2.IH"(1) False s ph x m "2.prems"(2,3) by auto
      ultimately show ?thesis using s False by auto
    next
      case lit: False
      with "2.prems"(1) False s have m: "match_segments p s' params = Some m" and x: "segment = x"
        by (auto split: if_splits)
      then have "\<exists>rest. s' = map (fill m) (takeWhile (\<lambda>seg. seg \<noteq> ''*'') p) @ rest
           \<and> pm_splat m = join_with ''/'' rest \<and> (''*'' \<notin> set p \<longrightarrow> rest = [])"
        using "2.IH"(2) False s lit "2.prems"(2,3) by auto
      then show ?thesis using s False lit x by auto
    qed
  qed
qed

text \<open>a path matches a pattern exactly when the segments before the pattern's \<open>*\<close> fit the
  path's first segments one by one (a placeholder takes any segment but the empty one, a literal
  only itself) and, when there is no \<open>*\<close>, no segment of the path is left over.\<close>

theorem matchPattern_iff:
  "matchPattern pattern path \<noteq> None \<longleftrightarrow>
     length (literal_part pattern) \<le> length (split_on (CHR ''/'') path)
     \<and> (''*'' \<in> set (split_on (CHR ''/'') pattern)
        \<or> length (split_on (CHR ''/'') path) = length (literal_part pattern))
     \<and> list_all2 segment_fits (literal_part pattern)
         (take (length (literal_part pattern)) (split_on (CHR ''/'') path))"
  unfolding matchPattern_def literal_part_def
  using match_segments_iff [of "split_on (CHR ''/'') pattern" "split_on (CHR ''/'') path" "[]"]
  by (auto simp: Let_def)

text \<open>a match determines the path: putting the captured segments and the splat back into the
  pattern gives the path that was matched, when no placeholder name is used twice and none
  is \<open>__proto__\<close> (an assignment to which stores nothing).\<close>

theorem matchPattern_reconstructs:
  assumes "matchPattern pattern path = Some m"
    and "distinct (placeholder_names (literal_part pattern))"
    and "''__proto__'' \<notin> set (placeholder_names (split_on (CHR ''/'') pattern))"
  shows "\<exists>rest. path = join_with ''/'' (map (fill m) (literal_part pattern) @ rest)
           \<and> pm_splat m = join_with ''/'' rest
           \<and> (''*'' \<notin> set (split_on (CHR ''/'') pattern) \<longrightarrow> rest = [])"
proof -
  obtain rest where r: "split_on (CHR ''/'') path = map (fill m) (literal_part pattern) @ rest"
    "pm_splat m = join_with ''/'' rest" "''*'' \<notin> set (split_on (CHR ''/'') pattern) \<longrightarrow> rest = []"
    using match_segments_fill assms unfolding matchPattern_def literal_part_def by blast
  then have "path = join_with ''/'' (map (fill m) (literal_part pattern) @ rest)"
    by (metis join_split_on)
  with r show ?thesis by blast
qed

theorem matchPattern_reconstructs_witness:
  "\<exists>m rest. matchPattern ''/u/:id/*'' ''/u/7/x/y'' = Some m
     \<and> ''/u/7/x/y'' = join_with ''/'' (map (fill m) (literal_part ''/u/:id/*'') @ rest)
     \<and> pm_splat m = join_with ''/'' rest"
proof -
  obtain m where m: "matchPattern ''/u/:id/*'' ''/u/7/x/y'' = Some m"
    by (simp add: matchPattern_def is_placeholder_def)
  have "distinct (placeholder_names (literal_part ''/u/:id/*''))"
    "''__proto__'' \<notin> set (placeholder_names (split_on (CHR ''/'') ''/u/:id/*''))"
    by (simp_all add: literal_part_def is_placeholder_def)
  from matchPattern_reconstructs [OF m this] m show ?thesis by blast
qed

section \<open>What a parsed headers file can contain\<close>

definition safe_header :: "string \<times> string \<Rightarrow> bool" where
  "safe_header h \<longleftrightarrow> valid_header_name (fst h) \<and> \<not> isDeniedHeader (fst h)
     \<and> \<not> has_control_char (snd h) \<and> utf8_length (snd h) \<le> MAX_HEADER_VALUE_BYTES"

definition counted_headers :: "header_rule \<Rightarrow> nat" where
  \<comment> \<open>the headers the per-rule cap counts: a header named \<open>constructor\<close> is never \<open>undefined\<close>\<close>
  "counted_headers r = length (filter (\<lambda>h. fst h \<noteq> ''constructor'') (hr_headers r))"

definition rule_ok :: "header_rule \<Rightarrow> bool" where
  "rule_ok r \<longleftrightarrow> starts_with ''/'' (hr_pattern r) \<and> \<not> hasMisplacedSplat (hr_pattern r)
     \<and> (\<forall>h \<in> set (hr_headers r). safe_header h) \<and> distinct (map fst (hr_headers r))
     \<and> counted_headers r \<le> MAX_HEADERS_PER_RULE"

definition headers_inv :: "header_state \<Rightarrow> bool" where
  "headers_inv st \<longleftrightarrow> (\<forall>r \<in> set (hs_rules st). rule_ok r) \<and> length (hs_rules st) \<le> MAX_HEADER_RULES
     \<and> (hs_open st \<longrightarrow> hs_rules st \<noteq> [] \<and> counted_headers (last (hs_rules st)) = hs_count st)"

lemma valid_name_inherited:
  assumes "valid_header_name name"
  shows "inherited_text name \<noteq> None \<longleftrightarrow> name = ''constructor'' \<or> name = ''__proto__''"
  using assms
  by (auto simp: inherited_text_def valid_header_name_def header_name_char_def is_lower_def
      is_digit_def code_unit_def)

lemma header_warn_inv [simp]: "headers_inv (header_warn n msg st) = headers_inv st"
  by (simp add: headers_inv_def header_warn_def)

lemma open_block_inv:
  "headers_inv st \<Longrightarrow> open_block n trimmed st = Inr st' \<Longrightarrow> headers_inv st'"
  by (auto simp: open_block_def headers_inv_def header_warn_def rule_ok_def counted_headers_def
      Let_def split: if_splits)

lemma counted_own_set:
  "length (filter (\<lambda>h. fst h \<noteq> c) (own_set d name v)) =
     length (filter (\<lambda>h. fst h \<noteq> c) d)
     + (if name \<notin> fst ` set d \<and> name \<noteq> c then 1 else 0)"
  by (induction d name v rule: own_set.induct) auto

lemma map_of_None_iff: "map_of d k = None \<longleftrightarrow> k \<notin> fst ` set d"
  by (induction d) auto

lemma counted_dict_set:
  assumes "valid_header_name name"
  shows "length (filter (\<lambda>h. fst h \<noteq> ''constructor'') (dict_set d name v)) =
     length (filter (\<lambda>h. fst h \<noteq> ''constructor'') d) + (if dict_get d name = None then 1 else 0)"
proof -
  have "dict_get d name = None \<longleftrightarrow> name \<notin> fst ` set d \<and> name \<noteq> ''constructor'' \<and> name \<noteq> ''__proto__''"
    using valid_name_inherited [OF assms] map_of_None_iff [of d name]
    by (auto simp: dict_get_def split: option.splits)
  then show ?thesis by (auto simp: dict_set_def counted_own_set)
qed

lemma rule_ok_set_header:
  assumes ok: "rule_ok r" and h: "safe_header (name, value)"
    and count: "counted_headers r < MAX_HEADERS_PER_RULE \<or> dict_get (hr_headers r) name \<noteq> None"
  shows "rule_ok (r\<lparr>hr_headers := dict_set (hr_headers r) name value\<rparr>)"
proof -
  have "valid_header_name name" using h by (simp add: safe_header_def)
  from counted_dict_set [OF this] ok count
  have "counted_headers (r\<lparr>hr_headers := dict_set (hr_headers r) name value\<rparr>) \<le> MAX_HEADERS_PER_RULE"
    by (auto simp: counted_headers_def rule_ok_def split: if_splits)
  moreover have "set (dict_set (hr_headers r) name value) \<subseteq> insert (name, value) (set (hr_headers r))"
    using set_own_set [of "hr_headers r" name "value"] by (auto simp: dict_set_def)
  ultimately show ?thesis
    using ok h by (auto simp: rule_ok_def dict_set_def distinct_own_set)
qed

lemma in_set_current_header:
  assumes "r \<in> set (set_current_header name value rules)" and "rules \<noteq> []"
  shows "r \<in> set rules \<or> r = (last rules)\<lparr>hr_headers := dict_set (hr_headers (last rules)) name value\<rparr>"
  using assms by (auto simp: set_current_header_def dest: in_set_butlastD)

lemma put_header_inv:
  assumes inv: "headers_inv st" and op: "hs_open st" and step: "put_header n name value st = Inr st'"
  shows "headers_inv st'"
proof (cases "safe_header (name, value)")
  case False
  with step inv show ?thesis by (auto simp: put_header_def safe_header_def Let_def split: if_splits)
next
  case safe: True
  let ?r = "last (hs_rules st)"
  let ?unset = "dict_get (hr_headers ?r) name = None"
  let ?r' = "?r\<lparr>hr_headers := dict_set (hr_headers ?r) name value\<rparr>"
  have ne: "hs_rules st \<noteq> []" and cnt: "counted_headers ?r = hs_count st" and okr: "rule_ok ?r"
    using inv op by (auto simp: headers_inv_def)
  have cap: "\<not> (MAX_HEADERS_PER_RULE \<le> hs_count st \<and> ?unset)"
    and st': "st' = st\<lparr>hs_count := (if ?unset then hs_count st + 1 else hs_count st),
                 hs_rules := set_current_header name value (hs_rules st)\<rparr>"
    using step safe by (auto simp: put_header_def safe_header_def Let_def split: if_splits)
  have "rule_ok ?r'"
    using okr safe cnt cap by (intro rule_ok_set_header) auto
  moreover have "counted_headers ?r' = (if ?unset then hs_count st + 1 else hs_count st)"
    using counted_dict_set safe cnt by (simp add: counted_headers_def safe_header_def)
  ultimately show ?thesis
    using inv ne by (auto simp: st' headers_inv_def set_current_header_def dest: in_set_butlastD)
qed

lemma header_line_inv:
  "headers_inv st \<Longrightarrow> header_line n trimmed st = Inr st' \<Longrightarrow> headers_inv st'"
  by (auto simp: header_line_def dest: put_header_inv split: if_splits option.splits)

lemma headers_line_inv:
  "headers_inv st \<Longrightarrow> headers_line n line st = Inr st' \<Longrightarrow> headers_inv st'"
  unfolding headers_line_def Let_def by (metis open_block_inv header_line_inv sum.inject(2))

lemma headers_loop_inv:
  "headers_inv st \<Longrightarrow> headers_loop i lines st = Inr st' \<Longrightarrow> headers_inv st'"
proof (induction i lines st arbitrary: st' rule: headers_loop.induct)
  case (2 i line lines st)
  then obtain st1 where l: "headers_line (i + 1) line st = Inr st1" "headers_loop (i + 1) lines st1 = Inr st'"
    by (auto split: sum.splits)
  from "2.prems"(1) l(1) have "headers_inv st1" by (rule headers_line_inv)
  with 2 l show ?case by auto
qed simp

lemma parseHeaders_rule_ok:
  assumes "r \<in> set (ph_rules (parseHeaders text))"
  shows "rule_ok r" and "hr_headers r \<noteq> []"
proof -
  have init: "headers_inv headers_init"
    by (simp add: headers_inv_def headers_init_def)
  obtain st where st: "headers_loop 0 (splitLines text) headers_init = Inr st"
    "r \<in> set (hs_rules st)" "hr_headers r \<noteq> []"
    using assms by (auto simp: parseHeaders_def ignore_headers_def split: if_splits sum.splits)
  from headers_loop_inv [OF init st(1)] st(2) show "rule_ok r"
    by (simp add: headers_inv_def)
  from st(3) show "hr_headers r \<noteq> []" .
qed

lemma parseHeaders_rules_bound: "length (ph_rules (parseHeaders text)) \<le> MAX_HEADER_RULES"
proof (cases "headers_loop 0 (splitLines text) headers_init")
  case (Inl reason)
  then show ?thesis by (simp add: parseHeaders_def ignore_headers_def)
next
  case (Inr st)
  have "headers_inv headers_init"
    by (simp add: headers_inv_def headers_init_def)
  from headers_loop_inv [OF this Inr]
  have "length (filter (\<lambda>r. length (hr_headers r) > 0) (hs_rules st)) \<le> MAX_HEADER_RULES"
    using length_filter_le le_trans unfolding headers_inv_def by blast
  with Inr show ?thesis by (simp add: parseHeaders_def ignore_headers_def)
qed

text \<open>whatever text the control file holds, every stored header rule has a rooted pattern with
  \<open>*\<close> at most as its last segment and at least one header; every header has a valid name
  that is not on the deny list and a value of at most 2048 bytes without control characters,
  no name occurs twice, there are at most 100 rules, and at most 20 headers per rule are
  counted (a header named \<open>constructor\<close> is not, see \<open>header_cap_misses_constructor\<close>).\<close>

theorem parseHeaders_rules_ok:
  "(\<forall>r \<in> set (ph_rules (parseHeaders text)).
      starts_with ''/'' (hr_pattern r) \<and> \<not> hasMisplacedSplat (hr_pattern r)
      \<and> hr_headers r \<noteq> [] \<and> distinct (map fst (hr_headers r))
      \<and> counted_headers r \<le> 20
      \<and> (\<forall>h \<in> set (hr_headers r).
           valid_header_name (fst h) \<and> \<not> isDeniedHeader (fst h)
           \<and> \<not> has_control_char (snd h) \<and> utf8_length (snd h) \<le> 2048))
   \<and> length (ph_rules (parseHeaders text)) \<le> 100"
  using parseHeaders_rule_ok [of _ "text"] parseHeaders_rules_bound [of "text"]
  by (auto simp: rule_ok_def safe_header_def limit_defs)

theorem parseHeaders_rules_ok_witness:
  "\<exists>r. ph_rules (parseHeaders (''/*'' @ [CHR 0x0A] @ '' X-A: b'')) = [r]
     \<and> hr_headers r = [(''x-a'', ''b'')] \<and> \<not> isDeniedHeader ''x-a''"
proof -
  have p: "ph_rules (parseHeaders (''/*'' @ [CHR 0x0A] @ '' X-A: b''))
    = [\<lparr>hr_pattern = ''/*'', hr_headers = [(''x-a'', ''b'')]\<rparr>]"
    by (simp add: parseHeaders_def utf8_length_def utf8_width_def code_unit_def limit_defs
        splitLines_def strip_cr_def headers_line_def js_trim_def is_space_def open_block_def
        hasMisplacedSplat_def headers_init_def header_line_def put_header_def js_lower_def
        lower_char_def valid_header_name_def header_name_char_def is_lower_def is_digit_def
        isDeniedHeader_def DENIED_HEADERS_def DENIED_HEADER_PREFIXES_def starts_with_def
        has_control_char_def is_control_def dict_get_def inherited_text_def set_current_header_def
        dict_set_def char_of_def bit_0 Let_def)
  show ?thesis
    using parseHeaders_rules_ok [of "''/*'' @ [CHR 0x0A] @ '' X-A: b''"] unfolding p by simp
qed

section \<open>Applying header rules\<close>

lemma map_of_merge_headers:
  "name \<noteq> ''__proto__'' \<Longrightarrow> map_of (merge_headers out entries) name = map_of (rev entries @ out) name"
  by (induction out entries rule: merge_headers.induct)
    (auto simp: dict_set_def map_add_def split: option.splits)

lemma map_of_match_headers_loop:
  "name \<noteq> ''__proto__'' \<Longrightarrow>
   map_of (match_headers_loop rules path out) name =
     map_of (concat (map (\<lambda>r. rev (hr_headers r))
       (rev (filter (\<lambda>r. matchPattern (hr_pattern r) path \<noteq> None) rules))) @ out) name"
  by (induction rules path out rule: match_headers_loop.induct)
    (auto simp: map_of_merge_headers map_add_def split: option.splits)

text \<open>the headers a path gets are, name by name, those of the last rule that matches the path
  and sets the name (and inside one rule the last entry): a later block overrides an earlier
  one, and a rule that does not match contributes nothing.\<close>

theorem matchHeaders_last_wins:
  assumes "name \<noteq> ''__proto__''"
  shows "map_of (matchHeaders rules path) name =
     map_of (concat (map (\<lambda>r. rev (hr_headers r))
       (rev (filter (\<lambda>r. matchPattern (hr_pattern r) path \<noteq> None) rules)))) name"
  using map_of_match_headers_loop [OF assms, of rules path "[]"] by (simp add: matchHeaders_def)

theorem matchHeaders_last_wins_witness:
  "map_of (matchHeaders [\<lparr>hr_pattern = ''/*'', hr_headers = [(''a'', ''1'')]\<rparr>,
       \<lparr>hr_pattern = ''/b'', hr_headers = [(''a'', ''2'')]\<rparr>] ''/b'') ''a'' = Some ''2''"
  by (subst matchHeaders_last_wins) (simp_all add: matchPattern_def is_placeholder_def)

section \<open>What a parsed redirects file can contain\<close>

definition redirect_ok :: "redirect_rule \<Rightarrow> bool" where
  "redirect_ok r \<longleftrightarrow> starts_with ''/'' (rr_from r) \<and> \<not> hasMisplacedSplat (rr_from r)
     \<and> rr_status r \<in> set REDIRECT_STATUSES \<and> internalTargetProblem (rr_to r) = None"

definition redirects_inv :: "redirect_state \<Rightarrow> bool" where
  "redirects_inv st \<longleftrightarrow>
     (\<forall>r \<in> set (rs_rules st). redirect_ok r) \<and> length (rs_rules st) \<le> MAX_REDIRECT_RULES"

lemma redirect_warn_inv [simp]: "redirects_inv (redirect_warn n msg st) = redirects_inv st"
  by (simp add: redirects_inv_def redirect_warn_def)

lemma status_of_token_in: "status_of_token tok = Some n \<Longrightarrow> n \<in> set REDIRECT_STATUSES"
  by (auto simp: status_of_token_def find_Some_iff REDIRECT_STATUSES_def split: option.splits if_splits)

lemma redirect_fields_inv:
  "redirects_inv st \<Longrightarrow> redirect_fields n from to tok st = Inr st' \<Longrightarrow> redirects_inv st'"
  by (auto simp: redirect_fields_def Let_def split: prod.splits if_splits option.splits)
    (auto simp: redirects_inv_def redirect_ok_def status_of_token_in)

lemma redirects_line_inv:
  "redirects_inv st \<Longrightarrow> redirects_line n line st = Inr st' \<Longrightarrow> redirects_inv st'"
  by (auto simp: redirects_line_def Let_def dest: redirect_fields_inv split: if_splits list.splits)

lemma redirects_loop_inv:
  "redirects_inv st \<Longrightarrow> redirects_loop i lines st = Inr st' \<Longrightarrow> redirects_inv st'"
proof (induction i lines st arbitrary: st' rule: redirects_loop.induct)
  case (2 i line lines st)
  then show ?case by (auto dest: redirects_line_inv split: sum.splits)
qed simp

lemma parseRedirects_inv:
  "(\<forall>r \<in> set (pr_rules (parseRedirects t)). redirect_ok r)
   \<and> length (pr_rules (parseRedirects t)) \<le> MAX_REDIRECT_RULES"
proof (cases "redirects_loop 0 (splitLines t) \<lparr>rs_rules = [], rs_warnings = []\<rparr>")
  case (Inl reason)
  then show ?thesis by (simp add: parseRedirects_def ignore_redirects_def)
next
  case (Inr st)
  have "redirects_inv \<lparr>rs_rules = [], rs_warnings = []\<rparr>" by (simp add: redirects_inv_def)
  from redirects_loop_inv [OF this Inr] Inr show ?thesis
    by (simp add: parseRedirects_def ignore_redirects_def redirects_inv_def)
qed

text \<open>whatever text the control file holds, every stored redirect has a rooted source pattern
  with \<open>*\<close> at most as its last segment, one of the five statuses, and a target that is a
  plain path of the site; there are at most 500 of them.\<close>

theorem parseRedirects_rules_ok:
  "(\<forall>r \<in> set (pr_rules (parseRedirects t)).
      starts_with ''/'' (rr_from r) \<and> \<not> hasMisplacedSplat (rr_from r)
      \<and> rr_status r \<in> {200, 301, 302, 307, 308} \<and> internalTargetProblem (rr_to r) = None)
   \<and> length (pr_rules (parseRedirects t)) \<le> 500"
  using parseRedirects_inv [of t]
  by (auto simp: redirect_ok_def limit_defs REDIRECT_STATUSES_def)

theorem parseRedirects_rules_ok_witness:
  "\<exists>r. pr_rules (parseRedirects ''/a /b 308!'') = [r] \<and> rr_status r = 308 \<and> rr_force r
     \<and> internalTargetProblem ''/b'' = None"
proof -
  have p: "pr_rules (parseRedirects ''/a /b 308!'') =
      [\<lparr>rr_from = ''/a'', rr_to = ''/b'', rr_status = 308, rr_force = True\<rparr>]"
    by (simp add: parseRedirects_def utf8_length_def utf8_width_def code_unit_def limit_defs
        splitLines_def redirects_line_def js_trim_def is_space_def redirect_fields_def
        split_force_def ends_with_def hasMisplacedSplat_def status_of_token_def REDIRECT_STATUSES_def
        number_is_def js_number_def unsigned_decimal_def radix_value_def digit_value_def is_digit_def
        exponent_value_def starts_with_def internalTargetProblem_def half_ulp_bits_def Let_def)
  show ?thesis
    using parseRedirects_rules_ok [of "''/a /b 308!''"] unfolding p by simp
qed

section \<open>A redirect stays on the site\<close>



text \<open>the storage bound: rules that are kept are kept unchanged and fit in 256 KiB of JSON; the
  only other outcome is a rule set without rules, with the warnings kept and one added.\<close>

lemma boundHosting_outcomes:
  "(boundHosting h = h \<and> utf8_length (hosting_json (boundHosting h)) \<le> 262144)
   \<or> (sh_headers (boundHosting h) = [] \<and> sh_redirects (boundHosting h) = []
       \<and> (\<exists>w. sh_warnings (boundHosting h) = sh_warnings h @ [w]))"
  by (auto simp: boundHosting_def limit_defs)

subsection \<open>Three places where the code does not do what it says\<close>

lemma length_join_with: "w \<in> set ws \<Longrightarrow> utf8_length w \<le> utf8_length (join_with sep ws)"
  by (induction sep ws rule: join_with.induct) (auto intro: le_trans)

lemma utf8_length_concat: "utf8_length (concat xs) = sum_list (map utf8_length xs)"
  by (induction xs) (auto simp: utf8_length_def)

lemma utf8_width_le_json_char: "1 \<le> utf8_length (json_char c)"
  by (auto simp: json_char_def utf8_length_def utf8_width_def)

lemma json_text_length: "length s \<le> utf8_length (json_text s)"
proof -
  have "length s \<le> utf8_length (concat (map json_char s))"
  proof (induction s)
    case (Cons c s)
    then show ?case using utf8_width_le_json_char [of c] by simp
  qed simp
  also have "\<dots> \<le> utf8_length (json_text s)"
    by (simp add: json_text_def quoted_def utf8_length_def)
  finally show ?thesis .
qed

lemma warning_in_json:
  assumes "w \<in> set (sh_warnings h)"
  shows "length w \<le> utf8_length (hosting_json h)"
proof -
  have "length w \<le> utf8_length (json_text w)" by (rule json_text_length)
  also have "\<dots> \<le> utf8_length (json_array (map json_text (sh_warnings h)))"
    using assms length_join_with [of "json_text w" "map json_text (sh_warnings h)" "'',''"]
    by (simp add: json_array_def)
  also have "\<dots> \<le> utf8_length (hosting_json h)"
    by (simp add: hosting_json_def json_object_def)
  finally show ?thesis .
qed

text \<open>The bound does not hold of what is stored: the warnings stay, however long they are.\<close>

lemma bounded_hosting_exceeds_bound:
  "\<exists>h. MAX_HOSTING_JSON_BYTES < utf8_length (hosting_json (boundHosting h))"
proof -
  let ?w = "replicate 262145 (CHR ''x'')"
  let ?h = "\<lparr>sh_headers = [], sh_redirects = [], sh_warnings = [?w]\<rparr>"
  have "?w \<in> set (sh_warnings (boundHosting ?h))"
    by (simp add: boundHosting_def)
  from warning_in_json [OF this] show ?thesis
    by (intro exI [of _ ?h]) (simp add: limit_defs)
qed

text \<open>A header named \<open>constructor\<close> never counts towards the cap, because the object it is looked
  up in inherits that name.\<close>

lemma header_cap_misses_constructor:
  "put_header n ''constructor'' ''v'' st =
     Inr (st\<lparr>hs_rules := set_current_header ''constructor'' ''v'' (hs_rules st)\<rparr>)"
proof -
  obtain y where y: "dict_get (hr_headers (last (hs_rules st))) ''constructor'' = Some y"
    by (cases "map_of (hr_headers (last (hs_rules st))) ''constructor''")
      (auto simp: dict_get_def inherited_text_def)
  show ?thesis
    by (simp add: put_header_def y valid_header_name_def header_name_char_def is_lower_def
        code_unit_def isDeniedHeader_def DENIED_HEADERS_def DENIED_HEADER_PREFIXES_def
        starts_with_def has_control_char_def is_control_def utf8_width_def limit_defs Let_def)
qed

text \<open>A placeholder that the pattern does not bind is spliced in from \<open>Object.prototype\<close>.\<close>

lemma substitute_reads_prototype:
  "matchRedirect [\<lparr>rr_from = ''/a'', rr_to = ''/b/:constructor'', rr_status = 301, rr_force = False\<rparr>] ''/a''
     = Some \<lparr>rm_to = ''/b/function Object() { [native code] }'', rm_status = 301, rm_force = False\<rparr>"
  by code_simp

end
