(* ===== verification/Data_Model.thy ===== *)
theory Data_Model
  imports Site_Rules Key_Value
begin

text \<open>
  The shapes of \<open>shared/api.ts\<close>, \<open>core/asset/model.ts\<close> and the repository ports:
  every enum is a datatype with the source's values, every object a record whose fields are
  the source's with a prefix, an optional field an \<open>option\<close>. A database \<open>NULL\<close> and an
  absent field are both \<open>None\<close>; \<open>truthy\<close> is the code's test of an optional string.
  Roles are ordered by the ladder of \<open>core/auth/permissions.ts\<close>.
\<close>

section \<open>Enums\<close>

datatype asset_type = TypeFile | TypeArchive

datatype asset_status = AssetPending | AssetReady | AssetExtracting | AssetFailed

datatype archive_format = Zip | Tar | TarGz | TarBz2

datatype asset_access = PublicAccess | PasswordAccess

datatype job_status = JobPending | JobRunning | JobCompleted | JobFailed

datatype role = Owner | Admin | Editor | Viewer

datatype site_host_kind = Subdomain | Custom

fun roleRank :: "role \<Rightarrow> nat" where
  "roleRank Viewer = 0"
| "roleRank Editor = 1"
| "roleRank Admin = 2"
| "roleRank Owner = 3"

lemma roleRank_inj [simp]: "roleRank a = roleRank b \<longleftrightarrow> a = b"
  by (cases a; cases b) simp_all

instantiation role :: linorder
begin

definition less_eq_role :: "role \<Rightarrow> role \<Rightarrow> bool" where
  "less_eq_role a b = (roleRank a \<le> roleRank b)"

definition less_role :: "role \<Rightarrow> role \<Rightarrow> bool" where
  "less_role a b = (roleRank a < roleRank b)"

instance
proof
  fix a b c :: role
  show "(a < b) = (a \<le> b \<and> \<not> b \<le> a)" by (auto simp: less_eq_role_def less_role_def)
  show "a \<le> a" by (simp add: less_eq_role_def)
  show "a \<le> b \<Longrightarrow> b \<le> c \<Longrightarrow> a \<le> c" by (simp add: less_eq_role_def)
  show "a \<le> b \<Longrightarrow> b \<le> a \<Longrightarrow> a = b" by (simp add: less_eq_role_def)
  show "a \<le> b \<or> b \<le> a" by (auto simp: less_eq_role_def)
qed

end

lemma role_le_Owner [simp]: "(r::role) \<le> Owner"
  by (cases r) (simp_all add: less_eq_role_def)

lemma role_Viewer_le [simp]: "Viewer \<le> (r::role)"
  by (simp add: less_eq_role_def)

definition truthy :: "string option \<Rightarrow> bool" where
  "truthy s = (case s of None \<Rightarrow> False | Some t \<Rightarrow> t \<noteq> [])"

section \<open>Workspaces, members, projects\<close>

record workspace =
  ws_id :: string
  ws_name :: string
  ws_createdAt :: int
  ws_updatedAt :: int

record member =
  m_workspaceId :: string
  m_userId :: string
  m_role :: role
  m_createdAt :: int
  m_updatedAt :: int

record project =
  p_id :: string
  p_name :: string
  p_createdAt :: int
  p_updatedAt :: int
  p_ownerId :: string
  p_workspaceId :: "string option"

section \<open>Assets and versions\<close>

record version =
  v_id :: string
  v_assetId :: string
  v_version :: nat
  v_filename :: string
  v_contentType :: string
  v_size :: int
  v_createdAt :: int
  v_contentEncoding :: "string option"
  v_originalSize :: "int option"
  v_type :: "asset_type option"
  v_status :: "asset_status option"
  v_archiveFormat :: "archive_format option"
  v_fileCount :: "int option"
  v_extractedSize :: "int option"
  v_jobId :: "string option"
  v_userMeta :: "json option"
  v_hosting :: "site_hosting option"

record asset =
  a_id :: string
  a_filename :: string
  a_contentType :: string
  a_size :: int
  a_createdAt :: int
  a_expiresAt :: int
  a_contentEncoding :: "string option"
  a_originalSize :: "int option"
  a_type :: "asset_type option"
  a_status :: "asset_status option"
  a_archiveFormat :: "archive_format option"
  a_fileCount :: "int option"
  a_extractedSize :: "int option"
  a_jobId :: "string option"
  a_sessionId :: "string option"
  a_projectId :: "string option"
  a_activeVersionId :: "string option"
  a_description :: "string option"
  a_userMeta :: "json option"
  a_access :: "asset_access option"
  a_spa :: "bool option"
  a_hosting :: "site_hosting option"

text \<open>
  \<open>currentVersion\<close> and \<open>versionCount\<close> of the asset schema are filled in by one response
  (\<open>get-metadata.ts\<close>) and stored nowhere, so they are not fields here.
\<close>

record protection =
  prot_hash :: string
  prot_salt :: string
  prot_version :: nat

section \<open>Jobs, upload sessions, site hosts\<close>

record job =
  j_id :: string
  j_assetId :: string
  j_status :: job_status
  j_createdAt :: int
  j_updatedAt :: int
  j_completedAt :: "int option"
  j_startedAt :: "int option"
  j_error :: "string option"
  j_totalFiles :: "int option"
  j_fileCount :: "int option"
  j_extractedSize :: "int option"
  j_retryCount :: "int option"
  j_retryFileCount :: "int option"
  j_retryExtractedSize :: "int option"
  j_sessionId :: "string option"
  j_projectId :: "string option"
  j_versionId :: "string option"

record upload_session =
  us_id :: string
  us_filename :: string
  us_contentType :: string
  us_size :: int
  us_createdAt :: int
  us_expiresAt :: int
  us_s3UploadId :: "string option"
  us_partCount :: "int option"
  us_contentEncoding :: "string option"
  us_sessionId :: "string option"
  us_projectId :: "string option"
  us_skipExtraction :: "bool option"

record upload_part =
  part_number :: int
  part_etag :: string

record storage_usage =
  su_scope :: string
  su_totalSize :: int
  su_assetCount :: int
  su_updatedAt :: int

record pending_cleanup =
  pc_prefix :: string
  pc_createdAt :: int

datatype list_scope =
    SessionScope string
  | ProjectScope string
  | WorkspaceScope string
  | VisibleScope "string list" string

datatype project_scope = InWorkspace string | CreatedBy string "string list"

section \<open>Names of files\<close>

definition isSafeFilename :: "string \<Rightarrow> bool" where
  "isSafeFilename name \<longleftrightarrow>
     length name > 0 \<and> length name \<le> 255 \<and> name \<noteq> ''.'' \<and> name \<noteq> ''..''
     \<and> \<not> list_ex (\<lambda>c. c = CHR ''/'' \<or> c = CHR 0x5C \<or> code_unit c < 32 \<or> code_unit c = 127) name"

definition archiveExtensions :: "(string \<times> archive_format) list" where
  "archiveExtensions =
     [(''.zip'', Zip), (''.tar'', Tar), (''.tar.gz'', TarGz), (''.tgz'', TarGz), (''.tar.bz2'', TarBz2)]"

definition detectArchiveFormat :: "string \<Rightarrow> archive_format option" where
  "detectArchiveFormat filename =
     (case find (\<lambda>(ext, _). ends_with ext (js_lower filename)) archiveExtensions of
        None \<Rightarrow> None | Some (_, format) \<Rightarrow> Some format)"

definition MAX_UPLOAD_PARTS :: int where "MAX_UPLOAD_PARTS = 10000"
definition PASSWORD_MIN_LENGTH :: nat where "PASSWORD_MIN_LENGTH = 8"
definition PASSWORD_MAX_LENGTH :: nat where "PASSWORD_MAX_LENGTH = 128"

text \<open>The key of an uploaded file is \<open>assets/<id>/<filename>\<close>: a safe file name is one segment.\<close>

lemma safe_filename_one_segment:
  assumes "isSafeFilename name"
  shows "split_on (CHR ''/'') (''assets/'' @ name) = [''assets'', name]" and "name \<noteq> ''..''"
proof -
  have "CHR ''/'' \<notin> set name"
    using assms by (auto simp: isSafeFilename_def list_ex_iff)
  then show "split_on (CHR ''/'') (''assets/'' @ name) = [''assets'', name]"
    by (simp add: split_on_id)
  show "name \<noteq> ''..''" using assms by (simp add: isSafeFilename_def)
qed

end
