(* ===== verification/Base64.thy ===== *)
theory Base64
  imports Serve_Prelude
begin

text \<open>
  The two base-64 functions of the platform, \<open>btoa\<close> and \<open>atob\<close>, and the decimal
  numbers of template strings and \<open>parseInt\<close>, which the cursors
  (\<open>adapters/sql/helpers.ts\<close>), the access cookie (\<open>core/access/cookie.ts\<close>) and the
  password material (\<open>core/access/password.ts\<close>) are written with. \<open>atob\<close> is the
  forgiving decoder of the HTML standard: white space is skipped, up to two padding
  characters are optional, stray low bits are dropped, everything else is an error
  (\<open>None\<close>). The lemmas are the round trips their users rest on.
\<close>

section \<open>Base 64\<close>

definition b64_alphabet :: string where
  "b64_alphabet = ''ABCDEFGHIJKLMNOPQRSTUVWXYZabcdefghijklmnopqrstuvwxyz0123456789+/''"

fun position :: "char \<Rightarrow> string \<Rightarrow> nat option" where
  "position c [] = None"
| "position c (d # s) = (if c = d then Some 0 else map_option Suc (position c s))"

definition b64_digit :: "nat \<Rightarrow> char" where
  "b64_digit n = b64_alphabet ! n"

definition b64_value :: "char \<Rightarrow> nat option" where
  "b64_value c = position c b64_alphabet"

fun sextets :: "nat list \<Rightarrow> nat list" where
  "sextets [] = []"
| "sextets [a] = [a div 4, a mod 4 * 16]"
| "sextets [a, b] = [a div 4, a mod 4 * 16 + b div 16, b mod 16 * 4]"
| "sextets (a # b # c # r) =
     (a div 4) # (a mod 4 * 16 + b div 16) # (b mod 16 * 4 + c div 64) # (c mod 64) # sextets r"

fun octets :: "nat list \<Rightarrow> nat list" where
  "octets [] = []"
| "octets [w] = []"
| "octets [w, x] = [w * 4 + x div 16]"
| "octets [w, x, y] = [w * 4 + x div 16, x mod 16 * 16 + y div 4]"
| "octets (w # x # y # z # r) =
     (w * 4 + x div 16) # (x mod 16 * 16 + y div 4) # (y mod 4 * 64 + z) # octets r"

definition b64_padding :: "nat \<Rightarrow> string" where
  "b64_padding n = replicate ((3 - n mod 3) mod 3) (CHR ''='')"

definition btoa :: "string \<Rightarrow> string" where
  "btoa s = map b64_digit (sextets (map code_unit s)) @ b64_padding (length s)"

definition ascii_space :: "char \<Rightarrow> bool" where
  "ascii_space c = (let n = code_unit c in n = 9 \<or> n = 10 \<or> n = 12 \<or> n = 13 \<or> n = 32)"

definition strip_padding :: "string \<Rightarrow> string" where
  "strip_padding s =
     (if length s mod 4 = 0 then
        (if ends_with ''=='' s then take (length s - 2) s
         else if ends_with ''='' s then take (length s - 1) s else s)
      else s)"

fun b64_values :: "string \<Rightarrow> nat list option" where
  "b64_values [] = Some []"
| "b64_values (c # s) =
     (case b64_value c of
        None \<Rightarrow> None
      | Some n \<Rightarrow> (case b64_values s of None \<Rightarrow> None | Some ns \<Rightarrow> Some (n # ns)))"

definition atob :: "string \<Rightarrow> string option" where
  "atob s =
     (let t = strip_padding (filter (\<lambda>c. \<not> ascii_space c) s) in
      if length t mod 4 = 1 then None
      else map_option (map char_of \<circ> octets) (b64_values t))"

lemma code_unit_less [simp]: "code_unit c < 256"
  by (simp add: code_unit_def)

lemma char_of_code_unit [simp]: "char_of (code_unit c) = c"
  by (simp add: code_unit_def)

lemma code_unit_char_of [simp]: "n < 256 \<Longrightarrow> code_unit (char_of n) = n"
  by (simp add: code_unit_def)

lemma octets_sextets: "\<forall>b \<in> set bs. b < 256 \<Longrightarrow> octets (sextets bs) = bs"
proof (induction bs rule: sextets.induct)
  case (3 a b)
  have "b div 16 < 16" using 3 by (auto intro!: less_mult_imp_div_less)
  then show ?case by simp
next
  case (4 a b c r)
  have "b div 16 < 16" "c div 64 < 4" using 4 by (auto intro!: less_mult_imp_div_less)
  with 4 show ?case by simp
qed simp_all

lemma sextets_bound: "\<forall>b \<in> set bs. b < 256 \<Longrightarrow> n \<in> set (sextets bs) \<Longrightarrow> n < 64"
proof (induction bs rule: sextets.induct)
  case (2 a)
  then show ?case by auto
next
  case (3 a b)
  have "b div 16 < 16" "a div 4 < 64" using 3 by (auto intro!: less_mult_imp_div_less)
  with 3 show ?case by auto
next
  case (4 a b c r)
  have "b div 16 < 16" "c div 64 < 4" "a div 4 < 64" using 4 by (auto intro!: less_mult_imp_div_less)
  with 4 show ?case by auto
qed simp

lemma length_sextets: "length (sextets bs) = (length bs * 4 + 2) div 3"
  by (induction bs rule: sextets.induct) (simp_all add: div_add_self2[symmetric])

lemma b64_alphabet_table: "\<forall>n \<in> set [0..<64]. b64_value (b64_alphabet ! n) = Some n"
  by code_simp

lemma b64_value_digit [simp]: "n < 64 \<Longrightarrow> b64_value (b64_digit n) = Some n"
  using b64_alphabet_table by (simp add: b64_digit_def)

lemma b64_alphabet_clean:
  "\<forall>c \<in> set b64_alphabet. \<not> ascii_space c \<and> c \<noteq> CHR ''='' \<and> c \<noteq> CHR ''.'' \<and> c \<noteq> CHR ''-'' \<and> c \<noteq> CHR ''_''"
  by code_simp

lemma b64_digit_in: "n < 64 \<Longrightarrow> b64_digit n \<in> set b64_alphabet"
  unfolding b64_digit_def by (rule nth_mem) (simp add: b64_alphabet_def)

lemma b64_values_digits: "\<forall>n \<in> set ns. n < 64 \<Longrightarrow> b64_values (map b64_digit ns) = Some ns"
  by (induction ns) simp_all

definition b64_body :: "string \<Rightarrow> string" where
  "b64_body s = map b64_digit (sextets (map code_unit s))"

lemma b64_body_in: "set (b64_body s) \<subseteq> set b64_alphabet"
  using sextets_bound[of "map code_unit s"] by (auto simp: b64_body_def intro!: b64_digit_in)

lemma b64_body_values: "b64_values (b64_body s) = Some (sextets (map code_unit s))"
  unfolding b64_body_def
  by (rule b64_values_digits) (use sextets_bound[of "map code_unit s"] in auto)

lemma length_b64_body: "length (b64_body s) = (length s * 4 + 2) div 3"
  by (simp add: b64_body_def length_sextets)

lemma btoa_body: "btoa s = b64_body s @ b64_padding (length s)"
  by (simp add: btoa_def b64_body_def)

lemma map_char_of_code_unit [simp]: "map (char_of \<circ> code_unit) s = s"
  by (induction s) simp_all

lemma decode_body: "map_option (map char_of \<circ> octets) (b64_values (b64_body s)) = Some s"
  by (simp add: b64_body_values octets_sextets o_def)

lemma b64_body_clean: "c \<in> set (b64_body s) \<Longrightarrow> \<not> ascii_space c \<and> c \<noteq> CHR ''='' \<and> c \<noteq> CHR ''.'' \<and> c \<noteq> CHR ''-'' \<and> c \<noteq> CHR ''_''"
  using b64_alphabet_clean subsetD[OF b64_body_in] by metis

lemma padding_clean: "c \<in> set (b64_padding n) \<Longrightarrow> c = CHR ''=''"
  by (simp add: b64_padding_def)

lemma length_btoa: "length (btoa s) = (length s + 2) div 3 * 4"
proof -
  define n where "n = length s"
  have "\<exists>q. n = 3 * q \<or> n = 3 * q + 1 \<or> n = 3 * q + 2" by presburger
  then obtain q where "n = 3 * q \<or> n = 3 * q + 1 \<or> n = 3 * q + 2" ..
  then have "(n * 4 + 2) div 3 + (3 - n mod 3) mod 3 = (n + 2) div 3 * 4"
    by (elim disjE) (simp_all add: mod_Suc; presburger)+
  then show ?thesis by (simp add: btoa_body length_b64_body b64_padding_def n_def)
qed

lemma ends_with_last_in: "ends_with (p @ [c]) s \<Longrightarrow> c \<in> set s"
  by (metis ends_with_def in_set_conv_decomp in_set_dropD)

lemma ends_with_snoc: "ends_with (p @ [c]) (s @ [d]) \<longleftrightarrow> c = d \<and> ends_with p s"
  by (auto simp: ends_with_def Suc_diff_le)

lemma strip_padding_body:
  assumes "\<forall>c \<in> set w. c \<noteq> CHR ''=''" and "k < 3" and "(length w + k) mod 4 = 0"
  shows "strip_padding (w @ replicate k (CHR ''='')) = w"
proof -
  have no1: "\<not> ends_with ''='' w" and no2: "\<not> ends_with ''=='' w"
    using assms(1) ends_with_last_in[of "[]" "CHR ''=''" w]
      ends_with_last_in[of "''=''" "CHR ''=''" w] by auto
  consider "k = 0" | "k = 1" | "k = 2" using assms(2) by linarith
  then show ?thesis
  proof cases
    case 1
    with no1 no2 show ?thesis by (simp add: strip_padding_def)
  next
    case 2
    have "\<not> ends_with ''=='' (w @ ''='')"
      using no1 ends_with_snoc[of "''=''" "CHR ''=''" w "CHR ''=''"] by simp
    moreover have "ends_with ''='' (w @ ''='')" by (simp add: ends_with_def)
    ultimately show ?thesis using 2 assms(3) by (simp add: strip_padding_def)
  next
    case 3
    then have "replicate k (CHR ''='') = ''==''" by (simp add: numeral_2_eq_2)
    with 3 assms(3) show ?thesis by (simp add: strip_padding_def ends_with_def)
  qed
qed

lemma body_padding_length: "(length (b64_body s) + (3 - length s mod 3) mod 3) mod 4 = 0"
proof -
  have "length (btoa s) mod 4 = 0" by (simp add: length_btoa)
  then show ?thesis by (simp add: btoa_body b64_padding_def)
qed

lemma not_space_pad: "\<not> ascii_space (CHR ''='')"
  by code_simp

lemma filter_btoa: "filter (\<lambda>c. \<not> ascii_space c) (btoa s) = btoa s"
proof (rule filter_True, rule ballI)
  fix c assume "c \<in> set (btoa s)"
  then have "c \<in> set (b64_body s) \<or> c = CHR ''=''"
    by (auto simp: btoa_body dest: padding_clean)
  then show "\<not> ascii_space c"
    using b64_body_clean not_space_pad by blast
qed

lemma strip_padding_btoa: "strip_padding (btoa s) = b64_body s"
  unfolding btoa_body b64_padding_def
  by (rule strip_padding_body) (auto simp: body_padding_length dest: b64_body_clean)

lemma length_body_mod: "length (b64_body s) mod 4 \<noteq> 1"
proof -
  have "(n * 4 + 2) div 3 mod 4 \<noteq> 1" for n :: nat
  proof -
    have "\<exists>q. n = 3 * q \<or> n = 3 * q + 1 \<or> n = 3 * q + 2" by presburger
    then obtain q where "n = 3 * q \<or> n = 3 * q + 1 \<or> n = 3 * q + 2" ..
    then show ?thesis by (elim disjE) (simp_all; presburger)+
  qed
  then show ?thesis by (simp add: length_b64_body)
qed

lemma atob_btoa [simp]: "atob (btoa s) = Some s"
  using length_body_mod[of s]
  by (simp add: atob_def filter_btoa strip_padding_btoa b64_body_values octets_sextets o_def)

section \<open>Decimal numbers\<close>

definition show_int :: "int \<Rightarrow> string" where
  "show_int n = (if n < 0 then CHR ''-'' # show_nat (nat (- n)) else show_nat (nat n))"

definition digit_value :: "char \<Rightarrow> int" where
  "digit_value c = int (code_unit c) - 48"

definition decimal_value :: "string \<Rightarrow> int" where
  "decimal_value s = foldl (\<lambda>n c. n * 10 + digit_value c) 0 s"

definition parse_int :: "string \<Rightarrow> int option" where
  \<comment> \<open>\<open>parseInt(s, 10)\<close>, with \<open>None\<close> for \<open>NaN\<close>; exact below \<open>2 ^ 53\<close>, beyond which the
    code's doubles round\<close>
  "parse_int s =
     (let t = dropWhile is_space s;
          (negative, u) = (case t of c # r \<Rightarrow> if c = CHR ''-'' then (True, r)
                                              else if c = CHR ''+'' then (False, r) else (False, t)
                           | [] \<Rightarrow> (False, t));
          digits = takeWhile is_digit u in
      if digits = [] then None
      else Some (if negative then - decimal_value digits else decimal_value digits))"

lemma show_nat_digits: "c \<in> set (show_nat n) \<Longrightarrow> is_digit c"
  by (induction n arbitrary: c rule: show_nat.induct)
    (subst (asm) (2) show_nat.simps, auto simp: is_digit_def split: if_splits)

lemma show_nat_not_Nil [simp]: "show_nat n \<noteq> []"
  by (subst show_nat.simps) simp

lemma decimal_value_append: "decimal_value (s @ [c]) = decimal_value s * 10 + digit_value c"
  by (simp add: decimal_value_def)

lemma decimal_value_show_nat: "decimal_value (show_nat n) = int n"
proof (induction n rule: show_nat.induct)
  case (1 n)
  show ?case
  proof (cases "n < 10")
    case True
    then show ?thesis
      by (subst show_nat.simps) (simp add: decimal_value_def digit_value_def)
  next
    case False
    then have "decimal_value (show_nat n) = int (n div 10) * 10 + int (n mod 10)"
      using 1 by (subst show_nat.simps) (simp add: decimal_value_append digit_value_def)
    also have "\<dots> = int n" by (metis div_mult_mod_eq of_nat_add of_nat_mult of_nat_numeral)
    finally show ?thesis .
  qed
qed

lemma parse_int_show_int: "parse_int (show_int n) = Some n"
proof -
  have digit: "is_digit c \<Longrightarrow> \<not> is_space c \<and> c \<noteq> CHR ''-'' \<and> c \<noteq> CHR ''+''" for c
    by (auto simp: is_digit_def is_space_def code_unit_def)
  obtain c r where shown: "show_nat (nat \<bar>n\<bar>) = c # r" by (meson list.exhaust show_nat_not_Nil)
  have digits: "\<forall>d \<in> set (c # r). is_digit d"
    using show_nat_digits shown by metis
  have amount: "decimal_value (c # r) = \<bar>n\<bar>"
    using decimal_value_show_nat[of "nat \<bar>n\<bar>"] shown by simp
  have taken: "takeWhile is_digit r = r"
    using digits by (simp add: takeWhile_eq_all_conv)
  have "\<not> is_space (CHR ''-'')" by (simp add: is_space_def code_unit_def)
  then show ?thesis
    using digits digit[of c] amount shown
    by (cases "n < 0") (auto simp: show_int_def parse_int_def Let_def taken)
qed

lemma show_int_chars: "c \<in> set (show_int n) \<Longrightarrow> is_digit c \<or> c = CHR ''-''"
  by (auto simp: show_int_def dest: show_nat_digits split: if_splits)

lemma show_int_inj [simp]: "show_int a = show_int b \<longleftrightarrow> a = b"
  by (metis option.inject parse_int_show_int)


end
