(* ===== verification/Sql_Tables.thy ===== *)
theory Sql_Tables
  imports Data_Model Base64 "HOL-Library.Char_ord" "HOL-Library.List_Lexorder"
    "HOL-Library.Product_Lexorder"
begin

text \<open>
  The SQL side of the repositories (\<open>adapters/sql/helpers.ts\<close> and the tenancy stores of
  \<open>adapters/sql/stores.ts\<close>). A table is the list of its rows in storage order and each
  statement of the code is a function on that list: \<open>INSERT OR REPLACE\<close> removes the row
  with the same key and appends the new one, \<open>ORDER BY\<close> is a stable sort, \<open>LIMIT\<close> is
  \<open>take\<close>. \<open>database\<close> holds the tables of the domain schema. The rows are the typed
  records of \<open>Data_Model\<close>; the generic row mapping \<open>rowToModel\<close>/\<open>modelToRow\<close>
  is modelled on untyped objects, with the round trip that justifies reading a row as its
  record. Keyset pagination is one function, \<open>list_page\<close>, for the two listings that use it.
\<close>

section \<open>Statements\<close>

definition find_row :: "('r \<Rightarrow> 'k) \<Rightarrow> 'k \<Rightarrow> 'r list \<Rightarrow> 'r option" where
  \<comment> \<open>\<open>SELECT * \<dots> WHERE key = ?\<close>, first row or null\<close>
  "find_row key k table = (case filter (\<lambda>r. key r = k) table of [] \<Rightarrow> None | r # _ \<Rightarrow> Some r)"

definition replace_row :: "('r \<Rightarrow> 'k) \<Rightarrow> 'r \<Rightarrow> 'r list \<Rightarrow> 'r list" where
  \<comment> \<open>\<open>INSERT OR REPLACE\<close>\<close>
  "replace_row key row table = filter (\<lambda>r. key r \<noteq> key row) table @ [row]"

definition delete_rows :: "('r \<Rightarrow> bool) \<Rightarrow> 'r list \<Rightarrow> 'r list" where
  \<comment> \<open>\<open>DELETE \<dots> WHERE P\<close>\<close>
  "delete_rows P table = filter (\<lambda>r. \<not> P r) table"

definition update_rows :: "('r \<Rightarrow> bool) \<Rightarrow> ('r \<Rightarrow> 'r) \<Rightarrow> 'r list \<Rightarrow> 'r list" where
  \<comment> \<open>\<open>UPDATE \<dots> SET f WHERE P\<close>\<close>
  "update_rows P f table = map (\<lambda>r. if P r then f r else r) table"

definition order_asc :: "('r \<Rightarrow> 'k::linorder) \<Rightarrow> 'r list \<Rightarrow> 'r list" where
  "order_asc key table = sort_key key table"

definition order_desc :: "('r \<Rightarrow> 'k::linorder) \<Rightarrow> 'r list \<Rightarrow> 'r list" where
  "order_desc key table = rev (sort_key key (rev table))"

section \<open>Rows and objects\<close>

definition upper_char :: "char \<Rightarrow> char" where
  \<comment> \<open>\<open>toUpperCase\<close> of a letter \<open>a\<close>--\<open>z\<close>\<close>
  "upper_char c = (if is_lower c then char_of (code_unit c - 32) else c)"

fun camelToSnake :: "string \<Rightarrow> string" where
  "camelToSnake [] = []"
| "camelToSnake (c # s) =
     (if is_upper c then CHR ''_'' # lower_char c # camelToSnake s else c # camelToSnake s)"

fun snakeToCamel :: "string \<Rightarrow> string" where
  "snakeToCamel [] = []"
| "snakeToCamel [c] = [c]"
| "snakeToCamel (c # d # s) =
     (if c = CHR ''_'' \<and> is_lower d then upper_char d # snakeToCamel s
      else c # snakeToCamel (d # s))"

text \<open>A column holds a plain value, or, for \<open>meta\<close>, a JSON text.\<close>

datatype column = Plain json | Encoded blob

type_synonym object_entries = "(string \<times> json) list"
type_synonym row_entries = "(string \<times> column) list"

definition prop_set :: "(string \<times> 'v) list \<Rightarrow> string \<Rightarrow> 'v \<Rightarrow> (string \<times> 'v) list" where
  \<comment> \<open>\<open>result[key] = value\<close>: assigning \<open>__proto__\<close> creates no property\<close>
  "prop_set d k v = (if k = ''__proto__'' then d else own_set d k v)"

fun json_entries :: "json \<Rightarrow> object_entries option" where
  \<comment> \<open>\<open>Object.entries(v)\<close>; \<open>None\<close> is its exception on \<open>null\<close>\<close>
  "json_entries JNull = None"
| "json_entries (JObj es) = Some es"
| "json_entries (JArr vs) = Some (zip (map show_nat [0..<length vs]) vs)"
| "json_entries (JStr s) = Some (zip (map show_nat [0..<length s]) (map (\<lambda>c. JStr [c]) s))"
| "json_entries (JBool b) = Some []"
| "json_entries (JNum n) = Some []"

fun merge_meta :: "object_entries \<Rightarrow> object_entries \<Rightarrow> object_entries" where
  "merge_meta [] result = result"
| "merge_meta ((k, v) # es) result =
     merge_meta es (if v = JNull then result else prop_set result k v)"

fun plain_columns :: "row_entries \<Rightarrow> object_entries \<Rightarrow> object_entries" where
  "plain_columns [] result = result"
| "plain_columns ((k, c) # row) result =
     plain_columns row
       (if k = ''meta'' then result
        else case c of Plain v \<Rightarrow> prop_set result (snakeToCamel k) v | Encoded _ \<Rightarrow> result)"

definition rowToModel :: "row_entries \<Rightarrow> object_entries" where
  "rowToModel row =
     (let result = plain_columns row [] in
      case map_of row ''meta'' of
        Some (Encoded (Blob meta)) \<Rightarrow>
          (case json_entries meta of None \<Rightarrow> result | Some es \<Rightarrow> merge_meta es result)
      | _ \<Rightarrow> result)"

fun split_model :: "string set \<Rightarrow> object_entries \<Rightarrow> row_entries \<times> object_entries \<Rightarrow> row_entries \<times> object_entries" where
  "split_model ks [] (result, meta) = (result, meta)"
| "split_model ks ((k, v) # model) (result, meta) =
     split_model ks model
       (if k \<in> ks then (result, prop_set meta k v)
        else (prop_set result (camelToSnake k) (Plain v), meta))"

definition modelToRow :: "object_entries \<Rightarrow> string list option \<Rightarrow> row_entries" where
  "modelToRow model metaKeys =
     (let (result, meta) = split_model (case metaKeys of None \<Rightarrow> {} | Some ks \<Rightarrow> set ks) model ([], [])
      in case metaKeys of
           None \<Rightarrow> result
         | Some _ \<Rightarrow>
             own_set result ''meta'' (if meta = [] then Plain JNull else Encoded (Blob (JObj meta))))"

lemma lower_upper_char: "is_upper c \<Longrightarrow> is_lower (lower_char c) \<and> upper_char (lower_char c) = c"
  by (simp add: is_upper_def is_lower_def lower_char_def upper_char_def Let_def)

lemma snakeToCamel_Cons: "c \<noteq> CHR ''_'' \<Longrightarrow> snakeToCamel (c # s) = c # snakeToCamel s"
  by (cases s) simp_all

lemma snake_camel [simp]: "CHR ''_'' \<notin> set k \<Longrightarrow> snakeToCamel (camelToSnake k) = k"
  by (induction k) (auto simp: lower_upper_char snakeToCamel_Cons)

definition storable :: "string \<Rightarrow> bool" where
  \<comment> \<open>the property names the stores write: camel case, no clash with \<open>meta\<close>\<close>
  "storable k \<longleftrightarrow> CHR ''_'' \<notin> set k \<and> camelToSnake k \<noteq> ''meta''"

lemma storable_not_proto: "storable k \<Longrightarrow> k \<noteq> ''__proto__'' \<and> camelToSnake k \<noteq> ''__proto__''"
proof -
  assume "storable k"
  then have "CHR ''_'' \<notin> set k" by (simp add: storable_def)
  then have "k \<noteq> ''__proto__''" by auto
  moreover have "camelToSnake k \<noteq> ''__proto__''"
  proof
    assume eq: "camelToSnake k = ''__proto__''"
    have "snakeToCamel ''__proto__'' = k"
      using snake_camel[OF \<open>CHR ''_'' \<notin> set k\<close>] eq by simp
    moreover have "CHR ''_'' \<in> set (snakeToCamel ''__proto__'')"
      by (simp add: is_lower_def code_unit_def)
    ultimately show False using \<open>CHR ''_'' \<notin> set k\<close> by simp
  qed
  ultimately show ?thesis by simp
qed

lemma camelToSnake_inj:
  "storable k \<Longrightarrow> storable k' \<Longrightarrow> camelToSnake k = camelToSnake k' \<longleftrightarrow> k = k'"
  by (metis snake_camel storable_def)

lemma own_set_fresh: "k \<notin> fst ` set d \<Longrightarrow> own_set d k v = d @ [(k, v)]"
  by (induction d k v rule: own_set.induct) auto

definition as_columns :: "object_entries \<Rightarrow> row_entries" where
  "as_columns model = map (\<lambda>(k, v). (camelToSnake k, Plain v)) model"

lemma split_model_fresh:
  assumes "\<forall>(k, v) \<in> set model. storable k" and "distinct (map fst model)"
    and "\<forall>k \<in> fst ` set model. camelToSnake k \<notin> fst ` set result \<and> k \<notin> fst ` set meta"
  shows "split_model ks model (result, meta) =
    (result @ as_columns (filter (\<lambda>(k, _). k \<notin> ks) model), meta @ filter (\<lambda>(k, _). k \<in> ks) model)"
  using assms
proof (induction model arbitrary: result meta)
  case Nil
  then show ?case by (simp add: as_columns_def)
next
  case (Cons e model)
  obtain k v where e: "e = (k, v)" by fastforce
  from Cons.prems(1) e have st: "storable k" and rest: "\<forall>(k, v) \<in> set model. storable k" by auto
  note np = storable_not_proto[OF st]
  show ?case
  proof (cases "k \<in> ks")
    case True
    have "prop_set meta k v = meta @ [(k, v)]"
      using Cons.prems(3) e np by (simp add: prop_set_def own_set_fresh)
    then show ?thesis
      using Cons.IH[OF rest, of result "meta @ [(k, v)]"] Cons.prems(2,3) e True by auto
  next
    case False
    have "prop_set result (camelToSnake k) (Plain v) = result @ [(camelToSnake k, Plain v)]"
      using Cons.prems(3) e np by (simp add: prop_set_def own_set_fresh)
    moreover have "\<forall>k' \<in> fst ` set model. camelToSnake k' \<noteq> camelToSnake k"
    proof
      fix k' assume k': "k' \<in> fst ` set model"
      then have "storable k'" and "k' \<noteq> k" using rest Cons.prems(2) e by auto
      then show "camelToSnake k' \<noteq> camelToSnake k" using camelToSnake_inj st by blast
    qed
    ultimately show ?thesis
      using Cons.IH[OF rest, of "result @ [(camelToSnake k, Plain v)]" meta] Cons.prems(2,3) e False
      by (auto simp: as_columns_def)
  qed
qed

lemma plain_columns_as_columns:
  assumes "\<forall>(k, v) \<in> set model. storable k" and "distinct (map fst model)"
    and "\<forall>k \<in> fst ` set model. k \<notin> fst ` set result"
  shows "plain_columns (as_columns model @ [(''meta'', c)]) result = result @ model"
  using assms
proof (induction model arbitrary: result)
  case Nil
  then show ?case by (simp add: as_columns_def)
next
  case (Cons e model)
  obtain k v where e: "e = (k, v)" by fastforce
  from Cons.prems(1) e have st: "storable k" and rest: "\<forall>(k, v) \<in> set model. storable k" by auto
  have "prop_set result k v = result @ [(k, v)]"
    using Cons.prems(3) e storable_not_proto[OF st] by (simp add: prop_set_def own_set_fresh)
  then show ?case
    using Cons.IH[OF rest, of "result @ [(k, v)]"] Cons.prems(2,3) e st
    by (auto simp: as_columns_def storable_def)
qed

lemma merge_meta_fresh:
  assumes "\<forall>(k, v) \<in> set meta. storable k \<and> v \<noteq> JNull" and "distinct (map fst meta)"
    and "\<forall>k \<in> fst ` set meta. k \<notin> fst ` set result"
  shows "merge_meta meta result = result @ meta"
  using assms
proof (induction meta arbitrary: result)
  case (Cons e meta)
  obtain k v where e: "e = (k, v)" by fastforce
  from Cons.prems(1) e have st: "storable k" by auto
  have "prop_set result k v = result @ [(k, v)]"
    using Cons.prems(3) e storable_not_proto[OF st] by (simp add: prop_set_def own_set_fresh)
  then show ?case
    using Cons.IH[of "result @ [(k, v)]"] Cons.prems e by auto
qed simp

lemma map_of_as_columns_meta:
  "\<forall>(k, v) \<in> set model. storable k \<Longrightarrow> map_of (as_columns model) ''meta'' = None"
  by (induction model) (auto simp: as_columns_def storable_def)

text \<open>
  Writing an object to a row and reading the row back gives the object again: the
  properties named in \<open>metaKeys\<close> travel through the JSON \<open>meta\<close> column, the others
  through their snake-case columns, and none is lost, renamed or mixed up. (The property
  names are the stores' own: camel case without an underscore, none called \<open>meta\<close>; a
  \<open>null\<close> in the \<open>meta\<close> column reads as absent, so it is excluded.)
\<close>

theorem row_roundtrip:
  assumes "\<forall>(k, v) \<in> set model. storable k \<and> v \<noteq> JNull" and "distinct (map fst model)"
  shows "map_of (rowToModel (modelToRow model (Some ks))) = map_of model"
proof -
  let ?cols = "filter (\<lambda>(k, _). k \<notin> set ks) model" and ?meta = "filter (\<lambda>(k, _). k \<in> set ks) model"
  let ?c = "if ?meta = [] then Plain JNull else Encoded (Blob (JObj ?meta))"
  have st: "\<forall>(k, v) \<in> set model. storable k" using assms(1) by auto
  have "\<forall>(k, v) \<in> set ?cols. storable k" using st by auto
  note meta_free = map_of_as_columns_meta[OF this]
  then have row: "modelToRow model (Some ks) = as_columns ?cols @ [(''meta'', ?c)]"
    using split_model_fresh[OF st assms(2), of "[]" "[]" "set ks"]
    by (simp add: modelToRow_def own_set_fresh map_of_eq_None_iff)
  have cols: "plain_columns (as_columns ?cols @ [(''meta'', ?c)]) [] = ?cols"
    using plain_columns_as_columns[of ?cols "[]"] st assms(2) by (auto simp: distinct_map_filter)
  have fresh: "fst ` set ?cols \<inter> fst ` set ?meta = {}" by auto
  have merged: "merge_meta ?meta ?cols = ?cols @ ?meta"
    by (rule merge_meta_fresh) (use assms in \<open>auto simp: distinct_map_filter\<close>)
  have "rowToModel (modelToRow model (Some ks)) = ?cols @ ?meta"
    using meta_free by (auto simp: rowToModel_def row cols merged Let_def map_add_def)
  moreover have "map_of (?cols @ ?meta) = map_of model"
    using assms(2)
    by (intro map_of_inject_set[THEN iffD2]) (auto simp: distinct_map_filter)
  ultimately show ?thesis by simp
qed

lemma row_roundtrip_witness:
  "map_of (rowToModel (modelToRow [(''fileCount'', JNum 3), (''assetId'', JStr ''a'')] (Some [''fileCount''])))
   = map_of [(''fileCount'', JNum 3), (''assetId'', JStr ''a'')]"
  by (rule row_roundtrip) (simp_all add: storable_def is_upper_def code_unit_def)

section \<open>Cursors and keyset pages\<close>

definition encodeCursor :: "int \<Rightarrow> string \<Rightarrow> string" where
  "encodeCursor createdAt id' = btoa (show_int createdAt @ '':'' @ id')"

definition decodeCursor :: "string \<Rightarrow> (int \<times> string) option" where
  "decodeCursor cursor =
     (case atob cursor of
        None \<Rightarrow> None
      | Some decoded \<Rightarrow>
          (case index_of '':'' decoded of
             None \<Rightarrow> None
           | Some colonIdx \<Rightarrow>
               (case parse_int (take colonIdx decoded) of
                  None \<Rightarrow> None
                | Some createdAt \<Rightarrow> Some (createdAt, drop (colonIdx + 1) decoded))))"

text \<open>A cursor the server hands out decodes to the position it was made from.\<close>

lemma decode_encode_cursor: "decodeCursor (encodeCursor createdAt id') = Some (createdAt, id')"
proof -
  have "CHR '':'' \<notin> set (show_int createdAt)"
    using show_int_chars[of "CHR '':''" createdAt] by (auto simp: is_digit_def code_unit_def)
  then show ?thesis
    by (simp add: decodeCursor_def encodeCursor_def index_of_append_sep parse_int_show_int)
qed

text \<open>
  One page of a listing ordered newest first. \<open>key\<close> gives a row's \<open>(created_at, id)\<close>,
  \<open>scope\<close> the \<open>WHERE\<close> clause. One row more than the limit is fetched to know whether
  there is a next page; an undecodable cursor is ignored.
\<close>

definition list_page ::
  "('r \<Rightarrow> int \<times> string) \<Rightarrow> ('r \<Rightarrow> bool) \<Rightarrow> nat \<Rightarrow> string option \<Rightarrow> 'r list \<Rightarrow> 'r list \<times> string option" where
  "list_page key scope limit cursor table =
     (let after = (case cursor of None \<Rightarrow> None | Some c \<Rightarrow> if c = [] then None else decodeCursor c);
          matches = (\<lambda>r. scope r \<and>
            (case after of None \<Rightarrow> True
             | Some (createdAt, id') \<Rightarrow>
                 fst (key r) < createdAt \<or> (fst (key r) = createdAt \<and> snd (key r) < id')));
          rows = take (limit + 1) (order_desc key (filter matches table));
          items = take limit rows
      in (items,
          if limit < length rows \<and> items \<noteq> []
          then Some (encodeCursor (fst (key (last items))) (snd (key (last items))))
          else None))"

fun fetch_pages :: "(string option \<Rightarrow> 'r list \<times> string option) \<Rightarrow> nat \<Rightarrow> string option \<Rightarrow> 'r list option" where
  \<comment> \<open>a client that follows the cursors; \<open>None\<close> when \<open>fuel\<close> pages were not enough\<close>
  "fetch_pages page 0 cursor = None"
| "fetch_pages page (Suc fuel) cursor =
     (case page cursor of
        (items, None) \<Rightarrow> Some items
      | (items, Some next') \<Rightarrow> map_option ((@) items) (fetch_pages page fuel (Some next')))"

lemma btoa_not_Nil: "s \<noteq> [] \<Longrightarrow> btoa s \<noteq> []"
proof
  assume "s \<noteq> []" and "btoa s = []"
  then have "(length s + 2) div 3 * 4 = 0" using length_btoa[of s] by simp
  then show False using \<open>s \<noteq> []\<close> by (cases s) auto
qed

lemma encodeCursor_not_Nil [simp]: "encodeCursor t i \<noteq> []"
  by (simp add: encodeCursor_def btoa_not_Nil)

lemma set_order_desc [simp]: "set (order_desc key t) = set t"
  by (simp add: order_desc_def)

lemma length_order_desc [simp]: "length (order_desc key t) = length t"
  by (simp add: order_desc_def)

lemma distinct_order_desc: "distinct (map key t) \<Longrightarrow> distinct (map key (order_desc key t))"
  by (simp add: order_desc_def distinct_map distinct_rev rev_map[symmetric] inj_on_def)

lemma sorted_order_desc: "sorted (map key (rev (order_desc key t)))"
  by (simp add: order_desc_def)

lemma filter_order_desc: "order_desc key (filter P t) = filter P (order_desc key t)"
  by (simp add: order_desc_def rev_filter filter_sort[symmetric])

lemma strictly_desc:
  assumes "distinct (map key t)"
  shows "sorted_wrt (\<lambda>r s. key s < key r) (order_desc key t)"
proof -
  have "distinct (map key (rev (order_desc key t)))"
    using distinct_order_desc[OF assms] by (simp add: rev_map[symmetric])
  then have "sorted_wrt (<) (map key (rev (order_desc key t)))"
    using sorted_order_desc[of key t] by (simp add: strict_sorted_iff)
  then show ?thesis
    by (simp add: sorted_wrt_map sorted_wrt_rev)
qed

lemma filter_below_last:
  fixes key :: "'a \<Rightarrow> 'k::linorder"
  assumes "sorted_wrt (\<lambda>r s. key s < key r) (xs @ ys)" and "xs \<noteq> []"
  shows "filter (\<lambda>r. key r < key (last xs)) (xs @ ys) = ys"
proof -
  have "\<not> key r < key (last xs)" if "r \<in> set xs" for r
  proof (cases "r = last xs")
    case False
    obtain zs where xs: "xs = zs @ [last xs]" using assms(2) by (metis append_butlast_last_id)
    with that False have "r \<in> set zs" by (metis Un_iff empty_iff insert_iff list.set set_append)
    then have "key (last xs) < key r"
      using assms(1) xs by (metis in_set_conv_decomp list.set_intros(1) sorted_wrt_append)
    then show ?thesis by simp
  qed simp
  moreover have "key r < key (last xs)" if "r \<in> set ys" for r
    using assms that by (simp add: sorted_wrt_append)
  ultimately show ?thesis by (auto intro: filter_True simp: filter_empty_conv)
qed

definition page_cut :: "('r \<Rightarrow> int \<times> string) \<Rightarrow> nat \<Rightarrow> 'r list \<Rightarrow> 'r list \<times> string option" where
  \<comment> \<open>what a page is of the rows that are left to list\<close>
  "page_cut key limit ys = (take limit ys,
     if limit < length ys
     then Some (encodeCursor (fst (key (last (take limit ys)))) (snd (key (last (take limit ys)))))
     else None)"

lemma page_cut_rows:
  assumes "0 < limit"
  shows "(let rows = take (limit + 1) ys; items = take limit rows in
    (items, if limit < length rows \<and> items \<noteq> []
            then Some (encodeCursor (fst (key (last items))) (snd (key (last items)))) else None))
   = page_cut key limit ys"
proof -
  have "take limit (take (limit + 1) ys) = take limit ys" by (simp add: min_def)
  moreover have "limit < length (take (limit + 1) ys) \<longleftrightarrow> limit < length ys" by auto
  moreover have "limit < length ys \<Longrightarrow> take limit ys \<noteq> []" using assms by auto
  ultimately show ?thesis by (auto simp: page_cut_def Let_def)
qed

lemma list_page_first:
  assumes "0 < limit"
  shows "list_page key scope limit None table = page_cut key limit (order_desc key (filter scope table))"
  unfolding list_page_def page_cut_rows[OF assms, symmetric] by simp

lemma list_page_next:
  assumes "0 < limit" and "distinct (map key table)"
    and "order_desc key (filter scope table) = xs @ ys" and "xs \<noteq> []"
  shows "list_page key scope limit (Some (encodeCursor (fst (key (last xs))) (snd (key (last xs))))) table =
    page_cut key limit ys"
proof -
  have "distinct (map key (filter scope table))" using assms(2) by (simp add: distinct_map_filter)
  then have "sorted_wrt (\<lambda>r s. key s < key r) (xs @ ys)"
    using strictly_desc assms(3) by metis
  then have "filter (\<lambda>r. key r < key (last xs)) (order_desc key (filter scope table)) = ys"
    using filter_below_last assms(3,4) by metis
  then have rest: "order_desc key (filter (\<lambda>r. scope r \<and> key r < key (last xs)) table) = ys"
    by (simp add: filter_order_desc conj_commute)
  have "(fst (key r) < fst (key (last xs)) \<or> fst (key r) = fst (key (last xs)) \<and> snd (key r) < snd (key (last xs)))
      = (key r < key (last xs))" for r
    by (auto simp: less_prod_def)
  then have "order_desc key (filter (\<lambda>r. scope r \<and> (fst (key r) < fst (key (last xs)) \<or>
      fst (key r) = fst (key (last xs)) \<and> snd (key r) < snd (key (last xs)))) table) = ys"
    using rest by simp
  then show ?thesis
    unfolding list_page_def page_cut_rows[OF assms(1), symmetric]
    by (simp add: decode_encode_cursor split_beta del: length_order_desc length_take)
qed

lemma fetch_pages_rest:
  assumes "0 < limit" and "distinct (map key table)"
    and "order_desc key (filter scope table) = xs @ ys" and "xs \<noteq> []" and "length ys < fuel"
  shows "fetch_pages (\<lambda>c. list_page key scope limit c table) fuel
      (Some (encodeCursor (fst (key (last xs))) (snd (key (last xs))))) = Some ys"
  using assms(3-5)
proof (induction fuel arbitrary: xs ys)
  case (Suc fuel)
  note page = list_page_next[OF assms(1,2) Suc.prems(1,2)]
  show ?case
  proof (cases "limit < length ys")
    case False
    then show ?thesis by (simp add: page page_cut_def)
  next
    case True
    let ?items = "take limit ys" and ?rest = "drop limit ys"
    have ne: "?items \<noteq> []" using True assms(1) by auto
    then have "last (xs @ ?items) = last ?items" by simp
    moreover have "order_desc key (filter scope table) = (xs @ ?items) @ ?rest"
      using Suc.prems(1) by simp
    moreover have "length ?rest < fuel" using Suc.prems(3) True assms(1) by simp
    ultimately have "fetch_pages (\<lambda>c. list_page key scope limit c table) fuel
        (Some (encodeCursor (fst (key (last ?items))) (snd (key (last ?items))))) = Some ?rest"
      using Suc.IH[of "xs @ ?items" ?rest] Suc.prems(2) by simp
    then show ?thesis using True by (simp add: page page_cut_def)
  qed
qed simp

lemma fetch_all_pages:
  assumes "0 < limit" and "distinct (map key table)"
  shows "fetch_pages (\<lambda>c. list_page key scope limit c table) (length table + 1) None
    = Some (order_desc key (filter scope table))"
proof -
  let ?all = "order_desc key (filter scope table)"
  have len: "length ?all \<le> length table" by simp
  show ?thesis
  proof (cases "limit < length ?all")
    case False
    then show ?thesis by (simp add: list_page_first[OF assms(1)] page_cut_def)
  next
    case True
    let ?items = "take limit ?all" and ?rest = "drop limit ?all"
    have "?all \<noteq> []" using True by force
    then have ne: "?items \<noteq> []" using assms(1) by simp
    have eq: "?all = ?items @ ?rest" by simp
    have "length ?rest < length table" using True assms(1) len unfolding length_drop by linarith
    then have "fetch_pages (\<lambda>c. list_page key scope limit c table) (length table)
        (Some (encodeCursor (fst (key (last ?items))) (snd (key (last ?items))))) = Some ?rest"
      by (rule fetch_pages_rest[OF assms eq ne])
    then show ?thesis
      using True by (simp add: list_page_first[OF assms(1)] page_cut_def del: length_order_desc)
  qed
qed

section \<open>The database\<close>

text \<open>
  \<open>assets\<close> rows carry, beside the model's fields, the columns only this file touches: the
  access mode as stored, the password material and its counter, and the 0/1 \<open>spa\<close> flag.
  The \<open>a_access\<close> and \<open>a_spa\<close> fields of \<open>row_asset\<close> are not columns.
\<close>

record asset_row =
  row_asset :: asset
  row_access :: "string option"
  row_hash :: "string option"
  row_salt :: "string option"
  row_pw_version :: nat
  row_spa :: int

record site_host =
  sh_hostname :: string
  sh_assetId :: "string option"
  sh_projectId :: string
  sh_kind :: site_host_kind
  sh_verifiedAt :: "int option"
  sh_verificationToken :: "string option"
  sh_certificateStatus :: "string option"
  sh_disabledAt :: "int option"
  sh_previews :: bool
  sh_releasedAt :: "int option"
  sh_createdAt :: int
  sh_createdBy :: "string option"

record database =
  db_workspaces :: "workspace list"
  db_members :: "member list"
  db_projects :: "project list"
  db_jobs :: "job list"
  db_assets :: "asset_row list"
  db_versions :: "version list"
  db_usage :: "storage_usage list"
  db_cleanup :: "pending_cleanup list"
  db_hosts :: "site_host list"

definition member_key :: "member \<Rightarrow> string \<times> string" where
  "member_key m = (m_workspaceId m, m_userId m)"

definition asset_row_id :: "asset_row \<Rightarrow> string" where
  "asset_row_id r = a_id (row_asset r)"

definition database_ok :: "database \<Rightarrow> bool" where
  \<comment> \<open>the primary keys of the schema, and \<open>UNIQUE(asset_id, version)\<close>\<close>
  "database_ok db \<longleftrightarrow>
     distinct (map ws_id (db_workspaces db)) \<and> distinct (map member_key (db_members db))
     \<and> distinct (map p_id (db_projects db)) \<and> distinct (map j_id (db_jobs db))
     \<and> distinct (map asset_row_id (db_assets db)) \<and> distinct (map v_id (db_versions db))
     \<and> distinct (map (\<lambda>v. (v_assetId v, v_version v)) (db_versions db))
     \<and> distinct (map su_scope (db_usage db)) \<and> distinct (map pc_prefix (db_cleanup db))
     \<and> distinct (map sh_hostname (db_hosts db))"

lemma find_row_simps [simp]:
  "find_row key k [] = None"
  "find_row key k (r # t) = (if key r = k then Some r else find_row key k t)"
  by (simp_all add: find_row_def)

lemma find_row_None [simp]: "find_row key k t = None \<longleftrightarrow> k \<notin> key ` set t"
  by (induction t) auto

lemma find_row_Some: "find_row key k t = Some r \<Longrightarrow> r \<in> set t \<and> key r = k"
  by (induction t) (auto split: if_splits)

lemma find_row_Some_iff:
  "distinct (map key t) \<Longrightarrow> find_row key k t = Some r \<longleftrightarrow> r \<in> set t \<and> key r = k"
  by (induction t) (auto split: if_splits)

lemma find_row_append:
  "find_row key k (s @ t) = (case find_row key k s of None \<Rightarrow> find_row key k t | Some r \<Rightarrow> Some r)"
  by (induction s) auto

lemma find_row_filter:
  "(\<And>r. key r = k \<Longrightarrow> P r) \<Longrightarrow> find_row key k (filter P t) = find_row key k t"
  by (induction t) auto

lemma find_replace_row [simp]:
  "find_row key k (replace_row key r t) = (if k = key r then Some r else find_row key k t)"
proof (cases "k = key r")
  case True
  have "find_row key k (filter (\<lambda>x. key x \<noteq> key r) t) = None" using True by auto
  then show ?thesis
    using True by (simp add: replace_row_def find_row_append del: find_row_None)
next
  case False
  then show ?thesis
    by (cases "find_row key k t")
      (simp_all add: replace_row_def find_row_append find_row_filter del: find_row_None)
qed

lemma set_replace_row: "set (replace_row key r t) = insert r {x \<in> set t. key x \<noteq> key r}"
  by (auto simp: replace_row_def)

lemma distinct_replace_row: "distinct (map key t) \<Longrightarrow> distinct (map key (replace_row key r t))"
  by (auto simp: replace_row_def distinct_map_filter)

lemma distinct_delete_rows: "distinct (map key t) \<Longrightarrow> distinct (map key (delete_rows P t))"
  by (simp add: delete_rows_def distinct_map_filter)

lemma map_update_rows: "(\<And>r. key (f r) = key r) \<Longrightarrow> map key (update_rows P f t) = map key t"
  by (simp add: update_rows_def)

lemma set_delete_rows [simp]: "set (delete_rows P t) = {r \<in> set t. \<not> P r}"
  by (auto simp: delete_rows_def)

lemma find_delete_rows:
  "find_row key k (delete_rows (\<lambda>r. key r = k') t) = (if k = k' then None else find_row key k t)"
  by (induction t) (auto simp: delete_rows_def)

lemma find_update_rows:
  assumes "\<And>r. key (f r) = key r"
  shows "find_row key k (update_rows (\<lambda>r. key r = k') f t)
    = (if k = k' then map_option f (find_row key k t) else find_row key k t)"
  using assms by (induction t) (auto simp: update_rows_def)

section \<open>Workspaces, members, projects\<close>

definition MEMBER_LIST_LIMIT :: nat where "MEMBER_LIST_LIMIT = 200"
definition PROJECT_LIST_LIMIT :: nat where "PROJECT_LIST_LIMIT = 200"

definition workspace_save :: "workspace \<Rightarrow> database \<Rightarrow> database" where
  "workspace_save w db = db\<lparr>db_workspaces := replace_row ws_id w (db_workspaces db)\<rparr>"

definition workspace_find :: "string \<Rightarrow> database \<Rightarrow> workspace option" where
  "workspace_find id' db = find_row ws_id id' (db_workspaces db)"

definition workspace_delete :: "string \<Rightarrow> database \<Rightarrow> database" where
  "workspace_delete id' db = db\<lparr>db_workspaces := delete_rows (\<lambda>w. ws_id w = id') (db_workspaces db)\<rparr>"

definition member_save :: "member \<Rightarrow> database \<Rightarrow> database" where
  "member_save m db = db\<lparr>db_members := replace_row member_key m (db_members db)\<rparr>"

definition member_find :: "string \<Rightarrow> string \<Rightarrow> database \<Rightarrow> member option" where
  "member_find workspaceId userId db = find_row member_key (workspaceId, userId) (db_members db)"

definition member_list :: "string \<Rightarrow> database \<Rightarrow> member list" where
  "member_list workspaceId db =
     take MEMBER_LIST_LIMIT
       (order_asc m_createdAt (filter (\<lambda>m. m_workspaceId m = workspaceId) (db_members db)))"

definition member_listForCaller :: "string option \<Rightarrow> database \<Rightarrow> member list" where
  "member_listForCaller callerId db =
     (case callerId of None \<Rightarrow> []
      | Some c \<Rightarrow> order_asc m_createdAt (filter (\<lambda>m. m_userId m = c) (db_members db)))"

definition member_delete :: "string \<Rightarrow> string \<Rightarrow> database \<Rightarrow> database" where
  "member_delete workspaceId userId db =
     db\<lparr>db_members := delete_rows (\<lambda>m. member_key m = (workspaceId, userId)) (db_members db)\<rparr>"

definition project_save :: "project \<Rightarrow> database \<Rightarrow> database" where
  "project_save p db = db\<lparr>db_projects := replace_row p_id p (db_projects db)\<rparr>"

definition project_find :: "string \<Rightarrow> database \<Rightarrow> project option" where
  "project_find id' db = find_row p_id id' (db_projects db)"

definition project_list :: "project_scope \<Rightarrow> database \<Rightarrow> project list" where
  "project_list scope db =
     (case scope of
        InWorkspace w \<Rightarrow>
          take PROJECT_LIST_LIMIT
            (order_desc p_createdAt (filter (\<lambda>p. p_workspaceId p = Some w) (db_projects db)))
      | CreatedBy ownerId memberOf \<Rightarrow>
          take PROJECT_LIST_LIMIT
            (order_desc p_createdAt
              (filter (\<lambda>p. p_ownerId p = ownerId \<and>
                 (case p_workspaceId p of None \<Rightarrow> True | Some w \<Rightarrow> w \<in> set memberOf)) (db_projects db))))"

definition project_delete :: "string \<Rightarrow> database \<Rightarrow> database" where
  "project_delete id' db = db\<lparr>db_projects := delete_rows (\<lambda>p. p_id p = id') (db_projects db)\<rparr>"

lemmas tenancy_defs = workspace_save_def workspace_find_def workspace_delete_def member_save_def
  member_find_def member_delete_def project_save_def project_find_def project_delete_def

lemma tenancy_writes_ok:
  assumes "database_ok db"
  shows "database_ok (workspace_save w db)" and "database_ok (workspace_delete i db)"
    and "database_ok (member_save m db)" and "database_ok (member_delete i u db)"
    and "database_ok (project_save p db)" and "database_ok (project_delete i db)"
  using assms
  by (simp_all add: database_ok_def tenancy_defs distinct_replace_row distinct_delete_rows)

lemma member_find_iff:
  "database_ok db \<Longrightarrow> member_find w u db = Some m \<longleftrightarrow>
     m \<in> set (db_members db) \<and> m_workspaceId m = w \<and> m_userId m = u"
  by (auto simp: database_ok_def member_find_def find_row_Some_iff member_key_def)

lemma set_member_list: "set (member_list w db) \<subseteq> {m \<in> set (db_members db). m_workspaceId m = w}"
  by (auto simp: member_list_def order_asc_def dest!: in_set_takeD)

lemma set_member_list_all:
  assumes "length (filter (\<lambda>m. m_workspaceId m = w) (db_members db)) \<le> MEMBER_LIST_LIMIT"
  shows "set (member_list w db) = {m \<in> set (db_members db). m_workspaceId m = w}"
  using assms by (auto simp: member_list_def order_asc_def)


end
