(* ===== verification/Asset_Store.thy ===== *)
theory Asset_Store
  imports Sql_Tables "HOL-Library.Multiset"
begin

text \<open>
  The asset side of the SQL repositories (\<open>adapters/sql/stores.ts\<close>): jobs, assets with
  their access columns, versions, the cleanup queue and the storage counters, each operation
  a function on \<open>database\<close>. The operations that read the clock take \<open>now\<close>. A statement
  that can violate a uniqueness constraint returns an option, \<open>None\<close> for the rejected
  statement.
\<close>

section \<open>Scopes\<close>

definition project_in :: "(project \<Rightarrow> bool) \<Rightarrow> project list \<Rightarrow> string option \<Rightarrow> bool" where
  \<comment> \<open>\<open>project_id IN (SELECT id FROM projects WHERE \<dots>)\<close>; \<open>NULL\<close> is in no list\<close>
  "project_in P projects projectId =
     (case projectId of None \<Rightarrow> False
      | Some i \<Rightarrow> list_ex (\<lambda>p. p_id p = i \<and> P p) projects)"

fun buildScopeClause :: "list_scope \<Rightarrow> project list \<Rightarrow> string option \<Rightarrow> string option \<Rightarrow> bool" where
  \<comment> \<open>the \<open>WHERE\<close> clause of a listing on a row's \<open>session_id\<close> and \<open>project_id\<close>\<close>
  "buildScopeClause (SessionScope s) projects sessionId projectId = (sessionId = Some s)"
| "buildScopeClause (ProjectScope p) projects sessionId projectId = (projectId = Some p)"
| "buildScopeClause (WorkspaceScope w) projects sessionId projectId =
     project_in (\<lambda>p. p_workspaceId p = Some w) projects projectId"
| "buildScopeClause (VisibleScope ws ownerId) projects sessionId projectId =
     project_in (\<lambda>p. case p_workspaceId p of
         Some w \<Rightarrow> w \<in> set ws | None \<Rightarrow> p_ownerId p = ownerId) projects projectId"

section \<open>Jobs\<close>

definition jobUpsertArgs :: "job \<Rightarrow> job" where
  \<comment> \<open>the row a job is written as: \<open>retry_count ?? 0\<close>\<close>
  "jobUpsertArgs job = job\<lparr>j_retryCount := Some (case j_retryCount job of None \<Rightarrow> 0 | Some n \<Rightarrow> n)\<rparr>"

definition job_save :: "job \<Rightarrow> database \<Rightarrow> database" where
  "job_save job db = db\<lparr>db_jobs := replace_row j_id (jobUpsertArgs job) (db_jobs db)\<rparr>"

definition job_find :: "string \<Rightarrow> database \<Rightarrow> job option" where
  "job_find id' db = find_row j_id id' (db_jobs db)"

definition job_delete :: "string \<Rightarrow> database \<Rightarrow> database" where
  "job_delete id' db = db\<lparr>db_jobs := delete_rows (\<lambda>j. j_id j = id') (db_jobs db)\<rparr>"

definition job_list ::
  "list_scope \<Rightarrow> nat option \<Rightarrow> string option \<Rightarrow> database \<Rightarrow> job list \<times> string option" where
  "job_list scope limit cursor db =
     list_page (\<lambda>j. (j_createdAt j, j_id j))
       (\<lambda>j. buildScopeClause scope (db_projects db) (j_sessionId j) (j_projectId j))
       (case limit of None \<Rightarrow> 20 | Some l \<Rightarrow> l) cursor (db_jobs db)"

definition coalesce0 :: "int option \<Rightarrow> int" where
  "coalesce0 n = (case n of None \<Rightarrow> 0 | Some k \<Rightarrow> k)"

definition retriable :: "int \<Rightarrow> int \<Rightarrow> job \<Rightarrow> bool" where
  "retriable maxRetries stuckBefore j \<longleftrightarrow>
     (coalesce0 (j_retryCount j) \<le> maxRetries
      \<or> coalesce0 (j_fileCount j) > coalesce0 (j_retryFileCount j)
      \<or> coalesce0 (j_extractedSize j) > coalesce0 (j_retryExtractedSize j))
     \<and> (j_status j = JobFailed
        \<or> j_status j \<in> {JobPending, JobRunning} \<and> j_updatedAt j < stuckBefore)"

definition job_listRetriable :: "int \<Rightarrow> int \<Rightarrow> int \<Rightarrow> nat \<Rightarrow> database \<Rightarrow> job list" where
  "job_listRetriable now stuckThresholdMs maxRetries limit db =
     take limit (order_asc j_updatedAt
       (filter (retriable maxRetries (now - stuckThresholdMs)) (db_jobs db)))"

definition job_listStuckAssets :: "nat \<Rightarrow> database \<Rightarrow> job list" where
  "job_listStuckAssets limit db =
     take limit (order_asc j_updatedAt
       (filter (\<lambda>j. j_status j = JobCompleted \<and> j_versionId j = None \<and>
          list_ex (\<lambda>r. asset_row_id r = j_assetId j \<and>
             a_status (row_asset r) \<in> {Some AssetPending, Some AssetExtracting}) (db_assets db))
        (db_jobs db)))"

section \<open>Assets\<close>

definition json_truthy :: "json option \<Rightarrow> json option" where
  \<comment> \<open>\<open>v ? JSON.stringify(v) : null\<close>\<close>
  "json_truthy v =
     (case v of None \<Rightarrow> None
      | Some j \<Rightarrow> if j \<in> {JNull, JBool False, JNum 0, JStr []} then None else Some j)"

definition assetUpsertArgs :: "asset \<Rightarrow> asset" where
  \<comment> \<open>the columns bound from the model; \<open>access\<close> and \<open>spa\<close> are not among them\<close>
  "assetUpsertArgs asset =
     asset\<lparr>a_userMeta := json_truthy (a_userMeta asset), a_access := None, a_spa := None\<rparr>"

definition asset_save :: "asset \<Rightarrow> database \<Rightarrow> database" where
  \<comment> \<open>\<open>ASSET_UPSERT_SQL\<close>: the subqueries read the row being replaced\<close>
  "asset_save asset db =
     (let old = find_row asset_row_id (a_id asset) (db_assets db) in
      db\<lparr>db_assets := replace_row asset_row_id
        \<lparr>row_asset = assetUpsertArgs asset,
         row_access = Option.bind old row_access,
         row_hash = Option.bind old row_hash,
         row_salt = Option.bind old row_salt,
         row_pw_version = (case old of None \<Rightarrow> 0 | Some r \<Rightarrow> row_pw_version r),
         row_spa = (case old of None \<Rightarrow> 0 | Some r \<Rightarrow> row_spa r)\<rparr>
        (db_assets db)\<rparr>)"

definition parseAssetRow :: "asset_row \<Rightarrow> asset" where
  "parseAssetRow row = (row_asset row)
     \<lparr>a_access := Some (if row_access row = None \<or> row_access row = Some ''public''
                       then PublicAccess else PasswordAccess),
      a_spa := Some (row_spa row = 1)\<rparr>"

definition asset_find :: "string \<Rightarrow> database \<Rightarrow> asset option" where
  "asset_find id' db = map_option parseAssetRow (find_row asset_row_id id' (db_assets db))"

record asset_patch =
  ap_activeVersionId :: "string option option"
  ap_expiresAt :: "int option"
  ap_description :: "string option"
  ap_userMeta :: "json option"
  ap_spa :: "bool option"

definition patch_asset_row :: "asset_patch \<Rightarrow> asset_row \<Rightarrow> asset_row" where
  "patch_asset_row patch row = (let a = row_asset row in row
     \<lparr>row_asset := a
        \<lparr>a_activeVersionId := (case ap_activeVersionId patch of None \<Rightarrow> a_activeVersionId a | Some v \<Rightarrow> v),
         a_expiresAt := (case ap_expiresAt patch of None \<Rightarrow> a_expiresAt a | Some e \<Rightarrow> e),
         a_description := (case ap_description patch of None \<Rightarrow> a_description a | Some d \<Rightarrow> Some d),
         a_userMeta := (case ap_userMeta patch of None \<Rightarrow> a_userMeta a | Some m \<Rightarrow> json_truthy (Some m))\<rparr>,
      row_spa := (case ap_spa patch of None \<Rightarrow> row_spa row | Some b \<Rightarrow> if b then 1 else 0)\<rparr>)"

definition asset_update :: "string \<Rightarrow> asset_patch \<Rightarrow> database \<Rightarrow> database" where
  \<comment> \<open>a patch that sets nothing issues no statement, which changes nothing either\<close>
  "asset_update id' patch db =
     db\<lparr>db_assets := update_rows (\<lambda>r. asset_row_id r = id') (patch_asset_row patch) (db_assets db)\<rparr>"

definition asset_findProtection :: "string \<Rightarrow> database \<Rightarrow> protection option" where
  "asset_findProtection id' db =
     (case find_row asset_row_id id' (db_assets db) of
        None \<Rightarrow> None
      | Some row \<Rightarrow>
          (case (row_hash row, row_salt row) of
             (Some hash, Some salt) \<Rightarrow>
               if hash = [] \<or> salt = [] then None
               else Some \<lparr>prot_hash = hash, prot_salt = salt, prot_version = row_pw_version row\<rparr>
           | _ \<Rightarrow> None))"

datatype protection_value = MakePublic | MakePassword string string

fun protect_row :: "protection_value \<Rightarrow> asset_row \<Rightarrow> asset_row" where
  "protect_row MakePublic row =
     row\<lparr>row_access := Some ''public'', row_hash := None, row_salt := None\<rparr>"
| "protect_row (MakePassword hash salt) row =
     row\<lparr>row_access := Some ''password'', row_hash := Some hash, row_salt := Some salt,
         row_pw_version := row_pw_version row + 1\<rparr>"

definition asset_setProtection :: "string \<Rightarrow> protection_value \<Rightarrow> database \<Rightarrow> database" where
  "asset_setProtection id' v db =
     db\<lparr>db_assets := update_rows (\<lambda>r. asset_row_id r = id') (protect_row v) (db_assets db)\<rparr>"

definition asset_delete :: "string \<Rightarrow> database \<Rightarrow> database" where
  "asset_delete id' db = db\<lparr>db_assets := delete_rows (\<lambda>r. asset_row_id r = id') (db_assets db)\<rparr>"

definition asset_list ::
  "list_scope \<Rightarrow> nat option \<Rightarrow> string option \<Rightarrow> database \<Rightarrow> asset list \<times> string option" where
  "asset_list scope limit cursor db =
     (let (rows, next') = list_page (\<lambda>r. (a_createdAt (row_asset r), asset_row_id r))
            (\<lambda>r. buildScopeClause scope (db_projects db)
               (a_sessionId (row_asset r)) (a_projectId (row_asset r)))
            (case limit of None \<Rightarrow> 20 | Some l \<Rightarrow> l) cursor (db_assets db)
      in (map parseAssetRow rows, next'))"

definition asset_listExpired :: "int \<Rightarrow> nat \<Rightarrow> database \<Rightarrow> asset list" where
  \<comment> \<open>the statement has no \<open>ORDER BY\<close>: which rows come first is the storage order here\<close>
  "asset_listExpired now limit db =
     map parseAssetRow (take limit
       (filter (\<lambda>r. a_expiresAt (row_asset r) > 0 \<and> a_expiresAt (row_asset r) < now) (db_assets db)))"

section \<open>Versions\<close>

definition next_version :: "string \<Rightarrow> database \<Rightarrow> nat" where
  \<comment> \<open>\<open>SELECT COALESCE(MAX(version), 0) + 1 FROM asset_versions WHERE asset_id = ?\<close>\<close>
  "next_version assetId db =
     foldr max (map v_version (filter (\<lambda>v. v_assetId v = assetId) (db_versions db))) 0 + 1"

definition versionInsertArgs :: "version \<Rightarrow> version" where
  "versionInsertArgs v = v\<lparr>v_userMeta := json_truthy (v_userMeta v)\<rparr>"

definition version_save :: "version \<Rightarrow> database \<Rightarrow> (version \<times> database) option" where
  \<comment> \<open>\<open>None\<close>: the id is taken, the \<open>INSERT\<close> is rejected\<close>
  "version_save v db =
     (if v_id v \<in> v_id ` set (db_versions db) then None
      else let n = next_version (v_assetId v) db in
        Some (v\<lparr>v_version := n\<rparr>,
              db\<lparr>db_versions := db_versions db @ [versionInsertArgs (v\<lparr>v_version := n\<rparr>)]\<rparr>))"

definition version_extraction_update :: "version \<Rightarrow> database \<Rightarrow> database" where
  \<comment> \<open>\<open>VERSION_EXTRACTION_UPDATE_SQL\<close>: the status and the fields of the \<open>meta\<close> column\<close>
  "version_extraction_update v db =
     db\<lparr>db_versions := update_rows (\<lambda>r. v_id r = v_id v)
       (\<lambda>r. r\<lparr>v_status := v_status v, v_contentEncoding := v_contentEncoding v,
              v_originalSize := v_originalSize v, v_archiveFormat := v_archiveFormat v,
              v_fileCount := v_fileCount v, v_extractedSize := v_extractedSize v,
              v_jobId := v_jobId v, v_hosting := v_hosting v\<rparr>) (db_versions db)\<rparr>"

definition version_find :: "string \<Rightarrow> database \<Rightarrow> version option" where
  "version_find id' db = find_row v_id id' (db_versions db)"

definition version_findByAssetId ::
  "string \<Rightarrow> nat option \<Rightarrow> string option \<Rightarrow> database \<Rightarrow> version list \<times> string option" where
  \<comment> \<open>ordered by \<open>version\<close>, but the cursor compares \<open>created_at\<close> and \<open>id\<close>\<close>
  "version_findByAssetId assetId limit' cursor db =
     (let limit = (case limit' of None \<Rightarrow> 20 | Some l \<Rightarrow> l);
          after = (case cursor of None \<Rightarrow> None | Some c \<Rightarrow> if c = [] then None else decodeCursor c);
          matches = (\<lambda>v. v_assetId v = assetId \<and>
            (case after of None \<Rightarrow> True
             | Some (createdAt, id') \<Rightarrow>
                 v_createdAt v < createdAt \<or> (v_createdAt v = createdAt \<and> v_id v < id')));
          rows = take (limit + 1) (order_desc v_version (filter matches (db_versions db)));
          items = take limit rows
      in (items,
          if limit < length rows \<and> items \<noteq> []
          then Some (encodeCursor (v_createdAt (last items)) (v_id (last items)))
          else None))"

definition version_findLatest :: "string \<Rightarrow> database \<Rightarrow> version option" where
  "version_findLatest assetId db =
     (case order_desc v_version (filter (\<lambda>v. v_assetId v = assetId) (db_versions db)) of
        [] \<Rightarrow> None | v # _ \<Rightarrow> Some v)"

definition version_findByAssetAndNumber :: "string \<Rightarrow> nat \<Rightarrow> database \<Rightarrow> version option" where
  "version_findByAssetAndNumber assetId n db =
     find_row (\<lambda>v. (v_assetId v, v_version v)) (assetId, n) (db_versions db)"

record version_patch =
  vp_status :: "asset_status option"
  vp_userMeta :: "json option"
  vp_hosting :: "site_hosting option"

definition version_update :: "string \<Rightarrow> version_patch \<Rightarrow> database \<Rightarrow> database" where
  "version_update id' patch db =
     db\<lparr>db_versions := update_rows (\<lambda>v. v_id v = id')
       (\<lambda>v. v\<lparr>v_status := (case vp_status patch of None \<Rightarrow> v_status v | Some s \<Rightarrow> Some s),
              v_userMeta := (case vp_userMeta patch of None \<Rightarrow> v_userMeta v | Some m \<Rightarrow> json_truthy (Some m)),
              v_hosting := (case vp_hosting patch of None \<Rightarrow> v_hosting v | Some h \<Rightarrow> Some h)\<rparr>)
       (db_versions db)\<rparr>"

definition version_delete :: "string \<Rightarrow> database \<Rightarrow> database" where
  "version_delete id' db = db\<lparr>db_versions := delete_rows (\<lambda>v. v_id v = id') (db_versions db)\<rparr>"

definition versions_size :: "string \<Rightarrow> version list \<Rightarrow> int" where
  \<comment> \<open>\<open>SELECT COALESCE(SUM(size), 0) FROM asset_versions WHERE asset_id = ?\<close>\<close>
  "versions_size assetId vs = sum_list (map v_size (filter (\<lambda>v. v_assetId v = assetId) vs))"

definition version_count :: "string \<Rightarrow> database \<Rightarrow> nat" where
  "version_count assetId db = length (filter (\<lambda>v. v_assetId v = assetId) (db_versions db))"

definition version_deleteByAssetId :: "string \<Rightarrow> database \<Rightarrow> (int \<times> nat) \<times> database" where
  "version_deleteByAssetId assetId db =
     ((versions_size assetId (db_versions db), version_count assetId db),
      db\<lparr>db_versions := delete_rows (\<lambda>v. v_assetId v = assetId) (db_versions db)\<rparr>)"

section \<open>Cleanup queue and storage counters\<close>

definition cleanup_add :: "int \<Rightarrow> string \<Rightarrow> database \<Rightarrow> database" where
  "cleanup_add now prefix' db =
     db\<lparr>db_cleanup := replace_row pc_prefix \<lparr>pc_prefix = prefix', pc_createdAt = now\<rparr> (db_cleanup db)\<rparr>"

definition cleanup_list :: "nat \<Rightarrow> database \<Rightarrow> pending_cleanup list" where
  "cleanup_list limit db = take limit (order_asc pc_createdAt (db_cleanup db))"

definition cleanup_remove :: "string \<Rightarrow> database \<Rightarrow> database" where
  "cleanup_remove prefix' db = db\<lparr>db_cleanup := delete_rows (\<lambda>c. pc_prefix c = prefix') (db_cleanup db)\<rparr>"

definition usage_get :: "string \<Rightarrow> database \<Rightarrow> storage_usage option" where
  "usage_get scope db = find_row su_scope scope (db_usage db)"

definition usage_increment :: "int \<Rightarrow> string \<Rightarrow> int \<Rightarrow> database \<Rightarrow> database" where
  \<comment> \<open>\<open>USAGE_INCREMENT_SQL\<close>\<close>
  "usage_increment now scope sizeBytes db =
     db\<lparr>db_usage :=
       (if scope \<in> su_scope ` set (db_usage db)
        then update_rows (\<lambda>u. su_scope u = scope)
          (\<lambda>u. u\<lparr>su_totalSize := su_totalSize u + sizeBytes, su_assetCount := su_assetCount u + 1,
                 su_updatedAt := now\<rparr>) (db_usage db)
        else db_usage db @ [\<lparr>su_scope = scope, su_totalSize = sizeBytes, su_assetCount = 1, su_updatedAt = now\<rparr>])\<rparr>"

definition usage_decrement :: "int \<Rightarrow> string \<Rightarrow> int \<Rightarrow> database \<Rightarrow> database" where
  "usage_decrement now scope sizeBytes db =
     db\<lparr>db_usage := update_rows (\<lambda>u. su_scope u = scope)
       (\<lambda>u. u\<lparr>su_totalSize := max 0 (su_totalSize u - sizeBytes),
              su_assetCount := max 0 (su_assetCount u - 1), su_updatedAt := now\<rparr>) (db_usage db)\<rparr>"

definition usage_recalculate :: "int \<Rightarrow> string \<Rightarrow> int \<Rightarrow> int \<Rightarrow> database \<Rightarrow> database" where
  "usage_recalculate now scope totalSize assetCount db =
     db\<lparr>db_usage := replace_row su_scope
       \<lparr>su_scope = scope, su_totalSize = totalSize, su_assetCount = assetCount, su_updatedAt = now\<rparr>
       (db_usage db)\<rparr>"

section \<open>Atomic writes\<close>

text \<open>\<open>adapters/sql/writes.ts\<close>: one batch each, applied whole or not at all.\<close>

definition usageStatements :: "int \<Rightarrow> string list \<Rightarrow> int \<Rightarrow> database \<Rightarrow> database" where
  "usageStatements now scopes sizeBytes db = fold (\<lambda>s. usage_increment now s sizeBytes) scopes db"

definition createAsset :: "int \<Rightarrow> asset \<Rightarrow> job option \<Rightarrow> string list \<Rightarrow> database \<Rightarrow> database" where
  "createAsset now asset job usageScopes db =
     (let db1 = (case job of None \<Rightarrow> db | Some j \<Rightarrow> job_save j db)
      in usageStatements now usageScopes (a_size asset) (asset_save asset db1))"

definition createVersion ::
  "int \<Rightarrow> version \<Rightarrow> job option \<Rightarrow> string list \<Rightarrow> database \<Rightarrow> (version \<times> database) option" where
  "createVersion now v job usageScopes db =
     (let db1 = (case job of None \<Rightarrow> db | Some j \<Rightarrow> job_save j db)
      in case version_save v db1 of
           None \<Rightarrow> None
         | Some (saved, db2) \<Rightarrow> Some (saved, usageStatements now usageScopes (v_size v) db2))"

definition usage_decrement_for_asset :: "int \<Rightarrow> string \<Rightarrow> int \<Rightarrow> string \<Rightarrow> database \<Rightarrow> database" where
  \<comment> \<open>\<open>USAGE_DECREMENT_FOR_ASSET_SQL\<close>\<close>
  "usage_decrement_for_asset now scope sizeBytes assetId db =
     (if assetId \<in> asset_row_id ` set (db_assets db)
      then db\<lparr>db_usage := update_rows (\<lambda>u. su_scope u = scope)
        (\<lambda>u. u\<lparr>su_totalSize := max 0 (su_totalSize u - sizeBytes - versions_size assetId (db_versions db)),
               su_assetCount := max 0 (su_assetCount u - 1), su_updatedAt := now\<rparr>) (db_usage db)\<rparr>
      else db)"

definition deleteAsset :: "int \<Rightarrow> asset \<Rightarrow> string list \<Rightarrow> string \<Rightarrow> database \<Rightarrow> database" where
  "deleteAsset now asset usageScopes cleanupPrefix db =
     cleanup_add now cleanupPrefix
       (asset_delete (a_id asset)
         (snd (version_deleteByAssetId (a_id asset)
           (fold (\<lambda>s. usage_decrement_for_asset now s (a_size asset) (a_id asset)) usageScopes db))))"

definition saveJob :: "job \<Rightarrow> asset option \<Rightarrow> version option \<Rightarrow> database \<Rightarrow> database" where
  "saveJob job asset v db =
     (let db1 = job_save job db;
          db2 = (case asset of None \<Rightarrow> db1 | Some a \<Rightarrow> asset_save a db1)
      in case v of None \<Rightarrow> db2 | Some w \<Rightarrow> version_extraction_update w db2)"

section \<open>Site hosts\<close>

text \<open>\<open>adapters/sql/site-hosts.ts\<close>: one row per host name, released rather than deleted.\<close>

definition host_active :: "site_host \<Rightarrow> bool" where
  "host_active h = (sh_releasedAt h = None)"

definition host_find :: "string \<Rightarrow> database \<Rightarrow> site_host option" where
  "host_find hostname db = find_row sh_hostname hostname (db_hosts db)"

definition host_listByAsset :: "string \<Rightarrow> database \<Rightarrow> site_host list" where
  "host_listByAsset assetId db =
     order_asc sh_createdAt (filter (\<lambda>h. sh_assetId h = Some assetId \<and> host_active h) (db_hosts db))"

definition host_listByProject :: "string \<Rightarrow> database \<Rightarrow> site_host list" where
  "host_listByProject projectId db =
     order_asc sh_createdAt (filter (\<lambda>h. sh_projectId h = projectId \<and> host_active h) (db_hosts db))"

definition host_insert :: "site_host \<Rightarrow> database \<Rightarrow> bool \<times> database" where
  \<comment> \<open>\<open>INSERT OR IGNORE\<close>\<close>
  "host_insert host db =
     (if sh_hostname host \<in> sh_hostname ` set (db_hosts db) then (False, db)
      else (True, db\<lparr>db_hosts := db_hosts db @ [host]\<rparr>))"

record site_host_patch =
  hp_disabledAt :: "int option option"
  hp_previews :: "bool option"
  hp_verifiedAt :: "int option option"
  hp_certificateStatus :: "string option option"

definition patch_host :: "site_host_patch \<Rightarrow> site_host \<Rightarrow> site_host" where
  "patch_host patch h = h
     \<lparr>sh_disabledAt := (case hp_disabledAt patch of None \<Rightarrow> sh_disabledAt h | Some v \<Rightarrow> v),
      sh_previews := (case hp_previews patch of None \<Rightarrow> sh_previews h | Some v \<Rightarrow> v),
      sh_verifiedAt := (case hp_verifiedAt patch of None \<Rightarrow> sh_verifiedAt h | Some v \<Rightarrow> v),
      sh_certificateStatus := (case hp_certificateStatus patch of None \<Rightarrow> sh_certificateStatus h | Some v \<Rightarrow> v)\<rparr>"

definition host_update :: "string \<Rightarrow> site_host_patch \<Rightarrow> database \<Rightarrow> database" where
  "host_update hostname patch db =
     db\<lparr>db_hosts := update_rows (\<lambda>h. sh_hostname h = hostname \<and> host_active h) (patch_host patch) (db_hosts db)\<rparr>"

definition host_remove :: "string \<Rightarrow> database \<Rightarrow> database" where
  "host_remove hostname db = db\<lparr>db_hosts := delete_rows (\<lambda>h. sh_hostname h = hostname) (db_hosts db)\<rparr>"

definition host_release :: "string \<Rightarrow> int \<Rightarrow> database \<Rightarrow> database" where
  "host_release hostname releasedAt db =
     db\<lparr>db_hosts := update_rows (\<lambda>h. sh_hostname h = hostname \<and> host_active h)
       (\<lambda>h. h\<lparr>sh_releasedAt := Some releasedAt, sh_assetId := None\<rparr>) (db_hosts db)\<rparr>"

definition host_releaseByAsset :: "string \<Rightarrow> int \<Rightarrow> database \<Rightarrow> string list \<times> database" where
  "host_releaseByAsset assetId releasedAt db =
     (map sh_hostname (filter (\<lambda>h. sh_assetId h = Some assetId \<and> host_active h) (db_hosts db)),
      db\<lparr>db_hosts := update_rows (\<lambda>h. sh_assetId h = Some assetId \<and> host_active h)
        (\<lambda>h. h\<lparr>sh_releasedAt := Some releasedAt, sh_assetId := None\<rparr>) (db_hosts db)\<rparr>)"

definition host_countActiveByProject :: "string \<Rightarrow> database \<Rightarrow> nat" where
  "host_countActiveByProject projectId db =
     length (filter (\<lambda>h. sh_projectId h = projectId \<and> host_active h) (db_hosts db))"

definition host_purgeReleasedBefore :: "int \<Rightarrow> nat \<Rightarrow> database \<Rightarrow> string list \<times> database" where
  "host_purgeReleasedBefore before limit db =
     (let chosen = map sh_hostname (take limit (order_asc (\<lambda>h. case sh_releasedAt h of None \<Rightarrow> 0 | Some t \<Rightarrow> t)
            (filter (\<lambda>h. case sh_releasedAt h of None \<Rightarrow> False | Some t \<Rightarrow> t < before) (db_hosts db))))
      in (map sh_hostname (filter (\<lambda>h. sh_hostname h \<in> set chosen) (db_hosts db)),
          db\<lparr>db_hosts := delete_rows (\<lambda>h. sh_hostname h \<in> set chosen) (db_hosts db)\<rparr>))"

section \<open>Lemmas\<close>

lemma fetch_pages_map:
  "fetch_pages (\<lambda>c. case page c of (rows, n) \<Rightarrow> (map f rows, n)) fuel cursor
   = map_option (map f) (fetch_pages page fuel cursor)"
  by (induction page fuel cursor rule: fetch_pages.induct)
    (auto split: prod.splits option.splits simp: option.map_comp o_def)

lemma distinct_page_key: "distinct (map k t) \<Longrightarrow> distinct (map (\<lambda>r. (c r, k r)) t)"
  by (auto simp: distinct_map inj_on_def)

text \<open>
  A client that follows the cursors of the asset listing receives every asset of the
  scope, newest first, each exactly once, and the listing ends. (Nothing is written while
  the pages are read; \<open>fetch_pages\<close> is the client's loop.)
\<close>

theorem asset_pages_complete:
  assumes "0 < limit" and "database_ok db"
  shows "fetch_pages (\<lambda>c. asset_list scope (Some limit) c db) (length (db_assets db) + 1) None
    = Some (map parseAssetRow (order_desc (\<lambda>r. (a_createdAt (row_asset r), asset_row_id r))
        (filter (\<lambda>r. buildScopeClause scope (db_projects db)
           (a_sessionId (row_asset r)) (a_projectId (row_asset r))) (db_assets db))))"
proof -
  have "distinct (map (\<lambda>r. (a_createdAt (row_asset r), asset_row_id r)) (db_assets db))"
    using assms(2) by (simp add: database_ok_def distinct_page_key)
  from fetch_all_pages[OF assms(1) this] show ?thesis
    by (simp add: asset_list_def fetch_pages_map)
qed

lemma job_pages_complete:
  assumes "0 < limit" and "database_ok db"
  shows "fetch_pages (\<lambda>c. job_list scope (Some limit) c db) (length (db_jobs db) + 1) None
    = Some (order_desc (\<lambda>j. (j_createdAt j, j_id j))
        (filter (\<lambda>j. buildScopeClause scope (db_projects db) (j_sessionId j) (j_projectId j)) (db_jobs db)))"
proof -
  have "distinct (map (\<lambda>j. (j_createdAt j, j_id j)) (db_jobs db))"
    using assms(2) by (simp add: database_ok_def distinct_page_key)
  from fetch_all_pages[OF assms(1) this] show ?thesis by (simp add: job_list_def)
qed

definition asset_row_of :: "string \<Rightarrow> database \<Rightarrow> asset_row option" where
  "asset_row_of i db = find_row asset_row_id i (db_assets db)"

definition asset_guard :: "asset_row option \<Rightarrow> (string option \<times> string option \<times> string option \<times> nat) option" where
  \<comment> \<open>what protects an asset\<close>
  "asset_guard row =
     map_option (\<lambda>r. (row_access r, row_hash r, row_salt r, row_pw_version r)) row"

lemma asset_row_id_simps [simp]:
  "asset_row_id (patch_asset_row patch row) = asset_row_id row"
  "asset_row_id (protect_row v row) = asset_row_id row"
  by (simp_all add: asset_row_id_def patch_asset_row_def Let_def) (cases v; simp)

lemma asset_row_of_update:
  "asset_row_of i (asset_update i' patch db) =
     (if i = i' then map_option (patch_asset_row patch) (asset_row_of i db) else asset_row_of i db)"
  by (simp add: asset_row_of_def asset_update_def find_update_rows)

lemma asset_row_of_protect:
  "asset_row_of i (asset_setProtection i' v db) =
     (if i = i' then map_option (protect_row v) (asset_row_of i db) else asset_row_of i db)"
  by (simp add: asset_row_of_def asset_setProtection_def find_update_rows)

lemma asset_row_of_save:
  "asset_row_of i (asset_save a db) =
     (if i = a_id a then Some
        \<lparr>row_asset = assetUpsertArgs a,
         row_access = Option.bind (asset_row_of i db) row_access,
         row_hash = Option.bind (asset_row_of i db) row_hash,
         row_salt = Option.bind (asset_row_of i db) row_salt,
         row_pw_version = (case asset_row_of i db of None \<Rightarrow> 0 | Some r \<Rightarrow> row_pw_version r),
         row_spa = (case asset_row_of i db of None \<Rightarrow> 0 | Some r \<Rightarrow> row_spa r)\<rparr>
      else asset_row_of i db)"
  by (simp add: asset_row_of_def asset_save_def Let_def asset_row_id_def assetUpsertArgs_def)

lemma asset_row_of_other [simp]:
  "asset_row_of i (job_save j db) = asset_row_of i db"
  "asset_row_of i (version_extraction_update v db) = asset_row_of i db"
  "asset_row_of i (usage_increment now s n db) = asset_row_of i db"
  "asset_row_of i (usageStatements now ss n db) = asset_row_of i db"
  "asset_row_of i (cleanup_add now p db) = asset_row_of i db"
proof -
  show inc: "asset_row_of i (usage_increment now s n db) = asset_row_of i db" for s db
    by (simp add: asset_row_of_def usage_increment_def)
  show "asset_row_of i (usageStatements now ss n db) = asset_row_of i db"
    unfolding usageStatements_def by (induction ss arbitrary: db) (simp_all add: inc)
qed (simp_all add: asset_row_of_def job_save_def version_extraction_update_def cleanup_add_def)

lemma asset_row_of_version_save:
  "version_save v db = Some (w, db') \<Longrightarrow> asset_row_of i db' = asset_row_of i db"
  by (auto simp: version_save_def Let_def asset_row_of_def split: if_splits)

lemma asset_row_of_createVersion:
  "createVersion now v j ss db = Some (w, db') \<Longrightarrow> asset_row_of i db' = asset_row_of i db"
  by (auto simp: createVersion_def Let_def dest!: asset_row_of_version_save split: option.splits prod.splits)

lemma findProtection_row: "asset_findProtection i db = asset_findProtection i db' \<and>
    map_option a_access (asset_find i db) = map_option a_access (asset_find i db')"
  if "asset_guard (asset_row_of i db) = asset_guard (asset_row_of i db')"
  using that
  by (cases "asset_row_of i db"; cases "asset_row_of i db'")
    (auto simp: asset_guard_def asset_row_of_def asset_findProtection_def asset_find_def parseAssetRow_def
      simp del: find_row_None split: option.splits)

section \<open>Protection across writes\<close>

text \<open>Every statement of the code that writes an asset row, except its deletion.\<close>

datatype asset_write =
    WSaveJob job "asset option" "version option"
  | WCreateAsset int asset "job option" "string list"
  | WCreateVersion int version "job option" "string list"
  | WUpdate string asset_patch
  | WProtect string protection_value

fun apply_write :: "asset_write \<Rightarrow> database \<Rightarrow> database" where
  "apply_write (WSaveJob j a v) db = saveJob j a v db"
| "apply_write (WCreateAsset now a j ss) db = createAsset now a j ss db"
| "apply_write (WCreateVersion now v j ss) db =
     (case createVersion now v j ss db of None \<Rightarrow> db | Some (_, db') \<Rightarrow> db')"
| "apply_write (WUpdate i patch) db = asset_update i patch db"
| "apply_write (WProtect i v) db = asset_setProtection i v db"

lemma asset_guard_save:
  "asset_row_of i db \<noteq> None \<Longrightarrow> asset_guard (asset_row_of i (asset_save a db)) = asset_guard (asset_row_of i db)"
  by (cases "asset_row_of i db") (auto simp: asset_row_of_save asset_guard_def)

lemma asset_guard_write:
  assumes "asset_row_of i db \<noteq> None" and "\<And>v. w \<noteq> WProtect i v"
  shows "asset_guard (asset_row_of i (apply_write w db)) = asset_guard (asset_row_of i db)"
proof (cases w)
  case (WSaveJob j a v)
  then show ?thesis
    using assms(1) by (cases a; cases v) (simp_all add: saveJob_def asset_guard_save)
next
  case (WCreateAsset now a j ss)
  then show ?thesis
    using assms(1) by (cases j) (simp_all add: createAsset_def asset_guard_save)
next
  case (WCreateVersion now v j ss)
  then show ?thesis
    by (auto simp: asset_row_of_createVersion split: option.splits)
next
  case (WUpdate i' patch)
  then show ?thesis
    by (cases "asset_row_of i db")
      (auto simp: asset_row_of_update asset_guard_def patch_asset_row_def Let_def)
next
  case (WProtect i' v)
  then show ?thesis using assms(2) by (auto simp: asset_row_of_protect)
qed

lemma asset_exists_write: "asset_row_of i db \<noteq> None \<Longrightarrow> asset_row_of i (apply_write w db) \<noteq> None"
proof -
  assume ex: "asset_row_of i db \<noteq> None"
  show ?thesis
  proof (cases "\<exists>v. w = WProtect i v")
    case True
    with ex show ?thesis by (auto simp: asset_row_of_protect)
  next
    case False
    with ex have "asset_guard (asset_row_of i (apply_write w db)) = asset_guard (asset_row_of i db)"
      by (intro asset_guard_write) auto
    with ex show ?thesis by (auto simp: asset_guard_def)
  qed
qed

lemma asset_exists_writes: "asset_row_of i db \<noteq> None \<Longrightarrow> asset_row_of i (fold apply_write ws db) \<noteq> None"
  by (induction ws arbitrary: db) (simp_all add: asset_exists_write del: not_None_eq)

text \<open>
  An asset's password protection and access mode are moved by
  \<open>setProtection\<close> alone: whatever other writes run on the database (job updates that
  rewrite the whole asset row by \<open>INSERT OR REPLACE\<close>, uploads, patches, protection
  changes of other assets), an existing asset keeps its hash, salt, version counter and mode.
\<close>

theorem protection_survives_writes:
  assumes "asset_find i db \<noteq> None" and "\<forall>v. WProtect i v \<notin> set ws"
  shows "asset_findProtection i (fold apply_write ws db) = asset_findProtection i db \<and>
    map_option a_access (asset_find i (fold apply_write ws db)) = map_option a_access (asset_find i db)"
proof -
  have "asset_row_of i db \<noteq> None" using assms(1) by (auto simp: asset_find_def asset_row_of_def)
  then have "asset_guard (asset_row_of i (fold apply_write ws db)) = asset_guard (asset_row_of i db)"
    using assms(2)
  proof (induction ws arbitrary: db)
    case (Cons w ws)
    then have "asset_row_of i (apply_write w db) \<noteq> None" by (intro asset_exists_write)
    moreover have "\<And>v. w \<noteq> WProtect i v" using Cons.prems(2) by auto
    then have "asset_guard (asset_row_of i (apply_write w db)) = asset_guard (asset_row_of i db)"
      by (rule asset_guard_write[OF Cons.prems(1)])
    ultimately show ?case using Cons.IH[of "apply_write w db"] Cons.prems(2) by simp
  qed simp
  then show ?thesis by (rule findProtection_row)
qed

definition pw_version :: "string \<Rightarrow> database \<Rightarrow> nat" where
  "pw_version i db = (case asset_row_of i db of None \<Rightarrow> 0 | Some r \<Rightarrow> row_pw_version r)"

lemma pw_version_guard:
  "asset_guard (asset_row_of i db') = asset_guard (asset_row_of i db) \<Longrightarrow> pw_version i db' = pw_version i db"
  by (cases "asset_row_of i db"; cases "asset_row_of i db'") (auto simp: pw_version_def asset_guard_def)

lemma pw_version_write:
  assumes "asset_row_of i db \<noteq> None"
  shows "pw_version i db \<le> pw_version i (apply_write w db)"
proof (cases "\<exists>v. w = WProtect i v")
  case True
  then obtain v where w: "w = WProtect i v" by blast
  obtain r where r: "asset_row_of i db = Some r" using assms by blast
  show ?thesis by (cases v) (simp_all add: w r pw_version_def asset_row_of_protect)
next
  case False
  then have "asset_guard (asset_row_of i (apply_write w db)) = asset_guard (asset_row_of i db)"
    using assms by (intro asset_guard_write) auto
  from pw_version_guard[OF this] show ?thesis by simp
qed

lemma pw_version_writes:
  "asset_row_of i db \<noteq> None \<Longrightarrow> pw_version i db \<le> pw_version i (fold apply_write ws db)"
proof (induction ws arbitrary: db)
  case (Cons w ws)
  have "pw_version i db \<le> pw_version i (apply_write w db)" by (rule pw_version_write[OF Cons.prems])
  also have "\<dots> \<le> pw_version i (fold apply_write (w # ws) db)"
    using Cons.IH[of "apply_write w db"] asset_exists_write[OF Cons.prems] by simp
  finally show ?case .
qed simp

text \<open>
  A password version is never used twice. When an asset's password is set and the asset
  goes through any further writes, unprotecting included, a later password carries a strictly
  larger version, so a cookie minted for the earlier one names a version that does not come back.
\<close>

theorem password_version_never_reused:
  assumes "asset_findProtection i db = Some p"
    and "asset_findProtection i (asset_setProtection i (MakePassword h s) (fold apply_write ws db)) = Some q"
  shows "prot_version p < prot_version q"
proof -
  have row: "asset_row_of i db \<noteq> None" and p: "prot_version p = pw_version i db"
    using assms(1)
    by (auto simp: asset_findProtection_def asset_row_of_def pw_version_def split: option.splits if_splits
        simp del: find_row_None)
  from row have le: "pw_version i db \<le> pw_version i (fold apply_write ws db)"
    by (intro pw_version_writes)
  have ex: "asset_row_of i (fold apply_write ws db) \<noteq> None"
    by (rule asset_exists_writes[OF row])
  let ?db = "fold apply_write ws db"
  have "prot_version q = pw_version i (asset_setProtection i (MakePassword h s) ?db)"
    using assms(2)
    by (auto simp: asset_findProtection_def asset_row_of_def pw_version_def split: option.splits if_splits
        simp del: find_row_None)
  also have "\<dots> = pw_version i ?db + 1"
    using ex by (auto simp: pw_version_def asset_row_of_protect)
  finally show ?thesis using p le by simp
qed

definition blank_asset :: "string \<Rightarrow> asset" where
  \<comment> \<open>a small stored asset, for the worked instances of the properties\<close>
  "blank_asset i = \<lparr>a_id = i, a_filename = ''f'', a_contentType = ''text/plain'', a_size = 10,
     a_createdAt = 1, a_expiresAt = 0, a_contentEncoding = None, a_originalSize = None, a_type = None,
     a_status = None, a_archiveFormat = None, a_fileCount = None, a_extractedSize = None, a_jobId = None,
     a_sessionId = Some ''s'', a_projectId = None, a_activeVersionId = None, a_description = None,
     a_userMeta = None, a_access = None, a_spa = None, a_hosting = None\<rparr>"

definition empty_database :: database where
  "empty_database = \<lparr>db_workspaces = [], db_members = [], db_projects = [], db_jobs = [], db_assets = [],
     db_versions = [], db_usage = [], db_cleanup = [], db_hosts = []\<rparr>"

definition locked_database :: database where
  "locked_database = asset_setProtection ''a'' (MakePassword ''h'' ''s'')
     (asset_save (blank_asset ''a'') empty_database)"

lemma asset_pages_complete_witness:
  "fetch_pages (\<lambda>c. asset_list (SessionScope ''s'') (Some 1) c locked_database)
     (length (db_assets locked_database) + 1) None
   = Some (map parseAssetRow (order_desc (\<lambda>r. (a_createdAt (row_asset r), asset_row_id r))
        (filter (\<lambda>r. buildScopeClause (SessionScope ''s'') (db_projects locked_database)
           (a_sessionId (row_asset r)) (a_projectId (row_asset r))) (db_assets locked_database))))"
  by (rule asset_pages_complete)
    (simp_all add: database_ok_def locked_database_def empty_database_def asset_save_def
      asset_setProtection_def update_rows_def replace_row_def Let_def)

lemma locked_asset:
  "asset_find ''a'' locked_database \<noteq> None"
  "asset_findProtection ''a'' locked_database = Some \<lparr>prot_hash = ''h'', prot_salt = ''s'', prot_version = 1\<rparr>"
  by code_simp+

lemma protection_survives_writes_witness:
  "asset_findProtection ''a'' (fold apply_write [WCreateAsset 5 (blank_asset ''b'') None [], WProtect ''b'' MakePublic] locked_database)
     = asset_findProtection ''a'' locked_database"
  using protection_survives_writes[OF locked_asset(1),
      of "[WCreateAsset 5 (blank_asset ''b'') None [], WProtect ''b'' MakePublic]"] by simp

lemma password_version_never_reused_witness:
  "map_option prot_version (asset_findProtection ''a'' locked_database) = Some 1 \<and> (1::nat) < 2"
proof -
  have "asset_findProtection ''a'' (asset_setProtection ''a'' (MakePassword ''k'' ''t'')
      (fold apply_write [WProtect ''a'' MakePublic] locked_database))
    = Some \<lparr>prot_hash = ''k'', prot_salt = ''t'', prot_version = 2\<rparr>"
    by code_simp
  from password_version_never_reused[OF locked_asset(2) this] show ?thesis
    by (simp add: locked_asset(2))
qed

section \<open>Version numbers\<close>

lemma foldr_max_ge: "n \<in> set ns \<Longrightarrow> n \<le> foldr max ns (0::nat)"
  by (induction ns) auto

lemma next_version_greater:
  "v \<in> set (db_versions db) \<Longrightarrow> v_assetId v = a \<Longrightarrow> v_version v < next_version a db"
  unfolding next_version_def
  by (simp add: less_Suc_eq_le foldr_max_ge)

text \<open>
  A saved version gets a number larger than every version the asset already has, is
  stored under it, is the asset's latest, and the uniqueness constraints of the table hold
  afterwards (so no concurrent writer can have been given the same number: the number is
  chosen inside the statement).
\<close>

theorem version_save_numbers:
  assumes "database_ok db" and "version_save v db = Some (saved, db')"
  shows "database_ok db'
    \<and> \<not> list_ex (\<lambda>w. v_assetId w = v_assetId v \<and> v_version saved \<le> v_version w) (db_versions db)
    \<and> map_option v_id (version_findByAssetAndNumber (v_assetId v) (v_version saved) db') = Some (v_id v)"
proof -
  let ?n = "next_version (v_assetId v) db"
  let ?row = "versionInsertArgs (v\<lparr>v_version := ?n\<rparr>)"
  have fresh: "v_id v \<notin> v_id ` set (db_versions db)" and saved: "saved = v\<lparr>v_version := ?n\<rparr>"
    and db': "db' = db\<lparr>db_versions := db_versions db @ [?row]\<rparr>"
    using assms(2) by (auto simp: version_save_def Let_def split: if_splits)
  have row: "v_id ?row = v_id v" "v_assetId ?row = v_assetId v" "v_version ?row = ?n"
    by (simp_all add: versionInsertArgs_def)
  have new: "(v_assetId v, ?n) \<notin> (\<lambda>w. (v_assetId w, v_version w)) ` set (db_versions db)"
    using next_version_greater by fastforce
  have "\<not> list_ex (\<lambda>w. v_assetId w = v_assetId v \<and> ?n \<le> v_version w) (db_versions db)"
    using next_version_greater by (auto simp: list_ex_iff not_le)
  moreover have "database_ok db'"
    using assms(1) fresh new row by (auto simp: database_ok_def db')
  moreover have "version_findByAssetAndNumber (v_assetId v) ?n db' = Some ?row"
  proof -
    have "find_row (\<lambda>v. (v_assetId v, v_version v)) (v_assetId v, ?n) (db_versions db) = None"
      using new by simp
    then show ?thesis
      by (simp add: version_findByAssetAndNumber_def db' find_row_append row del: find_row_None)
  qed
  ultimately show ?thesis using row by (simp add: saved)
qed

definition blank_version :: "string \<Rightarrow> string \<Rightarrow> nat \<Rightarrow> version" where
  "blank_version i a n = \<lparr>v_id = i, v_assetId = a, v_version = n, v_filename = ''f'', v_contentType = ''t'',
     v_size = 5, v_createdAt = 7, v_contentEncoding = None, v_originalSize = None, v_type = None,
     v_status = None, v_archiveFormat = None, v_fileCount = None, v_extractedSize = None, v_jobId = None,
     v_userMeta = None, v_hosting = None\<rparr>"

definition three_versions :: database where
  "three_versions = empty_database\<lparr>db_versions :=
     [blank_version ''m'' ''a'' 1, blank_version ''z'' ''a'' 2, blank_version ''k'' ''a'' 3]\<rparr>"

lemma version_save_numbers_witness:
  "map_option (v_version \<circ> fst) (version_save (blank_version ''q'' ''a'' 0) three_versions) = Some 4 \<and>
   \<not> list_ex (\<lambda>w. v_assetId w = ''a'' \<and> 4 \<le> v_version w) (db_versions three_versions)"
proof -
  have ok: "database_ok three_versions"
    by (simp add: database_ok_def three_versions_def empty_database_def blank_version_def)
  have n: "next_version ''a'' three_versions = 4"
    by (simp add: next_version_def three_versions_def blank_version_def)
  have "version_save (blank_version ''q'' ''a'' 0) three_versions \<noteq> None"
    by (simp add: version_save_def three_versions_def blank_version_def Let_def)
  then obtain saved db' where s: "version_save (blank_version ''q'' ''a'' 0) three_versions = Some (saved, db')"
    by auto
  then have "v_version saved = 4"
    by (auto simp: version_save_def Let_def n blank_version_def split: if_splits)
  with version_save_numbers[OF ok s] s show ?thesis by (simp add: blank_version_def)
qed

text \<open>
  The listing of versions is ordered by \<open>version\<close> while its cursor cuts by
  \<open>(created_at, id)\<close>. Versions written in the same millisecond have ids in no particular
  order, and a client that follows the cursors can then miss versions: here, with pages of
  one, it receives version 3 and is told that the listing ends, though there are three.
\<close>

lemma version_pages_skip:
  "fetch_pages (\<lambda>c. version_findByAssetId ''a'' (Some 1) c three_versions) 5 None
   = Some [blank_version ''k'' ''a'' 3]"
  "fst (version_findByAssetId ''a'' None None three_versions) =
     [blank_version ''k'' ''a'' 3, blank_version ''z'' ''a'' 2, blank_version ''m'' ''a'' 1]"
  by code_simp+

section \<open>Deleting an asset, and the storage counters\<close>

definition usage_total :: "string \<Rightarrow> database \<Rightarrow> int" where
  "usage_total scope db = (case usage_get scope db of None \<Rightarrow> 0 | Some u \<Rightarrow> su_totalSize u)"

definition stored_size :: "version list \<Rightarrow> asset_row \<Rightarrow> int" where
  "stored_size vs r = a_size (row_asset r) + versions_size (asset_row_id r) vs"

definition stored_total :: "(string \<Rightarrow> bool) \<Rightarrow> database \<Rightarrow> int" where
  \<comment> \<open>the bytes of all assets of a scope, versions included\<close>
  "stored_total P db = sum_list (map (stored_size (db_versions db)) (filter (\<lambda>r. P (asset_row_id r)) (db_assets db)))"

lemma usage_total_increment:
  "usage_total scope (usage_increment now s n db) = usage_total scope db + (if s = scope then n else 0)"
proof (cases "s \<in> su_scope ` set (db_usage db)")
  case True
  have f: "find_row su_scope scope (update_rows (\<lambda>u. su_scope u = s)
      (\<lambda>u. u\<lparr>su_totalSize := su_totalSize u + n, su_assetCount := su_assetCount u + 1, su_updatedAt := now\<rparr>) t)
    = (if scope = s then map_option (\<lambda>u. u\<lparr>su_totalSize := su_totalSize u + n, su_assetCount := su_assetCount u + 1, su_updatedAt := now\<rparr>)
        (find_row su_scope scope t) else find_row su_scope scope t)" for t
    by (rule find_update_rows) simp
  have "find_row su_scope s (db_usage db) \<noteq> None" using True by simp
  then show ?thesis
    using True by (auto simp: usage_total_def usage_get_def usage_increment_def f simp del: find_row_None)
next
  case False
  then have "find_row su_scope s (db_usage db) = None" by simp
  then show ?thesis
    using False
    by (auto simp: usage_total_def usage_get_def usage_increment_def find_row_append
        simp del: find_row_None split: option.splits)
qed

lemma usage_total_statements:
  "distinct ss \<Longrightarrow> usage_total scope (usageStatements now ss n db) =
     usage_total scope db + (if scope \<in> set ss then n else 0)"
  unfolding usageStatements_def
  by (induction ss arbitrary: db) (auto simp: usage_total_increment)

lemma usage_frame [simp]:
  "db_assets (usageStatements now ss n db) = db_assets db"
  "db_versions (usageStatements now ss n db) = db_versions db"
proof -
  have "db_assets (usage_increment now s n db) = db_assets db \<and> db_versions (usage_increment now s n db) = db_versions db"
    for s db by (simp add: usage_increment_def)
  then show "db_assets (usageStatements now ss n db) = db_assets db"
    and "db_versions (usageStatements now ss n db) = db_versions db"
    unfolding usageStatements_def by (induction ss arbitrary: db) simp_all
qed

lemma stored_total_frame:
  "db_assets db = db_assets db' \<Longrightarrow> db_versions db = db_versions db' \<Longrightarrow> stored_total P db = stored_total P db'"
  by (simp add: stored_total_def)

lemma usage_total_frame: "db_usage db = db_usage db' \<Longrightarrow> usage_total s db = usage_total s db'"
  by (simp add: usage_total_def usage_get_def)

definition sizes_ok :: "database \<Rightarrow> bool" where
  \<comment> \<open>no negative size, no version of an asset that does not exist, one row per asset\<close>
  "sizes_ok db \<longleftrightarrow> (\<forall>r \<in> set (db_assets db). 0 \<le> a_size (row_asset r))
     \<and> (\<forall>v \<in> set (db_versions db). 0 \<le> v_size v \<and> v_assetId v \<in> asset_row_id ` set (db_assets db))
     \<and> distinct (map asset_row_id (db_assets db))"

lemma versions_size_nonneg: "sizes_ok db \<Longrightarrow> 0 \<le> versions_size a (db_versions db)"
  by (auto simp: versions_size_def sizes_ok_def intro!: sum_list_nonneg)

lemma versions_size_fresh:
  "sizes_ok db \<Longrightarrow> a \<notin> asset_row_id ` set (db_assets db) \<Longrightarrow> versions_size a (db_versions db) = 0"
proof -
  assume "sizes_ok db" and "a \<notin> asset_row_id ` set (db_assets db)"
  then have "filter (\<lambda>v. v_assetId v = a) (db_versions db) = []"
    by (auto simp: sizes_ok_def filter_empty_conv)
  then show ?thesis by (simp add: versions_size_def)
qed

lemma stored_size_nonneg: "sizes_ok db \<Longrightarrow> r \<in> set (db_assets db) \<Longrightarrow> 0 \<le> stored_size (db_versions db) r"
  using versions_size_nonneg[of db] by (simp add: stored_size_def sizes_ok_def)

lemma stored_total_usage [simp]: "stored_total P (usageStatements now ss n db) = stored_total P db"
  by (simp add: stored_total_def)

lemma sizes_ok_usage [simp]: "sizes_ok (usageStatements now ss n db) = sizes_ok db"
  by (simp add: sizes_ok_def)

lemma stored_total_member:
  assumes "sizes_ok db" and "r \<in> set (db_assets db)" and "P (asset_row_id r)"
  shows "stored_size (db_versions db) r \<le> stored_total P db"
  unfolding stored_total_def
  using assms stored_size_nonneg[OF assms(1)]
  by (intro member_le_sum_list) (auto simp: image_iff)

definition exact :: "(string \<Rightarrow> string list) \<Rightarrow> string \<Rightarrow> database \<Rightarrow> bool" where
  \<comment> \<open>the counter of a scope is the number of bytes stored in it\<close>
  "exact scopes scope db \<longleftrightarrow>
     sizes_ok db \<and> usage_total scope db = stored_total (\<lambda>i. scope \<in> set (scopes i)) db"

lemma job_frame [simp]:
  "db_assets (job_save j db) = db_assets db" "db_versions (job_save j db) = db_versions db"
  "db_usage (job_save j db) = db_usage db"
  by (simp_all add: job_save_def)

lemma exact_job [simp]: "exact scopes scope (job_save j db) = exact scopes scope db"
  by (simp add: exact_def sizes_ok_def usage_total_def usage_get_def stored_total_def)

lemma asset_save_fresh:
  assumes "a_id a \<notin> asset_row_id ` set (db_assets db)"
  shows "\<exists>r. db_assets (asset_save a db) = db_assets db @ [r] \<and> asset_row_id r = a_id a
    \<and> a_size (row_asset r) = a_size a"
proof -
  have "asset_row_id x \<noteq> a_id a" if "x \<in> set (db_assets db)" for x
    using assms that by (metis imageI)
  then have "filter (\<lambda>x. asset_row_id x \<noteq> a_id a) (db_assets db) = db_assets db"
    by (intro filter_True) blast
  then show ?thesis
    by (simp add: asset_save_def Let_def replace_row_def asset_row_id_def assetUpsertArgs_def)
qed

lemma asset_save_frame [simp]:
  "db_versions (asset_save a db) = db_versions db" "db_usage (asset_save a db) = db_usage db"
  by (simp_all add: asset_save_def Let_def)

lemma exact_createAsset:
  assumes "exact scopes scope db" and "a_id a \<notin> asset_row_id ` set (db_assets db)"
    and "0 \<le> a_size a" and "distinct (scopes (a_id a))"
  shows "exact scopes scope (createAsset now a j (scopes (a_id a)) db)"
proof -
  define db1 where "db1 = (case j of None \<Rightarrow> db | Some j \<Rightarrow> job_save j db)"
  have ex1: "exact scopes scope db1" and same: "db_assets db1 = db_assets db"
    using assms(1) by (auto simp: db1_def split: option.splits)
  obtain r where rows: "db_assets (asset_save a db1) = db_assets db1 @ [r]"
    and r: "asset_row_id r = a_id a" "a_size (row_asset r) = a_size a"
    using asset_save_fresh[of a db1] assms(2) same by auto
  have ok: "sizes_ok db1" using ex1 by (simp add: exact_def)
  have "stored_size (db_versions db1) r = a_size a"
    using versions_size_fresh[OF ok] assms(2) same r by (simp add: stored_size_def)
  then have "stored_total P (asset_save a db1) = stored_total P db1 + (if P (a_id a) then a_size a else 0)" for P
    by (simp add: stored_total_def rows r)
  moreover have "sizes_ok (asset_save a db1)"
    using ok assms(2,3) same r by (auto simp: sizes_ok_def rows)
  moreover have "usage_total scope (asset_save a db1) = usage_total scope db1"
    by (simp add: usage_total_def usage_get_def)
  moreover have "createAsset now a j (scopes (a_id a)) db
      = usageStatements now (scopes (a_id a)) (a_size a) (asset_save a db1)"
    by (simp add: createAsset_def db1_def Let_def)
  ultimately show ?thesis
    using ex1 assms(4)
    by (simp add: exact_def usage_total_statements)
qed

lemma sum_list_update_one:
  fixes f g :: "'r \<Rightarrow> int"
  assumes "distinct (map key t)" and "r \<in> set t" and "\<And>x. x \<in> set t \<Longrightarrow> key x \<noteq> key r \<Longrightarrow> g x = f x"
  shows "sum_list (map g t) = sum_list (map f t) + (g r - f r)"
  using assms
proof (induction t)
  case (Cons x t)
  show ?case
  proof (cases "x = r")
    case True
    with Cons.prems have "map g t = map f t" by (auto simp: image_iff)
    then have "sum_list (map g t) = sum_list (map f t)" by (rule arg_cong)
    with True show ?thesis by simp
  next
    case False
    with Cons.prems have "key x \<noteq> key r" by (auto simp: image_iff)
    with Cons False show ?thesis by simp
  qed
qed simp

lemma stored_total_add_version:
  assumes "sizes_ok db" and "a \<in> asset_row_id ` set (db_assets db)" and "v_assetId w = a"
  shows "stored_total P (db\<lparr>db_versions := db_versions db @ [w]\<rparr>)
    = stored_total P db + (if P a then v_size w else 0)"
proof -
  obtain r where r: "r \<in> set (db_assets db)" "asset_row_id r = a" using assms(2) by auto
  let ?t = "filter (\<lambda>r. P (asset_row_id r)) (db_assets db)"
  have dist: "distinct (map asset_row_id ?t)"
    using assms(1) by (simp add: sizes_ok_def distinct_map_filter)
  have size: "stored_size (db_versions db @ [w]) x
      = stored_size (db_versions db) x + (if asset_row_id x = a then v_size w else 0)" for x
    by (simp add: stored_size_def versions_size_def assms(3))
  show ?thesis
  proof (cases "P a")
    case True
    then have "r \<in> set ?t" using r by simp
    from sum_list_update_one[OF dist this, of "stored_size (db_versions db @ [w])" "stored_size (db_versions db)"]
    show ?thesis using True r(2) by (simp add: stored_total_def size)
  next
    case False
    then have "map (stored_size (db_versions db @ [w])) ?t = map (stored_size (db_versions db)) ?t"
      using False by (auto simp: size)
    then have "sum_list (map (stored_size (db_versions db @ [w])) ?t)
        = sum_list (map (stored_size (db_versions db)) ?t)" by (rule arg_cong)
    then show ?thesis using False by (simp add: stored_total_def)
  qed
qed

lemma exact_createVersion:
  assumes "exact scopes scope db" and "v_assetId v \<in> asset_row_id ` set (db_assets db)"
    and "0 \<le> v_size v" and "distinct (scopes (v_assetId v))"
    and "createVersion now v j (scopes (v_assetId v)) db = Some (saved, db')"
  shows "exact scopes scope db'"
proof -
  define db1 where "db1 = (case j of None \<Rightarrow> db | Some j \<Rightarrow> job_save j db)"
  have ex1: "exact scopes scope db1" and same: "db_assets db1 = db_assets db"
    using assms(1) by (auto simp: db1_def split: option.splits)
  obtain db2 where s: "version_save v db1 = Some (saved, db2)"
    and db': "db' = usageStatements now (scopes (v_assetId v)) (v_size v) db2"
    using assms(5) by (auto simp: createVersion_def db1_def Let_def split: option.splits)
  obtain w where db2: "db2 = db1\<lparr>db_versions := db_versions db1 @ [w]\<rparr>"
    and w: "v_assetId w = v_assetId v" "v_size w = v_size v"
    using s by (auto simp: version_save_def versionInsertArgs_def Let_def split: if_splits)
  have ok: "sizes_ok db1" using ex1 by (simp add: exact_def)
  have "sizes_ok db2" using ok w assms(2,3) same by (auto simp: sizes_ok_def db2)
  moreover have "stored_total P db2 = stored_total P db1 + (if P (v_assetId v) then v_size v else 0)" for P
    using stored_total_add_version[OF ok, of "v_assetId v" w P] assms(2) same w by (simp add: db2)
  moreover have "usage_total scope db2 = usage_total scope db1"
    by (simp add: usage_total_def usage_get_def db2)
  ultimately show ?thesis
    using ex1 assms(4)
    by (simp add: db' exact_def usage_total_statements)
qed

lemma usage_decrement_frame [simp]:
  "db_assets (usage_decrement_for_asset now s n i db) = db_assets db"
  "db_versions (usage_decrement_for_asset now s n i db) = db_versions db"
  by (simp_all add: usage_decrement_for_asset_def)

lemma usage_total_decrement_for_asset:
  assumes "i \<in> asset_row_id ` set (db_assets db)"
  shows "usage_total scope (usage_decrement_for_asset now s n i db) =
    (if s = scope \<and> usage_get scope db \<noteq> None
     then max 0 (usage_total scope db - n - versions_size i (db_versions db)) else usage_total scope db)"
proof -
  let ?f = "\<lambda>u. u\<lparr>su_totalSize := max 0 (su_totalSize u - n - versions_size i (db_versions db)),
      su_assetCount := max 0 (su_assetCount u - 1), su_updatedAt := now\<rparr>"
  have f: "find_row su_scope scope (update_rows (\<lambda>u. su_scope u = s) ?f t)
    = (if scope = s then map_option ?f (find_row su_scope scope t) else find_row su_scope scope t)" for t
    by (rule find_update_rows) simp
  show ?thesis
    using assms
    by (cases "find_row su_scope scope (db_usage db)")
      (auto simp: usage_total_def usage_get_def usage_decrement_for_asset_def f simp del: find_row_None)
qed

lemma usage_total_decrements:
  assumes "i \<in> asset_row_id ` set (db_assets db)" and "distinct ss"
    and "n + versions_size i (db_versions db) \<le> usage_total scope db \<or> scope \<notin> set ss"
    and "0 \<le> n + versions_size i (db_versions db)"
  shows "usage_total scope (fold (\<lambda>s. usage_decrement_for_asset now s n i) ss db) =
    usage_total scope db - (if scope \<in> set ss then n + versions_size i (db_versions db) else 0)"
  using assms
proof (induction ss arbitrary: db)
  case (Cons s ss)
  let ?db = "usage_decrement_for_asset now s n i db"
  have total: "usage_total scope ?db = usage_total scope db - (if s = scope then n + versions_size i (db_versions db) else 0)"
  proof (cases "usage_get scope db = None")
    case True
    then have "usage_total scope db = 0" by (simp add: usage_total_def)
    with True Cons.prems show ?thesis
      by (auto simp: usage_total_decrement_for_asset)
  next
    case False
    with Cons.prems show ?thesis by (auto simp: usage_total_decrement_for_asset)
  qed
  have "usage_total scope (fold (\<lambda>s. usage_decrement_for_asset now s n i) ss ?db) =
    usage_total scope ?db - (if scope \<in> set ss then n + versions_size i (db_versions ?db) else 0)"
    using Cons.prems total by (intro Cons.IH) auto
  with total Cons.prems(2) show ?case by auto
qed simp

lemma usage_decrements_frame [simp]:
  "db_assets (fold (\<lambda>s. usage_decrement_for_asset now s n i) ss db) = db_assets db"
  "db_versions (fold (\<lambda>s. usage_decrement_for_asset now s n i) ss db) = db_versions db"
  by (induction ss arbitrary: db) simp_all

lemma deleteAsset_tables [simp]:
  "db_assets (deleteAsset now a ss p db) = delete_rows (\<lambda>r. asset_row_id r = a_id a) (db_assets db)"
  "db_versions (deleteAsset now a ss p db) = delete_rows (\<lambda>v. v_assetId v = a_id a) (db_versions db)"
  "db_usage (deleteAsset now a ss p db) =
     db_usage (fold (\<lambda>s. usage_decrement_for_asset now s (a_size a) (a_id a)) ss db)"
  by (simp_all add: deleteAsset_def cleanup_add_def asset_delete_def version_deleteByAssetId_def)

lemma stored_size_other_deleted:
  "asset_row_id r \<noteq> i \<Longrightarrow> stored_size (delete_rows (\<lambda>v. v_assetId v = i) vs) r = stored_size vs r"
  by (simp add: stored_size_def versions_size_def delete_rows_def conj_commute cong: conj_cong)
    (metis (mono_tags, lifting) filter_cong)

lemma stored_total_deleted:
  assumes "sizes_ok db" and "r \<in> set (db_assets db)"
  shows "sum_list (map (stored_size (delete_rows (\<lambda>v. v_assetId v = asset_row_id r) (db_versions db)))
      (filter (\<lambda>x. P (asset_row_id x)) (delete_rows (\<lambda>x. asset_row_id x = asset_row_id r) (db_assets db))))
    = stored_total P db - (if P (asset_row_id r) then stored_size (db_versions db) r else 0)"
proof -
  let ?vs = "db_versions db" and ?i = "asset_row_id r"
  have "sum_list (map (stored_size (delete_rows (\<lambda>v. v_assetId v = ?i) ?vs))
      (filter (\<lambda>x. P (asset_row_id x)) (delete_rows (\<lambda>x. asset_row_id x = ?i) t)))
    = sum_list (map (stored_size ?vs) (filter (\<lambda>x. P (asset_row_id x)) t))
      - (if r \<in> set t \<and> P ?i then stored_size ?vs r else 0)"
    if "distinct (map asset_row_id t)" and "\<And>x. x \<in> set t \<Longrightarrow> asset_row_id x = ?i \<Longrightarrow> x = r" for t
    using that
  proof (induction t)
    case (Cons x t)
    show ?case
    proof (cases "asset_row_id x = ?i")
      case True
      then have "x = r" using Cons.prems(2) by simp
      with Cons show ?thesis by (auto simp: delete_rows_def image_iff)
    next
      case False
      with Cons show ?thesis by (auto simp: delete_rows_def stored_size_other_deleted[unfolded delete_rows_def])
    qed
  qed (simp add: delete_rows_def)
  note step = this
  have d: "distinct (map asset_row_id (db_assets db))" using assms(1) by (simp add: sizes_ok_def)
  then have u: "x = r" if "x \<in> set (db_assets db)" and "asset_row_id x = ?i" for x
    using that assms(2) by (metis distinct_map inj_onD)
  show ?thesis unfolding stored_total_def using step[OF d u] assms(2) by simp
qed

lemma exact_deleteAsset:
  assumes "exact scopes scope db" and "r \<in> set (db_assets db)"
    and "asset_row_id r = a_id a" and "a_size (row_asset r) = a_size a" and "distinct (scopes (a_id a))"
  shows "exact scopes scope (deleteAsset now a (scopes (a_id a)) p db)"
proof -
  let ?P = "\<lambda>i. scope \<in> set (scopes i)" and ?db = "deleteAsset now a (scopes (a_id a)) p db"
  have ok: "sizes_ok db" and total: "usage_total scope db = stored_total ?P db"
    using assms(1) by (auto simp: exact_def)
  have size: "stored_size (db_versions db) r = a_size a + versions_size (a_id a) (db_versions db)"
    using assms(3,4) by (simp add: stored_size_def)
  have "usage_total scope ?db
      = usage_total scope (fold (\<lambda>s. usage_decrement_for_asset now s (a_size a) (a_id a)) (scopes (a_id a)) db)"
    by (rule usage_total_frame) simp
  also have "\<dots> = usage_total scope db - (if ?P (a_id a) then stored_size (db_versions db) r else 0)"
    unfolding size
  proof (rule usage_total_decrements)
    show "a_id a \<in> asset_row_id ` set (db_assets db)" using assms(2,3) by (metis imageI)
    show "0 \<le> a_size a + versions_size (a_id a) (db_versions db)"
      using stored_size_nonneg[OF ok assms(2)] size by simp
    show "a_size a + versions_size (a_id a) (db_versions db) \<le> usage_total scope db \<or> scope \<notin> set (scopes (a_id a))"
      using stored_total_member[OF ok assms(2), of ?P] total size assms(3) by auto
  qed (rule assms(5))
  also have "\<dots> = stored_total ?P ?db"
    using stored_total_deleted[OF ok assms(2), of ?P] total assms(3)
    unfolding stored_total_def[of ?P ?db] by simp
  finally have "usage_total scope ?db = stored_total ?P ?db" .
  moreover have "sizes_ok ?db"
    using ok by (auto simp: sizes_ok_def distinct_delete_rows)
  ultimately show ?thesis by (simp add: exact_def)
qed

lemma versions_size_update:
  "(\<And>v. v_assetId (f v) = v_assetId v \<and> v_size (f v) = v_size v) \<Longrightarrow>
   versions_size a (update_rows Q f vs) = versions_size a vs"
  by (induction vs) (auto simp: versions_size_def update_rows_def)

lemma exact_same_sizes:
  assumes "exact scopes scope db" and "db_usage db' = db_usage db"
    and "\<And>a. versions_size a (db_versions db') = versions_size a (db_versions db)"
    and "set (map (\<lambda>v. (v_assetId v, v_size v)) (db_versions db')) = set (map (\<lambda>v. (v_assetId v, v_size v)) (db_versions db))"
    and "mset (map (\<lambda>r. (asset_row_id r, a_size (row_asset r))) (db_assets db'))
       = mset (map (\<lambda>r. (asset_row_id r, a_size (row_asset r))) (db_assets db))"
  shows "exact scopes scope db'"
proof -
  let ?k = "\<lambda>r. (asset_row_id r, a_size (row_asset r))"
  let ?sum = "\<lambda>t. sum_list (map (\<lambda>(i, n). if scope \<in> set (scopes i) then n + versions_size i (db_versions db) else 0) t)"
  have sum: "stored_total (\<lambda>i. scope \<in> set (scopes i)) d = ?sum (map ?k (db_assets d))"
    if "\<And>a. versions_size a (db_versions d) = versions_size a (db_versions db)" for d
  proof -
    have "sum_list (map (stored_size (db_versions d)) (filter (\<lambda>r. scope \<in> set (scopes (asset_row_id r))) t))
        = ?sum (map ?k t)" for t
      by (induction t) (simp_all add: stored_size_def that)
    then show ?thesis by (simp add: stored_total_def)
  qed
  have as_mset: "sum_list (map g t) = sum_mset (image_mset g (mset t))" for g :: "string \<times> int \<Rightarrow> int" and t
    by (metis mset_map sum_mset_sum_list)
  have "?sum (map ?k (db_assets db')) = ?sum (map ?k (db_assets db))"
    by (simp only: as_mset assms(5))
  moreover have "usage_total scope db' = usage_total scope db" by (rule usage_total_frame[OF assms(2)])
  moreover have "sizes_ok db'"
  proof -
    have keys: "set (map ?k (db_assets db')) = set (map ?k (db_assets db))"
      using assms(5) by (metis set_mset_mset)
    have "mset (map asset_row_id (db_assets db')) = mset (map asset_row_id (db_assets db))"
      using arg_cong[OF assms(5), of "image_mset fst"] by (simp add: image_mset.compositionality o_def)
    then have "distinct (map asset_row_id (db_assets db')) = distinct (map asset_row_id (db_assets db))"
      and ids: "asset_row_id ` set (db_assets db') = asset_row_id ` set (db_assets db)"
      by (rule mset_eq_imp_distinct_iff, metis list.set_map mset_eq_setD)
    moreover have "\<forall>v \<in> set (db_versions db'). 0 \<le> v_size v \<and> v_assetId v \<in> asset_row_id ` set (db_assets db')"
    proof
      fix v assume "v \<in> set (db_versions db')"
      then have "(v_assetId v, v_size v) \<in> set (map (\<lambda>v. (v_assetId v, v_size v)) (db_versions db))"
        unfolding assms(4)[symmetric] by simp
      then show "0 \<le> v_size v \<and> v_assetId v \<in> asset_row_id ` set (db_assets db')"
        using assms(1) ids by (auto simp: exact_def sizes_ok_def)
    qed
    moreover have "\<forall>r \<in> set (db_assets db'). 0 \<le> a_size (row_asset r)"
    proof
      fix r assume "r \<in> set (db_assets db')"
      then have "?k r \<in> set (map ?k (db_assets db))" unfolding keys[symmetric] by simp
      then show "0 \<le> a_size (row_asset r)" using assms(1) by (auto simp: exact_def sizes_ok_def)
    qed
    ultimately show ?thesis using assms(1) by (simp add: exact_def sizes_ok_def)
  qed
  ultimately show ?thesis
    using assms(1) sum[OF assms(3)] sum[of db] by (simp add: exact_def)
qed

lemma exact_update_assets:
  assumes "exact scopes scope db"
    and "\<And>r. asset_row_id (f r) = asset_row_id r \<and> a_size (row_asset (f r)) = a_size (row_asset r)"
  shows "exact scopes scope (db\<lparr>db_assets := update_rows Q f (db_assets db)\<rparr>)"
proof (rule exact_same_sizes[OF assms(1)])
  have "map (\<lambda>r. (asset_row_id r, a_size (row_asset r))) (update_rows Q f t)
      = map (\<lambda>r. (asset_row_id r, a_size (row_asset r))) t" for t
    using assms(2) by (simp add: update_rows_def)
  then show "mset (map (\<lambda>r. (asset_row_id r, a_size (row_asset r))) (db_assets (db\<lparr>db_assets := update_rows Q f (db_assets db)\<rparr>)))
      = mset (map (\<lambda>r. (asset_row_id r, a_size (row_asset r))) (db_assets db))"
    by simp
qed simp_all

lemma asset_save_sizes:
  assumes "distinct (map asset_row_id (db_assets db))" and "r \<in> set (db_assets db)"
    and "asset_row_id r = a_id a" and "a_size (row_asset r) = a_size a"
  shows "mset (map (\<lambda>r. (asset_row_id r, a_size (row_asset r))) (db_assets (asset_save a db)))
       = mset (map (\<lambda>r. (asset_row_id r, a_size (row_asset r))) (db_assets db))"
proof -
  let ?k = "\<lambda>r. (asset_row_id r, a_size (row_asset r))"
  have "add_mset (?k r) (mset (map ?k (filter (\<lambda>x. asset_row_id x \<noteq> asset_row_id r) t))) = mset (map ?k t)"
    if "distinct (map asset_row_id t)" and "r \<in> set t" for t
    using that
  proof (induction t)
    case (Cons x t)
    show ?case
    proof (cases "x = r")
      case True
      with Cons.prems have "filter (\<lambda>x. asset_row_id x \<noteq> asset_row_id r) t = t"
        by (auto simp: filter_id_conv image_iff)
      with True show ?thesis by simp
    next
      case False
      with Cons.prems have "asset_row_id x \<noteq> asset_row_id r" by (auto simp: image_iff)
      with Cons False show ?thesis by (simp add: add_mset_commute)
    qed
  qed simp
  from this[OF assms(1,2)] show ?thesis
    using assms(3,4)
    by (simp add: asset_save_def Let_def replace_row_def asset_row_id_def assetUpsertArgs_def)
qed

lemma exact_saveJob:
  assumes "exact scopes scope db"
    and "\<And>a. asset = Some a \<Longrightarrow> \<exists>r \<in> set (db_assets db). asset_row_id r = a_id a \<and> a_size (row_asset r) = a_size a"
  shows "exact scopes scope (saveJob j asset v db)"
proof -
  define db2 where "db2 = (case asset of None \<Rightarrow> job_save j db | Some a \<Rightarrow> asset_save a (job_save j db))"
  have ex2: "exact scopes scope db2"
  proof (cases asset)
    case None
    then show ?thesis using assms(1) by (simp add: db2_def)
  next
    case (Some a)
    from assms(2)[OF this] obtain r where r: "r \<in> set (db_assets (job_save j db))" "asset_row_id r = a_id a"
      "a_size (row_asset r) = a_size a" by auto
    have e: "exact scopes scope (job_save j db)" using assms(1) by simp
    then have "distinct (map asset_row_id (db_assets (job_save j db)))"
      by (simp add: exact_def sizes_ok_def)
    from asset_save_sizes[OF this r]
    have m: "mset (map (\<lambda>r. (asset_row_id r, a_size (row_asset r))) (db_assets (asset_save a (job_save j db))))
      = mset (map (\<lambda>r. (asset_row_id r, a_size (row_asset r))) (db_assets (job_save j db)))" .
    show ?thesis
      unfolding db2_def Some option.case by (rule exact_same_sizes[OF e _ _ _ m]) simp_all
  qed
  show ?thesis
  proof (cases v)
    case None
    with ex2 show ?thesis by (simp add: saveJob_def Let_def db2_def)
  next
    case (Some w)
    have "exact scopes scope (version_extraction_update w db2)"
      by (rule exact_same_sizes[OF ex2])
        (auto simp: version_extraction_update_def update_rows_def versions_size_update[unfolded update_rows_def] image_iff)
    with Some show ?thesis by (simp add: saveJob_def Let_def db2_def)
  qed
qed

text \<open>
  The life of the tables under the code's composite writes. \<open>scopes\<close> gives the counters an
  asset is charged to (\<open>project:<id>\<close> and its workspace's); the guards are what the callers
  ensure: fresh ids, the stored asset handed back unchanged in size.
\<close>

inductive ledger :: "(string \<Rightarrow> string list) \<Rightarrow> database \<Rightarrow> bool" for scopes where
  empty: "ledger scopes empty_database"
| create: "\<lbrakk>ledger scopes db; a_id a \<notin> asset_row_id ` set (db_assets db); 0 \<le> a_size a\<rbrakk>
    \<Longrightarrow> ledger scopes (createAsset now a j (scopes (a_id a)) db)"
| version: "\<lbrakk>ledger scopes db; v_assetId v \<in> asset_row_id ` set (db_assets db); 0 \<le> v_size v;
     createVersion now v j (scopes (v_assetId v)) db = Some (saved, db')\<rbrakk> \<Longrightarrow> ledger scopes db'"
| job: "\<lbrakk>ledger scopes db;
     asset = None \<or> (\<exists>r \<in> set (db_assets db). asset = Some (a\<lparr>a_id := asset_row_id r, a_size := a_size (row_asset r)\<rparr>))\<rbrakk>
    \<Longrightarrow> ledger scopes (saveJob j asset v db)"
| patched: "ledger scopes db \<Longrightarrow> ledger scopes (asset_update i patch db)"
| protected: "ledger scopes db \<Longrightarrow> ledger scopes (asset_setProtection i p db)"
| delete: "\<lbrakk>ledger scopes db; r \<in> set (db_assets db); asset_row_id r = a_id a; a_size (row_asset r) = a_size a\<rbrakk>
    \<Longrightarrow> ledger scopes (deleteAsset now a (scopes (a_id a)) prefix' db)"



text \<open>
  \<open>asset_count\<close> is not exact: every version upload adds one, deleting the asset takes one off.
\<close>

lemma asset_count_drifts:
  "map_option su_assetCount (usage_get ''s''
     (deleteAsset 3 (blank_asset ''a'') [''s''] ''assets/a/''
       (snd (the (createVersion 2 (blank_version ''v'' ''a'' 0) None [''s'']
         (createAsset 1 (blank_asset ''a'') None [''s''] empty_database)))))) = Some 1"
  by code_simp

text \<open>Deleting an asset twice changes no table but the cleanup queue's time stamp.\<close>

theorem deleteAsset_idempotent:
  "deleteAsset now' a ss prefix' (deleteAsset now a ss prefix' db)
   = cleanup_add now' prefix' (deleteAsset now a ss prefix' db)"
proof -
  let ?db = "deleteAsset now a ss prefix' db"
  have gone: "a_id a \<notin> asset_row_id ` set (db_assets ?db)" by auto
  have "fold (\<lambda>s. usage_decrement_for_asset now' s (a_size a) (a_id a)) ss' ?db = ?db" for ss'
    using gone by (induction ss') (simp_all add: usage_decrement_for_asset_def)
  moreover have "?db\<lparr>db_versions := delete_rows (\<lambda>v. v_assetId v = a_id a) (db_versions ?db),
      db_assets := delete_rows (\<lambda>r. asset_row_id r = a_id a) (db_assets ?db)\<rparr> = ?db"
    by (rule database.equality) (simp_all add: delete_rows_def)
  ultimately show ?thesis
    unfolding deleteAsset_def[of now'] by (simp add: version_deleteByAssetId_def asset_delete_def
        del: deleteAsset_tables)
qed

section \<open>Names of sites\<close>

lemma host_insert_first_wins:
  "host_find (sh_hostname h) db \<noteq> None \<Longrightarrow> host_insert h db = (False, db)"
  by (simp add: host_find_def host_insert_def)

lemma host_insert_claims:
  "host_find (sh_hostname h) db = None \<Longrightarrow>
   fst (host_insert h db) \<and> host_find (sh_hostname h) (snd (host_insert h db)) = Some h"
  unfolding host_find_def host_insert_def
  by (auto simp: find_row_append dest!: find_row_Some split: option.splits) (metis imageI)

lemma patch_host_simps [simp]:
  "sh_hostname (patch_host patch h) = sh_hostname h"
  "sh_releasedAt (patch_host patch h) = sh_releasedAt h"
  "sh_assetId (patch_host patch h) = sh_assetId h"
  "sh_projectId (patch_host patch h) = sh_projectId h"
  by (simp_all add: patch_host_def)

text \<open>
  A released name stays released: the switches of a row, a second release, and the release
  of an asset's names never touch a released row, so a name in its cooldown is neither revived
  nor has its cooldown restarted.
\<close>

theorem released_name_untouched:
  assumes "host_find name db = Some h" and "sh_releasedAt h = Some t"
  shows "host_find name (host_update n patch db) = Some h
    \<and> host_find name (host_release n t' db) = Some h
    \<and> host_find name (snd (host_releaseByAsset a t' db)) = Some h
    \<and> snd (host_insert (h\<lparr>sh_assetId := Some a\<rparr>) db) = db"
proof -
  have keep: "find_row sh_hostname name (update_rows P f t) = Some h"
    if "find_row sh_hostname name t = Some h" and "\<not> P h" and "\<And>h. sh_hostname (f h) = sh_hostname h"
    for P f t
    using that by (induction t) (auto simp: update_rows_def split: if_splits)
  have row: "find_row sh_hostname name (db_hosts db) = Some h" using assms(1) by (simp add: host_find_def)
  have "sh_hostname h \<in> sh_hostname ` set (db_hosts db)"
    using find_row_Some[OF row] by blast
  moreover have "\<not> host_active h" using assms(2) by (simp add: host_active_def)
  ultimately show ?thesis
    by (simp add: host_find_def host_update_def host_release_def host_releaseByAsset_def host_insert_def
        keep[OF row])
qed

text \<open>The purge removes released rows whose release is old enough, and nothing else.\<close>

lemma purge_only_old:
  assumes "database_ok db" and "h \<in> set (db_hosts db)" and "h \<notin> set (db_hosts (snd (host_purgeReleasedBefore before limit db)))"
  shows "\<exists>t. sh_releasedAt h = Some t \<and> t < before"
proof -
  obtain g where g: "g \<in> set (db_hosts db)" "sh_hostname g = sh_hostname h"
    "\<exists>t. sh_releasedAt g = Some t \<and> t < before"
    using assms(2,3)
    by (auto simp: host_purgeReleasedBefore_def Let_def order_asc_def dest!: in_set_takeD split: option.splits)
  have "g = h" using assms(1,2) g by (auto simp: database_ok_def distinct_map inj_on_def)
  with g show ?thesis by simp
qed

definition cooling_host :: site_host where
  "cooling_host = \<lparr>sh_hostname = ''x.example'', sh_assetId = None, sh_projectId = ''p'', sh_kind = Subdomain,
     sh_verifiedAt = None, sh_verificationToken = None, sh_certificateStatus = None, sh_disabledAt = None,
     sh_previews = False, sh_releasedAt = Some 4, sh_createdAt = 1, sh_createdBy = None\<rparr>"

lemma released_name_untouched_witness:
  "host_find ''x.example'' (host_release ''x.example'' 9 (empty_database\<lparr>db_hosts := [cooling_host]\<rparr>)) = Some cooling_host"
proof -
  have "host_find ''x.example'' (empty_database\<lparr>db_hosts := [cooling_host]\<rparr>) = Some cooling_host"
    and "sh_releasedAt cooling_host = Some 4"
    by (simp_all add: host_find_def cooling_host_def)
  from released_name_untouched[OF this] show ?thesis by blast
qed


end
