(* ===== verification/Authorization.thy ===== *)
theory Authorization
  imports Sql_Tables
begin

text \<open>
  Who may do what (\<open>core/auth/permissions.ts\<close>, \<open>core/auth/authorizer.ts\<close>,
  \<open>core/auth/access.ts\<close>). \<open>POLICY\<close> gives the lowest role for each action;
  \<open>permitted\<close> asks the policy first and the authorizer second, so an authorizer can only
  narrow it. The authorizer is a function from requests to answers, \<open>NoAnswer\<close> being its
  \<open>TenancyUnavailableError\<close>: \<open>SimpleAuthorizer\<close> and \<open>CerbosAuthorizer\<close> are the two of
  the code (the network call of the latter is a parameter). The locale
  \<open>policy_authorizer\<close> is the contract of an authorizer that decides as the policy does.
\<close>

section \<open>The policy\<close>

datatype workspace_action = ReadWorkspace | DeleteWorkspace | ManageMembers | CreateProject

datatype project_action =
    ReadProject | DeleteProject | ReadAsset | CreateAsset | UpdateAsset | ManageHosts
  | DeleteAsset | ExtractAsset | ReadJob | RetryJob | ManageWebhooks

datatype resource_action = OnWorkspace workspace_action | OnProject project_action

fun POLICY :: "resource_action \<Rightarrow> role" where
  "POLICY (OnWorkspace ReadWorkspace) = Viewer"
| "POLICY (OnWorkspace DeleteWorkspace) = Owner"
| "POLICY (OnWorkspace ManageMembers) = Admin"
| "POLICY (OnWorkspace CreateProject) = Admin"
| "POLICY (OnProject ReadProject) = Viewer"
| "POLICY (OnProject DeleteProject) = Owner"
| "POLICY (OnProject ReadAsset) = Viewer"
| "POLICY (OnProject CreateAsset) = Editor"
| "POLICY (OnProject UpdateAsset) = Editor"
| "POLICY (OnProject ManageHosts) = Editor"
| "POLICY (OnProject DeleteAsset) = Editor"
| "POLICY (OnProject ExtractAsset) = Editor"
| "POLICY (OnProject ReadJob) = Viewer"
| "POLICY (OnProject RetryJob) = Editor"
| "POLICY (OnProject ManageWebhooks) = Admin"

definition allows :: "role \<Rightarrow> resource_action \<Rightarrow> bool" where
  "allows role action = (roleRank role \<ge> roleRank (POLICY action))"

definition canManageRole :: "role \<Rightarrow> role \<Rightarrow> bool" where
  "canManageRole actor role = (roleRank actor \<ge> roleRank role)"

definition policyEntries :: "(resource_action \<times> role) list" where
  "policyEntries = map (\<lambda>a. (a, POLICY a))
     (map OnWorkspace [ReadWorkspace, DeleteWorkspace, ManageMembers, CreateProject] @
      map OnProject [ReadProject, DeleteProject, ReadAsset, CreateAsset, UpdateAsset, ManageHosts,
        DeleteAsset, ExtractAsset, ReadJob, RetryJob, ManageWebhooks])"

section \<open>Authorizers\<close>

record principal =
  pr_id :: string
  pr_role :: role

datatype authz_request =
    WorkspaceRequest principal string workspace_action
  | ProjectRequest principal string string project_action

fun isWorkspaceRequest :: "authz_request \<Rightarrow> bool" where
  "isWorkspaceRequest (WorkspaceRequest _ _ _) = True"
| "isWorkspaceRequest (ProjectRequest _ _ _ _) = False"

fun withinPolicy :: "authz_request \<Rightarrow> bool" where
  "withinPolicy (WorkspaceRequest who workspaceId action) = allows (pr_role who) (OnWorkspace action)"
| "withinPolicy (ProjectRequest who workspaceId projectId action) = allows (pr_role who) (OnProject action)"

datatype answer = Allow | Deny | NoAnswer

type_synonym authorizer = "authz_request \<Rightarrow> answer"

definition SimpleAuthorizer :: authorizer where
  "SimpleAuthorizer req = (if withinPolicy req then Allow else Deny)"

text \<open>
  \<open>CerbosAuthorizer\<close>: \<open>fetch'\<close> is the decision point's HTTP answer to a request, a status
  and a body text, or \<open>None\<close> when the call fails or times out.
\<close>

fun action_name :: "authz_request \<Rightarrow> string" where
  "action_name (WorkspaceRequest _ _ a) = (case a of ReadWorkspace \<Rightarrow> ''read''
     | DeleteWorkspace \<Rightarrow> ''delete'' | ManageMembers \<Rightarrow> ''manage_members'' | CreateProject \<Rightarrow> ''create_project'')"
| "action_name (ProjectRequest _ _ _ a) = (case a of ReadProject \<Rightarrow> ''read'' | DeleteProject \<Rightarrow> ''delete''
     | ReadAsset \<Rightarrow> ''read_asset'' | CreateAsset \<Rightarrow> ''create_asset'' | UpdateAsset \<Rightarrow> ''update_asset''
     | ManageHosts \<Rightarrow> ''manage_hosts'' | DeleteAsset \<Rightarrow> ''delete_asset'' | ExtractAsset \<Rightarrow> ''extract_asset''
     | ReadJob \<Rightarrow> ''read_job'' | RetryJob \<Rightarrow> ''retry_job'' | ManageWebhooks \<Rightarrow> ''manage_webhooks'')"

fun item0 :: "json \<Rightarrow> json option" where
  \<comment> \<open>\<open>v?.[0]\<close>, where it can be an object\<close>
  "item0 (JArr (v # _)) = Some v"
| "item0 (JObj props) = map_of props ''0''"
| "item0 _ = None"

definition effectOf :: "json \<Rightarrow> string \<Rightarrow> string option" where
  \<comment> \<open>\<open>body?.results?.[0]?.actions?.[action]\<close>, \<open>None\<close> unless it is a string\<close>
  "effectOf body action =
     (case json_field body ''results'' of
        None \<Rightarrow> None
      | Some results \<Rightarrow>
          (case item0 results of
             None \<Rightarrow> None
           | Some r \<Rightarrow>
               (case json_field r ''actions'' of
                  None \<Rightarrow> None
                | Some actions \<Rightarrow>
                    (case json_field actions action of Some (JStr effect) \<Rightarrow> Some effect | _ \<Rightarrow> None))))"

definition CerbosAuthorizer :: "(authz_request \<Rightarrow> (nat \<times> blob) option) \<Rightarrow> authorizer" where
  "CerbosAuthorizer fetch' req =
     (case fetch' req of
        None \<Rightarrow> NoAnswer
      | Some (status, body) \<Rightarrow>
          if \<not> (200 \<le> status \<and> status \<le> 299) then NoAnswer
          else (case body of
                  Garbage \<Rightarrow> NoAnswer
                | Blob b \<Rightarrow>
                    (case effectOf b (action_name req) of
                       None \<Rightarrow> NoAnswer
                     | Some effect \<Rightarrow> if effect = ''EFFECT_ALLOW'' then Allow else Deny)))"

section \<open>Decisions on resources\<close>

record auth_user =
  u_id :: string
  u_sub :: string
  u_email :: "string option"
  u_name :: "string option"

record access_context =
  cx_user :: "auth_user option"
  cx_sessionId :: "string option"
  cx_authorizer :: authorizer
  cx_members_find :: "string \<Rightarrow> string \<Rightarrow> member option"
  cx_projects_find :: "string \<Rightarrow> project option"

datatype 'a decision = Granted 'a | NotFound | Forbidden | Unavailable

definition permitted :: "access_context \<Rightarrow> authz_request \<Rightarrow> answer" where
  "permitted ctx req = (if withinPolicy req then cx_authorizer ctx req else Deny)"

definition decide :: "answer \<Rightarrow> 'a \<Rightarrow> 'a decision" where
  "decide ok v = (case ok of Allow \<Rightarrow> Granted v | Deny \<Rightarrow> Forbidden | NoAnswer \<Rightarrow> Unavailable)"

definition authorizeWorkspace :: "access_context \<Rightarrow> string \<Rightarrow> workspace_action \<Rightarrow> member decision" where
  "authorizeWorkspace ctx workspaceId action =
     (case cx_user ctx of
        None \<Rightarrow> NotFound
      | Some user \<Rightarrow>
          (case cx_members_find ctx workspaceId (u_id user) of
             None \<Rightarrow> NotFound
           | Some member \<Rightarrow>
               decide (permitted ctx
                 (WorkspaceRequest \<lparr>pr_id = u_id user, pr_role = m_role member\<rparr> workspaceId action)) member))"

definition authorizeProject :: "access_context \<Rightarrow> string \<Rightarrow> project_action \<Rightarrow> project decision" where
  "authorizeProject ctx projectId action =
     (case cx_user ctx of
        None \<Rightarrow> NotFound
      | Some user \<Rightarrow>
          (case cx_projects_find ctx projectId of
             None \<Rightarrow> NotFound
           | Some project \<Rightarrow>
               if \<not> truthy (p_workspaceId project)
               then (if p_ownerId project = u_id user then Granted project else NotFound)
               else
                 (let workspaceId = the (p_workspaceId project) in
                  case cx_members_find ctx workspaceId (u_id user) of
                    None \<Rightarrow> NotFound
                  | Some member \<Rightarrow>
                      decide (permitted ctx (ProjectRequest \<lparr>pr_id = u_id user, pr_role = m_role member\<rparr>
                        workspaceId projectId action)) project)))"

definition authorizeOwned ::
  "access_context \<Rightarrow> ('a \<Rightarrow> string option) \<Rightarrow> ('a \<Rightarrow> string option) \<Rightarrow> 'a option \<Rightarrow> project_action \<Rightarrow> 'a decision" where
  \<comment> \<open>the target's \<open>sessionId\<close> and \<open>projectId\<close> are given as its accessors\<close>
  "authorizeOwned ctx sessionOf projectOf target action =
     (case target of
        None \<Rightarrow> NotFound
      | Some t \<Rightarrow>
          (case cx_user ctx of
             None \<Rightarrow>
               if truthy (cx_sessionId ctx) \<and> sessionOf t = cx_sessionId ctx then Granted t else NotFound
           | Some _ \<Rightarrow>
               if \<not> truthy (projectOf t) then NotFound
               else (case authorizeProject ctx (the (projectOf t)) action of
                       Granted _ \<Rightarrow> Granted t
                     | NotFound \<Rightarrow> NotFound | Forbidden \<Rightarrow> Forbidden | Unavailable \<Rightarrow> Unavailable)))"

definition authorizeAsset :: "access_context \<Rightarrow> asset option \<Rightarrow> project_action \<Rightarrow> asset decision" where
  "authorizeAsset ctx asset action = authorizeOwned ctx a_sessionId a_projectId asset action"

definition authorizeJob :: "access_context \<Rightarrow> job option \<Rightarrow> project_action \<Rightarrow> job decision" where
  "authorizeJob ctx job action = authorizeOwned ctx j_sessionId j_projectId job action"

datatype denial_code = Forbidden403 | NotFound404

definition deniedResponse :: "bool \<Rightarrow> bool \<Rightarrow> denial_code" where
  \<comment> \<open>\<open>deniedResponse(c, denial, opts)\<close>: is the reason \<open>forbidden\<close>, is \<open>forbiddenAs\<close> 403\<close>
  "deniedResponse is_forbidden forbiddenAs403 =
     (if is_forbidden \<and> forbiddenAs403 then Forbidden403 else NotFound404)"

section \<open>What the decisions guarantee\<close>

lemma allows_mono: "a \<le> b \<Longrightarrow> allows a action \<Longrightarrow> allows b action"
  by (simp add: allows_def less_eq_role_def)

lemma decide_Granted: "decide ok v = Granted w \<longleftrightarrow> ok = Allow \<and> w = v"
  by (cases ok) (auto simp: decide_def)

lemma permitted_Allow: "permitted ctx req = Allow \<longleftrightarrow> withinPolicy req \<and> cx_authorizer ctx req = Allow"
  by (simp add: permitted_def)

definition may_act :: "access_context \<Rightarrow> string \<Rightarrow> project \<Rightarrow> project_action \<Rightarrow> bool" where
  \<comment> \<open>the rule of the code's documentation: the owner of a personal project, or a member of the
    project's workspace whose role is high enough\<close>
  "may_act ctx userId p action =
     (if truthy (p_workspaceId p)
      then (case cx_members_find ctx (the (p_workspaceId p)) userId of
              None \<Rightarrow> False | Some m \<Rightarrow> POLICY (OnProject action) \<le> m_role m)
      else p_ownerId p = userId)"

text \<open>
  No authorizer, however misconfigured, can widen the policy: whatever the decision
  point answers, an action on a project is granted only to a signed-in user who owns the
  personal project or is a member of its workspace with at least the policy's role for the
  action, and on a workspace only to its member with that role.
\<close>

theorem grants_within_policy:
  "(authorizeProject ctx pid action = Granted p \<longrightarrow>
      (\<exists>u. cx_user ctx = Some u \<and> cx_projects_find ctx pid = Some p \<and> may_act ctx (u_id u) p action))
   \<and> (authorizeWorkspace ctx wid waction = Granted m \<longrightarrow>
      (\<exists>u. cx_user ctx = Some u \<and> cx_members_find ctx wid (u_id u) = Some m
         \<and> POLICY (OnWorkspace waction) \<le> m_role m))"
  by (auto simp: authorizeProject_def authorizeWorkspace_def may_act_def decide_Granted permitted_Allow
      Let_def allows_def less_eq_role_def split: option.splits if_splits)

definition sample_member :: "string \<Rightarrow> string \<Rightarrow> role \<Rightarrow> member" where
  "sample_member w u r = \<lparr>m_workspaceId = w, m_userId = u, m_role = r, m_createdAt = 0, m_updatedAt = 0\<rparr>"

definition sample_project :: "string \<Rightarrow> string \<Rightarrow> string option \<Rightarrow> project" where
  "sample_project i owner' w = \<lparr>p_id = i, p_name = ''n'', p_createdAt = 0, p_updatedAt = 0, p_ownerId = owner', p_workspaceId = w\<rparr>"

definition sample_user :: "string \<Rightarrow> auth_user" where
  "sample_user i = \<lparr>u_id = i, u_sub = i, u_email = None, u_name = None\<rparr>"

definition sample_context :: "string \<Rightarrow> role \<Rightarrow> access_context" where
  \<comment> \<open>user \<open>u\<close>, member of workspace \<open>w\<close> with role \<open>r\<close>; project \<open>p\<close> in \<open>w\<close>\<close>
  "sample_context u r = \<lparr>cx_user = Some (sample_user u), cx_sessionId = None, cx_authorizer = (\<lambda>_. Allow),
     cx_members_find = (\<lambda>w' u'. if w' = ''w'' \<and> u' = u then Some (sample_member ''w'' u r) else None),
     cx_projects_find = (\<lambda>i. if i = ''p'' then Some (sample_project ''p'' ''boss'' (Some ''w'')) else None)\<rparr>"

lemma grants_within_policy_witness:
  "authorizeProject (sample_context ''u'' Editor) ''p'' DeleteAsset = Granted (sample_project ''p'' ''boss'' (Some ''w''))
   \<and> authorizeProject (sample_context ''u'' Viewer) ''p'' DeleteAsset \<noteq> Granted (sample_project ''p'' ''boss'' (Some ''w''))"
proof -
  have "\<not> may_act (sample_context ''u'' Viewer) ''u'' (sample_project ''p'' ''boss'' (Some ''w'')) DeleteAsset"
    by (simp add: may_act_def sample_context_def sample_project_def sample_member_def truthy_def less_eq_role_def)
  then have "authorizeProject (sample_context ''u'' Viewer) ''p'' DeleteAsset \<noteq> Granted (sample_project ''p'' ''boss'' (Some ''w''))"
    using grants_within_policy[of "sample_context ''u'' Viewer" "''p''" DeleteAsset "sample_project ''p'' ''boss'' (Some ''w'')"]
    by (auto simp: sample_context_def sample_user_def)
  then show ?thesis by code_simp
qed

text \<open>
  Tenants are isolated, and an outsider cannot even tell that a resource exists: a
  signed-in user who neither owns the asset's personal project nor is a member of its
  workspace is told \<open>not found\<close>, exactly as for an asset that is missing; so is an anonymous
  caller whose session did not create the asset.
\<close>

theorem outsiders_see_nothing:
  assumes "case cx_user ctx of
      None \<Rightarrow> \<not> (truthy (cx_sessionId ctx) \<and> a_sessionId a = cx_sessionId ctx)
    | Some u \<Rightarrow> (case Option.bind (a_projectId a) (cx_projects_find ctx) of
          None \<Rightarrow> True
        | Some p \<Rightarrow> if truthy (p_workspaceId p) then cx_members_find ctx (the (p_workspaceId p)) (u_id u) = None
                   else p_ownerId p \<noteq> u_id u)"
  shows "authorizeAsset ctx (Some a) action = authorizeAsset ctx None action"
  using assms
  by (auto simp: authorizeAsset_def authorizeOwned_def authorizeProject_def truthy_def Let_def
      split: option.splits if_splits)

locale policy_authorizer =
  fixes check :: authorizer
  assumes decides: "check req = Allow \<longleftrightarrow> withinPolicy req"
    and answers: "check req \<noteq> NoAnswer"
begin

lemma permitted_eq:
  "cx_authorizer ctx = check \<Longrightarrow> permitted ctx req = (if withinPolicy req then Allow else Deny)"
  using decides[of req] by (simp add: permitted_def)

lemma project_decided:
  assumes "cx_authorizer ctx = check" and "cx_user ctx = Some u" and "cx_projects_find ctx pid = Some p"
  shows "authorizeProject ctx pid action =
    (if may_act ctx (u_id u) p action then Granted p
     else if truthy (p_workspaceId p) \<and> cx_members_find ctx (the (p_workspaceId p)) (u_id u) \<noteq> None
          then Forbidden else NotFound)"
  using assms
  by (auto simp: authorizeProject_def may_act_def permitted_eq decide_def Let_def allows_def
      less_eq_role_def split: option.splits)

lemma never_unavailable:
  assumes "cx_authorizer ctx = check"
  shows "authorizeProject ctx pid action \<noteq> Unavailable" and "authorizeWorkspace ctx wid waction \<noteq> Unavailable"
  using assms
  by (auto simp: authorizeProject_def authorizeWorkspace_def permitted_eq decide_def Let_def
      split: option.splits if_splits)

end

interpretation simple: policy_authorizer SimpleAuthorizer
  by unfold_locales (simp_all add: SimpleAuthorizer_def)

text \<open>
  With the built-in authorizer, a signed-in user's action on an existing project is
  granted exactly when the policy allows it, a member whose role is too low is told
  \<open>forbidden\<close>, and anyone else \<open>not found\<close>.
\<close>

theorem simple_authorizer_decides:
  assumes "cx_authorizer ctx = SimpleAuthorizer" and "cx_user ctx = Some u" and "cx_projects_find ctx pid = Some p"
  shows "authorizeProject ctx pid action =
    (if may_act ctx (u_id u) p action then Granted p
     else if truthy (p_workspaceId p) \<and> cx_members_find ctx (the (p_workspaceId p)) (u_id u) \<noteq> None
          then Forbidden else NotFound)"
  by (rule simple.project_decided[OF assms])

lemma outsiders_see_nothing_witness:
  "authorizeAsset (sample_context ''u'' Viewer)
     (Some \<lparr>a_id = ''i'', a_filename = ''f'', a_contentType = ''t'', a_size = 1, a_createdAt = 0, a_expiresAt = 0,
       a_contentEncoding = None, a_originalSize = None, a_type = None, a_status = None, a_archiveFormat = None,
       a_fileCount = None, a_extractedSize = None, a_jobId = None, a_sessionId = Some ''s'', a_projectId = Some ''q'',
       a_activeVersionId = None, a_description = None, a_userMeta = None, a_access = None, a_spa = None,
       a_hosting = None\<rparr>) ReadAsset = NotFound"
  by (subst outsiders_see_nothing) (simp_all add: sample_context_def authorizeAsset_def authorizeOwned_def)

lemma simple_authorizer_decides_witness:
  "authorizeProject ((sample_context ''u'' Viewer)\<lparr>cx_authorizer := SimpleAuthorizer\<rparr>) ''p'' DeleteAsset = Forbidden"
  by (subst simple_authorizer_decides[where u = "sample_user ''u''" and p = "sample_project ''p'' ''boss'' (Some ''w'')"])
    (simp_all add: sample_context_def may_act_def truthy_def sample_project_def sample_user_def
      sample_member_def less_eq_role_def)

text \<open>The Cerbos authorizer allows only on a well-formed answer that says so.\<close>

lemma cerbos_fails_closed:
  "CerbosAuthorizer fetch' req = Allow \<longleftrightarrow>
   (\<exists>status body. fetch' req = Some (status, Blob body) \<and> 200 \<le> status \<and> status \<le> 299
      \<and> effectOf body (action_name req) = Some ''EFFECT_ALLOW'')"
  by (auto simp: CerbosAuthorizer_def split: option.splits prod.splits blob.splits)


end
