(* ===== verification/Tenancy.thy ===== *)
theory Tenancy
  imports Authorization
begin

text \<open>
  Workspaces, members and projects: the use cases (\<open>core/member\<close>, \<open>core/workspace\<close>,
  \<open>core/project\<close>) and the HTTP handlers that guard them (\<open>core/workspace/handler\<close>,
  \<open>core/project/handler.ts\<close>, \<open>core/tenancy/middleware.ts\<close>,
  \<open>adapters/sql/tenancy.ts\<close>). A use case works on a \<open>MemberAdmin\<close> port, a record of
  operations on a state; the locale \<open>member_store\<close> says what such a store promises, the
  use cases' lemmas are proved from it, and the SQL store is its instance. A thrown error is
  \<open>Inl\<close> its message. The handlers run on the SQL database of the local directory.
\<close>

section \<open>The member port and its contract\<close>

record 's member_admin =
  ma_find :: "string \<Rightarrow> string \<Rightarrow> 's \<Rightarrow> member option"
  ma_list :: "string \<Rightarrow> 's \<Rightarrow> member list"
  ma_save :: "member \<Rightarrow> 's \<Rightarrow> 's"
  ma_delete :: "string \<Rightarrow> string \<Rightarrow> 's \<Rightarrow> 's"

definition addMember ::
  "'s member_admin \<Rightarrow> int \<Rightarrow> string \<Rightarrow> string \<Rightarrow> role \<Rightarrow> 's \<Rightarrow> (string + member) \<times> 's" where
  "addMember members now workspaceId userId role s =
     (case ma_find members workspaceId userId s of
        Some _ \<Rightarrow> (Inl ''Member already exists'', s)
      | None \<Rightarrow>
          (let member = \<lparr>m_workspaceId = workspaceId, m_userId = userId, m_role = role,
                         m_createdAt = now, m_updatedAt = now\<rparr>
           in (Inr member, ma_save members member s)))"

definition ownerCount :: "member list \<Rightarrow> nat" where
  "ownerCount allMembers = length (filter (\<lambda>m. m_role m = Owner) allMembers)"

definition updateMemberRole ::
  "'s member_admin \<Rightarrow> int \<Rightarrow> string \<Rightarrow> string \<Rightarrow> role \<Rightarrow> 's \<Rightarrow> (string + member option) \<times> 's" where
  "updateMemberRole members now workspaceId userId newRole s =
     (case ma_find members workspaceId userId s of
        None \<Rightarrow> (Inr None, s)
      | Some existing \<Rightarrow>
          if m_role existing = Owner \<and> newRole \<noteq> Owner \<and> ownerCount (ma_list members workspaceId s) \<le> 1
          then (Inl ''Cannot demote the last owner'', s)
          else (let updated = existing\<lparr>m_role := newRole, m_updatedAt := now\<rparr>
                in (Inr (Some updated), ma_save members updated s)))"

definition removeMember ::
  "'s member_admin \<Rightarrow> string \<Rightarrow> string \<Rightarrow> 's \<Rightarrow> (string + bool) \<times> 's" where
  "removeMember members workspaceId userId s =
     (case ma_find members workspaceId userId s of
        None \<Rightarrow> (Inr False, s)
      | Some existing \<Rightarrow>
          if m_role existing = Owner \<and> ownerCount (ma_list members workspaceId s) \<le> 1
          then (Inl ''Cannot remove the last owner'', s)
          else (Inr True, ma_delete members workspaceId userId s))"

locale member_store =
  fixes members :: "'s member_admin"
    and rows :: "'s \<Rightarrow> string \<times> string \<rightharpoonup> member"
    and invar :: "'s \<Rightarrow> bool"
  assumes find: "invar s \<Longrightarrow> ma_find members w u s = rows s (w, u)"
    and keyed: "invar s \<Longrightarrow> rows s (w, u) = Some m \<Longrightarrow> m_workspaceId m = w \<and> m_userId m = u"
    and list_sound: "invar s \<Longrightarrow> m \<in> set (ma_list members w s) \<Longrightarrow> rows s (w, m_userId m) = Some m"
    and list_distinct: "invar s \<Longrightarrow> distinct (ma_list members w s)"
    and save: "invar s \<Longrightarrow> rows (ma_save members m s) = (rows s)((m_workspaceId m, m_userId m) \<mapsto> m)"
    and save_invar: "invar s \<Longrightarrow> invar (ma_save members m s)"
    and delete: "invar s \<Longrightarrow> rows (ma_delete members w u s) = (rows s)((w, u) := None)"
    and delete_invar: "invar s \<Longrightarrow> invar (ma_delete members w u s)"
begin

definition has_owner :: "string \<Rightarrow> 's \<Rightarrow> bool" where
  "has_owner w s \<longleftrightarrow> (\<exists>u m. rows s (w, u) = Some m \<and> m_role m = Owner)"

lemma another_owner:
  assumes "invar s" and "\<not> ownerCount (ma_list members w s) \<le> 1"
  shows "\<exists>v m. v \<noteq> u \<and> rows s (w, v) = Some m \<and> m_role m = Owner"
proof -
  let ?os = "filter (\<lambda>m. m_role m = Owner) (ma_list members w s)"
  have "distinct ?os" using list_distinct[OF assms(1)] by simp
  moreover obtain a b r where os: "?os = a # b # r"
    using assms(2) unfolding ownerCount_def
    by (cases ?os rule: remdups_adj.cases) auto
  ultimately have "a \<noteq> b" by simp
  have "a \<in> set ?os" "b \<in> set ?os" unfolding os by simp_all
  then have owner: "m_role a = Owner" "m_role b = Owner"
    and row: "rows s (w, m_userId a) = Some a" "rows s (w, m_userId b) = Some b"
    using list_sound[OF assms(1)] by auto
  have "m_userId a \<noteq> m_userId b" using row \<open>a \<noteq> b\<close> by auto
  then show ?thesis using owner row by (metis (full_types))
qed

lemma add_rows:
  assumes "invar s" and "addMember members now w u r s = (res, s')"
  shows "invar s'" and "rows s' k = (if k = (w, u) \<and> rows s k = None
    then Some \<lparr>m_workspaceId = w, m_userId = u, m_role = r, m_createdAt = now, m_updatedAt = now\<rparr> else rows s k)"
  using assms by (auto simp: addMember_def Let_def find save save_invar split: option.splits)

lemma add_result:
  assumes "invar s"
  shows "isl (fst (addMember members now w u r s)) \<longleftrightarrow> rows s (w, u) \<noteq> None"
  using assms by (auto simp: addMember_def Let_def find split: option.splits)

lemma update_keeps_owner:
  assumes "invar s" and "updateMemberRole members now w u r s = (res, s')" and "has_owner w' s"
  shows "invar s' \<and> has_owner w' s'"
proof (cases "rows s (w, u)")
  case None
  with assms show ?thesis by (simp add: updateMemberRole_def find)
next
  case (Some m)
  note keyed_m = keyed[OF assms(1) Some]
  show ?thesis
  proof (cases "m_role m = Owner \<and> r \<noteq> Owner \<and> ownerCount (ma_list members w s) \<le> 1")
    case True
    with assms Some show ?thesis by (auto simp: updateMemberRole_def find)
  next
    case False
    then have s': "s' = ma_save members (m\<lparr>m_role := r, m_updatedAt := now\<rparr>) s"
      using assms(2) Some by (auto simp: updateMemberRole_def find[OF assms(1)] Let_def)
    have rows': "rows s' = (rows s)((w, u) \<mapsto> m\<lparr>m_role := r, m_updatedAt := now\<rparr>)"
      using keyed_m by (simp add: s' save[OF assms(1)])
    obtain v n where n: "rows s (w', v) = Some n" "m_role n = Owner"
      using assms(3) by (auto simp: has_owner_def)
    have "has_owner w' s'"
    proof (cases "(w', v) = (w, u) \<and> r \<noteq> Owner")
      case True
      with n Some False have "\<not> ownerCount (ma_list members w s) \<le> 1" by auto
      from another_owner[OF assms(1) this, of u] True show ?thesis
        by (auto simp: has_owner_def rows')
    next
      case False
      with n show ?thesis
        unfolding has_owner_def rows' by (cases "(w', v) = (w, u)") (auto intro!: exI[of _ v])
    qed
    with s' show ?thesis by (simp add: save_invar[OF assms(1)])
  qed
qed

lemma remove_keeps_owner:
  assumes "invar s" and "removeMember members w u s = (res, s')" and "has_owner w' s"
  shows "invar s' \<and> has_owner w' s'"
proof (cases "rows s (w, u)")
  case None
  with assms show ?thesis by (simp add: removeMember_def find)
next
  case (Some m)
  show ?thesis
  proof (cases "m_role m = Owner \<and> ownerCount (ma_list members w s) \<le> 1")
    case True
    with assms Some show ?thesis by (simp add: removeMember_def find)
  next
    case False
    then have s': "s' = ma_delete members w u s"
      using assms(2) Some by (auto simp: removeMember_def find[OF assms(1)])
    obtain v n where n: "rows s (w', v) = Some n" "m_role n = Owner"
      using assms(3) by (auto simp: has_owner_def)
    have "has_owner w' s'"
    proof (cases "(w', v) = (w, u)")
      case True
      with n Some False have "\<not> ownerCount (ma_list members w s) \<le> 1" by auto
      from another_owner[OF assms(1) this, of u] True show ?thesis
        by (auto simp: has_owner_def s' delete[OF assms(1)])
    next
      case False
      with n show ?thesis by (auto simp: has_owner_def s' delete[OF assms(1)] intro!: exI[of _ v])
    qed
    with s' show ?thesis by (simp add: delete_invar[OF assms(1)])
  qed
qed

lemma add_keeps_owner:
  assumes "invar s" and "addMember members now w u r s = (res, s')" and "has_owner w' s"
  shows "invar s' \<and> has_owner w' s'"
proof -
  obtain v m where m: "rows s (w', v) = Some m" "m_role m = Owner"
    using assms(3) by (auto simp: has_owner_def)
  then have "rows s' (w', v) = Some m" using add_rows(2)[OF assms(1,2), of "(w', v)"] by auto
  with m add_rows(1)[OF assms(1,2)] show ?thesis by (auto simp: has_owner_def)
qed

end

section \<open>The SQL store is such a store\<close>

definition sql_members :: "database member_admin" where
  "sql_members = \<lparr>ma_find = member_find, ma_list = member_list, ma_save = member_save, ma_delete = member_delete\<rparr>"

definition member_rows :: "database \<Rightarrow> string \<times> string \<rightharpoonup> member" where
  "member_rows db k = find_row member_key k (db_members db)"

interpretation sql: member_store sql_members member_rows database_ok
proof (unfold_locales, goal_cases)
  case (1 s w u)
  then show ?case by (simp add: sql_members_def member_find_def member_rows_def)
next
  case (2 s w u m)
  then show ?case by (auto simp: member_rows_def member_key_def dest!: find_row_Some)
next
  case (3 s m w)
  then have "m \<in> set (db_members s)" and "m_workspaceId m = w"
    using set_member_list[of w s] by (auto simp: sql_members_def)
  with 3 show ?case
    by (simp add: member_rows_def database_ok_def find_row_Some_iff member_key_def)
next
  case (4 s w)
  then have "distinct (db_members s)" by (simp add: database_ok_def distinct_map)
  then show ?case by (simp add: sql_members_def member_list_def order_asc_def)
next
  case (5 s m)
  then show ?case
    by (auto simp: sql_members_def member_rows_def member_save_def member_key_def fun_eq_iff)
next
  case (6 s m)
  then show ?case by (simp add: sql_members_def tenancy_writes_ok)
next
  case (7 s w u)
  then show ?case
    by (auto simp: sql_members_def member_rows_def member_delete_def find_delete_rows fun_eq_iff)
next
  case (8 s w u)
  then show ?case by (simp add: sql_members_def tenancy_writes_ok)
qed

section \<open>Workspaces and projects\<close>

definition short_id :: "string \<Rightarrow> string" where
  \<comment> \<open>\<open>crypto.randomUUID().replace(/-/g, "").slice(0, 16)\<close> of the UUID drawn\<close>
  "short_id uuid = take 16 (filter (\<lambda>c. c \<noteq> CHR ''-'') uuid)"

definition createWorkspace :: "string \<Rightarrow> int \<Rightarrow> string \<Rightarrow> string \<Rightarrow> database \<Rightarrow> workspace \<times> database" where
  "createWorkspace uuid now name userId db =
     (let id' = short_id uuid;
          ws = \<lparr>ws_id = id', ws_name = name, ws_createdAt = now, ws_updatedAt = now\<rparr>
      in (ws, member_save \<lparr>m_workspaceId = id', m_userId = userId, m_role = Owner,
                m_createdAt = now, m_updatedAt = now\<rparr> (workspace_save ws db)))"

datatype delete_workspace_result = Deleted | WorkspaceNotFound | HasProjects

definition deleteWorkspace :: "string \<Rightarrow> database \<Rightarrow> delete_workspace_result \<times> database" where
  "deleteWorkspace id' db =
     (case workspace_find id' db of
        None \<Rightarrow> (WorkspaceNotFound, db)
      | Some _ \<Rightarrow>
          if project_list (InWorkspace id') db \<noteq> [] then (HasProjects, db)
          else (Deleted, workspace_delete id'
                  (fold (\<lambda>m. member_delete id' (m_userId m)) (member_list id' db) db)))"

definition createProject ::
  "string \<Rightarrow> int \<Rightarrow> string \<Rightarrow> string \<Rightarrow> string option \<Rightarrow> database \<Rightarrow> project \<times> database" where
  "createProject uuid now name ownerId workspaceId db =
     (let p = \<lparr>p_id = short_id uuid, p_name = name, p_createdAt = now, p_updatedAt = now, p_ownerId = ownerId,
               p_workspaceId = (if truthy workspaceId then workspaceId else None)\<rparr>
      in (p, project_save p db))"

section \<open>Handlers\<close>

datatype reply_body =
    ErrorText string | AMember member | Members "member list" | AWorkspace workspace
  | AProject project | Projects "project list" | NoContent

type_synonym reply = "nat \<times> reply_body"

record request =
  rq_user :: "auth_user option"
  rq_sessionId :: "string option"
  rq_authorizer :: authorizer
  rq_admin :: bool
    \<comment> \<open>\<open>tenancy.admin\<close> is present: the local directory owns membership\<close>

definition accessCtx :: "request \<Rightarrow> database \<Rightarrow> access_context" where
  "accessCtx rq db = \<lparr>cx_user = rq_user rq, cx_sessionId = rq_sessionId rq, cx_authorizer = rq_authorizer rq,
     cx_members_find = (\<lambda>w u. member_find w u db), cx_projects_find = (\<lambda>i. project_find i db)\<rparr>"

definition denied_reply :: "bool \<Rightarrow> bool \<Rightarrow> string \<Rightarrow> reply" where
  "denied_reply is_forbidden as403 notFound =
     (case deniedResponse is_forbidden as403 of
        Forbidden403 \<Rightarrow> (403, ErrorText ''Forbidden'')
      | NotFound404 \<Rightarrow> (404, ErrorText notFound))"

definition tenancyErrorResponse :: reply where
  \<comment> \<open>the answer to a \<open>TenancyUnavailableError\<close>\<close>
  "tenancyErrorResponse = (503, ErrorText ''Authorization service unavailable'')"

definition requireTenancyAdmin :: "request \<Rightarrow> reply option" where
  "requireTenancyAdmin rq =
     (if rq_admin rq then None
      else Some (405, ErrorText ''Workspaces and members are managed by an external directory''))"

definition on_decision ::
  "'a decision \<Rightarrow> bool \<Rightarrow> string \<Rightarrow> database \<Rightarrow> ('a \<Rightarrow> reply \<times> database) \<Rightarrow> reply \<times> database" where
  \<comment> \<open>\<open>if (!access.ok) return deniedResponse(\<dots>)\<close>\<close>
  "on_decision access as403 notFound db continue =
     (case access of
        Granted v \<Rightarrow> continue v
      | NotFound \<Rightarrow> (denied_reply False as403 notFound, db)
      | Forbidden \<Rightarrow> (denied_reply True as403 notFound, db)
      | Unavailable \<Rightarrow> (tenancyErrorResponse, db))"

definition admin_user ::
  "request \<Rightarrow> database \<Rightarrow> (auth_user \<Rightarrow> reply \<times> database) \<Rightarrow> reply \<times> database" where
  \<comment> \<open>the two guards every write of the directory starts with\<close>
  "admin_user rq db continue =
     (case requireTenancyAdmin rq of
        Some refusal \<Rightarrow> (refusal, db)
      | None \<Rightarrow> (case rq_user rq of
                  None \<Rightarrow> ((401, ErrorText ''Authentication required''), db)
                | Some user \<Rightarrow> continue user))"

definition add_member_handler :: "int \<Rightarrow> request \<Rightarrow> string \<Rightarrow> string \<Rightarrow> role \<Rightarrow> database \<Rightarrow> reply \<times> database" where
  "add_member_handler now rq workspaceId userId role' db =
     admin_user rq db (\<lambda>_.
       on_decision (authorizeWorkspace (accessCtx rq db) workspaceId ManageMembers) True ''Workspace not found'' db
         (\<lambda>self.
           if \<not> canManageRole (m_role self) role' then ((403, ErrorText ''Forbidden''), db)
           else (case addMember sql_members now workspaceId userId role' db of
                   (Inl message, db') \<Rightarrow> ((409, ErrorText message), db')
                 | (Inr member, db') \<Rightarrow> ((201, AMember member), db'))))"

definition update_member_handler :: "int \<Rightarrow> request \<Rightarrow> string \<Rightarrow> string \<Rightarrow> role \<Rightarrow> database \<Rightarrow> reply \<times> database" where
  "update_member_handler now rq workspaceId targetUserId role' db =
     admin_user rq db (\<lambda>_.
       on_decision (authorizeWorkspace (accessCtx rq db) workspaceId ManageMembers) True ''Workspace not found'' db
         (\<lambda>self.
           (case ma_find sql_members workspaceId targetUserId db of
              None \<Rightarrow> ((404, ErrorText ''Member not found''), db)
            | Some target \<Rightarrow>
                if \<not> canManageRole (m_role self) (m_role target) \<or> \<not> canManageRole (m_role self) role'
                then ((403, ErrorText ''Forbidden''), db)
                else (case updateMemberRole sql_members now workspaceId targetUserId role' db of
                        (Inl message, db') \<Rightarrow> ((400, ErrorText message), db')
                      | (Inr None, db') \<Rightarrow> ((404, ErrorText ''Member not found''), db')
                      | (Inr (Some member), db') \<Rightarrow> ((200, AMember member), db')))))"

definition remove_member_handler :: "request \<Rightarrow> string \<Rightarrow> string \<Rightarrow> database \<Rightarrow> reply \<times> database" where
  "remove_member_handler rq workspaceId targetUserId db =
     admin_user rq db (\<lambda>_.
       on_decision (authorizeWorkspace (accessCtx rq db) workspaceId ManageMembers) True ''Workspace not found'' db
         (\<lambda>self.
           (case ma_find sql_members workspaceId targetUserId db of
              None \<Rightarrow> ((404, ErrorText ''Member not found''), db)
            | Some target \<Rightarrow>
                if \<not> canManageRole (m_role self) (m_role target)
                then ((403, ErrorText ''Forbidden''), db)
                else (case removeMember sql_members workspaceId targetUserId db of
                        (Inl message, db') \<Rightarrow> ((400, ErrorText message), db')
                      | (Inr removed, db') \<Rightarrow>
                          if \<not> removed then ((404, ErrorText ''Member not found''), db')
                          else ((204, NoContent), db')))))"

definition list_members_handler :: "request \<Rightarrow> string \<Rightarrow> database \<Rightarrow> reply \<times> database" where
  "list_members_handler rq workspaceId db =
     (case rq_user rq of
        None \<Rightarrow> ((401, ErrorText ''Authentication required''), db)
      | Some _ \<Rightarrow>
          on_decision (authorizeWorkspace (accessCtx rq db) workspaceId ReadWorkspace) False ''Workspace not found'' db
            (\<lambda>_. ((200, Members (member_list workspaceId db)), db)))"

definition create_workspace_handler :: "string \<Rightarrow> int \<Rightarrow> request \<Rightarrow> string \<Rightarrow> database \<Rightarrow> reply \<times> database" where
  "create_workspace_handler uuid now rq name db =
     admin_user rq db (\<lambda>user.
       let (ws, db') = createWorkspace uuid now name (u_id user) db in ((201, AWorkspace ws), db'))"

definition get_workspace_handler :: "request \<Rightarrow> string \<Rightarrow> database \<Rightarrow> reply \<times> database" where
  "get_workspace_handler rq id' db =
     (case rq_user rq of
        None \<Rightarrow> ((401, ErrorText ''Authentication required''), db)
      | Some _ \<Rightarrow>
          on_decision (authorizeWorkspace (accessCtx rq db) id' ReadWorkspace) False ''Workspace not found'' db
            (\<lambda>_. case workspace_find id' db of
                    None \<Rightarrow> ((404, ErrorText ''Workspace not found''), db)
                  | Some ws \<Rightarrow> ((200, AWorkspace ws), db)))"

definition delete_workspace_handler :: "request \<Rightarrow> string \<Rightarrow> database \<Rightarrow> reply \<times> database" where
  "delete_workspace_handler rq id' db =
     admin_user rq db (\<lambda>_.
       on_decision (authorizeWorkspace (accessCtx rq db) id' DeleteWorkspace) True ''Workspace not found'' db
         (\<lambda>_. case deleteWorkspace id' db of
                 (WorkspaceNotFound, db') \<Rightarrow> ((404, ErrorText ''Workspace not found''), db')
               | (HasProjects, db') \<Rightarrow> ((409, ErrorText ''Workspace still has projects''), db')
               | (Deleted, db') \<Rightarrow> ((204, NoContent), db')))"

definition list_projects_handler :: "request \<Rightarrow> string option \<Rightarrow> database \<Rightarrow> reply \<times> database" where
  "list_projects_handler rq workspaceId db =
     (case rq_user rq of
        None \<Rightarrow> ((401, ErrorText ''Authentication required. Run `login` to access project commands.''), db)
      | Some user \<Rightarrow>
          if truthy workspaceId then
            on_decision (authorizeWorkspace (accessCtx rq db) (the workspaceId) ReadWorkspace) False
              ''Workspace not found'' db
              (\<lambda>_. ((200, Projects (project_list (InWorkspace (the workspaceId)) db)), db))
          else
            (let memberOf = map m_workspaceId (member_listForCaller (Some (u_id user)) db)
             in ((200, Projects (project_list (CreatedBy (u_id user) memberOf) db)), db)))"

definition create_project_handler ::
  "string \<Rightarrow> int \<Rightarrow> request \<Rightarrow> string \<Rightarrow> string option \<Rightarrow> database \<Rightarrow> reply \<times> database" where
  "create_project_handler uuid now rq name workspaceId db =
     (case rq_user rq of
        None \<Rightarrow> ((401, ErrorText ''Authentication required''), db)
      | Some user \<Rightarrow>
          (let create = (\<lambda>_. let (p, db') = createProject uuid now name (u_id user) workspaceId db
                             in ((201, AProject p), db'))
           in if truthy workspaceId then
                on_decision (authorizeWorkspace (accessCtx rq db) (the workspaceId) CreateProject) True
                  ''Workspace not found'' db (\<lambda>_. create ())
              else create ()))"

definition get_project_handler :: "request \<Rightarrow> string \<Rightarrow> database \<Rightarrow> reply \<times> database" where
  "get_project_handler rq id' db =
     (case rq_user rq of
        None \<Rightarrow> ((401, ErrorText ''Authentication required''), db)
      | Some _ \<Rightarrow>
          on_decision (authorizeProject (accessCtx rq db) id' ReadProject) False ''Project not found'' db
            (\<lambda>p. ((200, AProject p), db)))"

definition delete_project_handler :: "request \<Rightarrow> string \<Rightarrow> database \<Rightarrow> reply \<times> database" where
  "delete_project_handler rq id' db =
     (case rq_user rq of
        None \<Rightarrow> ((401, ErrorText ''Authentication required''), db)
      | Some _ \<Rightarrow>
          on_decision (authorizeProject (accessCtx rq db) id' DeleteProject) False
            ''Project not found or not authorized'' db
            (\<lambda>p. ((204, NoContent), project_delete (p_id p) db)))"

section \<open>Which paths bind a caller\<close>

definition UNBOUND_API_PATHS :: "string list" where
  "UNBOUND_API_PATHS = [''/api/v1/health'', ''/api/v1/doc'', ''/api/v1/docs'']"

definition bindsCaller :: "string \<Rightarrow> bool" where
  "bindsCaller path \<longleftrightarrow> starts_with ''/api/v1/'' path \<and> path \<notin> set UNBOUND_API_PATHS"

text \<open>\<open>LocalTenancy.enter\<close>: the directory user of a verified caller is keyed by \<open>sub\<close>.\<close>

record verified_caller =
  vc_sub :: string
  vc_email :: "string option"
  vc_name :: "string option"

definition local_tenancy_enter :: "authorizer \<Rightarrow> verified_caller option \<Rightarrow> string option \<Rightarrow> request" where
  "local_tenancy_enter check caller sessionId =
     \<lparr>rq_user = map_option (\<lambda>c. \<lparr>u_id = vc_sub c, u_sub = vc_sub c, u_email = vc_email c, u_name = vc_name c\<rparr>) caller,
      rq_sessionId = sessionId, rq_authorizer = check, rq_admin = True\<rparr>"

definition tenancyMiddleware :: "authorizer \<Rightarrow> string \<Rightarrow> verified_caller option \<Rightarrow> string option \<Rightarrow> request" where
  "tenancyMiddleware check path caller sessionId =
     local_tenancy_enter check (if bindsCaller path then caller else None) sessionId"

section \<open>What the handlers guarantee\<close>

lemma on_decision_cases:
  "on_decision access as403 msg db k = (r, db') \<Longrightarrow>
   (\<exists>v. access = Granted v \<and> k v = (r, db')) \<or> ((\<forall>v. access \<noteq> Granted v) \<and> db' = db \<and> fst r \<ge> 400)"
  by (cases access)
    (auto simp: on_decision_def denied_reply_def tenancyErrorResponse_def split: denial_code.splits)

lemma admin_user_cases:
  "admin_user rq db k = (r, db') \<Longrightarrow>
   (\<exists>u. rq_admin rq \<and> rq_user rq = Some u \<and> k u = (r, db')) \<or> (db' = db \<and> fst r \<ge> 400)"
  by (auto simp: admin_user_def requireTenancyAdmin_def split: option.splits if_splits)

lemma granted_workspace:
  assumes "authorizeWorkspace (accessCtx rq db) w action = Granted m" and "rq_user rq = Some u"
  shows "member_find w (u_id u) db = Some m \<and> POLICY (OnWorkspace action) \<le> m_role m"
  using assms
  by (auto simp: authorizeWorkspace_def accessCtx_def decide_Granted permitted_Allow allows_def
      less_eq_role_def split: option.splits)

text \<open>Every operation of the directory, with its arguments, as one call of its handler.\<close>

datatype tenancy_call =
    AddMember int string string role
  | UpdateMember int string string role
  | RemoveMember string string
  | CreateWs string int string
  | DeleteWs string
  | CreatePj string int string "string option"
  | DeletePj string

fun run_call :: "request \<Rightarrow> tenancy_call \<Rightarrow> database \<Rightarrow> reply \<times> database" where
  "run_call rq (AddMember now w u r) db = add_member_handler now rq w u r db"
| "run_call rq (UpdateMember now w u r) db = update_member_handler now rq w u r db"
| "run_call rq (RemoveMember w u) db = remove_member_handler rq w u db"
| "run_call rq (CreateWs uuid now name) db = create_workspace_handler uuid now rq name db"
| "run_call rq (DeleteWs w) db = delete_workspace_handler rq w db"
| "run_call rq (CreatePj uuid now name w) db = create_project_handler uuid now rq name w db"
| "run_call rq (DeletePj i) db = delete_project_handler rq i db"

inductive tenancy_step :: "database \<Rightarrow> database \<Rightarrow> bool" where
  "run_call rq call db = (r, db') \<Longrightarrow> tenancy_step db db'"

inductive_cases tenancy_stepE: "tenancy_step db db'"

definition owned :: "database \<Rightarrow> bool" where
  \<comment> \<open>every workspace has an owner\<close>
  "owned db \<longleftrightarrow> (\<forall>ws \<in> set (db_workspaces db). sql.has_owner (ws_id ws) db)"

lemma add_member_cases:
  assumes "add_member_handler now rq w u r db = (rep, db')"
  shows "db' = db \<or> (\<exists>me self. rq_user rq = Some me \<and> member_find w (u_id me) db = Some self
    \<and> Admin \<le> m_role self \<and> r \<le> m_role self \<and> (\<exists>res. addMember sql_members now w u r db = (res, db')))"
  using assms unfolding add_member_handler_def
  by (auto dest!: admin_user_cases on_decision_cases granted_workspace
      simp: canManageRole_def less_eq_role_def split: if_splits prod.splits sum.splits)

lemma update_member_cases:
  assumes "update_member_handler now rq w u r db = (rep, db')"
  shows "db' = db \<or> (\<exists>me self target. rq_user rq = Some me \<and> member_find w (u_id me) db = Some self
    \<and> Admin \<le> m_role self \<and> r \<le> m_role self \<and> member_find w u db = Some target \<and> m_role target \<le> m_role self
    \<and> (\<exists>res. updateMemberRole sql_members now w u r db = (res, db')))"
  using assms unfolding update_member_handler_def
  by (auto dest!: admin_user_cases on_decision_cases granted_workspace
      simp: canManageRole_def less_eq_role_def sql_members_def
      split: if_splits prod.splits sum.splits option.splits)

lemma remove_member_cases:
  assumes "remove_member_handler rq w u db = (rep, db')"
  shows "db' = db \<or> (\<exists>me self target. rq_user rq = Some me \<and> member_find w (u_id me) db = Some self
    \<and> Admin \<le> m_role self \<and> member_find w u db = Some target \<and> m_role target \<le> m_role self
    \<and> (\<exists>res. removeMember sql_members w u db = (res, db')))"
  using assms unfolding remove_member_handler_def
  by (auto dest!: admin_user_cases on_decision_cases granted_workspace
      simp: canManageRole_def less_eq_role_def sql_members_def
      split: if_splits prod.splits sum.splits option.splits)

lemma create_workspace_cases:
  assumes "create_workspace_handler uuid now rq name db = (rep, db')"
  shows "db' = db \<or> (\<exists>me. rq_user rq = Some me \<and> db' = snd (createWorkspace uuid now name (u_id me) db))"
  using assms unfolding create_workspace_handler_def
  by (auto dest!: admin_user_cases split: prod.splits)

lemma delete_workspace_cases:
  assumes "delete_workspace_handler rq w db = (rep, db')"
  shows "db' = db \<or> (\<exists>me self. rq_user rq = Some me \<and> member_find w (u_id me) db = Some self
    \<and> Owner \<le> m_role self \<and> db' = snd (deleteWorkspace w db) \<and> project_list (InWorkspace w) db = [])"
  using assms unfolding delete_workspace_handler_def
  by (auto dest!: admin_user_cases on_decision_cases granted_workspace
      simp: deleteWorkspace_def split: if_splits prod.splits option.splits delete_workspace_result.splits)

lemma project_calls_frame:
  "create_project_handler uuid now rq name w db = (rep, db') \<Longrightarrow>
     db' = db \<or> (\<exists>p. db' = project_save p db)"
  "delete_project_handler rq i db = (rep', db'') \<Longrightarrow> db'' = db \<or> (\<exists>j. db'' = project_delete j db)"
   apply (auto simp: create_project_handler_def createProject_def Let_def
      dest!: on_decision_cases split: option.splits if_splits)[1]
  apply (auto simp: delete_project_handler_def dest!: on_decision_cases split: option.splits)
  done

lemma member_store_frame:
  "db_workspaces (member_save m db) = db_workspaces db"
  "db_workspaces (member_delete w u db) = db_workspaces db"
  "db_members (workspace_save ws db) = db_members db"
  "db_members (workspace_delete w db) = db_members db"
  "db_members (project_save p db) = db_members db" "db_workspaces (project_save p db) = db_workspaces db"
  "db_members (project_delete i db) = db_members db" "db_workspaces (project_delete i db) = db_workspaces db"
  by (simp_all add: tenancy_defs)

lemma member_usecase_frame:
  "db_workspaces (snd (addMember sql_members now w u r db)) = db_workspaces db"
  "db_workspaces (snd (updateMemberRole sql_members now w u r db)) = db_workspaces db"
  "db_workspaces (snd (removeMember sql_members w u db)) = db_workspaces db"
  by (simp_all add: addMember_def updateMemberRole_def removeMember_def sql_members_def Let_def
      member_store_frame split: option.splits)

lemma has_owner_members: "db_members db = db_members db' \<Longrightarrow> sql.has_owner w db = sql.has_owner w db'"
  by (simp add: sql.has_owner_def member_rows_def)

lemma fold_member_delete:
  "db_workspaces (fold (\<lambda>m. member_delete w (m_userId m)) ms db) = db_workspaces db"
  by (induction ms arbitrary: db) (simp_all add: member_store_frame)

lemma fold_member_delete_ok:
  "database_ok db \<Longrightarrow> database_ok (fold (\<lambda>m. member_delete w (m_userId m)) ms db)"
proof (induction ms arbitrary: db)
  case (Cons m ms)
  then have "database_ok (member_delete w (m_userId m) db)" by (intro tenancy_writes_ok)
  from Cons.IH[OF this] show ?case by simp
qed simp

lemma fold_member_delete_owner:
  "database_ok db \<Longrightarrow> w' \<noteq> w \<Longrightarrow> sql.has_owner w' db \<Longrightarrow>
     sql.has_owner w' (fold (\<lambda>m. member_delete w (m_userId m)) ms db)"
proof (induction ms arbitrary: db)
  case (Cons m ms)
  then have "database_ok (member_delete w (m_userId m) db)" by (intro tenancy_writes_ok)
  moreover have "sql.has_owner w' (member_delete w (m_userId m) db)"
    using Cons.prems sql.delete[of db w "m_userId m"] by (auto simp: sql.has_owner_def sql_members_def)
  ultimately show ?case using Cons.IH Cons.prems(2) by simp
qed simp

definition directory_ok :: "database \<Rightarrow> bool" where
  "directory_ok db \<longleftrightarrow> owned db \<and> database_ok db"

lemma directory_keeps:
  assumes "directory_ok db" and "database_ok db'" and "db_workspaces db' = db_workspaces db"
    and "\<And>w. sql.has_owner w db \<Longrightarrow> sql.has_owner w db'"
  shows "directory_ok db'"
  using assms by (simp add: directory_ok_def owned_def)

lemma add_member_keeps:
  assumes "directory_ok db" and "add_member_handler now rq w u r db = (rep, db')"
  shows "directory_ok db'"
proof (cases "db' = db")
  case False
  then obtain res where add: "addMember sql_members now w u r db = (res, db')"
    using add_member_cases[OF assms(2)] by blast
  have ok: "database_ok db" using assms(1) by (simp add: directory_ok_def)
  show ?thesis
    using sql.add_keeps_owner[OF ok add] sql.add_rows(1)[OF ok add] member_usecase_frame(1)[of now w u r db] add
    by (intro directory_keeps[OF assms(1)]) auto
qed (use assms(1) in simp)

lemma update_member_keeps:
  assumes "directory_ok db" and "update_member_handler now rq w u r db = (rep, db')"
  shows "directory_ok db'"
proof (cases "db' = db")
  case False
  then obtain res where upd: "updateMemberRole sql_members now w u r db = (res, db')"
    using update_member_cases[OF assms(2)] by blast
  have ok: "database_ok db" using assms(1) by (simp add: directory_ok_def)
  then have "database_ok db'"
    using upd by (auto simp: updateMemberRole_def sql_members_def Let_def tenancy_writes_ok split: option.splits if_splits)
  then show ?thesis
    using sql.update_keeps_owner[OF ok upd] member_usecase_frame(2)[of now w u r db] upd
    by (intro directory_keeps[OF assms(1)]) auto
qed (use assms(1) in simp)

lemma remove_member_keeps:
  assumes "directory_ok db" and "remove_member_handler rq w u db = (rep, db')"
  shows "directory_ok db'"
proof (cases "db' = db")
  case False
  then obtain res where rem: "removeMember sql_members w u db = (res, db')"
    using remove_member_cases[OF assms(2)] by blast
  have ok: "database_ok db" using assms(1) by (simp add: directory_ok_def)
  then have "database_ok db'"
    using rem by (auto simp: removeMember_def sql_members_def tenancy_writes_ok split: option.splits if_splits)
  then show ?thesis
    using sql.remove_keeps_owner[OF ok rem] member_usecase_frame(3)[of w u db] rem
    by (intro directory_keeps[OF assms(1)]) auto
qed (use assms(1) in simp)

lemma createWorkspace_keeps:
  assumes "directory_ok db"
  shows "directory_ok (snd (createWorkspace uuid now name me db))"
proof -
  let ?i = "short_id uuid"
  let ?ws = "\<lparr>ws_id = ?i, ws_name = name, ws_createdAt = now, ws_updatedAt = now\<rparr>"
  let ?m = "\<lparr>m_workspaceId = ?i, m_userId = me, m_role = Owner, m_createdAt = now, m_updatedAt = now\<rparr>"
  let ?db = "member_save ?m (workspace_save ?ws db)"
  have ok: "database_ok (workspace_save ?ws db)"
    using assms by (simp add: directory_ok_def tenancy_writes_ok)
  have rows: "member_rows ?db = (member_rows db)((?i, me) \<mapsto> ?m)"
    using sql.save[OF ok, of ?m] by (simp add: sql_members_def member_rows_def[abs_def] member_store_frame)
  have "sql.has_owner (ws_id x) ?db" if "x \<in> set (db_workspaces ?db)" for x
  proof (cases "ws_id x = ?i")
    case True
    then show ?thesis by (auto simp: sql.has_owner_def rows)
  next
    case False
    with that have "x \<in> set (db_workspaces db)"
      by (auto simp: member_store_frame workspace_save_def set_replace_row)
    with assms False show ?thesis by (auto simp: sql.has_owner_def rows directory_ok_def owned_def)
  qed
  then show ?thesis
    using tenancy_writes_ok(3)[OF ok]
    by (auto simp: createWorkspace_def Let_def directory_ok_def owned_def)
qed

lemma deleteWorkspace_keeps:
  assumes "directory_ok db"
  shows "directory_ok (snd (deleteWorkspace w db))"
proof (cases "fst (deleteWorkspace w db) = Deleted")
  case True
  let ?db = "fold (\<lambda>m. member_delete w (m_userId m)) (member_list w db) db"
  from True have db': "snd (deleteWorkspace w db) = workspace_delete w ?db"
    by (auto simp: deleteWorkspace_def split: option.splits if_splits)
  have ok: "database_ok db" using assms by (simp add: directory_ok_def)
  have "sql.has_owner (ws_id x) (workspace_delete w ?db)" if "x \<in> set (db_workspaces (workspace_delete w ?db))" for x
  proof -
    from that have "x \<in> set (db_workspaces db)" and "ws_id x \<noteq> w"
      by (auto simp: workspace_delete_def fold_member_delete)
    then have "sql.has_owner (ws_id x) ?db"
      using assms ok by (intro fold_member_delete_owner) (auto simp: directory_ok_def owned_def)
    then show ?thesis
      by (simp add: has_owner_members[of "workspace_delete w ?db" ?db] member_store_frame)
  qed
  then show ?thesis
    using tenancy_writes_ok(2)[OF fold_member_delete_ok[OF ok]] by (simp add: directory_ok_def owned_def db')
next
  case False
  then have "snd (deleteWorkspace w db) = db" by (auto simp: deleteWorkspace_def split: option.splits if_splits)
  with assms show ?thesis by simp
qed

lemma project_writes_keep:
  assumes "directory_ok db"
  shows "directory_ok (project_save p db)" and "directory_ok (project_delete j db)"
proof -
  have ok: "database_ok db" using assms by (simp add: directory_ok_def)
  have "sql.has_owner w (project_save p db) = sql.has_owner w db"
    and "sql.has_owner w (project_delete j db) = sql.has_owner w db" for w
    by (rule has_owner_members, simp add: member_store_frame)+
  then show "directory_ok (project_save p db)" and "directory_ok (project_delete j db)"
    by (auto intro!: directory_keeps[OF assms] tenancy_writes_ok[OF ok] simp: member_store_frame)
qed

lemma run_call_keeps:
  assumes "directory_ok db" and "run_call rq call db = (rep, db')"
  shows "directory_ok db'"
proof (cases call)
  case (AddMember now w u r)
  with assms add_member_keeps show ?thesis by (metis run_call.simps(1))
next
  case (UpdateMember now w u r)
  with assms update_member_keeps show ?thesis by (metis run_call.simps(2))
next
  case (RemoveMember w u)
  with assms remove_member_keeps show ?thesis by (metis run_call.simps(3))
next
  case (CreateWs uuid now name)
  with create_workspace_cases assms createWorkspace_keeps show ?thesis by (metis run_call.simps(4))
next
  case (DeleteWs w)
  with delete_workspace_cases assms deleteWorkspace_keeps show ?thesis by (metis run_call.simps(5))
next
  case (CreatePj uuid now name w)
  with project_calls_frame(1) assms project_writes_keep show ?thesis by (metis run_call.simps(6))
next
  case (DeletePj i)
  with project_calls_frame(2) assms project_writes_keep show ?thesis by (metis run_call.simps(7))
qed

text \<open>
  C3: A workspace always has an owner. Whatever sequence of directory calls runs, by whatever
  callers and with whatever authorizer, each call taken as a whole: no workspace is ever left
  without an owner (and the tables keep their keys).
\<close>

theorem workspaces_keep_owner:
  assumes "tenancy_step\<^sup>*\<^sup>* db db'" and "database_ok db" and "owned db"
  shows "owned db' \<and> database_ok db'"
proof -
  have "directory_ok db'"
    using assms(1)
  proof (induction rule: rtranclp_induct)
    case base
    show ?case using assms by (simp add: directory_ok_def)
  next
    case (step db1 db2)
    from step.hyps(2) show ?case
      by (rule tenancy_stepE) (rule run_call_keeps[OF step.IH])
  qed
  then show ?thesis by (simp add: directory_ok_def)
qed

lemma member_find_rows: "member_find w u db = member_rows db (w, u)"
  by (simp add: member_find_def member_rows_def)

lemma member_rows_frame: "db_members db = db_members db' \<Longrightarrow> member_rows db = member_rows db'"
  by (simp add: member_rows_def fun_eq_iff)

lemma update_rows_change:
  assumes "database_ok db" and "updateMemberRole sql_members now w u r db = (res, db')"
    and "member_rows db' k \<noteq> member_rows db k"
  shows "k = (w, u) \<and> (\<exists>m. member_rows db' k = Some m \<and> m_role m = r)"
proof -
  obtain m where m: "member_rows db (w, u) = Some m"
    and db': "db' = member_save (m\<lparr>m_role := r, m_updatedAt := now\<rparr>) db"
    using assms(2,3)
    by (auto simp: updateMemberRole_def sql_members_def member_find_rows Let_def split: option.splits if_splits)
  from sql.keyed[OF assms(1) m] have rows: "member_rows db' = (member_rows db)((w, u) \<mapsto> m\<lparr>m_role := r, m_updatedAt := now\<rparr>)"
    using sql.save[OF assms(1), of "m\<lparr>m_role := r, m_updatedAt := now\<rparr>"] by (simp add: db' sql_members_def)
  with assms(3) show ?thesis by (auto split: if_splits)
qed

lemma remove_rows_change:
  assumes "database_ok db" and "removeMember sql_members w u db = (res, db')"
    and "member_rows db' k \<noteq> member_rows db k"
  shows "k = (w, u) \<and> member_rows db' k = None"
proof -
  have "db' = member_delete w u db"
    using assms(2,3) by (auto simp: removeMember_def sql_members_def split: option.splits if_splits)
  then have "member_rows db' = (member_rows db)((w, u) := None)"
    using sql.delete[OF assms(1), of w u] by (simp add: sql_members_def)
  with assms(3) show ?thesis by (auto split: if_splits)
qed

lemma deleteWorkspace_rows_change:
  assumes "database_ok db" and "member_rows (snd (deleteWorkspace w db)) (w', x) \<noteq> member_rows db (w', x)"
  shows "w' = w \<and> member_rows (snd (deleteWorkspace w db)) (w', x) = None"
proof -
  have folded: "member_rows (fold (\<lambda>m. member_delete w (m_userId m)) ms d) (w', x) =
      (if w' = w \<and> x \<in> m_userId ` set ms then None else member_rows d (w', x))"
    if "database_ok d" for ms d
    using that
  proof (induction ms arbitrary: d)
    case (Cons m ms)
    then have "database_ok (member_delete w (m_userId m) d)" by (intro tenancy_writes_ok)
    from Cons.IH[OF this] show ?case
      using sql.delete[OF Cons.prems, of w "m_userId m"] by (auto simp: sql_members_def)
  qed simp
  let ?db = "fold (\<lambda>m. member_delete w (m_userId m)) (member_list w db) db"
  have "snd (deleteWorkspace w db) = db \<or> member_rows (snd (deleteWorkspace w db)) = member_rows ?db"
    by (auto simp: deleteWorkspace_def member_store_frame
        intro!: member_rows_frame split: option.splits)
  with assms folded[OF assms(1), of "member_list w db"] show ?thesis by (auto split: if_splits)
qed

text \<open>
  C4: No call escalates a role. When any call other than the creation of a workspace changes
  someone's membership, the caller is a member of that same workspace, an admin at least, and
  neither the role taken away nor the role given is above the caller's own: an admin can
  neither make an owner nor touch one, and a member of one workspace cannot act on another.
\<close>

theorem no_role_escalation:
  assumes "run_call rq call db = (rep, db')" and "database_ok db"
    and "\<And>uuid now name. call \<noteq> CreateWs uuid now name"
    and "member_rows db' (w, x) \<noteq> member_rows db (w, x)"
  shows "\<exists>me self. rq_user rq = Some me \<and> member_rows db (w, u_id me) = Some self \<and> Admin \<le> m_role self
    \<and> (\<forall>m. member_rows db (w, x) = Some m \<longrightarrow> m_role m \<le> m_role self)
    \<and> (\<forall>m. member_rows db' (w, x) = Some m \<longrightarrow> m_role m \<le> m_role self)"
proof (cases call)
  case (AddMember now w1 u r)
  with assms add_member_cases obtain me self res
    where self: "rq_user rq = Some me" "member_find w1 (u_id me) db = Some self" "Admin \<le> m_role self" "r \<le> m_role self"
      and add: "addMember sql_members now w1 u r db = (res, db')"
    by (metis run_call.simps(1))
  from sql.add_rows(2)[OF assms(2) add, of "(w, x)"] self assms(4)
  show ?thesis by (auto simp: member_find_rows split: if_splits)
next
  case (UpdateMember now w1 u r)
  with assms update_member_cases obtain me self target res
    where self: "rq_user rq = Some me" "member_find w1 (u_id me) db = Some self" "Admin \<le> m_role self" "r \<le> m_role self"
        "member_find w1 u db = Some target" "m_role target \<le> m_role self"
      and upd: "updateMemberRole sql_members now w1 u r db = (res, db')"
    by (metis run_call.simps(2))
  from update_rows_change[OF assms(2) upd assms(4)] self
  show ?thesis by (auto simp: member_find_rows)
next
  case (RemoveMember w1 u)
  with assms remove_member_cases obtain me self target res
    where self: "rq_user rq = Some me" "member_find w1 (u_id me) db = Some self" "Admin \<le> m_role self"
        "member_find w1 u db = Some target" "m_role target \<le> m_role self"
      and rem: "removeMember sql_members w1 u db = (res, db')"
    by (metis run_call.simps(3))
  from remove_rows_change[OF assms(2) rem assms(4)] self
  show ?thesis by (auto simp: member_find_rows)
next
  case (CreateWs uuid now name)
  with assms(3) show ?thesis by blast
next
  case (DeleteWs w1)
  with assms delete_workspace_cases obtain me self
    where self: "rq_user rq = Some me" "member_find w1 (u_id me) db = Some self" "Owner \<le> m_role self"
      and del: "db' = snd (deleteWorkspace w1 db)"
    by (metis run_call.simps(5))
  have "m_role self = Owner" using self(3) role_le_Owner[of "m_role self"] by (rule antisym[symmetric])
  with deleteWorkspace_rows_change[OF assms(2), of w1 w x] assms(4) self
  show ?thesis by (auto simp: member_find_rows del)
next
  case (CreatePj uuid now name w1)
  with assms project_calls_frame(1) member_rows_frame show ?thesis
    by (metis member_store_frame(5) run_call.simps(6))
next
  case (DeletePj i)
  with assms project_calls_frame(2) member_rows_frame show ?thesis
    by (metis member_store_frame(7) run_call.simps(7))
qed

definition two_owners :: database where
  "two_owners = \<lparr>db_workspaces = [\<lparr>ws_id = ''w'', ws_name = ''n'', ws_createdAt = 0, ws_updatedAt = 0\<rparr>],
     db_members = [sample_member ''w'' ''u'' Owner, sample_member ''w'' ''v'' Owner, sample_member ''w'' ''e'' Editor],
     db_projects = [], db_jobs = [], db_assets = [], db_versions = [], db_usage = [], db_cleanup = [], db_hosts = []\<rparr>"

definition request_of :: "string \<Rightarrow> request" where
  "request_of u = \<lparr>rq_user = Some (sample_user u), rq_sessionId = None, rq_authorizer = SimpleAuthorizer, rq_admin = True\<rparr>"

lemma two_owners_ok: "database_ok two_owners" "owned two_owners"
proof -
  show ok: "database_ok two_owners"
    by (simp add: database_ok_def two_owners_def member_key_def sample_member_def)
  have "member_rows two_owners (''w'', ''u'') = Some (sample_member ''w'' ''u'' Owner)"
    by (simp add: member_rows_def two_owners_def member_key_def sample_member_def)
  then have "sql.has_owner ''w'' two_owners"
    unfolding sql.has_owner_def by (intro exI conjI) (auto simp: sample_member_def)
  moreover have "ws_id ws = ''w''" if "ws \<in> set (db_workspaces two_owners)" for ws
    using that by (simp add: two_owners_def)
  ultimately show "owned two_owners" by (auto simp: owned_def)
qed

lemma remove_u_run:
  "fst (run_call (request_of ''v'') (RemoveMember ''w'' ''u'') two_owners) = (204, NoContent)"
  "member_rows (snd (run_call (request_of ''v'') (RemoveMember ''w'' ''u'') two_owners)) (''w'', ''u'') = None"
  "member_rows two_owners (''w'', ''u'') = Some (sample_member ''w'' ''u'' Owner)"
  by code_simp+

lemma workspaces_keep_owner_witness:
  "owned (snd (run_call (request_of ''v'') (RemoveMember ''w'' ''u'') two_owners))"
proof -
  have "tenancy_step two_owners (snd (run_call (request_of ''v'') (RemoveMember ''w'' ''u'') two_owners))"
    by (rule tenancy_step.intros) (rule surjective_pairing)
  from workspaces_keep_owner[OF r_into_rtranclp[of tenancy_step, OF this] two_owners_ok] show ?thesis by blast
qed

lemma no_role_escalation_witness:
  "\<exists>self. member_rows two_owners (''w'', ''v'') = Some self \<and> Admin \<le> m_role self"
proof -
  let ?db = "snd (run_call (request_of ''v'') (RemoveMember ''w'' ''u'') two_owners)"
  have "member_rows ?db (''w'', ''u'') \<noteq> member_rows two_owners (''w'', ''u'')"
    by (simp add: remove_u_run(2,3) del: run_call.simps)
  from no_role_escalation[OF surjective_pairing two_owners_ok(1) _ this] show ?thesis
    by (auto simp: request_of_def sample_user_def)
qed

text \<open>
  The guard reads the member list and writes afterwards, in two statements. Two removals whose
  reads come before either write both pass it: with the reads on the same state, both owners
  are removed. (Each handler call as a whole is safe, as shown above; interleaved calls are not.)
\<close>

lemma last_owner_race:
  "fst (removeMember sql_members ''w'' ''u'' two_owners) = Inr True"
  "fst (removeMember sql_members ''w'' ''v'' two_owners) = Inr True"
  "\<not> sql.has_owner ''w'' (member_delete ''w'' ''v'' (member_delete ''w'' ''u'' two_owners))"
proof -
  show "fst (removeMember sql_members ''w'' ''u'' two_owners) = Inr True"
    and "fst (removeMember sql_members ''w'' ''v'' two_owners) = Inr True"
    by code_simp+
  have "\<forall>m \<in> set (db_members (member_delete ''w'' ''v'' (member_delete ''w'' ''u'' two_owners))). m_role m \<noteq> Owner"
    by (auto simp: member_delete_def two_owners_def member_key_def sample_member_def delete_rows_def)
  then show "\<not> sql.has_owner ''w'' (member_delete ''w'' ''v'' (member_delete ''w'' ''u'' two_owners))"
    by (auto simp: sql.has_owner_def member_rows_def dest!: find_row_Some)
qed

text \<open>
  Deleting a workspace deletes the members that \<open>list\<close> returns, and \<open>list\<close> returns the
  first two hundred: of a larger workspace the other rows stay behind.
\<close>

lemma deleteWorkspace_leaves_members:
  assumes "database_ok db" and "fst (deleteWorkspace w db) = Deleted"
    and "m \<in> set (db_members db)" and "m_workspaceId m = w" and "m \<notin> set (member_list w db)"
  shows "m \<in> set (db_members (snd (deleteWorkspace w db)))"
proof -
  let ?db = "fold (\<lambda>m. member_delete w (m_userId m)) (member_list w db) db"
  have db': "snd (deleteWorkspace w db) = workspace_delete w ?db"
    using assms(2) by (auto simp: deleteWorkspace_def split: option.splits if_splits)
  have folded: "db_members (fold (\<lambda>m. member_delete w (m_userId m)) ms d) =
      filter (\<lambda>m. member_key m \<notin> (\<lambda>m. (w, m_userId m)) ` set ms) (db_members d)" for ms d
    by (induction ms arbitrary: d) (auto simp: member_delete_def delete_rows_def intro!: filter_cong)
  have "m_userId m \<noteq> m_userId n" if "n \<in> set (member_list w db)" for n
  proof
    assume same: "m_userId m = m_userId n"
    from that have n: "n \<in> set (db_members db)" "m_workspaceId n = w"
      using set_member_list[of w db] by auto
    have "member_key m = member_key n" using same n assms(4) by (simp add: member_key_def)
    then have "m = n" using assms(1,3) n by (auto simp: database_ok_def distinct_map inj_on_def)
    with that assms(5) show False by simp
  qed
  then show ?thesis
    using assms(3,4) by (auto simp: db' member_store_frame folded member_key_def)
qed


end
