(* ===== verification/Http.thy ===== *)
theory Http
  imports Base64
begin

text \<open>
  Requests and responses as the handlers see them. A request carries its headers (names in
  lower case, one entry per name, the way \<open>Headers.get\<close> reads them), the parts of its
  parsed URL and, for a form, its fields; a response is a status, headers and a body.
  \<open>utf8_bytes\<close> is \<open>TextEncoder\<close> on the strings of the model, one character per byte.
\<close>

record http_request =
  hq_method :: string
  hq_headers :: "(string \<times> string) list"
  hq_protocol :: string
  hq_hostname :: string
  hq_pathname :: string
  hq_search :: string
  hq_form :: "(string \<times> string) list option"
    \<comment> \<open>the text fields of \<open>request.formData()\<close>; \<open>None\<close> when the body is not a form\<close>

record http_response =
  rs_status :: nat
  rs_headers :: "(string \<times> string) list"
  rs_body :: "string option"

definition header :: "http_request \<Rightarrow> string \<Rightarrow> string option" where
  \<comment> \<open>\<open>request.headers.get(name)\<close>\<close>
  "header request name = map_of (hq_headers request) (js_lower name)"

definition response_header :: "http_response \<Rightarrow> string \<Rightarrow> string option" where
  "response_header response name = map_of (rs_headers response) name"

definition error_json :: "string \<Rightarrow> string" where
  \<comment> \<open>\<open>JSON.stringify({ error })\<close> for a message without quotes, backslashes or controls\<close>
  "error_json message = ''{'' @ [CHR 0x22] @ ''error'' @ [CHR 0x22] @ '':'' @ [CHR 0x22] @ message @ [CHR 0x22] @ ''}''"

fun replace_char :: "char \<Rightarrow> string \<Rightarrow> string \<Rightarrow> string" where
  \<comment> \<open>\<open>s.replace(/c/g, text)\<close>\<close>
  "replace_char c t [] = []"
| "replace_char c t (d # s) = (if d = c then t @ replace_char c t s else d # replace_char c t s)"

definition utf8_char :: "char \<Rightarrow> string" where
  "utf8_char c =
     (let n = code_unit c in
      if n < 128 then [c] else [char_of (192 + n div 64), char_of (128 + n mod 64)])"

definition utf8_bytes :: "string \<Rightarrow> string" where
  "utf8_bytes s = concat (map utf8_char s)"

definition is_ascii :: "string \<Rightarrow> bool" where
  "is_ascii s = list_all (\<lambda>c. code_unit c < 128) s"

lemma utf8_bytes_ascii [simp]: "is_ascii s \<Longrightarrow> utf8_bytes s = s"
  by (induction s) (auto simp: utf8_bytes_def utf8_char_def is_ascii_def)

lemma replace_char_absent [simp]: "c \<notin> set s \<Longrightarrow> replace_char c t s = s"
  by (induction s) auto

lemma replace_char_append [simp]: "replace_char c t (s @ r) = replace_char c t s @ replace_char c t r"
  by (induction s) auto

lemma set_replace_char: "set (replace_char c t s) \<subseteq> (set s - {c}) \<union> set t"
  by (induction s) auto

lemma not_in_replace_char: "c \<notin> set t \<Longrightarrow> c \<notin> set (replace_char c t s)"
  using set_replace_char[of c t s] by auto

lemma is_ascii_append [simp]: "is_ascii (s @ t) \<longleftrightarrow> is_ascii s \<and> is_ascii t"
  by (simp add: is_ascii_def)

lemma is_ascii_Nil [simp]: "is_ascii []"
  by (simp add: is_ascii_def)

lemma is_ascii_Cons [simp]: "is_ascii (c # s) \<longleftrightarrow> code_unit c < 128 \<and> is_ascii s"
  by (simp add: is_ascii_def)

lemma is_ascii_show_int [simp]: "is_ascii (show_int n)"
proof -
  have "code_unit c < 128" if "c \<in> set (show_int n)" for c
    using show_int_chars[OF that] by (auto simp: is_digit_def code_unit_def)
  then show ?thesis by (simp add: is_ascii_def list_all_iff)
qed

end
