(* ===== verification/Rate_Limit.thy ===== *)
theory Rate_Limit
  imports Key_Value Http
begin

text \<open>
  Failed-password throttling (\<open>core/access/ratelimit.ts\<close>) on the key-value port: one
  bucket per asset and client, a count and the end of its window. The guarantee is proved in
  the context of a durable store and holds of the two stores under \<open>src/\<close>.
\<close>

definition RATE_WINDOW_SECONDS :: int where "RATE_WINDOW_SECONDS = 15 * 60"
definition RATE_LIMIT_PER_IP :: int where "RATE_LIMIT_PER_IP = 10"
definition RATE_LIMIT_GLOBAL :: int where "RATE_LIMIT_GLOBAL = 100"

record bucket =
  bk_count :: int
  bk_resetAt :: int

definition clientIp :: "http_request \<Rightarrow> string option" where
  "clientIp request =
     (let cf = map_option js_trim (header request ''CF-Connecting-IP'')
      in case cf of
           Some (c # s) \<Rightarrow> cf
         | _ \<Rightarrow>
             (case header request ''X-Forwarded-For'' of
                None \<Rightarrow> None
              | Some forwarded \<Rightarrow>
                  (let first = js_trim (hd (split_on (CHR '','') forwarded))
                   in if first = [] then None else Some first)))"

definition rate_key :: "string \<Rightarrow> string option \<Rightarrow> string" where
  "rate_key assetId ip =
     ''pwfail:'' @ assetId @ '':'' @ (case ip of None \<Rightarrow> ''_global'' | Some i \<Rightarrow> i)"

definition limitFor :: "string option \<Rightarrow> int" where
  "limitFor ip = (case ip of Some (c # s) \<Rightarrow> RATE_LIMIT_PER_IP | _ \<Rightarrow> RATE_LIMIT_GLOBAL)"

definition bucket_of :: "blob \<Rightarrow> bucket option" where
  \<comment> \<open>\<open>JSON.parse\<close> and the two type checks\<close>
  "bucket_of raw =
     (case raw of
        Garbage \<Rightarrow> None
      | Blob v \<Rightarrow>
          (case (json_field v ''count'', json_field v ''resetAt'') of
             (Some (JNum c), Some (JNum r)) \<Rightarrow> Some \<lparr>bk_count = c, bk_resetAt = r\<rparr>
           | _ \<Rightarrow> None))"

definition bucket_json :: "bucket \<Rightarrow> blob" where
  "bucket_json b = Blob (JObj [(''count'', JNum (bk_count b)), (''resetAt'', JNum (bk_resetAt b))])"

definition read_bucket :: "('s, blob) kv_port \<Rightarrow> string \<Rightarrow> int \<Rightarrow> 's \<Rightarrow> bucket option \<times> 's" where
  "read_bucket kv storageKey now s =
     (case kv_get kv now storageKey s of
        (None, s') \<Rightarrow> (None, s')
      | (Some raw, s') \<Rightarrow>
          (case bucket_of raw of
             None \<Rightarrow> (None, s')
           | Some b \<Rightarrow> (if bk_resetAt b > now then Some b else None, s')))"

definition ceil_seconds :: "int \<Rightarrow> int" where
  \<comment> \<open>\<open>Math.ceil(ms / 1000)\<close>\<close>
  "ceil_seconds ms = - ((- ms) div 1000)"

definition retryAfter :: "int \<Rightarrow> int \<Rightarrow> int" where
  "retryAfter resetAt now = max 1 (ceil_seconds (resetAt - now))"

record rate_limit_state =
  rl_limited :: bool
  rl_retryAfterSeconds :: int

definition checkRateLimit ::
  "('s, blob) kv_port \<Rightarrow> string \<Rightarrow> string option \<Rightarrow> int \<Rightarrow> 's \<Rightarrow> rate_limit_state \<times> 's" where
  "checkRateLimit kv assetId ip now s =
     (case read_bucket kv (rate_key assetId ip) now s of
        (None, s') \<Rightarrow> (\<lparr>rl_limited = False, rl_retryAfterSeconds = 0\<rparr>, s')
      | (Some b, s') \<Rightarrow>
          if bk_count b < limitFor ip then (\<lparr>rl_limited = False, rl_retryAfterSeconds = 0\<rparr>, s')
          else (\<lparr>rl_limited = True, rl_retryAfterSeconds = retryAfter (bk_resetAt b) now\<rparr>, s'))"

definition recordFailure ::
  "('s, blob) kv_port \<Rightarrow> string \<Rightarrow> string option \<Rightarrow> int \<Rightarrow> 's \<Rightarrow> 's" where
  "recordFailure kv assetId ip now s =
     (let storageKey = rate_key assetId ip in
      case read_bucket kv storageKey now s of
        (existing, s') \<Rightarrow>
          (let bucket = (case existing of
                 Some b \<Rightarrow> \<lparr>bk_count = bk_count b + 1, bk_resetAt = bk_resetAt b\<rparr>
               | None \<Rightarrow> \<lparr>bk_count = 1, bk_resetAt = now + RATE_WINDOW_SECONDS * 1000\<rparr>)
           in kv_put kv now storageKey (bucket_json bucket)
                (Some (max 1 (ceil_seconds (bk_resetAt bucket - now)))) s'))"

definition clearFailures :: "('s, blob) kv_port \<Rightarrow> string \<Rightarrow> string option \<Rightarrow> 's \<Rightarrow> 's" where
  "clearFailures kv assetId ip s = kv_delete kv (rate_key assetId ip) s"

lemma bucket_of_json [simp]: "bucket_of (bucket_json b) = Some b"
  by (simp add: bucket_of_def bucket_json_def)

lemma ceil_seconds_ge: "ms \<le> ceil_seconds ms * 1000"
  unfolding ceil_seconds_def by (simp add: minus_div_mult_eq_mod[symmetric])

lemma ceil_seconds_lt: "ceil_seconds ms * 1000 < ms + 1000"
  unfolding ceil_seconds_def by (simp add: minus_div_mult_eq_mod[symmetric])

text \<open>A guess: the limiter is asked, and unless it refuses, the wrong password is recorded.\<close>

definition guess ::
  "('s, blob) kv_port \<Rightarrow> string \<Rightarrow> string option \<Rightarrow> int \<Rightarrow> 's \<Rightarrow> bool \<times> 's" where
  "guess kv assetId ip now s =
     (case checkRateLimit kv assetId ip now s of
        (limit, s1) \<Rightarrow>
          if rl_limited limit then (False, s1) else (True, recordFailure kv assetId ip now s1))"

fun guesses ::
  "('s, blob) kv_port \<Rightarrow> string \<Rightarrow> string option \<Rightarrow> int list \<Rightarrow> 's \<Rightarrow> nat" where
  \<comment> \<open>how many of the guesses at the given times were let through to the password check\<close>
  "guesses kv assetId ip [] s = 0"
| "guesses kv assetId ip (t # ts) s =
     (case guess kv assetId ip t s of
        (passed, s') \<Rightarrow> (if passed then 1 else 0) + guesses kv assetId ip ts s')"

locale limiter_store = durable_key_value kv contents invar
  for kv :: "('s, blob) kv_port"
    and contents :: "'s \<Rightarrow> string \<rightharpoonup> blob \<times> int option"
    and invar :: "'s \<Rightarrow> bool"
begin

definition bucket_at :: "'s \<Rightarrow> string \<Rightarrow> int \<Rightarrow> bucket option" where
  \<comment> \<open>the bucket in force at a time\<close>
  "bucket_at s k now =
     (case visible now (contents s) k of
        None \<Rightarrow> None
      | Some raw \<Rightarrow> (case bucket_of raw of None \<Rightarrow> None | Some b \<Rightarrow> if bk_resetAt b > now then Some b else None))"

lemma read_bucket_value: "invar s \<Longrightarrow> fst (read_bucket kv k now s) = bucket_at s k now"
  using get_visible[of s now k]
  by (cases "kv_get kv now k s") (auto simp: read_bucket_def bucket_at_def split: option.splits)

lemma read_bucket_state: "snd (read_bucket kv k now s) = snd (kv_get kv now k s)"
  by (cases "kv_get kv now k s") (auto simp: read_bucket_def split: option.splits)

lemma bucket_at_get:
  "invar s \<Longrightarrow> now \<le> t \<Longrightarrow> bucket_at (snd (kv_get kv now k s)) k' t = bucket_at s k' t"
  by (simp add: bucket_at_def visible_get_later)

lemma check_limited:
  assumes "invar s"
  shows "rl_limited (fst (checkRateLimit kv a ip now s)) \<longleftrightarrow>
      (case bucket_at s (rate_key a ip) now of None \<Rightarrow> False | Some b \<Rightarrow> limitFor ip \<le> bk_count b)"
    and "snd (checkRateLimit kv a ip now s) = snd (kv_get kv now (rate_key a ip) s)"
  using read_bucket_value[OF assms, of "rate_key a ip" now] read_bucket_state[of "rate_key a ip" now s]
  by (cases "read_bucket kv (rate_key a ip) now s"; auto simp: checkRateLimit_def split: option.splits)+

definition next_bucket :: "bucket option \<Rightarrow> int \<Rightarrow> bucket" where
  "next_bucket existing now =
     (case existing of
        Some b \<Rightarrow> \<lparr>bk_count = bk_count b + 1, bk_resetAt = bk_resetAt b\<rparr>
      | None \<Rightarrow> \<lparr>bk_count = 1, bk_resetAt = now + RATE_WINDOW_SECONDS * 1000\<rparr>)"

lemma recordFailure_eq:
  assumes "invar s"
  shows "recordFailure kv a ip now s =
    (let b = next_bucket (bucket_at s (rate_key a ip) now) now in
     kv_put kv now (rate_key a ip) (bucket_json b) (Some (max 1 (ceil_seconds (bk_resetAt b - now))))
       (snd (kv_get kv now (rate_key a ip) s)))"
  using read_bucket_value[OF assms, of "rate_key a ip" now] read_bucket_state[of "rate_key a ip" now s]
  by (cases "read_bucket kv (rate_key a ip) now s")
    (auto simp: recordFailure_def next_bucket_def Let_def split: option.splits)

lemma recordFailure_invar: "invar s \<Longrightarrow> invar (recordFailure kv a ip now s)"
  by (simp add: recordFailure_eq Let_def put_invar get_invar)

lemma bucket_after_failure:
  assumes "invar s" and "now \<le> t"
  shows "bucket_at (recordFailure kv a ip now s) (rate_key a ip) t =
    (let b = next_bucket (bucket_at s (rate_key a ip) now) now in if bk_resetAt b > t then Some b else None)"
proof -
  define b where "b = next_bucket (bucket_at s (rate_key a ip) now) now"
  let ?ttl = "max 1 (ceil_seconds (bk_resetAt b - now))"
  have "bk_resetAt b \<le> now + ?ttl * 1000"
    using ceil_seconds_ge[of "bk_resetAt b - now"] by (simp add: max_def)
  then have alive: "t < bk_resetAt b \<Longrightarrow> live t (expiry_of now (Some ?ttl))"
    by (simp add: live_def expiry_of_def)
  have "recordFailure kv a ip now s =
      kv_put kv now (rate_key a ip) (bucket_json b) (Some ?ttl) (snd (kv_get kv now (rate_key a ip) s))"
    by (simp add: recordFailure_eq[OF assms(1)] b_def Let_def)
  then have "visible t (contents (recordFailure kv a ip now s)) (rate_key a ip) =
      (if live t (expiry_of now (Some ?ttl)) then Some (bucket_json b) else None)"
    using assms(1) by (simp add: put_contents get_invar visible_def)
  then have "bucket_at (recordFailure kv a ip now s) (rate_key a ip) t =
      (if bk_resetAt b > t then Some b else None)"
    using alive by (simp add: bucket_at_def)
  then show ?thesis by (simp add: b_def Let_def)
qed

lemma guess_cases:
  assumes "invar s"
  shows "guess kv a ip t s =
    (case bucket_at s (rate_key a ip) t of
       Some b \<Rightarrow> if limitFor ip \<le> bk_count b then (False, snd (kv_get kv t (rate_key a ip) s))
                 else (True, recordFailure kv a ip t (snd (kv_get kv t (rate_key a ip) s)))
     | None \<Rightarrow> (True, recordFailure kv a ip t (snd (kv_get kv t (rate_key a ip) s))))"
  using check_limited[OF assms, of a ip t]
  by (cases "checkRateLimit kv a ip t s") (auto simp: guess_def split: option.splits)

lemma guess_invar: "invar s \<Longrightarrow> invar (snd (guess kv a ip t s))"
  by (auto simp: guess_cases get_invar recordFailure_invar split: option.splits)

text \<open>Guesses while one bucket is in force: what is left of its budget.\<close>

lemma guesses_in_window:
  assumes "invar s" and "sorted (t # ts)"
    and "\<forall>u \<in> set (t # ts). bucket_at s (rate_key a ip) u = Some b"
  shows "int (guesses kv a ip (t # ts) s) \<le> max 0 (limitFor ip - bk_count b)"
  using assms
proof (induction ts arbitrary: t s b)
  case Nil
  then show ?case by (auto simp: guess_cases split: if_splits)
next
  case (Cons u ts)
  let ?k = "rate_key a ip" and ?s = "snd (kv_get kv t (rate_key a ip) s)"
  have t: "\<forall>v \<in> set (u # ts). t \<le> v" "sorted (u # ts)" using Cons.prems(2) by auto
  have here: "bucket_at s ?k t = Some b" using Cons.prems(3) by simp
  have kept: "\<forall>v \<in> set (t # u # ts). bucket_at ?s ?k v = Some b"
    using Cons.prems(1,3) t(1) bucket_at_get by auto
  show ?case
  proof (cases "limitFor ip \<le> bk_count b")
    case True
    have "\<forall>v \<in> set (u # ts). bucket_at ?s ?k v = Some b" using kept by simp
    then have "int (guesses kv a ip (u # ts) ?s) \<le> max 0 (limitFor ip - bk_count b)"
      by (rule Cons.IH[OF get_invar[OF Cons.prems(1)] t(2)])
    moreover have "guesses kv a ip (t # u # ts) s = guesses kv a ip (u # ts) ?s"
      using Cons.prems(1) here True by (simp add: guess_cases)
    ultimately show ?thesis by linarith
  next
    case False
    let ?b = "next_bucket (Some b) t" and ?r = "recordFailure kv a ip t ?s"
    have now: "bucket_at ?s ?k t = Some b" using kept by simp
    have "v < bk_resetAt b" if "v \<in> set (u # ts)" for v
      using Cons.prems(3) that by (auto simp: bucket_at_def split: option.splits if_splits)
    then have "\<forall>v \<in> set (u # ts). bucket_at ?r ?k v = Some ?b"
      using bucket_after_failure[OF get_invar[OF Cons.prems(1)], of t _ a ip] t(1) now
      by (auto simp: Let_def next_bucket_def)
    from Cons.IH[OF recordFailure_invar[OF get_invar[OF Cons.prems(1)]] t(2) this] False
    have "int (guesses kv a ip (u # ts) ?r) \<le> limitFor ip - bk_count b - 1"
      by (simp add: next_bucket_def del: guesses.simps)
    moreover have "guesses kv a ip (t # u # ts) s = Suc (guesses kv a ip (u # ts) ?r)"
      using Cons.prems(1) here False by (simp add: guess_cases)
    ultimately show ?thesis by linarith
  qed
qed

lemma guesses_from_empty:
  assumes "invar s" and "sorted (t # ts)" and "bucket_at s (rate_key a ip) t = None"
    and "\<forall>u \<in> set ts. u < t + RATE_WINDOW_SECONDS * 1000"
  shows "int (guesses kv a ip (t # ts) s) \<le> limitFor ip"
proof -
  let ?s = "snd (kv_get kv t (rate_key a ip) s)"
  let ?r = "recordFailure kv a ip t ?s"
  have pos: "1 \<le> limitFor ip"
    by (simp add: limitFor_def RATE_LIMIT_PER_IP_def RATE_LIMIT_GLOBAL_def split: option.splits list.splits)
  have run: "guesses kv a ip (t # ts) s = Suc (guesses kv a ip ts ?r)"
    using assms(1,3) by (simp add: guess_cases)
  show ?thesis
  proof (cases ts)
    case Nil
    then have "guesses kv a ip (t # ts) s = 1" unfolding run by simp
    then show ?thesis using pos by linarith
  next
    case (Cons u us)
    have "bucket_at ?s (rate_key a ip) t = None" using assms(1,3) bucket_at_get by simp
    then have "\<forall>v \<in> set ts. bucket_at ?r (rate_key a ip) v = Some (next_bucket None t)"
      using bucket_after_failure[OF get_invar[OF assms(1)], of t _ a ip] assms(2,4)
      by (auto simp: Let_def next_bucket_def)
    then have "int (guesses kv a ip ts ?r) \<le> max 0 (limitFor ip - bk_count (next_bucket None t))"
      using guesses_in_window[OF recordFailure_invar[OF get_invar[OF assms(1)]]] assms(2) Cons by simp
    then show ?thesis using pos by (simp add: run next_bucket_def del: guesses.simps)
  qed
qed

text \<open>Whatever was recorded before: at most two windows touch an interval of one window's length.\<close>

definition allowance :: "string \<Rightarrow> string option \<Rightarrow> int \<Rightarrow> 's \<Rightarrow> int" where
  "allowance a ip t s =
     (case bucket_at s (rate_key a ip) t of None \<Rightarrow> 0 | Some b \<Rightarrow> max 0 (limitFor ip - bk_count b))"

lemma bucket_at_later:
  "t \<le> u \<Longrightarrow> bucket_at s k t = Some b \<Longrightarrow> bucket_at s k u = Some b \<or> bucket_at s k u = None"
  by (auto simp: bucket_at_def visible_def live_def split: option.splits if_splits)

lemma guesses_allowed:
  assumes "invar s" and "sorted (t # ts)"
    and "\<forall>u \<in> set (t # ts). t0 \<le> u \<and> u < t0 + RATE_WINDOW_SECONDS * 1000"
  shows "int (guesses kv a ip (t # ts) s) \<le> allowance a ip t s + limitFor ip"
  using assms
proof (induction ts arbitrary: t s)
  case Nil
  have pos: "1 \<le> limitFor ip"
    by (simp add: limitFor_def RATE_LIMIT_PER_IP_def RATE_LIMIT_GLOBAL_def split: option.splits list.splits)
  have "int (guesses kv a ip [t] s) \<le> 1" by (cases "guess kv a ip t s") simp
  moreover have "0 \<le> allowance a ip t s" by (simp add: allowance_def split: option.splits)
  ultimately show ?case using pos by linarith
next
  case (Cons u ts)
  let ?k = "rate_key a ip" and ?s = "snd (kv_get kv t (rate_key a ip) s)"
  let ?r = "recordFailure kv a ip t ?s"
  have t: "t \<le> u" "sorted (u # ts)"
    and inv: "invar ?s" "invar ?r"
    using Cons.prems by (auto simp: get_invar recordFailure_invar)
  have IH: "invar s' \<Longrightarrow> int (guesses kv a ip (u # ts) s') \<le> allowance a ip u s' + limitFor ip" for s'
    using Cons.IH[of s' u] t(2) Cons.prems(3) by simp
  show ?case
  proof (cases "bucket_at s ?k t")
    case None
    then have "int (guesses kv a ip (t # u # ts) s) \<le> limitFor ip"
      using Cons.prems by (intro guesses_from_empty) fastforce+
    then show ?thesis using None by (simp add: allowance_def)
  next
    case (Some b)
    show ?thesis
    proof (cases "limitFor ip \<le> bk_count b")
      case True
      have "guesses kv a ip (t # u # ts) s = guesses kv a ip (u # ts) ?s"
        using Some True Cons.prems(1) by (simp add: guess_cases)
      moreover have "allowance a ip u ?s \<le> allowance a ip t s"
        using bucket_at_later[OF t(1) Some] bucket_at_get[OF Cons.prems(1) t(1), of ?k ?k] Some
        by (auto simp: allowance_def)
      ultimately show ?thesis using IH[OF inv(1)] by linarith
    next
      case False
      have "guesses kv a ip (t # u # ts) s = Suc (guesses kv a ip (u # ts) ?r)"
        using Some False Cons.prems(1) by (simp add: guess_cases)
      moreover have "bucket_at ?s ?k t = Some b" using Some bucket_at_get[OF Cons.prems(1)] by simp
      then have "allowance a ip u ?r \<le> limitFor ip - bk_count b - 1"
        using bucket_after_failure[OF inv(1) t(1), of a ip] False
        by (auto simp: allowance_def Let_def next_bucket_def)
      ultimately show ?thesis using IH[OF inv(2)] Some False by (simp add: allowance_def)
    qed
  qed
qed

end

interpretation memory_limiter: limiter_store memory_port memory_contents memory_invar ..

interpretation sql_limiter: limiter_store sql_port sql_contents sql_invar ..


text \<open>
  Whatever failures are already on record, at most the rest of the current window's budget
  and one whole budget more are checked in any fifteen minutes, on the SQL store.
\<close>

theorem guesses_any_record:
  assumes "sql_invar table" and "sorted (t # ts)"
    and "\<forall>u \<in> set (t # ts). t0 \<le> u \<and> u < t0 + RATE_WINDOW_SECONDS * 1000"
  shows "int (guesses sql_port assetId ip (t # ts) table) \<le> sql_limiter.allowance assetId ip t table + limitFor ip"
  by (rule sql_limiter.guesses_allowed[OF assms])


lemma guesses_any_record_witness:
  "int (guesses sql_port ''a'' None [5, 6] []) \<le> 100"
proof -
  have "int (guesses sql_port ''a'' None [5, 6] []) \<le> sql_limiter.allowance ''a'' None 5 [] + limitFor None"
    using guesses_any_record[of "[]" 5 "[6]" 0 "''a''" None]
    by (simp add: sql_invar_def RATE_WINDOW_SECONDS_def del: guesses.simps)
  then show ?thesis
    by (simp add: sql_limiter.allowance_def sql_limiter.bucket_at_def visible_def limitFor_def
        RATE_LIMIT_GLOBAL_def del: guesses.simps)
qed

end
