(* ===== verification/Password_Proof.thy ===== *)
theory Password_Proof
  imports Rate_Limit Data_Model
begin

text \<open>
  The two proofs of a password: the password itself (\<open>core/access/password.ts\<close>, memoized
  and throttled by \<open>core/access/attempt.ts\<close>) and the signed cookie
  (\<open>core/access/cookie.ts\<close>). The platform's cryptography is a parameter, the record
  \<open>platform\<close>: PBKDF2, the two uses of HMAC, and \<open>TextDecoder\<close>. Nothing is assumed of
  PBKDF2; of the cookie's HMAC only that its text is hexadecimal, and of the memo's that it
  does not collide.
\<close>

record platform =
  pf_derive :: "string \<Rightarrow> string \<Rightarrow> int \<Rightarrow> string"
    \<comment> \<open>\<open>deriveBits\<close>: password bytes, salt bytes, iterations to key bytes\<close>
  pf_hmac_hex :: "string \<Rightarrow> string \<Rightarrow> string"
    \<comment> \<open>HMAC-SHA-256 of a text under a secret, as \<open>toHex\<close> prints it\<close>
  pf_memo_mac :: "string \<Rightarrow> string"
    \<comment> \<open>HMAC-SHA-256 under the isolate's random key, in base 64\<close>
  pf_decode :: "string \<Rightarrow> string"
    \<comment> \<open>\<open>new TextDecoder().decode\<close>\<close>

section \<open>Passwords\<close>

definition DEFAULT_ITERATIONS :: int where "DEFAULT_ITERATIONS = 600000"
definition ALGORITHM :: string where "ALGORITHM = ''pbkdf2-sha256''"

definition safe_integer :: "int \<Rightarrow> bool" where
  "safe_integer n \<longleftrightarrow> - 9007199254740991 \<le> n \<and> n \<le> 9007199254740991"

record password_hash =
  ph_hash :: string
  ph_salt :: string

definition hashPassword :: "platform \<Rightarrow> string \<Rightarrow> string \<Rightarrow> int \<Rightarrow> password_hash" where
  \<comment> \<open>the salt drawn and the iteration count are arguments\<close>
  "hashPassword pf password salt iterations =
     \<lparr>ph_hash = ALGORITHM @ ''$'' @ show_int iterations @ ''$'' @
                 btoa (pf_derive pf (utf8_bytes password) salt iterations),
      ph_salt = btoa salt\<rparr>"

definition mismatch :: "string \<Rightarrow> string \<Rightarrow> nat" where
  "mismatch a b = foldl (\<lambda>m (x, y). or m (xor (code_unit x) (code_unit y))) 0 (zip a b)"

definition constantTimeEqual :: "string \<Rightarrow> string \<Rightarrow> bool" where
  "constantTimeEqual a b = (if length a \<noteq> length b then False else mismatch a b = 0)"

definition verifyPassword :: "platform \<Rightarrow> string \<Rightarrow> string \<Rightarrow> string \<Rightarrow> bool" where
  \<comment> \<open>\<open>verifyPassword(password, stored)\<close> with the stored hash and salt\<close>
  "verifyPassword pf password hash' salt' =
     (let parts = split_on (CHR ''$'') hash' in
      if length parts \<noteq> 3 \<or> parts ! 0 \<noteq> ALGORITHM then False
      else (case parse_int (parts ! 1) of
              None \<Rightarrow> False
            | Some iterations \<Rightarrow>
                if \<not> safe_integer iterations \<or> iterations \<le> 0 then False
                else (case atob salt' of
                        None \<Rightarrow> False
                      | Some salt \<Rightarrow>
                          constantTimeEqual
                            (btoa (pf_derive pf (utf8_bytes password) salt iterations)) (parts ! 2))))"

definition basicPassword :: "platform \<Rightarrow> string option \<Rightarrow> string option" where
  \<comment> \<open>\<open>/^Basic\s+(\S+)$/i\<close>, then the part after the first colon\<close>
  "basicPassword pf authorization =
     (let a = (case authorization of None \<Rightarrow> [] | Some s \<Rightarrow> s);
          r = drop 5 a; token = dropWhile is_space r
      in if js_lower (take 5 a) \<noteq> ''basic'' \<or> r = token \<or> token = [] \<or> list_ex is_space token then None
         else (case atob token of
                 None \<Rightarrow> None
               | Some bytes \<Rightarrow>
                   (let decoded = pf_decode pf bytes in
                    case index_of '':'' decoded of
                      None \<Rightarrow> None
                    | Some colon \<Rightarrow> Some (drop (colon + 1) decoded))))"

lemma foldl_or_eq_0:
  "foldl (\<lambda>m (x, y). or m (xor (code_unit x) (code_unit y))) n ps = 0 \<longleftrightarrow>
   n = (0::nat) \<and> (\<forall>(x, y) \<in> set ps. x = y)"
proof (induction ps arbitrary: n)
  case (Cons p ps)
  have inj: "code_unit (fst p) = code_unit (snd p) \<longleftrightarrow> fst p = snd p"
    by (metis char_of_code_unit)
  have "xor (code_unit (fst p)) (code_unit (snd p)) = 0 \<longleftrightarrow> code_unit (fst p) = code_unit (snd p)"
    by (metis (no_types) xor.assoc xor.left_neutral xor.right_neutral xor_self_eq)
  with Cons inj show ?case by (auto simp: or_eq_0_iff split_beta)
qed simp

text \<open>The constant-time comparison is equality.\<close>

lemma constantTimeEqual_iff [simp]: "constantTimeEqual a b \<longleftrightarrow> a = b"
proof -
  have "length a = length b \<Longrightarrow> (\<forall>(x, y) \<in> set (zip a b). x = y) \<longleftrightarrow> a = b"
    by (induction a b rule: list_induct2) auto
  then show ?thesis by (auto simp: constantTimeEqual_def mismatch_def foldl_or_eq_0)
qed

lemma btoa_inj [simp]: "btoa a = btoa b \<longleftrightarrow> a = b"
  by (metis atob_btoa option.inject)

lemma show_int_no_sep: "CHR ''$'' \<notin> set (show_int n)" "CHR ''.'' \<notin> set (show_int n)"
  using show_int_chars[of "CHR ''$''" n] show_int_chars[of "CHR ''.''" n]
  by (auto simp: is_digit_def code_unit_def)

lemma btoa_no_dollar: "CHR ''$'' \<notin> set (btoa s)"
proof -
  have "CHR ''$'' \<notin> set b64_alphabet" by code_simp
  then show ?thesis
    using b64_body_in[of s] padding_clean[of "CHR ''$''" "length s"] by (auto simp: btoa_body)
qed

text \<open>
  A stored hash accepts exactly the passwords that derive the same key: verifying against
  what \<open>hashPassword\<close> stored (the algorithm, the iteration count and the key in one text, the
  salt beside it, both in base 64) recomputes the derivation with the same salt and count.
\<close>

theorem verify_hashed_password:
  assumes "0 < iterations" and "safe_integer iterations"
  shows "verifyPassword pf attempt (ph_hash (hashPassword pf password salt iterations))
      (ph_salt (hashPassword pf password salt iterations))
    \<longleftrightarrow> pf_derive pf (utf8_bytes attempt) salt iterations = pf_derive pf (utf8_bytes password) salt iterations"
proof -
  have "CHR ''$'' \<notin> set ALGORITHM" by code_simp
  then have "split_on (CHR ''$'') (ph_hash (hashPassword pf password salt iterations)) =
      [ALGORITHM, show_int iterations, btoa (pf_derive pf (utf8_bytes password) salt iterations)]"
    by (simp add: hashPassword_def split_on_append_sep split_on_id show_int_no_sep btoa_no_dollar)
  moreover have "atob (ph_salt (hashPassword pf password salt iterations)) = Some salt"
    by (simp add: hashPassword_def)
  ultimately show ?thesis
    using assms by (simp add: verifyPassword_def parse_int_show_int)
qed

definition toy_platform :: platform where
  \<comment> \<open>a platform to evaluate on\<close>
  "toy_platform = \<lparr>pf_derive = (\<lambda>p s i. p @ s), pf_hmac_hex = (\<lambda>k t. show_nat (length (k @ t))),
     pf_memo_mac = (\<lambda>t. t), pf_decode = (\<lambda>t. t)\<rparr>"

lemma verify_hashed_password_witness:
  "verifyPassword toy_platform ''secret'' (ph_hash (hashPassword toy_platform ''secret'' ''salt'' 600000))
     (ph_salt (hashPassword toy_platform ''secret'' ''salt'' 600000))
   \<and> \<not> verifyPassword toy_platform ''Secret'' (ph_hash (hashPassword toy_platform ''secret'' ''salt'' 600000))
     (ph_salt (hashPassword toy_platform ''secret'' ''salt'' 600000))"
  by (simp add: verify_hashed_password safe_integer_def)
    (simp add: toy_platform_def utf8_bytes_def utf8_char_def code_unit_def Let_def)

section \<open>The memo of successful checks\<close>

type_synonym password_memo = "(string \<times> int) list"

definition MEMO_TTL_MS :: int where "MEMO_TTL_MS = 300000"
definition MEMO_MAX_ENTRIES :: nat where "MEMO_MAX_ENTRIES = 1000"

definition memo_keyFor :: "platform \<Rightarrow> string \<Rightarrow> nat \<Rightarrow> string \<Rightarrow> string" where
  "memo_keyFor pf assetId passwordVersion password =
     pf_memo_mac pf (utf8_bytes (assetId @ ''|'' @ show_int (int passwordVersion) @ ''|'' @ password))"

definition memo_has :: "string \<Rightarrow> int \<Rightarrow> password_memo \<Rightarrow> bool \<times> password_memo" where
  "memo_has key now memo =
     (case map_of memo key of
        None \<Rightarrow> (False, memo)
      | Some expiresAt \<Rightarrow>
          if expiresAt \<le> now then (False, own_delete memo key)
          else (True, own_set (own_delete memo key) key expiresAt))"

definition memo_evict :: "nat \<Rightarrow> password_memo \<Rightarrow> password_memo" where
  \<comment> \<open>drop the first (least recently used) entries beyond the limit\<close>
  "memo_evict maxEntries memo = drop (length memo - maxEntries) memo"

definition memo_add :: "string \<Rightarrow> int \<Rightarrow> nat \<Rightarrow> password_memo \<Rightarrow> password_memo" where
  "memo_add key now maxEntries memo =
     memo_evict maxEntries (own_set (own_delete memo key) key (now + MEMO_TTL_MS))"

section \<open>One attempt\<close>

datatype attempt_result = AttemptOk | AttemptWrong | AttemptLimited int

definition attemptPassword ::
  "platform \<Rightarrow> ('s, blob) kv_port \<Rightarrow> string \<Rightarrow> protection \<Rightarrow> string option \<Rightarrow> string option \<Rightarrow> int
   \<Rightarrow> 's \<times> password_memo \<Rightarrow> attempt_result \<times> 's \<times> password_memo" where
  "attemptPassword pf kv assetId prot password ip now st =
     (let (s, memo) = st;
          memoKey = map_option (memo_keyFor pf assetId (prot_version prot)) password;
          (hit, memo1) = (case memoKey of None \<Rightarrow> (False, memo)
                          | Some k \<Rightarrow> if k = [] then (False, memo) else memo_has k now memo)
      in if hit then (AttemptOk, s, memo1)
         else (case checkRateLimit kv assetId ip now s of
           (limit, s1) \<Rightarrow>
             if rl_limited limit then (AttemptLimited (rl_retryAfterSeconds limit), s1, memo1)
             else (case (memoKey, password) of
               (Some k, Some p) \<Rightarrow>
                 if k \<noteq> [] \<and> verifyPassword pf p (prot_hash prot) (prot_salt prot)
                 then (AttemptOk, clearFailures kv assetId ip s1, memo_add k now MEMO_MAX_ENTRIES memo1)
                 else (AttemptWrong, recordFailure kv assetId ip now s1, memo1)
             | _ \<Rightarrow> (AttemptWrong, recordFailure kv assetId ip now s1, memo1))))"

record attempt_call =
  at_asset :: string
  at_protection :: protection
  at_password :: "string option"
  at_ip :: "string option"
  at_now :: int

definition run_attempt ::
  "platform \<Rightarrow> ('s, blob) kv_port \<Rightarrow> attempt_call \<Rightarrow> 's \<times> password_memo \<Rightarrow> attempt_result \<times> 's \<times> password_memo" where
  "run_attempt pf kv c st =
     attemptPassword pf kv (at_asset c) (at_protection c) (at_password c) (at_ip c) (at_now c) st"

definition verified :: "platform \<Rightarrow> attempt_call \<Rightarrow> bool" where
  \<comment> \<open>the call's password is the asset's\<close>
  "verified pf c = (case at_password c of None \<Rightarrow> False
     | Some p \<Rightarrow> verifyPassword pf p (prot_hash (at_protection c)) (prot_salt (at_protection c)))"

text \<open>The isolate: an empty memo, then any attempts; \<open>calls\<close> are those made so far.\<close>

inductive isolate :: "platform \<Rightarrow> ('s, blob) kv_port \<Rightarrow> attempt_call list \<Rightarrow> 's \<times> password_memo \<Rightarrow> bool"
  for pf kv where
  fresh: "isolate pf kv [] (s, [])"
| attempt: "\<lbrakk>isolate pf kv calls st; run_attempt pf kv c st = (res, st')\<rbrakk> \<Longrightarrow> isolate pf kv (c # calls) st'"
| elsewhere: "isolate pf kv calls (s, memo) \<Longrightarrow> isolate pf kv calls (s', memo)"
    \<comment> \<open>the store is shared with other isolates\<close>

inductive_cases isolateE: "isolate pf kv calls st"

definition remembered :: "platform \<Rightarrow> attempt_call list \<Rightarrow> string \<times> int \<Rightarrow> bool" where
  "remembered pf calls e \<longleftrightarrow> (\<exists>c p. c \<in> set calls \<and> verified pf c \<and> at_password c = Some p
     \<and> fst e = memo_keyFor pf (at_asset c) (prot_version (at_protection c)) p
     \<and> snd e = at_now c + MEMO_TTL_MS)"

lemma remembered_mono: "remembered pf calls e \<Longrightarrow> remembered pf (c # calls) e"
  unfolding remembered_def by (meson list.set_intros(2))

lemma memo_has_subset: "set (snd (memo_has k now memo)) \<subseteq> set memo"
  using set_own_set[of "own_delete memo k" k] set_own_delete[of memo k]
  by (auto simp: memo_has_def dest: map_of_SomeD split: option.splits if_splits)

lemma memo_add_subset: "set (memo_add k now m memo) \<subseteq> insert (k, now + MEMO_TTL_MS) (set memo)"
  using set_own_set[of "own_delete memo k" k "now + MEMO_TTL_MS"] set_own_delete[of memo k]
  by (auto simp: memo_add_def memo_evict_def dest!: in_set_dropD)

lemma memo_add_length: "length (memo_add k now m memo) \<le> m"
  by (simp add: memo_add_def memo_evict_def)

text \<open>What one attempt can do to the memo: use what is there, or add the password it verified.\<close>

lemma attempt_memo:
  assumes "run_attempt pf kv c (s, memo) = (res, s', memo')" and "e \<in> set memo'"
  shows "e \<in> set memo \<or> remembered pf [c] e"
proof -
  note d = run_attempt_def attemptPassword_def Let_def
  show ?thesis
  proof (cases "at_password c")
    case None
    with assms show ?thesis by (auto simp: d split: prod.splits if_splits)
  next
    case (Some p)
    define k where "k = memo_keyFor pf (at_asset c) (prot_version (at_protection c)) p"
    define hit where "hit = (if k = [] then (False, memo) else memo_has k (at_now c) memo)"
    have sub: "set (snd hit) \<subseteq> set memo" using memo_has_subset by (simp add: hit_def)
    have "memo' = snd hit \<or> (verified pf c \<and> memo' = memo_add k (at_now c) MEMO_MAX_ENTRIES (snd hit))"
      using assms(1)
      by (auto simp: d Some k_def[symmetric] hit_def[symmetric] verified_def split: prod.splits if_splits)
    then show ?thesis
      using sub assms(2) Some memo_add_subset[of k "at_now c" MEMO_MAX_ENTRIES "snd hit"]
      by (auto simp: remembered_def k_def)
  qed
qed

lemma isolate_memo: "isolate pf kv calls st \<Longrightarrow> \<forall>e \<in> set (snd st). remembered pf calls e"
proof (induction rule: isolate.induct)
  case (attempt calls st c res st')
  show ?case
  proof
    fix e assume "e \<in> set (snd st')"
    then have "e \<in> set (snd st) \<or> remembered pf [c] e"
      using attempt.hyps(2) attempt_memo by (metis prod.collapse)
    then show "remembered pf (c # calls) e"
      using attempt.IH remembered_mono unfolding remembered_def by fastforce
  qed
qed simp_all

lemma attempt_ok_cases:
  assumes "run_attempt pf kv c (s, memo) = (AttemptOk, st')"
  shows "verified pf c \<or> (\<exists>p e. at_password c = Some p
    \<and> (memo_keyFor pf (at_asset c) (prot_version (at_protection c)) p, e) \<in> set memo \<and> at_now c < e)"
  using assms
  by (auto simp: run_attempt_def attemptPassword_def Let_def verified_def memo_has_def
      dest: map_of_SomeD split: prod.splits if_splits option.splits)

lemma utf8_char_cases: "\<exists>b r. utf8_char c = b # r \<and> (r = [] \<longleftrightarrow> code_unit b < 128) \<and> length r \<le> 1"
proof (cases "code_unit c < 128")
  case False
  have "code_unit c div 64 < 4" using code_unit_less[of c] by (simp add: less_mult_imp_div_less)
  with False show ?thesis by (simp add: utf8_char_def Let_def)
qed (simp add: utf8_char_def Let_def)

lemma utf8_char_inj: "utf8_char c = utf8_char d \<Longrightarrow> c = d"
proof -
  have small: "code_unit x div 64 < 4" for x using code_unit_less[of x] by (simp add: less_mult_imp_div_less)
  assume eq: "utf8_char c = utf8_char d"
  then have "code_unit c < 128 \<longleftrightarrow> code_unit d < 128" by (auto simp: utf8_char_def Let_def split: if_splits)
  show ?thesis
  proof (cases "code_unit c < 128")
    case True
    with eq show ?thesis by (auto simp: utf8_char_def Let_def split: if_splits)
  next
    case False
    then have "char_of (192 + code_unit c div 64) = (char_of (192 + code_unit d div 64) :: char)"
      and "char_of (128 + code_unit c mod 64) = (char_of (128 + code_unit d mod 64) :: char)"
      using eq \<open>code_unit c < 128 \<longleftrightarrow> code_unit d < 128\<close> by (auto simp: utf8_char_def Let_def)
    from this[THEN arg_cong[of _ _ code_unit]]
    have "192 + code_unit c div 64 = 192 + code_unit d div 64"
      and "128 + code_unit c mod 64 = 128 + code_unit d mod 64"
      using code_unit_char_of[of "192 + code_unit c div 64"] code_unit_char_of[of "192 + code_unit d div 64"]
        code_unit_char_of[of "128 + code_unit c mod 64"] code_unit_char_of[of "128 + code_unit d mod 64"]
        small[of c] small[of d] mod_less_divisor[of 64 "code_unit c"] mod_less_divisor[of 64 "code_unit d"]
      by linarith+
    then have "code_unit c = code_unit d" by (metis add_left_cancel div_mult_mod_eq)
    then show ?thesis by (metis char_of_code_unit)
  qed
qed

lemma utf8_char_length: "length (utf8_char c) = (if code_unit (hd (utf8_char c)) < 128 then 1 else 2)"
proof (cases "code_unit c < 128")
  case False
  have "code_unit c div 64 < 4" using code_unit_less[of c] by (simp add: less_mult_imp_div_less)
  then have "192 + code_unit c div 64 < 256" by linarith
  with False show ?thesis by (simp add: utf8_char_def Let_def)
qed (simp add: utf8_char_def Let_def)

lemma utf8_char_not_Nil [simp]: "utf8_char c \<noteq> []"
  by (simp add: utf8_char_def Let_def)

lemma utf8_bytes_inj [simp]: "utf8_bytes s = utf8_bytes t \<longleftrightarrow> s = t"
proof
  show "utf8_bytes s = utf8_bytes t \<Longrightarrow> s = t"
  proof (induction s arbitrary: t)
    case Nil
    then show ?case by (cases t) (simp_all add: utf8_bytes_def)
  next
    case (Cons c s)
    then obtain d r where t: "t = d # r" by (cases t) (simp_all add: utf8_bytes_def)
    with Cons.prems have eq: "utf8_char c @ utf8_bytes s = utf8_char d @ utf8_bytes r"
      by (simp add: utf8_bytes_def)
    then have "hd (utf8_char c) = hd (utf8_char d)" by (metis hd_append2 utf8_char_not_Nil)
    then have "length (utf8_char c) = length (utf8_char d)" by (simp add: utf8_char_length[of c] utf8_char_length[of d])
    with eq have "utf8_char c = utf8_char d" and "utf8_bytes s = utf8_bytes r" by simp_all
    with Cons.IH t utf8_char_inj show ?case by blast
  qed
qed simp

lemma append_sep_eq: "x \<notin> set a \<Longrightarrow> x \<notin> set b \<Longrightarrow> a @ x # s = b @ x # t \<longleftrightarrow> a = b \<and> s = t"
proof (induction a arbitrary: b)
  case Nil
  then show ?case by (cases b) auto
next
  case (Cons y a)
  then show ?case by (cases b) auto
qed

definition memo_text :: "string \<Rightarrow> nat \<Rightarrow> string \<Rightarrow> string" where
  "memo_text assetId passwordVersion password =
     utf8_bytes (assetId @ ''|'' @ show_int (int passwordVersion) @ ''|'' @ password)"

definition tried_texts :: "attempt_call list \<Rightarrow> string set" where
  \<comment> \<open>what the isolate puts under its MAC in these calls\<close>
  "tried_texts calls = {memo_text (at_asset d) (prot_version (at_protection d)) p | d p.
     d \<in> set calls \<and> at_password d = Some p}"

lemma keyFor_inj:
  assumes "inj_on (pf_memo_mac pf) S" and "memo_text a v p \<in> S" and "memo_text b w q \<in> S" and "CHR ''|'' \<notin> set a" and "CHR ''|'' \<notin> set b"
  shows "memo_keyFor pf a v p = memo_keyFor pf b w q \<longleftrightarrow> a = b \<and> v = w \<and> p = q"
proof -
  have no: "CHR ''|'' \<notin> set (show_int n)" for n
    using show_int_chars[of "CHR ''|''" n] by (auto simp: is_digit_def code_unit_def)
  have "memo_keyFor pf a v p = memo_keyFor pf b w q \<longleftrightarrow>
      a @ CHR ''|'' # show_int (int v) @ CHR ''|'' # p = b @ CHR ''|'' # show_int (int w) @ CHR ''|'' # q"
    using inj_on_eq_iff[OF assms(1-3)] by (simp add: memo_keyFor_def memo_text_def)
  also have "\<dots> \<longleftrightarrow> a = b \<and> v = w \<and> p = q"
    by (simp add: append_sep_eq[OF assms(4,5)] append_sep_eq[OF no no])
  finally show ?thesis .
qed

text \<open>
  C31: The memo never opens a door. In an isolate that has made any sequence of attempts, an
  attempt is accepted only if its password verifies against the asset's stored hash, or the
  very same password verified for the same asset at the same password version less than five
  minutes earlier; so a changed password is never accepted from memory. (The HMAC does not
  collide on the texts these calls put under it, and asset ids contain no \<open>|\<close>.)
\<close>

theorem attempt_ok_means_verified:
  assumes "isolate pf kv calls st" and "run_attempt pf kv c st = (AttemptOk, st')"
    and "inj_on (pf_memo_mac pf) (tried_texts (c # calls))"
    and "\<forall>d \<in> set (c # calls). CHR ''|'' \<notin> set (at_asset d)"
  shows "verified pf c \<or>
    (\<exists>d \<in> set calls. verified pf d \<and> at_asset d = at_asset c \<and> at_password d = at_password c
       \<and> prot_version (at_protection d) = prot_version (at_protection c) \<and> at_now c < at_now d + MEMO_TTL_MS)"
proof (rule disjCI)
  obtain s memo where st: "st = (s, memo)" by fastforce
  assume no: "\<not> (\<exists>d \<in> set calls. verified pf d \<and> at_asset d = at_asset c \<and> at_password d = at_password c
       \<and> prot_version (at_protection d) = prot_version (at_protection c) \<and> at_now c < at_now d + MEMO_TTL_MS)"
  show "verified pf c"
  proof (rule ccontr)
    assume "\<not> verified pf c"
    then obtain p e where p: "at_password c = Some p"
      and e: "(memo_keyFor pf (at_asset c) (prot_version (at_protection c)) p, e) \<in> set memo" "at_now c < e"
      using attempt_ok_cases[of pf kv c s memo st'] assms(2) st by auto
    from isolate_memo[OF assms(1)] e(1) st
    have "remembered pf calls (memo_keyFor pf (at_asset c) (prot_version (at_protection c)) p, e)" by simp
    then obtain d q where d: "d \<in> set calls" "verified pf d" "at_password d = Some q"
      and same: "memo_keyFor pf (at_asset c) (prot_version (at_protection c)) p
        = memo_keyFor pf (at_asset d) (prot_version (at_protection d)) q"
      and e': "e = at_now d + MEMO_TTL_MS"
      by (auto simp: remembered_def)
    have tried: "memo_text (at_asset c) (prot_version (at_protection c)) p \<in> tried_texts (c # calls)"
      and tried': "memo_text (at_asset d) (prot_version (at_protection d)) q \<in> tried_texts (c # calls)"
      using p d(1,3) by (auto simp: tried_texts_def)
    have "at_asset c = at_asset d \<and> prot_version (at_protection c) = prot_version (at_protection d) \<and> p = q"
      using same keyFor_inj[OF assms(3) tried tried'] assms(4) d(1) by auto
    with no d p e(2) e' show False by auto
  qed
qed

definition sample_call :: "string \<Rightarrow> int \<Rightarrow> attempt_call" where
  "sample_call p t = \<lparr>at_asset = ''a'', at_protection = \<lparr>prot_hash = ph_hash (hashPassword toy_platform ''pw'' ''s'' 1),
     prot_salt = ph_salt (hashPassword toy_platform ''pw'' ''s'' 1), prot_version = 1\<rparr>,
     at_password = Some p, at_ip = None, at_now = t\<rparr>"

lemma sample_call_ok:
  "fst (run_attempt toy_platform sql_port (sample_call ''pw'' 5) ([], [])) = AttemptOk"
  by code_simp

lemma attempt_ok_means_verified_witness: "verified toy_platform (sample_call ''pw'' 5)"
proof -
  have "run_attempt toy_platform sql_port (sample_call ''pw'' 5) ([], [])
      = (AttemptOk, snd (run_attempt toy_platform sql_port (sample_call ''pw'' 5) ([], [])))"
    using sample_call_ok by (metis prod.collapse)
  from attempt_ok_means_verified[OF isolate.fresh this] show ?thesis
    by (simp add: toy_platform_def sample_call_def inj_def)
qed

section \<open>The cookie\<close>

definition SITE_COOKIE :: string where "SITE_COOKIE = ''__Host-serve_access''"
definition APEX_COOKIE :: string where "APEX_COOKIE = ''serve_access''"

definition authCookieName :: "bool \<Rightarrow> string" where
  "authCookieName siteHost = (if siteHost then SITE_COOKIE else APEX_COOKIE)"

definition MAC_LABEL :: string where "MAC_LABEL = ''serve-access-cookie-v1''"
definition COOKIE_MAX_AGE_SECONDS :: int where "COOKIE_MAX_AGE_SECONDS = 7 * 24 * 60 * 60"

definition base64urlEncode :: "string \<Rightarrow> string" where
  \<comment> \<open>\<open>replace(/=+$/, "")\<close> removes the trailing padding\<close>
  "base64urlEncode v =
     (let b = replace_char (CHR ''/'') ''_'' (replace_char (CHR ''+'') ''-'' (btoa (utf8_bytes v)))
      in rev (dropWhile (\<lambda>c. c = CHR ''='') (rev b)))"

definition base64urlDecode :: "string \<Rightarrow> string option" where
  "base64urlDecode v =
     (let padded = replace_char (CHR ''_'') ''/'' (replace_char (CHR ''-'') ''+'' v)
      in atob (padded @ replicate ((4 - length padded mod 4) mod 4) (CHR ''='')))"

definition sign :: "platform \<Rightarrow> string \<Rightarrow> string \<Rightarrow> string" where
  "sign pf secret claims = pf_hmac_hex pf secret (MAC_LABEL @ ''.'' @ claims)"

record cookie_claims =
  cl_assetId :: string
  cl_passwordVersion :: nat
  cl_exp :: int

definition claims_payload :: "cookie_claims \<Rightarrow> string" where
  "claims_payload claims =
     cl_assetId claims @ ''.'' @ show_int (int (cl_passwordVersion claims)) @ ''.'' @ show_int (cl_exp claims)"

definition mintAuthCookie :: "platform \<Rightarrow> string \<Rightarrow> cookie_claims \<Rightarrow> string" where
  "mintAuthCookie pf secret claims =
     (let payload = claims_payload claims
      in base64urlEncode (payload @ ''.'' @ sign pf secret payload))"

definition timingSafeEqual :: "string \<Rightarrow> string \<Rightarrow> bool" where
  "timingSafeEqual a b = (if length a \<noteq> length b then False else mismatch a b = 0)"

definition verifyAuthCookie :: "platform \<Rightarrow> string \<Rightarrow> string option \<Rightarrow> string \<Rightarrow> nat \<Rightarrow> int \<Rightarrow> bool" where
  \<comment> \<open>\<open>verifyAuthCookie(secret, value, { assetId, passwordVersion, now })\<close>\<close>
  "verifyAuthCookie pf secret v assetId passwordVersion now =
     (if \<not> truthy v then False
      else case base64urlDecode (the v) of
        None \<Rightarrow> False
      | Some decoded \<Rightarrow>
          if decoded = [] then False
          else (case split_on (CHR ''.'') decoded of
            [cookieAsset, versionText, expText, mac] \<Rightarrow>
              if \<not> timingSafeEqual mac (sign pf secret (cookieAsset @ ''.'' @ versionText @ ''.'' @ expText)) then False
              else if cookieAsset \<noteq> assetId then False
              else if versionText \<noteq> show_int (int passwordVersion) then False
              else (case parse_int expText of
                      None \<Rightarrow> False
                    | Some e \<Rightarrow> if \<not> safe_integer e then False else e > now div 1000)
          | _ \<Rightarrow> False))"

lemma replace_char_map: "replace_char c [d] s = map (\<lambda>x. if x = c then d else x) s"
  by (induction s) auto

lemma strip_trailing:
  assumes "\<forall>c \<in> set w. c \<noteq> x"
  shows "rev (dropWhile (\<lambda>c. c = x) (replicate n x @ rev w)) = w"
proof -
  have "dropWhile (\<lambda>c. c = x) (replicate n x @ rev w) = dropWhile (\<lambda>c. c = x) (rev w)"
    by (rule dropWhile_append2) simp
  also have "\<dots> = rev w"
    using assms hd_in_set[of "rev w"] by (auto simp: dropWhile_eq_self_iff)
  finally show ?thesis by simp
qed

lemma url_alphabet: "c \<in> set b64_alphabet \<Longrightarrow> c \<noteq> CHR ''-'' \<and> c \<noteq> CHR ''_'' \<and> c \<noteq> CHR ''=''"
  using b64_alphabet_clean by blast

lemma pad_length:
  assumes "(n + k) mod 4 = 0" and "k < (3::nat)"
  shows "(4 - n mod 4) mod 4 = k"
proof -
  have "k = 0 \<or> k = 1 \<or> k = 2" using assms(2) by linarith
  moreover have "(n mod 4 + k) mod 4 = 0" using assms(1) by (simp add: mod_add_left_eq)
  moreover have "n mod 4 < 4" by simp
  then have "n mod 4 = 0 \<or> n mod 4 = 1 \<or> n mod 4 = 2 \<or> n mod 4 = 3" by linarith
  ultimately show ?thesis by (elim disjE) simp_all
qed

lemma base64url_roundtrip: "base64urlDecode (base64urlEncode v) = Some (utf8_bytes v)"
proof -
  let ?bytes = "utf8_bytes v" and ?k = "(3 - length (utf8_bytes v) mod 3) mod 3"
  let ?body = "b64_body ?bytes"
  let ?to = "\<lambda>s. replace_char (CHR ''/'') ''_'' (replace_char (CHR ''+'') ''-'' s)"
  let ?from = "\<lambda>s. replace_char (CHR ''_'') ''/'' (replace_char (CHR ''-'') ''+'' s)"
  have alpha: "c \<in> set ?body \<Longrightarrow> c \<noteq> CHR ''-'' \<and> c \<noteq> CHR ''_'' \<and> c \<noteq> CHR ''=''" for c
    using b64_body_in url_alphabet by blast
  have "?to (btoa ?bytes) = ?to ?body @ replicate ?k (CHR ''='')"
    by (simp add: btoa_body b64_padding_def replace_char_map)
  moreover have "\<forall>c \<in> set (?to ?body). c \<noteq> CHR ''=''"
    using alpha by (auto simp: replace_char_map)
  ultimately have enc: "base64urlEncode v = ?to ?body"
    by (simp add: base64urlEncode_def Let_def strip_trailing)
  have restored: "?from (?to ?body) = ?body"
    using alpha by (auto simp: replace_char_map o_def intro!: map_idI)
  have "(4 - length ?body mod 4) mod 4 = ?k"
    by (rule pad_length[OF body_padding_length]) simp
  then have "base64urlDecode (base64urlEncode v) = atob (btoa ?bytes)"
    by (simp add: base64urlDecode_def enc restored btoa_body b64_padding_def)
  then show ?thesis by simp
qed

lemma timingSafeEqual_iff [simp]: "timingSafeEqual a b \<longleftrightarrow> a = b"
  using constantTimeEqual_iff[of a b] unfolding timingSafeEqual_def constantTimeEqual_def .

definition hex_mac :: "platform \<Rightarrow> bool" where
  \<comment> \<open>\<open>toHex\<close> writes digits and the letters a to f\<close>
  "hex_mac pf \<longleftrightarrow> (\<forall>k t. CHR ''.'' \<notin> set (pf_hmac_hex pf k t) \<and> is_ascii (pf_hmac_hex pf k t))"

lemma mint_then_verify:
  assumes "hex_mac pf" and "is_ascii (cl_assetId cl)" and "CHR ''.'' \<notin> set (cl_assetId cl)"
  shows "verifyAuthCookie pf secret (Some (mintAuthCookie pf secret cl)) assetId passwordVersion now \<longleftrightarrow>
    cl_assetId cl = assetId \<and> cl_passwordVersion cl = passwordVersion \<and> safe_integer (cl_exp cl)
    \<and> now div 1000 < cl_exp cl"
proof -
  let ?text = "claims_payload cl @ ''.'' @ sign pf secret (claims_payload cl)"
  have mac: "CHR ''.'' \<notin> set (sign pf secret t)" "is_ascii (sign pf secret t)" for t
    using assms(1) by (auto simp: hex_mac_def sign_def)
  have "is_ascii ?text"
    using assms(2) mac by (simp add: claims_payload_def code_unit_def)
  then have dec: "base64urlDecode (mintAuthCookie pf secret cl) = Some ?text"
    by (simp add: mintAuthCookie_def Let_def base64url_roundtrip)
  have ne: "mintAuthCookie pf secret cl \<noteq> []"
  proof
    assume "mintAuthCookie pf secret cl = []"
    with dec have "base64urlDecode [] = Some ?text" by simp
    moreover have "base64urlDecode [] = Some []" by code_simp
    ultimately show False by (simp add: claims_payload_def)
  qed
  have split: "split_on (CHR ''.'') ?text = [cl_assetId cl, show_int (int (cl_passwordVersion cl)),
      show_int (cl_exp cl), sign pf secret (claims_payload cl)]"
    using assms(3) mac(1)
    by (simp add: claims_payload_def split_on_append_sep split_on_id show_int_no_sep)
  have payload: "cl_assetId cl @ CHR ''.'' # show_int (int (cl_passwordVersion cl)) @ CHR ''.'' # show_int (cl_exp cl)
      = claims_payload cl"
    by (simp add: claims_payload_def)
  have "?text \<noteq> []" by simp
  then show ?thesis
    using ne split by (auto simp: verifyAuthCookie_def dec truthy_def payload parse_int_show_int)
qed

text \<open>
  A minted cookie opens exactly the asset it was minted for, at the password version it
  was minted at, until its expiry: it is refused for another asset, after the password has
  been changed, and from its expiry second on. (Asset ids are ASCII without a dot, the MAC is
  hexadecimal.)
\<close>

theorem minted_cookie_verifies:
  assumes "hex_mac pf" and "is_ascii (cl_assetId cl)" and "CHR ''.'' \<notin> set (cl_assetId cl)"
  shows "verifyAuthCookie pf secret (Some (mintAuthCookie pf secret cl)) assetId passwordVersion now \<longleftrightarrow>
    cl_assetId cl = assetId \<and> cl_passwordVersion cl = passwordVersion \<and> safe_integer (cl_exp cl)
    \<and> now div 1000 < cl_exp cl"
  by (rule mint_then_verify[OF assms])

lemma split_on_four:
  "split_on c s = [w, x, y, z] \<Longrightarrow> s = w @ c # x @ c # y @ c # z"
  using join_split_on[of c s] by simp

text \<open>
  An accepted cookie carries this deployment's signature over exactly the expected asset and
  password version and an expiry still in the future; nothing else in it is trusted, so a
  forger must produce the MAC of such a text under the secret.
\<close>

theorem accepted_cookie_is_signed:
  assumes "verifyAuthCookie pf secret v assetId passwordVersion now"
  shows "\<exists>expText e. base64urlDecode (the v) =
      Some (assetId @ ''.'' @ show_int (int passwordVersion) @ ''.'' @ expText @ ''.'' @
        pf_hmac_hex pf secret (MAC_LABEL @ ''.'' @ assetId @ ''.'' @ show_int (int passwordVersion) @ ''.'' @ expText))
    \<and> parse_int expText = Some e \<and> now div 1000 < e"
proof -
  obtain decoded a ver expText mac e where d: "base64urlDecode (the v) = Some decoded"
    and s: "split_on (CHR ''.'') decoded = [a, ver, expText, mac]"
    and m: "mac = sign pf secret (a @ ''.'' @ ver @ ''.'' @ expText)"
    and c: "a = assetId" "ver = show_int (int passwordVersion)"
    and e: "parse_int expText = Some e" "now div 1000 < e"
    using assms by (auto simp: verifyAuthCookie_def split: option.splits list.splits if_splits)
  from split_on_four[OF s] d m c e show ?thesis
    by (intro exI[of _ expText] exI[of _ e]) (simp add: sign_def)
qed

definition sample_claims :: cookie_claims where
  "sample_claims = \<lparr>cl_assetId = ''a1'', cl_passwordVersion = 2, cl_exp = 100\<rparr>"

lemma toy_hex: "hex_mac toy_platform"
proof -
  have "CHR ''.'' \<notin> set (show_nat n)" and "is_ascii (show_nat n)" for n
    using show_int_no_sep(2)[of "int n"] is_ascii_show_int[of "int n"] by (auto simp: show_int_def)
  then show ?thesis by (simp add: hex_mac_def toy_platform_def)
qed

lemma minted_cookie_verifies_witness:
  "verifyAuthCookie toy_platform ''k'' (Some (mintAuthCookie toy_platform ''k'' sample_claims)) ''a1'' 2 99000
   \<and> \<not> verifyAuthCookie toy_platform ''k'' (Some (mintAuthCookie toy_platform ''k'' sample_claims)) ''a1'' 3 99000"
  using minted_cookie_verifies[OF toy_hex, of sample_claims]
  by (simp add: sample_claims_def safe_integer_def code_unit_def)

lemma accepted_cookie_is_signed_witness:
  "\<exists>expText. base64urlDecode (mintAuthCookie toy_platform ''k'' sample_claims) =
     Some (''a1.2.'' @ expText @ ''.'' @ pf_hmac_hex toy_platform ''k'' (MAC_LABEL @ ''.a1.2.'' @ expText))"
proof -
  have two: "show_int (int 2) = ''2''" by code_simp
  have "verifyAuthCookie toy_platform ''k'' (Some (mintAuthCookie toy_platform ''k'' sample_claims)) ''a1'' 2 99000"
    using mint_then_verify[OF toy_hex, of sample_claims] by (simp add: sample_claims_def safe_integer_def code_unit_def)
  from accepted_cookie_is_signed[OF this] two show ?thesis by auto
qed

section \<open>Cookie headers\<close>

definition cookie_pair :: "js_dict \<Rightarrow> string \<Rightarrow> js_dict" where
  "cookie_pair out pair =
     (case index_of ''='' pair of
        None \<Rightarrow> out
      | Some eq \<Rightarrow>
          (let name = js_trim (take eq pair)
           in if name = [] then out else dict_set out name (js_trim (drop (eq + 1) pair))))"

definition parseCookieHeader :: "string option \<Rightarrow> js_dict" where
  "parseCookieHeader header' =
     foldl cookie_pair [] (split_on (CHR '';'') (case header' of None \<Rightarrow> [] | Some h \<Rightarrow> h))"

definition buildSetCookie :: "string \<Rightarrow> bool \<Rightarrow> string \<Rightarrow> bool \<Rightarrow> string" where
  \<comment> \<open>with the default lifetime\<close>
  "buildSetCookie v siteHost assetId secure =
     join_with ''; ''
       ([authCookieName siteHost @ ''='' @ v,
         ''Path='' @ (if siteHost then ''/'' else ''/files/'' @ assetId),
         ''Max-Age='' @ show_int COOKIE_MAX_AGE_SECONDS, ''HttpOnly'', ''SameSite=Lax'']
        @ (if siteHost \<or> secure then [''Secure''] else []))"

definition strip_brackets :: "string \<Rightarrow> string" where
  \<comment> \<open>\<open>replace(/^\[|\]$/g, "")\<close>\<close>
  "strip_brackets h =
     (let h1 = (case h of c # r \<Rightarrow> if c = CHR ''['' then r else h | [] \<Rightarrow> [])
      in if ends_with '']'' h1 then take (length h1 - 1) h1 else h1)"

definition shouldUseSecureCookie :: "http_request \<Rightarrow> bool" where
  "shouldUseSecureCookie request =
     (if hq_protocol request = ''https:'' then True
      else (let host = strip_brackets (hq_hostname request)
            in \<not> (host = ''localhost'' \<or> host = ''127.0.0.1'' \<or> host = ''::1'')))"

end
