(* ===== verification/Access_Gate.thy ===== *)
theory Access_Gate
  imports Password_Proof
begin

text \<open>
  The access check in front of every file (\<open>core/access/resolve.ts\<close>), the password form's
  endpoint (\<open>core/access/form.ts\<close>) and the pages they answer with
  (\<open>core/access/page.ts\<close>). \<open>resolveAccess\<close> threads the key-value state and the
  isolate's memo. The protection row and the signing secret are inputs, as the code injects them.
\<close>

section \<open>Pages\<close>

definition WWW_AUTHENTICATE :: string where
  "WWW_AUTHENTICATE = ''Basic realm='' @ [CHR 0x22] @ ''reearth-serve'' @ [CHR 0x22] @ '', charset='' @ [CHR 0x22] @ ''UTF-8'' @ [CHR 0x22]"

definition looksLikeBrowserNavigation :: "http_request \<Rightarrow> bool" where
  "looksLikeBrowserNavigation request =
     contains_text ''text/html'' (js_lower (case header request ''Accept'' of None \<Rightarrow> [] | Some a \<Rightarrow> a))"

definition noStoreHeaders :: "(string \<times> string) list" where
  "noStoreHeaders = [(''Cache-Control'', ''no-store''), (''X-Robots-Tag'', ''noindex'')]"

definition escapeHtml :: "string \<Rightarrow> string" where
  "escapeHtml v =
     replace_char (CHR 0x27) ''&#39;'' (replace_char (CHR 0x22) ''&quot;'' (replace_char (CHR ''>'') ''&gt;''
       (replace_char (CHR ''<'') ''&lt;'' (replace_char (CHR ''&'') ''&amp;'' v))))"

definition passwordPage :: "string \<Rightarrow> string \<Rightarrow> string option \<Rightarrow> string" where
  \<open>passwordPage action next' error =
     (let error_html = (if truthy error
            then ''<p class="error" role="alert">'' @ escapeHtml (the error) @ ''</p>'' else [])
      in join_with [CHR 0x0A]
     [''<!doctype html>'',
      ''<html lang="en">'',
      ''<meta charset="utf-8">'',
      ''<meta name="viewport" content="width=device-width, initial-scale=1">'',
      ''<meta name="robots" content="noindex">'',
      ''<title>Password required</title>'',
      ''<style>'',
      ''  :root { color-scheme: light dark; }'',
      ''  body {'',
      ''    margin: 0; min-height: 100vh; display: grid; place-items: center;'',
      ''    font: 15px/1.5 system-ui, -apple-system, "Segoe UI", sans-serif;'',
      ''    background: #f6f7f9; color: #16191d;'',
      ''  }'',
      ''  main { width: min(22rem, calc(100vw - 2rem)); }'',
      ''  h1 { font-size: 1.1rem; margin: 0 0 .25rem; }'',
      ''  p { margin: 0 0 1rem; color: #5b6470; }'',
      ''  form { display: grid; gap: .6rem; }'',
      ''  input, button {'',
      ''    font: inherit; padding: .6rem .7rem; border-radius: .4rem;'',
      ''    border: 1px solid #c7ccd3; background: #fff; color: inherit;'',
      ''  }'',
      ''  button { border: 0; background: #1b6ef3; color: #fff; cursor: pointer; }'',
      ''  .error { color: #c0392b; }'',
      ''  @media (prefers-color-scheme: dark) {'',
      ''    body { background: #14171a; color: #e8eaed; }'',
      ''    p { color: #9aa4b0; }'',
      ''    input { background: #1e2226; border-color: #3a4047; }'',
      ''  }'',
      ''</style>'',
      ''<main>'',
      ''  <h1>Password required</h1>'',
      ''  <p>This site is protected. Enter the password to continue.</p>'',
      ''  '' @ error_html,
      ''  <form method="post" action="'' @ escapeHtml action @ ''">'',
      ''    <input type="hidden" name="next" value="'' @ escapeHtml next' @ ''">'',
      ''    <input type="password" name="password" autocomplete="current-password"'',
      ''           aria-label="Password" autofocus required>'',
      ''    <button type="submit">Continue</button>'',
      ''  </form>'',
      ''</main>'',
      ''</html>''])\<close>

definition passwordPageResponse :: "string \<Rightarrow> string \<Rightarrow> string option \<Rightarrow> http_response" where
  "passwordPageResponse action next' error =
     \<lparr>rs_status = 401, rs_headers = (''Content-Type'', ''text/html; charset=utf-8'') # noStoreHeaders,
      rs_body = Some (passwordPage action next' error)\<rparr>"

definition basicChallengeResponse :: http_response where
  "basicChallengeResponse =
     \<lparr>rs_status = 401,
      rs_headers = [(''Content-Type'', ''application/json''), (''WWW-Authenticate'', WWW_AUTHENTICATE)] @ noStoreHeaders,
      rs_body = Some (error_json ''authentication required'')\<rparr>"

definition rateLimitedResponse :: "int \<Rightarrow> bool \<Rightarrow> http_response" where
  \<open>rateLimitedResponse retryAfterSeconds html =
     \<lparr>rs_status = 429,
      rs_headers = [(''Content-Type'', if html then ''text/html; charset=utf-8'' else ''application/json''),
                    (''Retry-After'', show_int retryAfterSeconds)] @ noStoreHeaders,
      rs_body = Some (if html
        then ''<!doctype html><meta charset="utf-8"><title>Too many attempts</title>'' @
             ''<h1>Too many attempts</h1><p>Wait a few minutes and try again.</p>''
        else error_json ''too many failed attempts'')\<rparr>\<close>

definition service_unavailable :: "string \<Rightarrow> http_response" where
  "service_unavailable message =
     \<lparr>rs_status = 503, rs_headers = (''Content-Type'', ''application/json'') # noStoreHeaders,
      rs_body = Some (error_json message)\<rparr>"

definition signingSecretMissingResponse :: http_response where
  "signingSecretMissingResponse = service_unavailable ''SIGNING_SECRET not configured''"

definition misconfiguredResponse :: http_response where
  "misconfiguredResponse = service_unavailable ''asset protection is misconfigured''"

section \<open>Paths\<close>

definition AUTH_PATH_SEGMENT :: string where "AUTH_PATH_SEGMENT = ''_serve/auth''"

definition authActionPath :: "string \<Rightarrow> bool \<Rightarrow> string" where
  "authActionPath assetId siteHost =
     (if siteHost then ''/'' @ AUTH_PATH_SEGMENT else ''/files/'' @ assetId @ ''/'' @ AUTH_PATH_SEGMENT)"

definition stripFilePrefix :: "string \<Rightarrow> string \<Rightarrow> string" where
  "stripFilePrefix pathname assetId =
     (let prefix' = ''/files/'' @ assetId in
      if \<not> starts_with prefix' pathname then pathname
      else (let rest = drop (length prefix') pathname in if rest = [] then ''/'' else rest))"

definition visitorPath :: "http_request \<Rightarrow> string \<Rightarrow> bool \<Rightarrow> string" where
  "visitorPath request assetId siteHost =
     (if siteHost then stripFilePrefix (hq_pathname request) assetId else hq_pathname request) @ hq_search request"

definition safeNextPath :: "string option \<Rightarrow> string \<Rightarrow> string" where
  "safeNextPath v fallback =
     (if \<not> truthy v then fallback
      else (let normalized = replace_char (CHR 0x5C) ''/'' (the v) in
            if \<not> starts_with ''/'' normalized then fallback
            else if starts_with ''//'' normalized then fallback
            else normalized))"

section \<open>The check\<close>

datatype access_proof = NoProof | CookieProof | BasicProof

datatype access_resolution = AllowAccess access_proof | Challenge http_response

record access_deps =
  ad_findProtection :: "string \<Rightarrow> protection option"
  ad_signingSecret :: "string option"
  ad_siteHost :: bool
  ad_now :: int

definition accessModeOf :: "asset \<Rightarrow> asset_access" where
  "accessModeOf asset = (if a_access asset = Some PasswordAccess then PasswordAccess else PublicAccess)"

definition challengeFor :: "http_request \<Rightarrow> string \<Rightarrow> bool \<Rightarrow> http_response" where
  "challengeFor request assetId siteHost =
     (if \<not> looksLikeBrowserNavigation request then basicChallengeResponse
      else passwordPageResponse (authActionPath assetId siteHost) (visitorPath request assetId siteHost) None)"

definition resolveAccess ::
  "platform \<Rightarrow> ('s, blob) kv_port \<Rightarrow> access_deps \<Rightarrow> asset \<Rightarrow> http_request \<Rightarrow> 's \<times> password_memo
   \<Rightarrow> access_resolution \<times> 's \<times> password_memo" where
  "resolveAccess pf kv deps asset request st =
     (if accessModeOf asset \<noteq> PasswordAccess then (AllowAccess NoProof, st)
      else if \<not> truthy (ad_signingSecret deps) then (Challenge signingSecretMissingResponse, st)
      else (case ad_findProtection deps (a_id asset) of
        None \<Rightarrow> (Challenge misconfiguredResponse, st)
      | Some prot \<Rightarrow>
          (let secret = the (ad_signingSecret deps); now = ad_now deps;
               cookies = parseCookieHeader (header request ''Cookie'');
               cookieOk = verifyAuthCookie pf secret (dict_get cookies (authCookieName (ad_siteHost deps)))
                 (a_id asset) (prot_version prot) now;
               challenge = Challenge (challengeFor request (a_id asset) (ad_siteHost deps))
           in if cookieOk then (AllowAccess CookieProof, st)
              else (case basicPassword pf (header request ''Authorization'') of
                None \<Rightarrow> (challenge, st)
              | Some submitted \<Rightarrow>
                  (case attemptPassword pf kv (a_id asset) prot (Some submitted) (clientIp request) now st of
                     (AttemptOk, st') \<Rightarrow> (AllowAccess BasicProof, st')
                   | (AttemptLimited seconds, st') \<Rightarrow> (Challenge (rateLimitedResponse seconds False), st')
                   | (AttemptWrong, st') \<Rightarrow> (challenge, st'))))))"

definition readForm :: "http_request \<Rightarrow> string option \<times> string option" where
  \<comment> \<open>\<open>password\<close> and \<open>next\<close> of the form\<close>
  "readForm request =
     (case hq_form request of
        None \<Rightarrow> (None, None)
      | Some fs \<Rightarrow> (map_of fs ''password'', map_of fs ''next''))"

definition handleAuthSubmit ::
  "platform \<Rightarrow> ('s, blob) kv_port \<Rightarrow> access_deps \<Rightarrow> asset \<Rightarrow> http_request \<Rightarrow> 's \<times> password_memo
   \<Rightarrow> http_response option \<times> 's \<times> password_memo" where
  "handleAuthSubmit pf kv deps asset request st =
     (if accessModeOf asset \<noteq> PasswordAccess then (None, st)
      else if \<not> truthy (ad_signingSecret deps) then (Some signingSecretMissingResponse, st)
      else (case ad_findProtection deps (a_id asset) of
        None \<Rightarrow> (Some signingSecretMissingResponse, st)
      | Some prot \<Rightarrow>
          (let secret = the (ad_signingSecret deps); now = ad_now deps;
               (password, next0) = readForm request;
               action = authActionPath (a_id asset) (ad_siteHost deps);
               fallback = (if ad_siteHost deps then ''/'' else ''/files/'' @ a_id asset @ ''/'');
               next' = safeNextPath next0 fallback
           in case attemptPassword pf kv (a_id asset) prot password (clientIp request) now st of
                (AttemptLimited seconds, st') \<Rightarrow> (Some (rateLimitedResponse seconds True), st')
              | (AttemptWrong, st') \<Rightarrow>
                  (Some (passwordPageResponse action next' (Some ''Wrong password. Try again.'')), st')
              | (AttemptOk, st') \<Rightarrow>
                  (let v = mintAuthCookie pf secret \<lparr>cl_assetId = a_id asset,
                         cl_passwordVersion = prot_version prot,
                         cl_exp = now div 1000 + COOKIE_MAX_AGE_SECONDS\<rparr>
                   in (Some \<lparr>rs_status = 303,
                         rs_headers = [(''Location'', next'),
                           (''Set-Cookie'', buildSetCookie v (ad_siteHost deps) (a_id asset) (shouldUseSecureCookie request))]
                           @ noStoreHeaders,
                         rs_body = None\<rparr>, st')))))"
section \<open>What the check guarantees\<close>

text \<open>
  C2: A protected asset's bytes are reached only with a proof. When the check allows a request
  to a password-protected asset, the deployment has a signing secret, the asset has password
  material, and either the cookie of this kind of host verifies for this asset at its current
  password version, or the request's Basic password was accepted by the throttled check. With no
  secret or no material the answer is a refusal: the gate fails closed.
\<close>

theorem allowed_means_proved:
  assumes "resolveAccess pf kv deps asset request st = (AllowAccess proof, st')"
    and "accessModeOf asset = PasswordAccess"
  shows "\<exists>secret prot. ad_signingSecret deps = Some secret \<and> ad_findProtection deps (a_id asset) = Some prot \<and>
    ((proof = CookieProof \<and> verifyAuthCookie pf secret
        (dict_get (parseCookieHeader (header request ''Cookie'')) (authCookieName (ad_siteHost deps)))
        (a_id asset) (prot_version prot) (ad_now deps))
     \<or> (proof = BasicProof \<and> (\<exists>pw. basicPassword pf (header request ''Authorization'') = Some pw \<and>
        fst (attemptPassword pf kv (a_id asset) prot (Some pw) (clientIp request) (ad_now deps) st) = AttemptOk)))"
  using assms
  by (auto simp: resolveAccess_def Let_def truthy_def
      split: if_splits option.splits prod.splits attempt_result.splits)

lemma public_needs_no_proof:
  "accessModeOf asset = PublicAccess \<Longrightarrow> resolveAccess pf kv deps asset request st = (AllowAccess NoProof, st)"
  by (simp add: resolveAccess_def)

lemma challenges_not_stored:
  assumes "resolveAccess pf kv deps asset request st = (Challenge r, st')"
  shows "rs_status r \<in> {401, 429, 503} \<and> map_of (rs_headers r) ''Cache-Control'' = Some ''no-store''"
  using assms
  by (auto simp: resolveAccess_def Let_def challengeFor_def basicChallengeResponse_def passwordPageResponse_def
      signingSecretMissingResponse_def misconfiguredResponse_def service_unavailable_def
      rateLimitedResponse_def noStoreHeaders_def
      split: if_splits option.splits prod.splits attempt_result.splits)

section \<open>The form opens the door\<close>

lemma b64url_char:
  assumes "c \<in> set (base64urlEncode v)"
  shows "c \<in> set b64_alphabet \<or> c = CHR ''-'' \<or> c = CHR ''_''"
proof -
  have "set (base64urlEncode v) \<subseteq>
      set (replace_char (CHR ''/'') ''_'' (replace_char (CHR ''+'') ''-'' (btoa (utf8_bytes v)))) - {CHR ''=''}"
  proof
    fix x assume x: "x \<in> set (base64urlEncode v)"
    let ?body = "b64_body (utf8_bytes v)"
    let ?to = "\<lambda>s. replace_char (CHR ''/'') ''_'' (replace_char (CHR ''+'') ''-'' s)"
    have "\<forall>c \<in> set (?to ?body). c \<noteq> CHR ''=''"
      using b64_body_in[of "utf8_bytes v"] url_alphabet by (auto simp: replace_char_map)
    then have enc: "base64urlEncode v = ?to ?body"
      by (simp add: base64urlEncode_def Let_def strip_trailing btoa_body b64_padding_def replace_char_map)
    with x have "x \<in> set (?to (btoa (utf8_bytes v)))" by (auto simp: btoa_body)
    moreover have "x \<noteq> CHR ''=''" using x enc \<open>\<forall>c \<in> set (?to ?body). c \<noteq> CHR ''=''\<close> by auto
    ultimately show "x \<in> set (?to (btoa (utf8_bytes v))) - {CHR ''=''}" by simp
  qed
  with assms show ?thesis
    using b64_body_in[of "utf8_bytes v"] padding_clean
    by (auto simp: btoa_body replace_char_map)
qed

lemma b64url_clean:
  assumes "c \<in> set (base64urlEncode v)"
  shows "c \<noteq> CHR '';'' \<and> \<not> is_space c"
proof -
  have "\<forall>c \<in> set b64_alphabet. c \<noteq> CHR '';'' \<and> \<not> is_space c"
    and "\<not> is_space (CHR ''-'')" "\<not> is_space (CHR ''_'')"
    by code_simp+
  with b64url_char[OF assms] show ?thesis by auto
qed

lemma js_trim_clean: "\<forall>c \<in> set s. \<not> is_space c \<Longrightarrow> js_trim s = s"
proof -
  assume clean: "\<forall>c \<in> set s. \<not> is_space c"
  have "dropWhile is_space s = s" using clean by (cases s) auto
  moreover have "dropWhile is_space (rev s) = rev s"
    using clean hd_in_set[of "rev s"] by (auto simp: dropWhile_eq_self_iff)
  ultimately show ?thesis by (simp add: js_trim_def)
qed

lemma cookie_name_clean:
  "c \<in> set (authCookieName b) \<Longrightarrow> c \<noteq> CHR ''='' \<and> c \<noteq> CHR '';'' \<and> \<not> is_space c"
  "authCookieName b \<noteq> []" "authCookieName b \<noteq> ''__proto__''"
proof -
  have "\<forall>b. \<forall>c \<in> set (authCookieName b). c \<noteq> CHR ''='' \<and> c \<noteq> CHR '';'' \<and> \<not> is_space c"
    by (intro allI) (case_tac b; simp add: authCookieName_def SITE_COOKIE_def APEX_COOKIE_def is_space_def code_unit_def)
  then show "c \<in> set (authCookieName b) \<Longrightarrow> c \<noteq> CHR ''='' \<and> c \<noteq> CHR '';'' \<and> \<not> is_space c" by blast
qed (simp_all add: authCookieName_def SITE_COOKIE_def APEX_COOKIE_def)

lemma cookie_header_read:
  assumes "\<forall>c \<in> set v. c \<noteq> CHR '';'' \<and> \<not> is_space c"
  shows "dict_get (parseCookieHeader (Some (authCookieName b @ ''='' @ v))) (authCookieName b) = Some v"
proof -
  have name: "CHR '';'' \<notin> set (authCookieName b)" "CHR ''='' \<notin> set (authCookieName b)"
    "\<forall>c \<in> set (authCookieName b). \<not> is_space c"
    using cookie_name_clean(1) by blast+
  have v: "CHR '';'' \<notin> set v" "\<forall>c \<in> set v. \<not> is_space c" using assms by blast+
  have "split_on (CHR '';'') (authCookieName b @ ''='' @ v) = [authCookieName b @ ''='' @ v]"
    by (rule split_on_id) (simp add: name v)
  moreover have "index_of ''='' (authCookieName b @ ''='' @ v) = Some (length (authCookieName b))"
    using index_of_append_sep[OF name(2), of v] by simp
  moreover have "js_trim (authCookieName b) = authCookieName b" and "js_trim v = v"
    by (rule js_trim_clean[OF name(3)], rule js_trim_clean[OF v(2)])
  ultimately show ?thesis
    by (simp add: parseCookieHeader_def cookie_pair_def cookie_name_clean dict_get_set)
qed

text \<open>
  The form opens the door: when a submission is accepted, the response sets a cookie, and a
  browser that sends that cookie back is let in, by any isolate and with no further password
  check, for seven days, for as long as the asset's password is not changed. (The asset id is
  ASCII without a dot, the MAC hexadecimal, the clock below the range where seconds stop being
  exact.)
\<close>

theorem form_cookie_lets_in:
  assumes "handleAuthSubmit pf kv deps asset request st = (Some r, st')" and "rs_status r = 303"
    and "hex_mac pf" and "is_ascii (a_id asset)" and "CHR ''.'' \<notin> set (a_id asset)"
    and "ad_findProtection deps' (a_id asset) = Some prot" and "ad_findProtection deps (a_id asset) = Some prot0"
    and "prot_version prot = prot_version prot0"
    and "ad_signingSecret deps' = ad_signingSecret deps" and "ad_siteHost deps' = ad_siteHost deps"
    and "ad_now deps' div 1000 < ad_now deps div 1000 + COOKIE_MAX_AGE_SECONDS"
    and "0 \<le> ad_now deps" and "ad_now deps div 1000 + COOKIE_MAX_AGE_SECONDS \<le> 9007199254740991"
  shows "\<exists>v attributes. response_header r ''Set-Cookie'' = Some (authCookieName (ad_siteHost deps) @ ''='' @ v @ ''; '' @ attributes)
    \<and> (header later ''Cookie'' = Some (authCookieName (ad_siteHost deps) @ ''='' @ v)
       \<longrightarrow> fst (resolveAccess pf kv' deps' asset later st'') = AllowAccess CookieProof)"
proof -
  define cl where "cl = \<lparr>cl_assetId = a_id asset, cl_passwordVersion = prot_version prot0,
      cl_exp = ad_now deps div 1000 + COOKIE_MAX_AGE_SECONDS\<rparr>"
  define secret where "secret = the (ad_signingSecret deps)"
  define v where "v = mintAuthCookie pf secret cl"
  have mode: "accessModeOf asset = PasswordAccess" and sec: "truthy (ad_signingSecret deps)"
    using assms(1,2) by (auto simp: handleAuthSubmit_def signingSecretMissingResponse_def service_unavailable_def
        split: if_splits)
  have set: "response_header r ''Set-Cookie'' =
      Some (buildSetCookie v (ad_siteHost deps) (a_id asset) (shouldUseSecureCookie request))"
    using assms(1,2,7) mode sec
    by (auto simp: handleAuthSubmit_def Let_def v_def cl_def secret_def response_header_def
        passwordPageResponse_def rateLimitedResponse_def
        split: prod.splits attempt_result.splits)
  obtain attributes where attrs: "buildSetCookie v (ad_siteHost deps) (a_id asset) (shouldUseSecureCookie request)
      = authCookieName (ad_siteHost deps) @ ''='' @ v @ ''; '' @ attributes"
    by (simp add: buildSetCookie_def)
  have "verifyAuthCookie pf secret (Some v) (a_id asset) (prot_version prot) (ad_now deps')"
    using mint_then_verify[OF assms(3), of cl] assms(4,5,8,11,12,13)
    by (simp add: v_def cl_def safe_integer_def COOKIE_MAX_AGE_SECONDS_def)
  moreover have "dict_get (parseCookieHeader (Some (authCookieName (ad_siteHost deps) @ ''='' @ v)))
      (authCookieName (ad_siteHost deps)) = Some v"
    by (rule cookie_header_read) (use b64url_clean in \<open>auto simp: v_def mintAuthCookie_def Let_def\<close>)
  ultimately have "header later ''Cookie'' = Some (authCookieName (ad_siteHost deps) @ ''='' @ v)
       \<longrightarrow> fst (resolveAccess pf kv' deps' asset later st'') = AllowAccess CookieProof"
    using mode sec assms(6,9,10) by (simp add: resolveAccess_def Let_def secret_def)
  with set attrs show ?thesis by auto
qed

section \<open>Where the form redirects\<close>

text \<open>
  The browser resolves \<open>Location\<close> with the URL standard's parser, which first removes tab and
  newline characters; a reference that then starts with two slashes names another host.
\<close>

definition url_strip :: "string \<Rightarrow> string" where
  "url_strip s = filter (\<lambda>c. c \<notin> {CHR 0x09, CHR 0x0A, CHR 0x0D}) s"

definition leaves_origin :: "string \<Rightarrow> bool" where
  \<comment> \<open>a reference with an authority of its own, or not rooted\<close>
  "leaves_origin s =
     (let t = replace_char (CHR 0x5C) ''/'' (url_strip s)
      in \<not> starts_with ''/'' t \<or> starts_with ''//'' t)"

text \<open>
  Without tabs and line breaks in it, the target the form redirects to stays on the origin:
  an absolute or scheme-relative target, spelled with slashes or backslashes, is replaced by the
  fallback.
\<close>

theorem next_stays_on_origin:
  assumes "\<not> leaves_origin fallback" and "\<forall>c \<in> set (the v). c \<notin> {CHR 0x09, CHR 0x0A, CHR 0x0D}"
  shows "\<not> leaves_origin (safeNextPath v fallback)"
proof (cases "safeNextPath v fallback = fallback")
  case True
  with assms(1) show ?thesis by simp
next
  case False
  let ?n = "replace_char (CHR 0x5C) ''/'' (the v)"
  have n: "safeNextPath v fallback = ?n" and ok: "starts_with ''/'' ?n" "\<not> starts_with ''//'' ?n"
    using False by (auto simp: safeNextPath_def Let_def split: if_splits)
  have no_bs: "CHR 0x5C \<notin> set ?n" by (rule not_in_replace_char) simp
  have "url_strip ?n = ?n"
    unfolding url_strip_def
    by (rule filter_True) (use assms(2) set_replace_char[of "CHR 0x5C" "''/''" "the v"] in auto)
  with no_bs ok show ?thesis by (simp add: n leaves_origin_def)
qed

text \<open>A tab between the two slashes is enough to defeat it.\<close>

lemma next_with_tab_leaves:
  "safeNextPath (Some (''/'' @ [CHR 0x09] @ ''/evil.example'')) ''/'' = ''/'' @ [CHR 0x09] @ ''/evil.example''"
  "leaves_origin (safeNextPath (Some (''/'' @ [CHR 0x09] @ ''/evil.example'')) ''/'')"
  by code_simp+

text \<open>Nothing a visitor controls can break out of the form's markup.\<close>

lemma escapeHtml_safe:
  "CHR 0x22 \<notin> set (escapeHtml v) \<and> CHR 0x27 \<notin> set (escapeHtml v)
   \<and> CHR ''<'' \<notin> set (escapeHtml v) \<and> CHR ''>'' \<notin> set (escapeHtml v)"
proof -
  have absent: "x \<notin> set (replace_char c t s)" if "x \<notin> set s \<or> x = c" and "x \<notin> set t" for x c t s
    using that set_replace_char[of c t s] by auto
  show ?thesis unfolding escapeHtml_def by (intro conjI; (rule absent, simp_all add: absent)?)
qed

section \<open>Worked instances\<close>

definition site_asset :: asset where
  "site_asset = \<lparr>a_id = ''a1'', a_filename = ''f.zip'', a_contentType = ''application/zip'', a_size = 1,
     a_createdAt = 0, a_expiresAt = 0, a_contentEncoding = None, a_originalSize = None, a_type = Some TypeArchive,
     a_status = Some AssetReady, a_archiveFormat = None, a_fileCount = None, a_extractedSize = None, a_jobId = None,
     a_sessionId = None, a_projectId = Some ''p'', a_activeVersionId = None, a_description = None, a_userMeta = None,
     a_access = Some PasswordAccess, a_spa = None, a_hosting = None\<rparr>"

definition site_deps :: access_deps where
  "site_deps = \<lparr>ad_findProtection = (\<lambda>_. Some (at_protection (sample_call ''pw'' 0))),
     ad_signingSecret = Some ''k'', ad_siteHost = True, ad_now = 5000\<rparr>"

definition form_request :: http_request where
  "form_request = \<lparr>hq_method = ''POST'', hq_headers = [], hq_protocol = ''https:'', hq_hostname = ''x.example'',
     hq_pathname = ''/files/a1/_serve/auth'', hq_search = [], hq_form = Some [(''password'', ''pw''), (''next'', ''/docs/'')]\<rparr>"

definition basic_request :: http_request where
  "basic_request = form_request\<lparr>hq_headers := [(''authorization'', ''Basic '' @ btoa ''user:pw'')]\<rparr>"

lemma form_request_accepted:
  "map_option rs_status (fst (handleAuthSubmit toy_platform sql_port site_deps site_asset form_request ([], []))) = Some 303"
proof -
  have ok: "fst (attemptPassword toy_platform sql_port ''a1'' (at_protection (sample_call ''pw'' 0)) (Some ''pw'')
      (clientIp form_request) 5000 ([], [])) = AttemptOk"
    by code_simp
  show ?thesis
    using ok
    by (auto simp: handleAuthSubmit_def Let_def accessModeOf_def site_asset_def site_deps_def truthy_def
        readForm_def form_request_def split: prod.splits attempt_result.splits)
qed

lemma form_cookie_lets_in_witness:
  "\<exists>r. fst (handleAuthSubmit toy_platform sql_port site_deps site_asset form_request ([], [])) = Some r
     \<and> response_header r ''Set-Cookie'' \<noteq> None"
proof -
  obtain r st' where r: "handleAuthSubmit toy_platform sql_port site_deps site_asset form_request ([], []) = (Some r, st')"
    and s: "rs_status r = 303"
    using form_request_accepted
    by (cases "handleAuthSubmit toy_platform sql_port site_deps site_asset form_request ([], [])") auto
  have "\<exists>v attributes. response_header r ''Set-Cookie'' =
      Some (authCookieName (ad_siteHost site_deps) @ ''='' @ v @ ''; '' @ attributes)
    \<and> (header basic_request ''Cookie'' = Some (authCookieName (ad_siteHost site_deps) @ ''='' @ v)
       \<longrightarrow> fst (resolveAccess toy_platform sql_port site_deps site_asset basic_request ([], [])) = AllowAccess CookieProof)"
    by (rule form_cookie_lets_in[OF r s toy_hex])
      (simp_all add: site_asset_def site_deps_def COOKIE_MAX_AGE_SECONDS_def code_unit_def)
  with r show ?thesis by auto
qed

lemma basic_request_allowed:
  "fst (resolveAccess toy_platform sql_port site_deps site_asset basic_request ([], [])) = AllowAccess BasicProof"
  by code_simp

lemma allowed_means_proved_witness:
  "\<exists>pw. basicPassword toy_platform (header basic_request ''Authorization'') = Some pw"
proof -
  obtain st' where r: "resolveAccess toy_platform sql_port site_deps site_asset basic_request ([], []) = (AllowAccess BasicProof, st')"
    using basic_request_allowed by (metis prod.collapse)
  have "accessModeOf site_asset = PasswordAccess" by (simp add: accessModeOf_def site_asset_def)
  from allowed_means_proved[OF r this] show ?thesis by auto
qed

lemma next_stays_on_origin_witness:
  "\<not> leaves_origin (safeNextPath (Some ''//evil.example/'') ''/'')"
  by (rule next_stays_on_origin) code_simp+

end
