(* ===== verification/File_Storage.thy ===== *)
theory File_Storage
  imports Asset_Store
begin

text \<open>
  The object store behind the file routes: the port \<open>FileStorage\<close> of
  \<open>core/asset/repository.ts\<close> as a record of operations on a state, and its implementation
  \<open>adapters/memory/storage.ts\<close> in full. The one of \<open>adapters/cloudflare/storage.ts\<close> is
  a layer over a bucket of the platform, which is a parameter. A stream of bytes is the list of
  its chunks; an upload may break off with an error. A range is a pair of an offset and a length
  as the handler computed them, so the length may be negative. The locale \<open>object_store\<close> of
  \<open>Cleanup\<close> states what the deletion loop relies on.
\<close>

section \<open>Stored files\<close>

record stored_range =
  sr_offset :: int
  sr_length :: int
  sr_totalSize :: int

record stored_file =
  sf_body :: "string list"
  sf_size :: int
  sf_contentType :: string
  sf_contentEncoding :: "string option"
  sf_etag :: "string option"
  sf_range :: "stored_range option"

record object_head =
  oh_size :: int
  oh_contentEncoding :: "string option"
  oh_etag :: "string option"

record upload_body =
  ub_chunks :: "string list"
  ub_error :: "string option"
    \<comment> \<open>the error the stream ends with instead of closing\<close>

record 's file_storage =
  fs_put :: "string \<Rightarrow> upload_body \<Rightarrow> string \<Rightarrow> int \<Rightarrow> string option \<Rightarrow> 's \<Rightarrow> (string + unit) \<times> 's"
  fs_get :: "string \<Rightarrow> (int \<times> int) option \<Rightarrow> 's \<Rightarrow> stored_file option"
  fs_head :: "string \<Rightarrow> 's \<Rightarrow> object_head option"
  fs_delete :: "string \<Rightarrow> 's \<Rightarrow> 's"
  fs_deleteMany :: "(string list \<Rightarrow> 's \<Rightarrow> 's) option"
  fs_list :: "string \<Rightarrow> nat option \<Rightarrow> string option \<Rightarrow> 's \<Rightarrow> string list \<times> string option"

section \<open>The in-memory store\<close>

record stored_object =
  so_data :: string
  so_contentType :: string
  so_contentEncoding :: "string option"
  so_etag :: string

record memory_storage =
  ms_objects :: "(string \<times> stored_object) list"
  ms_usedBytes :: int
  ms_capacityBytes :: int

fun collect_chunks :: "int \<Rightarrow> string \<Rightarrow> string list \<Rightarrow> string option \<Rightarrow> string + string" where
  "collect_chunks declared out [] error =
     (case error of
        Some e \<Rightarrow> Inl e
      | None \<Rightarrow>
          if int (length out) \<noteq> declared
          then Inl (''body shorter than declared Content-Length '' @ show_int declared @ '' (got '' @ show_int (int (length out)) @ '')'')
          else Inr out)"
| "collect_chunks declared out (c # cs) error =
     (if int (length out + length c) > declared
      then Inl (''body exceeds declared Content-Length '' @ show_int declared)
      else collect_chunks declared (out @ c) cs error)"

definition collect :: "upload_body \<Rightarrow> int \<Rightarrow> string + string" where
  \<comment> \<open>\<open>new Uint8Array(size)\<close> throws on a negative size\<close>
  "collect body declared =
     (if declared < 0 then Inl ''Invalid typed array length'' else collect_chunks declared [] (ub_chunks body) (ub_error body))"

definition mem_release :: "string \<Rightarrow> memory_storage \<Rightarrow> memory_storage" where
  "mem_release key st =
     (case map_of (ms_objects st) key of
        None \<Rightarrow> st
      | Some entry \<Rightarrow>
          st\<lparr>ms_objects := own_delete (ms_objects st) key,
             ms_usedBytes := ms_usedBytes st - int (length (so_data entry))\<rparr>)"

text \<open>
  An upload suspends while its body is read, and other calls run meanwhile: \<open>put\<close> is two
  steps, the reservation and what follows the read.
\<close>

definition mem_reserve :: "int \<Rightarrow> memory_storage \<Rightarrow> memory_storage option" where
  "mem_reserve declared st =
     (if ms_usedBytes st + declared > ms_capacityBytes st then None
      else Some (st\<lparr>ms_usedBytes := ms_usedBytes st + declared\<rparr>))"

definition mem_commit ::
  "(string \<Rightarrow> string) \<Rightarrow> string \<Rightarrow> upload_body \<Rightarrow> string \<Rightarrow> int \<Rightarrow> string option \<Rightarrow> memory_storage
   \<Rightarrow> (string + unit) \<times> memory_storage" where
  "mem_commit md5 key body contentType declared encoding st =
     (case collect body declared of
        Inl e \<Rightarrow> (Inl e, st\<lparr>ms_usedBytes := ms_usedBytes st - declared\<rparr>)
      | Inr data \<Rightarrow>
          (let st' = mem_release key st
           in (Inr (), st'\<lparr>ms_objects := own_set (ms_objects st') key
                \<lparr>so_data = data, so_contentType = contentType, so_contentEncoding = encoding,
                 so_etag = [CHR 0x22] @ md5 data @ [CHR 0x22]\<rparr>\<rparr>)))"

definition mem_put ::
  "(string \<Rightarrow> string) \<Rightarrow> string \<Rightarrow> upload_body \<Rightarrow> string \<Rightarrow> int \<Rightarrow> string option \<Rightarrow> memory_storage
   \<Rightarrow> (string + unit) \<times> memory_storage" where
  "mem_put md5 key body contentType declared encoding st =
     (case mem_reserve declared st of
        None \<Rightarrow> (Inl (''upload of '' @ show_int declared @ '' bytes exceeds storage capacity ('' @
                   show_int (ms_usedBytes st) @ ''/'' @ show_int (ms_capacityBytes st) @ '' bytes used)''), st)
      | Some st' \<Rightarrow> mem_commit md5 key body contentType declared encoding st')"

definition relative_index :: "nat \<Rightarrow> int \<Rightarrow> nat" where
  \<comment> \<open>how \<open>subarray\<close> reads an index: a negative one counts from the end\<close>
  "relative_index n i = (if i < 0 then nat (max 0 (int n + i)) else min n (nat i))"

definition subarray :: "string \<Rightarrow> int \<Rightarrow> int \<Rightarrow> string" where
  "subarray data b e =
     take (relative_index (length data) e - relative_index (length data) b) (drop (relative_index (length data) b) data)"

definition mem_get :: "string \<Rightarrow> (int \<times> int) option \<Rightarrow> memory_storage \<Rightarrow> stored_file option" where
  "mem_get key wanted st =
     (case map_of (ms_objects st) key of
        None \<Rightarrow> None
      | Some entry \<Rightarrow>
          (let n = int (length (so_data entry));
               file = \<lparr>sf_body = [so_data entry], sf_size = n, sf_contentType = so_contentType entry,
                 sf_contentEncoding = so_contentEncoding entry, sf_etag = Some (so_etag entry), sf_range = None\<rparr>
           in case wanted of
                None \<Rightarrow> Some file
              | Some (from, len) \<Rightarrow>
                  (let offset = min from n; l = min len (n - offset)
                   in Some (file\<lparr>sf_body := [subarray (so_data entry) offset (offset + l)],
                        sf_range := Some \<lparr>sr_offset = offset, sr_length = l, sr_totalSize = n\<rparr>\<rparr>))))"

definition mem_head :: "string \<Rightarrow> memory_storage \<Rightarrow> object_head option" where
  "mem_head key st =
     map_option (\<lambda>entry. \<lparr>oh_size = int (length (so_data entry)),
       oh_contentEncoding = so_contentEncoding entry, oh_etag = Some (so_etag entry)\<rparr>) (map_of (ms_objects st) key)"

definition mem_deleteMany :: "string list \<Rightarrow> memory_storage \<Rightarrow> memory_storage" where
  "mem_deleteMany keys st = fold mem_release keys st"

definition mem_list ::
  "string \<Rightarrow> nat option \<Rightarrow> string option \<Rightarrow> memory_storage \<Rightarrow> string list \<times> string option" where
  "mem_list prefix' limit cursor st =
     (let n = (case limit of None \<Rightarrow> 1000 | Some l \<Rightarrow> l);
          matching = filter (\<lambda>key. case cursor of None \<Rightarrow> True | Some after \<Rightarrow> after < key)
            (sort (filter (starts_with prefix') (map fst (ms_objects st))));
          page = take n matching
      in (page, if n < length matching \<and> page \<noteq> [] then Some (last page) else None))"

definition memory_storage_port :: "(string \<Rightarrow> string) \<Rightarrow> memory_storage file_storage" where
  "memory_storage_port md5 = \<lparr>fs_put = mem_put md5, fs_get = mem_get, fs_head = mem_head,
     fs_delete = mem_release, fs_deleteMany = Some mem_deleteMany, fs_list = mem_list\<rparr>"

section \<open>The bucket-backed store\<close>

record r2_object =
  ro_body :: "string list"
  ro_size :: int
  ro_contentType :: "string option"
  ro_contentEncoding :: "string option"
  ro_httpEtag :: string
  ro_etag :: string

record r2_listing =
  rl_keys :: "string list"
  rl_truncated :: bool
  rl_cursor :: "string option"

text \<open>The bucket binding of the platform: what \<open>R2FileStorage\<close> calls.\<close>

record 's r2_bucket =
  rb_get :: "string \<Rightarrow> (int \<times> int) option \<Rightarrow> 's \<Rightarrow> r2_object option"
  rb_head :: "string \<Rightarrow> 's \<Rightarrow> r2_object option"
  rb_delete :: "string list \<Rightarrow> 's \<Rightarrow> 's"
  rb_list :: "string \<Rightarrow> nat \<Rightarrow> string option \<Rightarrow> 's \<Rightarrow> r2_listing"

definition r2_get :: "'s r2_bucket \<Rightarrow> string \<Rightarrow> (int \<times> int) option \<Rightarrow> 's \<Rightarrow> stored_file option" where
  "r2_get bucket key wanted s =
     (case rb_get bucket key wanted s of
        None \<Rightarrow> None
      | Some obj \<Rightarrow>
          Some \<lparr>sf_body = ro_body obj, sf_size = ro_size obj,
            sf_contentType = (case ro_contentType obj of None \<Rightarrow> ''application/octet-stream'' | Some t \<Rightarrow> t),
            sf_contentEncoding = ro_contentEncoding obj, sf_etag = Some (ro_httpEtag obj),
            sf_range = map_option (\<lambda>(offset, len).
              \<lparr>sr_offset = offset, sr_length = len, sr_totalSize = ro_size obj\<rparr>) wanted\<rparr>)"

definition r2_head :: "'s r2_bucket \<Rightarrow> string \<Rightarrow> 's \<Rightarrow> object_head option" where
  "r2_head bucket key s =
     map_option (\<lambda>obj. \<lparr>oh_size = ro_size obj, oh_contentEncoding = ro_contentEncoding obj,
       oh_etag = Some (ro_etag obj)\<rparr>) (rb_head bucket key s)"

function chunks_of :: "nat \<Rightarrow> 'a list \<Rightarrow> 'a list list" where
  \<comment> \<open>the slices of the loop \<open>for (i = 0; i < keys.length; i += CHUNK)\<close>\<close>
  "chunks_of n xs = (if xs = [] then [] else if n = 0 then [xs] else take n xs # chunks_of n (drop n xs))"
  by pat_completeness auto
termination
  by (relation "measure (\<lambda>(n, xs). length xs)") auto

declare chunks_of.simps [simp del]

definition r2_deleteMany :: "'s r2_bucket \<Rightarrow> string list \<Rightarrow> 's \<Rightarrow> 's" where
  "r2_deleteMany bucket keys s = fold (rb_delete bucket) (chunks_of 1000 keys) s"

definition r2_list :: "'s r2_bucket \<Rightarrow> string \<Rightarrow> nat option \<Rightarrow> string option \<Rightarrow> 's \<Rightarrow> string list \<times> string option" where
  "r2_list bucket prefix' limit cursor s =
     (let result = rb_list bucket prefix' (case limit of None \<Rightarrow> 1000 | Some l \<Rightarrow> l) cursor s
      in (rl_keys result, if rl_truncated result then rl_cursor result else None))"

lemma concat_chunks_of: "concat (chunks_of n xs) = xs"
  by (induction n xs rule: chunks_of.induct) (subst chunks_of.simps, auto)

lemma length_chunks_of: "0 < n \<Longrightarrow> c \<in> set (chunks_of n xs) \<Longrightarrow> c \<noteq> [] \<and> length c \<le> n"
proof (induction n xs rule: chunks_of.induct)
  case (1 n xs)
  then show ?case by (subst (asm) (2) chunks_of.simps) (auto split: if_splits)
qed

text \<open>
  The batch delete sends the bucket every key, in order, in calls of at most a thousand, which
  is the most the platform accepts.
\<close>

lemma r2_deleteMany_batches:
  "\<exists>batches. r2_deleteMany bucket keys s = fold (rb_delete bucket) batches s
     \<and> concat batches = keys \<and> list_all (\<lambda>b. length b \<le> 1000) batches"
proof (intro exI conjI)
  show "r2_deleteMany bucket keys s = fold (rb_delete bucket) (chunks_of 1000 keys) s"
    by (simp add: r2_deleteMany_def)
  show "concat (chunks_of 1000 keys) = keys" by (rule concat_chunks_of)
  show "list_all (\<lambda>b. length b \<le> 1000) (chunks_of 1000 keys)"
    using length_chunks_of[of 1000 _ keys] by (simp add: list_all_iff)
qed

section \<open>What the in-memory store keeps\<close>

lemma collect_chunks_Inr: "collect_chunks n out cs e = Inr data \<Longrightarrow> data = out @ concat cs \<and> int (length data) = n"
  by (induction n out cs e rule: collect_chunks.induct) (auto split: if_splits option.splits)

lemma collect_Inr: "collect body n = Inr data \<Longrightarrow> data = concat (ub_chunks body) \<and> int (length data) = n"
proof -
  assume "collect body n = Inr data"
  then have "collect_chunks n [] (ub_chunks body) (ub_error body) = Inr data"
    by (cases "n < 0") (simp_all add: collect_def)
  from collect_chunks_Inr[OF this, unfolded append_Nil] show ?thesis .
qed

definition stored_bytes :: "(string \<times> stored_object) list \<Rightarrow> int" where
  "stored_bytes objects = sum_list (map (\<lambda>(_, entry). int (length (so_data entry))) objects)"

lemma stored_bytes_simps [simp]:
  "stored_bytes [] = 0"
  "stored_bytes ((k, entry) # objects) = int (length (so_data entry)) + stored_bytes objects"
  by (simp_all add: stored_bytes_def)

lemma stored_bytes_nonneg: "0 \<le> stored_bytes objects"
  by (induction objects) (auto simp: split_beta stored_bytes_def)

lemma own_delete_absent: "k \<notin> fst ` set d \<Longrightarrow> own_delete d k = d"
  by (induction d) (auto simp: own_delete_def)

lemma own_set_absent: "k \<notin> fst ` set d \<Longrightarrow> own_set d k v = d @ [(k, v)]"
  by (induction d k v rule: own_set.induct) auto

lemma stored_bytes_append [simp]: "stored_bytes (xs @ ys) = stored_bytes xs + stored_bytes ys"
  by (simp add: stored_bytes_def)

lemma stored_bytes_delete:
  "distinct (map fst objects) \<Longrightarrow> map_of objects k = Some entry \<Longrightarrow>
     stored_bytes (own_delete objects k) = stored_bytes objects - int (length (so_data entry))"
proof (induction objects)
  case (Cons o' os)
  obtain j e where o: "o' = (j, e)" by fastforce
  show ?case
  proof (cases "j = k")
    case True
    then have "own_delete os k = os" using Cons.prems(1) o by (intro own_delete_absent) auto
    with True Cons.prems o show ?thesis by (simp add: own_delete_def)
  next
    case False
    then have "own_delete (o' # os) k = o' # own_delete os k" using o by (simp add: own_delete_def)
    with False Cons o show ?thesis by simp
  qed
qed simp

definition memory_ok :: "memory_storage \<Rightarrow> int list \<Rightarrow> bool" where
  \<comment> \<open>\<open>pending\<close>: the sizes of the uploads whose bodies are being read\<close>
  "memory_ok st pending \<longleftrightarrow> distinct (map fst (ms_objects st)) \<and> (\<forall>n \<in> set pending. 0 \<le> n)
     \<and> ms_usedBytes st = stored_bytes (ms_objects st) + sum_list pending
     \<and> ms_usedBytes st \<le> ms_capacityBytes st"

lemma memory_release_ok:
  assumes "memory_ok st pending"
  shows "memory_ok (mem_release key st) pending" and "key \<notin> fst ` set (ms_objects (mem_release key st))"
    and "ms_capacityBytes (mem_release key st) = ms_capacityBytes st"
    and "ms_usedBytes (mem_release key st) \<le> ms_usedBytes st"
proof -
  show "memory_ok (mem_release key st) pending"
    using assms stored_bytes_delete[of "ms_objects st" key]
    by (auto simp: mem_release_def memory_ok_def distinct_own_delete split: option.splits)
  show "key \<notin> fst ` set (ms_objects (mem_release key st))"
    by (auto simp: mem_release_def own_delete_def map_of_eq_None_iff split: option.splits)
qed (simp_all add: mem_release_def split: option.splits)

inductive storage_step :: "(string \<Rightarrow> string) \<Rightarrow> memory_storage \<times> int list \<Rightarrow> memory_storage \<times> int list \<Rightarrow> bool"
  for md5 :: "string \<Rightarrow> string" where
  reserve: "\<lbrakk>0 \<le> n; mem_reserve n st = Some st'\<rbrakk> \<Longrightarrow> storage_step md5 (st, pending) (st', n # pending)"
| commit: "\<lbrakk>n \<in> set pending; mem_commit md5 key body contentType n encoding st = (res, st')\<rbrakk>
    \<Longrightarrow> storage_step md5 (st, pending) (st', remove1 n pending)"
| delete: "storage_step md5 (st, pending) (mem_release key st, pending)"

inductive_cases storage_stepE: "storage_step md5 c c'"

lemma sum_list_remove1: "(n::int) \<in> set ns \<Longrightarrow> sum_list (remove1 n ns) = sum_list ns - n"
  by (induction ns) auto

lemma memory_commit_ok:
  assumes "memory_ok st pending" and "n \<in> set pending"
    and "mem_commit md5 key body contentType n encoding st = (res, st')"
  shows "memory_ok st' (remove1 n pending)"
proof -
  have sub: "\<forall>m \<in> set (remove1 n pending). 0 \<le> m" and n: "0 \<le> n"
    using assms(1,2) by (auto simp: memory_ok_def dest: notin_set_remove1)
  have sum: "sum_list (remove1 n pending) = sum_list pending - n" using assms(2) by (rule sum_list_remove1)
  show ?thesis
  proof (cases "collect body n")
    case (Inl e)
    with assms sub sum n show ?thesis by (auto simp: mem_commit_def memory_ok_def)
  next
    case (Inr data)
    have len: "int (length data) = n" by (rule conjunct2[OF collect_Inr[OF Inr]])
    let ?st = "mem_release key st"
    let ?entry = "\<lparr>so_data = data, so_contentType = contentType, so_contentEncoding = encoding,
      so_etag = [CHR 0x22] @ md5 data @ [CHR 0x22]\<rparr>"
    have "st' = ?st\<lparr>ms_objects := ms_objects ?st @ [(key, ?entry)]\<rparr>"
      using assms(3) Inr memory_release_ok(2)[OF assms(1)]
      by (auto simp: mem_commit_def Let_def own_set_absent)
    with memory_release_ok[OF assms(1), of key] sub sum len n show ?thesis
      by (auto simp: memory_ok_def)
  qed
qed

lemma storage_step_ok: "storage_step md5 (st, pending) (st', pending') \<Longrightarrow> memory_ok st pending \<Longrightarrow> memory_ok st' pending'"
  by (erule storage_stepE)
     (auto simp: mem_reserve_def intro: memory_release_ok memory_commit_ok,
      auto simp: memory_ok_def split: if_splits)

lemma storage_run_ok:
  assumes "(storage_step md5)\<^sup>*\<^sup>* c c'" and "memory_ok (fst c) (snd c)"
  shows "memory_ok (fst c') (snd c')"
  using assms by (induction rule: rtranclp_induct) (metis prod.collapse storage_step_ok)+

lemma storage_step_capacity: "storage_step md5 c c' \<Longrightarrow> ms_capacityBytes (fst c') = ms_capacityBytes (fst c)"
  by (cases c; cases c')
     (auto elim!: storage_stepE simp: mem_reserve_def mem_commit_def mem_release_def Let_def
       split: if_splits sum.splits option.splits)

lemma storage_run_capacity: "(storage_step md5)\<^sup>*\<^sup>* c c' \<Longrightarrow> ms_capacityBytes (fst c') = ms_capacityBytes (fst c)"
  by (induction rule: rtranclp_induct) (auto dest: storage_step_capacity)

text \<open>
  C35: The in-memory store never holds more than its capacity, however uploads, failed uploads
  and deletions interleave while bodies are being read, and its byte counter is always the bytes
  it holds plus the sizes the open uploads have reserved.
\<close>

theorem storage_never_over_capacity:
  assumes "(storage_step md5)\<^sup>*\<^sup>* (\<lparr>ms_objects = [], ms_usedBytes = 0, ms_capacityBytes = capacity\<rparr>, []) (st, pending)"
    and "0 \<le> capacity"
  shows "stored_bytes (ms_objects st) \<le> capacity
    \<and> ms_usedBytes st = stored_bytes (ms_objects st) + sum_list pending"
proof -
  let ?start = "\<lparr>ms_objects = [], ms_usedBytes = 0, ms_capacityBytes = capacity\<rparr>"
  have "memory_ok ?start []" using assms(2) by (simp add: memory_ok_def)
  with storage_run_ok[OF assms(1)] have ok: "memory_ok st pending" by simp
  have "ms_capacityBytes st = capacity" using storage_run_capacity[OF assms(1)] by simp
  moreover have "0 \<le> sum_list pending" using ok by (intro sum_list_nonneg) (simp add: memory_ok_def)
  ultimately show ?thesis using ok by (simp add: memory_ok_def)
qed

lemma storage_never_over_capacity_witness:
  "\<exists>st pending. (storage_step id)\<^sup>*\<^sup>* (\<lparr>ms_objects = [], ms_usedBytes = 0, ms_capacityBytes = 5\<rparr>, []) (st, pending)
     \<and> pending = [3] \<and> stored_bytes (ms_objects st) = 2 \<and> ms_usedBytes st = 2 + 3"
proof -
  let ?s0 = "\<lparr>ms_objects = [], ms_usedBytes = 0, ms_capacityBytes = 5\<rparr>"
  let ?s1 = "\<lparr>ms_objects = [], ms_usedBytes = 2, ms_capacityBytes = 5\<rparr>"
  let ?s2 = "\<lparr>ms_objects = [], ms_usedBytes = 5, ms_capacityBytes = 5\<rparr>"
  let ?body = "\<lparr>ub_chunks = [''a'', ''b''], ub_error = None\<rparr>"
  let ?s3 = "snd (mem_commit id ''k'' ?body ''t'' 2 None ?s2)"
  have 1: "storage_step id (?s0, []) (?s1, [2])"
    by (rule storage_step.reserve) (simp_all add: mem_reserve_def)
  have 2: "storage_step id (?s1, [2]) (?s2, [3, 2])"
    by (rule storage_step.reserve) (simp_all add: mem_reserve_def)
  have 3: "storage_step id (?s2, [3, 2]) (?s3, remove1 2 [3, 2])"
    by (rule storage_step.commit[where key = "''k''" and body = ?body and contentType = "''t''" and encoding = None
        and res = "fst (mem_commit id ''k'' ?body ''t'' 2 None ?s2)"]) simp_all
  have run: "(storage_step id)\<^sup>*\<^sup>* (?s0, []) (?s3, [3])"
    using 1 2 3 by (auto intro: converse_rtranclp_into_rtranclp)
  have "stored_bytes (ms_objects ?s3) = 2"
    by (simp add: mem_commit_def collect_def mem_release_def stored_bytes_def)
  with storage_never_over_capacity[OF run] run show ?thesis by (intro exI[of _ ?s3] exI[of _ "[3]"]) auto
qed

section \<open>Reading back\<close>

lemma subarray_inside:
  "0 \<le> b \<Longrightarrow> 0 \<le> e \<Longrightarrow> subarray data b e = take (nat e - nat b) (drop (nat b) data)"
  by (auto simp: subarray_def relative_index_def min_def)

lemma memory_get_after_commit:
  assumes "collect body n = Inr data"
  shows "mem_get key None (snd (mem_commit md5 key body contentType n encoding st)) =
    Some \<lparr>sf_body = [data], sf_size = int (length data), sf_contentType = contentType,
      sf_contentEncoding = encoding, sf_etag = Some ([CHR 0x22] @ md5 data @ [CHR 0x22]), sf_range = None\<rparr>"
  using assms by (simp add: mem_commit_def mem_get_def Let_def)

lemma memory_get_range:
  assumes "map_of (ms_objects st) key = Some entry" and "0 \<le> from" and "0 \<le> len"
  shows "\<exists>f r. mem_get key (Some (from, len)) st = Some f \<and> sf_range f = Some r
    \<and> concat (sf_body f) = take (nat len) (drop (nat from) (so_data entry))
    \<and> sr_length r = int (length (concat (sf_body f))) \<and> sr_totalSize r = int (length (so_data entry))"
proof -
  obtain a b where ab: "from = int a" "len = int b" using assms(2,3) nonneg_int_cases by metis
  show ?thesis
  proof (cases "a \<le> length (so_data entry)")
    case True
    define c where "c = min b (length (so_data entry) - a)"
    have c: "min len (int (length (so_data entry)) - from) = int c" "min from (int (length (so_data entry))) = int a"
      using True ab by (auto simp: c_def min_def)
    have "nat (int a + int c) - a = c" by simp
    moreover have "take c (drop a (so_data entry)) = take b (drop a (so_data entry))"
      by (simp add: c_def min_def)
    ultimately show ?thesis
      using assms(1) c ab True by (simp add: mem_get_def Let_def subarray_inside c_def min.commute)
  next
    case False
    then have "min from (int (length (so_data entry))) = int (length (so_data entry))" "drop a (so_data entry) = []"
      using ab by auto
    then show ?thesis using assms(1) ab by (simp add: mem_get_def Let_def subarray_inside)
  qed
qed

lemma memory_get_reversed_range:
  \<comment> \<open>a range that ends before it starts: no bytes, and a negative length\<close>
  "map_of (ms_objects st) key = Some entry \<Longrightarrow> 0 \<le> from \<Longrightarrow> from \<le> int (length (so_data entry)) \<Longrightarrow> len < 0 \<Longrightarrow>
     map_option (\<lambda>f. map_option sr_length (sf_range f)) (mem_get key (Some (from, len)) st) = Some (Some len)"
  by (simp add: mem_get_def Let_def)

end
