(* ===== verification/File_Headers.thy ===== *)
theory File_Headers
  imports File_Storage Access_Gate
begin

text \<open>
  The per-response decisions of file delivery: cache policy and entity tags
  (\<open>core/file/caching.ts\<close>), CORS by the proof a response was served on
  (\<open>core/file/cors.ts\<close>), which types the shared origin renders
  (\<open>core/file/disposition.ts\<close>), and the byte ranges cut out of a stream
  (\<open>core/file/stream.ts\<close>). Response headers are an association list with lower-case
  names, \<open>own_set\<close>, \<open>own_delete\<close> and \<open>map_of\<close> being \<open>Headers\<close>'s
  \<open>set\<close>, \<open>delete\<close> and \<open>get\<close>.
\<close>

type_synonym headers = "(string \<times> string) list"

section \<open>Caching\<close>

definition PINNED_CACHE_CONTROL :: string where "PINNED_CACHE_CONTROL = ''public, max-age=31536000, immutable''"
definition ENTRY_CACHE_CONTROL :: string where "ENTRY_CACHE_CONTROL = ''public, max-age=0, must-revalidate''"
definition DEFAULT_CACHE_CONTROL :: string where "DEFAULT_CACHE_CONTROL = ENTRY_CACHE_CONTROL"

definition media_type :: "string \<Rightarrow> string" where
  \<comment> \<open>\<open>contentType.split(";")[0].trim().toLowerCase()\<close>\<close>
  "media_type contentType = js_lower (js_trim (hd (split_on (CHR '';'') contentType)))"

definition privateForm :: "string \<Rightarrow> string" where
  "privateForm v = (if starts_with ''public, '' v then ''private, '' @ drop (length ''public, '') v else v)"

definition isEntryDocument :: "string \<Rightarrow> bool" where
  "isEntryDocument contentType \<longleftrightarrow> media_type contentType = ''text/html'' \<or> media_type contentType = ''application/xhtml+xml''"

definition cacheControlFor :: "bool \<Rightarrow> string \<Rightarrow> bool \<Rightarrow> string" where
  "cacheControlFor pinned contentType isProtected =
     (let base = (if pinned then PINNED_CACHE_CONTROL
                  else if isEntryDocument contentType then ENTRY_CACHE_CONTROL
                  else DEFAULT_CACHE_CONTROL)
      in if isProtected then privateForm base else base)"

definition representationEtag :: "string option \<Rightarrow> bool \<Rightarrow> string option" where
  "representationEtag storedEtag transformed =
     (if \<not> truthy storedEtag then None
      else let tag = the storedEtag;
               quoted' = (if starts_with [CHR 0x22] tag \<or> starts_with (''W/'' @ [CHR 0x22]) tag then tag
                          else [CHR 0x22] @ tag @ [CHR 0x22])
           in Some (if \<not> transformed then quoted'
                    else if starts_with ''W/'' quoted' then quoted' else ''W/'' @ quoted'))"

definition stripWeak :: "string \<Rightarrow> string" where
  "stripWeak tag = (if starts_with ''W/'' tag then drop 2 tag else tag)"

definition etagMatches :: "string option \<Rightarrow> string \<Rightarrow> bool" where
  "etagMatches ifNoneMatch etag =
     (if \<not> truthy ifNoneMatch then False
      else if js_trim (the ifNoneMatch) = ''*'' then True
      else let wanted = stripWeak etag
           in list_ex (\<lambda>tag. tag = wanted)
                (map (\<lambda>tag. stripWeak (js_trim tag)) (split_on (CHR '','') (the ifNoneMatch))))"

section \<open>CORS\<close>

record cors_policy =
  cp_proof :: "access_proof option"
    \<comment> \<open>\<open>None\<close>: a preflight or a refusal\<close>
  cp_origin :: "string option"
  cp_trustedOrigins :: "string list"

definition PREFLIGHT_METHODS :: string where "PREFLIGHT_METHODS = ''GET, HEAD, OPTIONS''"
definition PREFLIGHT_HEADERS :: string where "PREFLIGHT_HEADERS = ''range, if-none-match, if-modified-since, authorization''"
definition PREFLIGHT_MAX_AGE :: string where "PREFLIGHT_MAX_AGE = ''86400''"

definition credentialed :: "cors_policy \<Rightarrow> bool" where
  "credentialed policy =
     (if cp_proof policy \<noteq> None \<and> cp_proof policy \<noteq> Some CookieProof then False
      else (case cp_origin policy of
              None \<Rightarrow> False
            | Some origin \<Rightarrow> origin \<noteq> ''null'' \<and> origin \<in> set (cp_trustedOrigins policy)))"

definition vary_values :: "string option \<Rightarrow> string list" where
  "vary_values v =
     filter (\<lambda>w. w \<noteq> []) (map js_trim (split_on (CHR '','') (case v of None \<Rightarrow> [] | Some t \<Rightarrow> t)))"

fun merge_vary :: "string list \<Rightarrow> string list \<Rightarrow> string list \<Rightarrow> string list" where
  \<comment> \<open>the loop over the added values: \<open>present\<close> in lower case, \<open>merged\<close> as written\<close>
  "merge_vary present merged [] = merged"
| "merge_vary present merged (v # vs) =
     (if js_lower v \<in> set present then merge_vary present merged vs
      else merge_vary (js_lower v # present) (merged @ [v]) vs)"

definition addVary :: "string list \<Rightarrow> headers \<Rightarrow> headers" where
  "addVary vs headers =
     (let merged0 = vary_values (map_of headers ''vary'');
          merged = merge_vary (map js_lower merged0) merged0 vs
      in if merged \<noteq> [] then own_set headers ''vary'' (join_with '', '' merged) else headers)"

definition applyCors :: "cors_policy \<Rightarrow> headers \<Rightarrow> headers" where
  "applyCors policy headers =
     (let h1 = (if cp_proof policy \<noteq> Some NoProof then addVary [''Origin''] headers else headers);
          h2 = (if cp_proof policy = Some CookieProof
                then own_set h1 ''cross-origin-resource-policy'' ''same-origin'' else h1)
      in if credentialed policy
         then own_set (own_set h2 ''access-control-allow-origin'' (the (cp_origin policy)))
                ''access-control-allow-credentials'' ''true''
         else own_delete (own_set h2 ''access-control-allow-origin'' ''*'') ''access-control-allow-credentials'')"

definition preflight_headers :: "string option \<Rightarrow> string list \<Rightarrow> headers" where
  "preflight_headers origin trusted =
     applyCors \<lparr>cp_proof = None, cp_origin = origin, cp_trustedOrigins = trusted\<rparr>
       [(''access-control-allow-methods'', PREFLIGHT_METHODS), (''access-control-allow-headers'', PREFLIGHT_HEADERS),
        (''access-control-max-age'', PREFLIGHT_MAX_AGE)]"

fun parse_origins :: "(string \<Rightarrow> string option) \<Rightarrow> string list \<Rightarrow> string + string list" where
  \<comment> \<open>\<open>url_origin s\<close> is \<open>new URL(s).origin\<close>, \<open>None\<close> when the constructor throws\<close>
  "parse_origins url_origin [] = Inr []"
| "parse_origins url_origin (entry # entries) =
     (let origin = (if CHR ''*'' \<in> set entry \<or> entry = ''null'' then None else url_origin entry)
      in if origin \<noteq> Some entry \<or> entry = []
         then Inl (''CREDENTIALED_ORIGINS entry '' @ [CHR 0x22] @ entry @ [CHR 0x22] @
                   '' is not an exact origin (scheme://host[:port], lowercase, no path, wildcard or null)'')
         else map_sum id ((#) entry) (parse_origins url_origin entries))"

definition parseCredentialedOrigins :: "(string \<Rightarrow> string option) \<Rightarrow> string option \<Rightarrow> string + string list" where
  "parseCredentialedOrigins url_origin v = parse_origins url_origin (vary_values v)"

section \<open>Disposition\<close>

definition INLINE_TYPES :: "string list" where
  "INLINE_TYPES =
     [''image/png'', ''image/jpeg'', ''image/gif'', ''image/webp'', ''image/avif'', ''text/plain'', ''text/csv'',
      ''application/json'', ''application/geo+json'', ''model/gltf+json'', ''model/gltf-binary'',
      ''application/octet-stream'', ''application/x-protobuf'', ''application/vnd.mapbox-vector-tile'',
      ''video/mp4'', ''video/webm'', ''audio/mpeg'', ''audio/ogg'']"

definition isInlineType :: "string \<Rightarrow> bool" where
  "isInlineType contentType \<longleftrightarrow> media_type contentType \<in> set INLINE_TYPES"

definition uri_unreserved :: "char \<Rightarrow> bool" where
  "uri_unreserved c = (is_lower c \<or> is_upper c \<or> is_digit c \<or> c \<in> set ''-_.!~*()'' \<or> c = CHR 0x27)"

definition upper_hex_digit :: "nat \<Rightarrow> char" where
  "upper_hex_digit n = (if n < 10 then char_of (48 + n) else char_of (55 + n))"

definition percent_byte :: "char \<Rightarrow> string" where
  "percent_byte b = [CHR ''%'', upper_hex_digit (code_unit b div 16), upper_hex_digit (code_unit b mod 16)]"

definition encodeURIComponent :: "string \<Rightarrow> string" where
  "encodeURIComponent s =
     concat (map (\<lambda>c. if uri_unreserved c then [c] else concat (map percent_byte (utf8_char c))) s)"

definition dispositionHeaders :: "string \<Rightarrow> string \<Rightarrow> bool \<Rightarrow> headers" where
  "dispositionHeaders contentType displayName siteHost =
     (let inline = siteHost \<or> isInlineType contentType
      in (''content-disposition'', (if inline then ''inline'' else ''attachment'') @ ''; filename='' @
            [CHR 0x22] @ encodeURIComponent displayName @ [CHR 0x22]) #
         (if \<not> inline then [(''content-security-policy'', ''sandbox'')] else []))"

section \<open>Ranges of a stream\<close>

text \<open>
  What a consumer of a body sees: the chunks and then the end, or the chunks and then nothing
  ever more.
\<close>

datatype stream = Ends (chunks: "string list") | Stalls (chunks: "string list")

abbreviation streamed :: "stream \<Rightarrow> string" where "streamed s \<equiv> concat (chunks s)"

definition MAX_SAFE_INTEGER :: int where "MAX_SAFE_INTEGER = 9007199254740991"

definition decimal :: "string \<Rightarrow> int" where
  \<comment> \<open>\<open>parseInt\<close> of a run of digits, below the range where numbers stop being exact\<close>
  "decimal ds = foldl (\<lambda>n d. 10 * n + (int (code_unit d) - 48)) 0 ds"

definition parseRange :: "string option \<Rightarrow> (int \<times> int) option" where
  \<comment> \<open>\<open>/^bytes=(\d+)-(\d*)$/\<close>\<close>
  "parseRange h =
     (case h of
        None \<Rightarrow> None
      | Some t \<Rightarrow>
          if \<not> starts_with ''bytes='' t then None
          else let spec = drop 6 t; first = takeWhile is_digit spec; rest = dropWhile is_digit spec
               in (case rest of
                     [] \<Rightarrow> None
                   | c # lastText \<Rightarrow>
                       if first = [] \<or> c \<noteq> CHR ''-'' \<or> \<not> list_all is_digit lastText then None
                       else if lastText = [] then Some (decimal first, MAX_SAFE_INTEGER)
                       else Some (decimal first, decimal lastText - decimal first + 1)))"

fun slice_loop :: "int \<Rightarrow> int \<Rightarrow> int \<Rightarrow> int \<Rightarrow> string list \<Rightarrow> stream" where
  \<comment> \<open>the \<open>pull\<close> of \<open>sliceStream\<close> on the chunks the source has left\<close>
  "slice_loop offset actualLength skipped sent [] =
     (if \<not> sent < actualLength then Stalls [] else Ends [])"
| "slice_loop offset actualLength skipped sent (chunk # rest) =
     (if \<not> sent < actualLength then Stalls []
      else let chunkEnd = skipped + int (length chunk)
           in if chunkEnd \<le> offset then slice_loop offset actualLength chunkEnd sent rest
              else let sliceStart = max 0 (offset - skipped);
                       remaining = actualLength - sent;
                       sliceEnd = min (int (length chunk)) (sliceStart + remaining);
                       slice = subarray chunk sliceStart sliceEnd;
                       sent' = sent + int (length slice)
                   in if sent' \<ge> actualLength then Ends [slice]
                      else (case slice_loop offset actualLength chunkEnd sent' rest of
                              Ends cs \<Rightarrow> Ends (slice # cs) | Stalls cs \<Rightarrow> Stalls (slice # cs)))"

definition sliceStream :: "string list \<Rightarrow> int \<Rightarrow> int \<Rightarrow> int option \<Rightarrow> stream" where
  "sliceStream source offset len totalSize =
     (let actualLength = (case totalSize of None \<Rightarrow> len | Some t \<Rightarrow> if t = 0 then len else min len (t - offset))
      in slice_loop offset actualLength 0 0 source)"

section \<open>What the headers guarantee\<close>

lemma map_of_own_set_other: "n \<noteq> m \<Longrightarrow> map_of (own_set d n v) m = map_of d m"
  by simp

lemma addVary_other [simp]: "n \<noteq> ''vary'' \<Longrightarrow> map_of (addVary vs h) n = map_of h n"
  by (simp add: addVary_def Let_def)

lemma merge_vary_has: "set merged \<subseteq> set (merge_vary present merged vs)"
proof (induction present merged vs rule: merge_vary.induct)
  case (2 present merged v vs)
  then show ?case by (auto simp: subset_iff)
qed simp

lemma merge_vary_added:
  "set present = js_lower ` set merged \<Longrightarrow> v \<in> set vs \<Longrightarrow>
     js_lower v \<in> js_lower ` set (merge_vary present merged vs)"
proof (induction present merged vs rule: merge_vary.induct)
  case (2 present merged w vs)
  show ?case
  proof (cases "js_lower w \<in> set present")
    case True
    with 2 merge_vary_has[of merged present vs] show ?thesis by (auto simp: subset_iff)
  next
    case False
    with 2 merge_vary_has[of "merged @ [w]" "js_lower w # present" vs] show ?thesis
      by (cases "v = w") (auto simp: subset_iff)
  qed
qed simp

lemma applyCors_credentials:
  "map_of (applyCors policy h) ''access-control-allow-credentials'' =
     (if credentialed policy then Some ''true'' else None)"
  by (simp add: applyCors_def Let_def)

lemma applyCors_origin:
  "map_of (applyCors policy h) ''access-control-allow-origin'' =
     Some (if credentialed policy then the (cp_origin policy) else ''*'')"
  by (simp add: applyCors_def Let_def)

lemma applyCors_other:
  "n \<noteq> ''access-control-allow-origin'' \<Longrightarrow> n \<noteq> ''access-control-allow-credentials''
   \<Longrightarrow> n \<noteq> ''cross-origin-resource-policy'' \<Longrightarrow> n \<noteq> ''vary''
   \<Longrightarrow> map_of (applyCors policy h) n = map_of h n"
  by (simp add: applyCors_def Let_def)

text \<open>
  The browser is told that it may read with credentials exactly when the response was served
  on a cookie (or on nothing yet) to an origin that is trusted by name; only then is the
  requesting origin echoed, every other response says \<open>*\<close> without credentials. So a page of
  an untrusted origin, or of an opaque one, never reads a protected file with the visitor's cookie.
\<close>

theorem credentialed_cors_only_trusted:
  "(map_of (applyCors policy h) ''access-control-allow-credentials'' = Some ''true'' \<longleftrightarrow>
      cp_proof policy \<in> {None, Some CookieProof}
      \<and> (\<exists>origin \<in> set (cp_trustedOrigins policy). cp_origin policy = Some origin \<and> origin \<noteq> ''null''))
   \<and> (map_of (applyCors policy h) ''access-control-allow-origin'' =
        (if map_of (applyCors policy h) ''access-control-allow-credentials'' = Some ''true''
         then cp_origin policy else Some ''*''))"
  by (auto simp: applyCors_credentials applyCors_origin credentialed_def split: option.splits if_splits)

lemma representationEtag_Some:
  "truthy tag \<Longrightarrow> \<exists>e. representationEtag tag t = Some e \<and> e \<noteq> []"
  by (cases tag) (auto simp: representationEtag_def Let_def truthy_def starts_with_def)

lemma cacheControlFor_protected: "starts_with ''private, '' (cacheControlFor pinned contentType True)"
  by (simp add: cacheControlFor_def Let_def privateForm_def PINNED_CACHE_CONTROL_def ENTRY_CACHE_CONTROL_def
      DEFAULT_CACHE_CONTROL_def starts_with_def)

lemma cacheControlFor_immutable:
  "contains_text ''immutable'' (cacheControlFor pinned contentType prot) \<longleftrightarrow> pinned"
  by (simp add: cacheControlFor_def Let_def privateForm_def PINNED_CACHE_CONTROL_def ENTRY_CACHE_CONTROL_def
      DEFAULT_CACHE_CONTROL_def starts_with_def)

text \<open>What \<open>encodeURIComponent\<close> leaves cannot end the quoted file name or the header.\<close>

lemma upper_hex_digit_unreserved: "n < 16 \<Longrightarrow> uri_unreserved (upper_hex_digit n)"
  by (simp add: upper_hex_digit_def uri_unreserved_def is_digit_def is_upper_def)

lemma encodeURIComponent_chars: "c \<in> set (encodeURIComponent s) \<Longrightarrow> c = CHR ''%'' \<or> uri_unreserved c"
proof -
  have "code_unit b div 16 < 16" for b :: char
    using code_unit_less[of b] by linarith
  then show "c \<in> set (encodeURIComponent s) \<Longrightarrow> ?thesis"
    by (auto simp: encodeURIComponent_def percent_byte_def upper_hex_digit_unreserved split: if_splits)
qed

lemma disposition_name_safe:
  "CHR 0x22 \<notin> set (encodeURIComponent s) \<and> CHR 0x0D \<notin> set (encodeURIComponent s) \<and> CHR 0x0A \<notin> set (encodeURIComponent s)"
proof -
  have "\<not> uri_unreserved (CHR 0x22)" "\<not> uri_unreserved (CHR 0x0D)" "\<not> uri_unreserved (CHR 0x0A)" by code_simp+
  with encodeURIComponent_chars show ?thesis by blast
qed

section \<open>What a range delivers\<close>

lemma slice_loop_spec:
  assumes "sent < actualLength"
  shows "slice_loop offset actualLength skipped sent source =
    Ends (chunks (slice_loop offset actualLength skipped sent source))
   \<and> streamed (slice_loop offset actualLength skipped sent source) =
      take (nat (actualLength - sent)) (drop (nat (offset - skipped)) (concat source))"
  using assms
proof (induction offset actualLength skipped sent source rule: slice_loop.induct)
  case (1 offset actualLength skipped sent)
  then show ?case by simp
next
  case (2 offset actualLength skipped sent chunk rest)
  define chunkEnd where "chunkEnd = skipped + int (length chunk)"
  show ?case
  proof (cases "chunkEnd \<le> offset")
    case True
    have "drop (nat (offset - skipped)) (chunk @ concat rest) = drop (nat (offset - chunkEnd)) (concat rest)"
    proof -
      have "nat (offset - skipped) = length chunk + nat (offset - chunkEnd)"
        using True by (simp add: chunkEnd_def)
      then show ?thesis by simp
    qed
    with True 2 show ?thesis by (simp add: chunkEnd_def)
  next
    case False
    define s where "s = nat (offset - skipped)"
    define r where "r = nat (actualLength - sent)"
    have s: "max 0 (offset - skipped) = int s" and r: "actualLength - sent = int r" "0 < r"
      using "2.prems" by (auto simp: s_def r_def)
    have le: "s \<le> length chunk" using False by (auto simp: s_def chunkEnd_def)
    define slice where "slice = take r (drop s chunk)"
    have sl: "subarray chunk (int s) (min (int (length chunk)) (int s + int r)) = slice"
      using le by (simp add: subarray_inside slice_def min_def nat_add_distrib)
    have rest: "take r (drop s (chunk @ concat rest)) = slice @ take (r - length slice) (concat rest)"
      using le by (simp add: slice_def) (rule arg_cong2[where f = take], auto simp: min_def)
    have zero: "nat (offset - chunkEnd) = 0" using False by simp
    show ?thesis
    proof (cases "length slice = r")
      case True
      then have "sent + int (length slice) \<ge> actualLength" using r by simp
      with True False sl s r rest "2.prems" show ?thesis
        by (simp add: chunkEnd_def[symmetric] Let_def s_def[symmetric] r_def[symmetric])
    next
      case False': False
      then have lt: "sent + int (length slice) < actualLength" using r by (auto simp: slice_def)
      have ih: "slice_loop offset actualLength chunkEnd (sent + int (length slice)) rest =
          Ends (chunks (slice_loop offset actualLength chunkEnd (sent + int (length slice)) rest))
        \<and> streamed (slice_loop offset actualLength chunkEnd (sent + int (length slice)) rest) =
            take (nat (actualLength - (sent + int (length slice)))) (concat rest)"
        using "2.IH"(2)[of chunkEnd "int s" "int r" "min (int (length chunk)) (int s + int r)" slice "sent + int (length slice)"]
          lt False sl s r "2.prems" zero by (simp add: chunkEnd_def)
      obtain cs where cs: "slice_loop offset actualLength chunkEnd (sent + int (length slice)) rest = Ends cs"
        using ih by blast
      have "nat (actualLength - (sent + int (length slice))) = r - length slice" using r by simp
      with cs ih lt False sl s r rest "2.prems" show ?thesis
        by (simp add: chunkEnd_def[symmetric] Let_def s_def[symmetric] r_def[symmetric])
    qed
  qed
qed

text \<open>
  A range cut out of a decoded stream is exactly the requested part of the bytes, however
  the source is chunked, and the stream ends: for a range that starts inside the file the
  body is the bytes from the offset on, at most as many as asked for and as there are.
\<close>

theorem sliceStream_correct:
  assumes "0 \<le> offset" and "0 < len"
    and "totalSize = Some (int (length (concat source)))" and "offset < int (length (concat source))"
  shows "sliceStream source offset len totalSize = Ends (chunks (sliceStream source offset len totalSize))
    \<and> streamed (sliceStream source offset len totalSize) = take (nat len) (drop (nat offset) (concat source))"
proof -
  let ?t = "int (length (concat source))"
  have pos: "0 < min len (?t - offset)" using assms by simp
  have "?t \<noteq> 0" using assms(1,4) by linarith
  then have s: "sliceStream source offset len totalSize = slice_loop offset (min len (?t - offset)) 0 0 source"
    unfolding sliceStream_def assms(3) by (simp only: option.case if_False Let_def)
  have "take (nat (min len (?t - offset))) (drop (nat offset) (concat source)) =
      take (nat len) (drop (nat offset) (concat source))"
  proof (cases "len \<le> ?t - offset")
    case False
    then have m: "min len (?t - offset) = ?t - offset" by simp
    have l: "length (drop (nat offset) (concat source)) = nat (?t - offset)"
      unfolding length_drop using assms(1) by linarith
    show ?thesis unfolding m using l False by (metis (no_types, lifting) nat_mono linear order.trans take_all)
  qed simp
  then show ?thesis using slice_loop_spec[OF pos, of offset 0 source] unfolding s by simp
qed

lemma sliceStream_stalls:
  \<comment> \<open>a range that starts at the end of a file of known size, or ends before it starts, never ends\<close>
  assumes "len \<le> 0 \<or> (totalSize = Some t \<and> 0 < t \<and> t \<le> offset)"
  shows "sliceStream source offset len totalSize = Stalls []"
proof -
  have "slice_loop offset n 0 0 source = Stalls []" if "n \<le> 0" for n
    using that by (cases source) simp_all
  then show ?thesis using assms by (auto simp: sliceStream_def Let_def split: option.splits)
qed

lemma sliceStream_correct_witness:
  "sliceStream [''ab'', [], ''cde''] 1 3 (Some 5) = Ends [''b'', [], ''cd'']
   \<and> streamed (sliceStream [''ab'', [], ''cde''] 1 3 (Some 5)) = ''bcd''"
proof -
  have "sliceStream [''ab'', [], ''cde''] 1 3 (Some 5) = Ends [''b'', [], ''cd'']" by code_simp
  then show ?thesis using sliceStream_correct[of 1 3 "Some 5" "[''ab'', [], ''cde'']"] by simp
qed

end
