(* ===== verification/File_Delivery.thy ===== *)
theory File_Delivery
  imports File_Headers
begin

text \<open>
  The file routes (\<open>core/file/handler.ts\<close>) with the per-request half of the site rules
  (\<open>core/file/site-routing.ts\<close>, \<open>hostingFor\<close> of \<open>core/site/hosting.ts\<close>) and the
  lookup of an asset by its own or a version's id (\<open>core/asset/usecase/resolve-version.ts\<close>).
  \<open>serveRoute\<close> composes the access check of \<open>Access_Gate\<close>, the tables of
  \<open>Asset_Store\<close> and an object store. A response body is a \<open>stream\<close>. The router's
  parameters (\<open>id\<close>, \<open>path\<close>, the \<open>thumb\<close> query) and the parsed \<open>BASE_URL\<close> are
  inputs, \<open>DecompressionStream\<close> is the parameter \<open>de_gunzip\<close>.
\<close>

section \<open>Names in storage\<close>

definition storageKey :: "string \<Rightarrow> string \<Rightarrow> string" where
  "storageKey id' filename = ''assets/'' @ id' @ ''/'' @ filename"

definition versionStorageKey :: "string \<Rightarrow> string \<Rightarrow> string \<Rightarrow> string" where
  "versionStorageKey assetId versionId filename = ''assets/'' @ assetId @ ''/v/'' @ versionId @ ''/'' @ filename"

definition versionThumbKey :: "string \<Rightarrow> string \<Rightarrow> string \<Rightarrow> string" where
  "versionThumbKey assetId versionId filename = ''assets/'' @ assetId @ ''/v/'' @ versionId @ ''/_thumbs/'' @ filename"

definition legacyThumbKey :: "string \<Rightarrow> string \<Rightarrow> string" where
  "legacyThumbKey assetId filename = ''assets/'' @ assetId @ ''/_thumbs/'' @ filename"

section \<open>Which asset, which version\<close>

definition resolveAssetVersion :: "database \<Rightarrow> string \<Rightarrow> (asset \<times> version option) option" where
  "resolveAssetVersion db id' =
     (case asset_find id' db of
        Some asset \<Rightarrow>
          (let version0 = (if truthy (a_activeVersionId asset) then version_find (the (a_activeVersionId asset)) db else None);
               version = (case version0 of None \<Rightarrow> version_findLatest id' db | Some v \<Rightarrow> Some v)
           in Some (asset, version))
      | None \<Rightarrow>
          (case version_find id' db of
             None \<Rightarrow> None
           | Some version \<Rightarrow>
               (case asset_find (v_assetId version) db of
                  None \<Rightarrow> None | Some parentAsset \<Rightarrow> Some (parentAsset, Some version))))"

section \<open>Site rules on a request\<close>

definition hostingFor :: "asset \<Rightarrow> version option \<Rightarrow> site_hosting option" where
  "hostingFor asset version =
     (case Option.bind version v_hosting of Some h \<Rightarrow> Some h | None \<Rightarrow> a_hosting asset)"

definition HEADERS_FILE :: string where "HEADERS_FILE = ''_headers''"
definition REDIRECTS_FILE :: string where "REDIRECTS_FILE = ''_redirects''"

definition isControlFile :: "string \<Rightarrow> bool" where
  "isControlFile filePath \<longleftrightarrow> filePath = HEADERS_FILE \<or> filePath = REDIRECTS_FILE"

definition rulePath :: "string \<Rightarrow> string" where
  "rulePath filePath = ''/'' @ filePath"

definition targetFilePath :: "string \<Rightarrow> string" where
  "targetFilePath to = (if starts_with ''/'' to then drop 1 to else to)"

datatype rule_phase = ForcePhase | FallbackPhase

definition siteRedirect :: "site_hosting \<Rightarrow> string \<Rightarrow> rule_phase \<Rightarrow> redirect_match option" where
  "siteRedirect hosting filePath phase =
     (let rules = filter (\<lambda>r. rr_force r = (phase = ForcePhase)) (sh_redirects hosting)
      in if rules = [] then None else matchRedirect rules (rulePath filePath))"

record delivered =
  dv_status :: nat
  dv_headers :: headers
  dv_body :: stream

definition siteRedirectResponse :: "redirect_match \<Rightarrow> string \<Rightarrow> string \<Rightarrow> bool \<Rightarrow> delivered" where
  "siteRedirectResponse m assetId search isProtected =
     (let location = ''/files/'' @ assetId @ rm_to m @ search;
          cacheControl = (if isProtected \<or> rm_status m = 302 \<or> rm_status m = 307 then ''no-store'' else ENTRY_CACHE_CONTROL)
      in \<lparr>dv_status = rm_status m, dv_headers = [(''location'', location), (''cache-control'', cacheControl)], dv_body = Ends []\<rparr>)"

definition site_header :: "bool \<Rightarrow> string \<times> string \<Rightarrow> headers \<Rightarrow> headers" where
  "site_header siteHost h headers =
     (case h of (name, v) \<Rightarrow>
        if isDeniedHeader name then headers
        else if \<not> siteHost \<and> name = ''content-security-policy'' then headers
        else own_set headers name v)"

definition applySiteHeaders :: "delivered \<Rightarrow> site_hosting option \<Rightarrow> string \<Rightarrow> bool \<Rightarrow> delivered" where
  "applySiteHeaders res hosting filePath siteHost =
     (case hosting of
        None \<Rightarrow> res
      | Some h \<Rightarrow>
          if sh_headers h = [] then res
          else res\<lparr>dv_headers := fold (site_header siteHost) (matchHeaders (sh_headers h) (rulePath filePath)) (dv_headers res)\<rparr>)"

section \<open>Thumbnails\<close>

definition THUMBNAIL_SIZES :: "string list" where "THUMBNAIL_SIZES = [''xs'', ''sm'', ''md'', ''lg'']"
definition THUMBNAIL_CONTENT_TYPE :: string where "THUMBNAIL_CONTENT_TYPE = ''image/webp''"

definition isThumbnailSize :: "string \<Rightarrow> bool" where
  "isThumbnailSize v \<longleftrightarrow> v \<in> set THUMBNAIL_SIZES"

definition thumbnailFilename :: "string \<Rightarrow> string" where
  "thumbnailFilename sz = sz @ ''.webp''"

datatype thumb_request = NoThumb | InvalidThumb | Thumb string

definition detectThumbRequest :: "string \<Rightarrow> string option \<Rightarrow> thumb_request" where
  \<comment> \<open>the path form is \<open>/^_thumbs\/([^/]+)\.webp$/\<close>\<close>
  "detectThumbRequest filePath query =
     (case query of
        Some q \<Rightarrow> if isThumbnailSize q then Thumb q else InvalidThumb
      | None \<Rightarrow>
          if starts_with ''_thumbs/'' filePath \<and> ends_with ''.webp'' (drop 8 filePath)
          then (let name = take (length filePath - 13) (drop 8 filePath)
                in if name = [] \<or> CHR ''/'' \<in> set name then NoThumb
                   else if isThumbnailSize name then Thumb name else InvalidThumb)
          else NoThumb)"

definition json_reply :: "nat \<Rightarrow> string \<Rightarrow> delivered" where
  \<comment> \<open>\<open>c.json({ error: message }, status)\<close>\<close>
  "json_reply status message =
     \<lparr>dv_status = status, dv_headers = [(''content-type'', ''application/json'')], dv_body = Ends [error_json message]\<rparr>"

definition serveThumbnail ::
  "'s file_storage \<Rightarrow> 's \<Rightarrow> string \<Rightarrow> string option \<Rightarrow> string \<Rightarrow> bool \<Rightarrow> delivered" where
  "serveThumbnail fs objs assetId versionId sz isProtected =
     (let filename = thumbnailFilename sz;
          key = (case versionId of Some v \<Rightarrow> versionThumbKey assetId v filename | None \<Rightarrow> legacyThumbKey assetId filename);
          scope = (if isProtected then ''private'' else ''public'')
      in case fs_get fs key None objs of
           None \<Rightarrow> \<lparr>dv_status = 404, dv_headers = [(''content-type'', ''application/json''),
                     (''cache-control'', scope @ '', max-age=30'')], dv_body = Ends [error_json ''Thumbnail not available'']\<rparr>
         | Some file \<Rightarrow> \<lparr>dv_status = 200, dv_headers = [(''content-type'', THUMBNAIL_CONTENT_TYPE),
                     (''content-length'', show_int (sf_size file)),
                     (''cache-control'', scope @ '', max-age=31536000, immutable'')], dv_body = Ends (sf_body file)\<rparr>)"

section \<open>From a path to an object\<close>

record layout =
  ly_archive :: bool
  ly_filename :: string
  ly_mainKey :: string
  ly_entryKey :: "string \<Rightarrow> string"
  ly_contentType :: string
  ly_contentEncoding :: "string option"
  ly_originalSize :: "int option"

definition versionedLayout :: "asset \<Rightarrow> version \<Rightarrow> layout" where
  "versionedLayout asset version =
     (let prefix' = ''assets/'' @ a_id asset @ ''/v/'' @ v_id version
      in \<lparr>ly_archive = (v_type version = Some TypeArchive), ly_filename = v_filename version,
          ly_mainKey = prefix' @ ''/'' @ v_filename version,
          ly_entryKey = (\<lambda>path. prefix' @ ''/files/'' @ path), ly_contentType = v_contentType version,
          ly_contentEncoding = v_contentEncoding version, ly_originalSize = v_originalSize version\<rparr>)"

definition legacyLayout :: "asset \<Rightarrow> layout" where
  "legacyLayout asset =
     (let prefix' = ''assets/'' @ a_id asset
      in \<lparr>ly_archive = (a_type asset = Some TypeArchive), ly_filename = a_filename asset,
          ly_mainKey = prefix' @ ''/'' @ a_filename asset,
          ly_entryKey = (\<lambda>path. prefix' @ ''/files/'' @ path), ly_contentType = a_contentType asset,
          ly_contentEncoding = a_contentEncoding asset, ly_originalSize = a_originalSize asset\<rparr>)"

record located =
  lc_key :: string
  lc_file :: stored_file
  lc_contentType :: string
  lc_contentEncoding :: "string option"
  lc_displayName :: string
  lc_originalSize :: "int option"

definition INDEX_FILE :: string where "INDEX_FILE = ''index.html''"
definition NOT_FOUND_FILE :: string where "NOT_FOUND_FILE = ''404.html''"

definition locate_main :: "'s file_storage \<Rightarrow> 's \<Rightarrow> layout \<Rightarrow> located option" where
  "locate_main fs objs layout =
     map_option (\<lambda>file. \<lparr>lc_key = ly_mainKey layout, lc_file = file, lc_contentType = ly_contentType layout,
       lc_contentEncoding = ly_contentEncoding layout, lc_displayName = ly_filename layout,
       lc_originalSize = ly_originalSize layout\<rparr>) (fs_get fs (ly_mainKey layout) None objs)"

definition locate :: "'s file_storage \<Rightarrow> 's \<Rightarrow> layout \<Rightarrow> string \<Rightarrow> located option" where
  "locate fs objs layout filePath =
     (let wantsDirectory = (filePath = [] \<or> ends_with ''/'' filePath)
      in if \<not> ly_archive layout then locate_main fs objs layout
         else if \<not> wantsDirectory \<and> filePath = ly_filename layout then locate_main fs objs layout
         else let entryPath = (if wantsDirectory then filePath @ INDEX_FILE else filePath);
                  key = ly_entryKey layout entryPath;
                  name = last (split_on (CHR ''/'') entryPath)
              in map_option (\<lambda>file. \<lparr>lc_key = key, lc_file = file, lc_contentType = sf_contentType file,
                   lc_contentEncoding = sf_contentEncoding file,
                   lc_displayName = (if name = [] then entryPath else name),
                   lc_originalSize = None\<rparr>) (fs_get fs key None objs))"

fun locate_in :: "'s file_storage \<Rightarrow> 's \<Rightarrow> layout list \<Rightarrow> string \<Rightarrow> located option" where
  \<comment> \<open>the first layout that has the file\<close>
  "locate_in fs objs [] filePath = None"
| "locate_in fs objs (l # ls) filePath =
     (case locate fs objs l filePath of Some found \<Rightarrow> Some found | None \<Rightarrow> locate_in fs objs ls filePath)"

definition hasIndex :: "'s file_storage \<Rightarrow> 's \<Rightarrow> layout list \<Rightarrow> string \<Rightarrow> bool" where
  "hasIndex fs objs layouts path =
     list_ex (\<lambda>l. ly_archive l \<and> fs_head fs (ly_entryKey l (path @ ''/'' @ INDEX_FILE)) objs \<noteq> None) layouts"

definition locateRootFile :: "'s file_storage \<Rightarrow> 's \<Rightarrow> layout list \<Rightarrow> string \<Rightarrow> located option" where
  "locateRootFile fs objs layouts name = locate_in fs objs (filter ly_archive layouts) name"

definition looksLikeAssetPath :: "string \<Rightarrow> bool" where
  \<comment> \<open>\<open>/\.[a-z0-9]{1,8}$/.test(filePath.toLowerCase())\<close>\<close>
  "looksLikeAssetPath filePath =
     (let r = rev (js_lower filePath); ext = takeWhile (\<lambda>c. is_lower c \<or> is_digit c) r
      in 1 \<le> length ext \<and> length ext \<le> 8 \<and> starts_with ''.'' (drop (length ext) r))"

datatype fallback = SpaIndex located | NotFoundPage located

definition archiveFallback :: "'s file_storage \<Rightarrow> 's \<Rightarrow> layout list \<Rightarrow> string \<Rightarrow> bool \<Rightarrow> fallback option" where
  "archiveFallback fs objs layouts filePath spa =
     (if \<not> list_ex ly_archive layouts then None
      else if spa \<and> \<not> looksLikeAssetPath filePath
      then map_option SpaIndex (locateRootFile fs objs layouts INDEX_FILE)
      else map_option NotFoundPage (locateRootFile fs objs layouts NOT_FOUND_FILE))"

section \<open>Responses\<close>

record delivery_env =
  de_gunzip :: "string list \<Rightarrow> string list"
    \<comment> \<open>\<open>decompressStream\<close>\<close>
  de_now :: int
  de_signingSecret :: "string option"
  de_siteHost :: bool
  de_baseUrl :: "(string \<times> string) option"
    \<comment> \<open>protocol and origin of \<open>BASE_URL\<close>; \<open>None\<close> when it does not parse\<close>
  de_credentialedOrigins :: "string list"
  de_urlHost :: string
    \<comment> \<open>host and port of the request's URL\<close>

definition serve404Page :: "delivery_env \<Rightarrow> located \<Rightarrow> delivered" where
  "serve404Page env located =
     (let isGzipStored = (lc_contentEncoding located = Some ''gzip'');
          headers = [(''content-type'', lc_contentType located), (''cache-control'', ''no-store'')]
            @ dispositionHeaders (lc_contentType located) (lc_displayName located) (de_siteHost env)
            @ (if isGzipStored then [] else [(''content-length'', show_int (sf_size (lc_file located)))])
      in \<lparr>dv_status = 404, dv_headers = headers,
          dv_body = Ends (if isGzipStored then de_gunzip env (sf_body (lc_file located)) else sf_body (lc_file located))\<rparr>)"

record serve_options =
  sv_range :: "(int \<times> int) option"
  sv_rangeHeader :: "string option"
  sv_clientAcceptsGzip :: bool
  sv_ifNoneMatch :: "string option"
  sv_cacheControl :: string

definition file_headers :: "bool \<Rightarrow> located \<Rightarrow> serve_options \<Rightarrow> string option \<Rightarrow> headers" where
  \<comment> \<open>\<open>common\<close>\<close>
  "file_headers siteHost located opts etag =
     [(''content-type'', lc_contentType located), (''cache-control'', sv_cacheControl opts)]
     @ dispositionHeaders (lc_contentType located) (lc_displayName located) siteHost
     @ (case etag of None \<Rightarrow> [] | Some e \<Rightarrow> [(''etag'', e)])
     @ (if lc_contentEncoding located = Some ''gzip'' then [(''vary'', ''Accept-Encoding'')] else [])"

definition servePlain :: "'s file_storage \<Rightarrow> 's \<Rightarrow> located \<Rightarrow> serve_options \<Rightarrow> headers \<Rightarrow> delivered" where
  \<comment> \<open>the branch for a file stored as it is\<close>
  "servePlain fs objs located opts common =
     (let headers = common @ [(''accept-ranges'', ''bytes'')]; file = lc_file located
      in case sv_range opts of
           None \<Rightarrow> \<lparr>dv_status = 200, dv_headers = headers @ [(''content-length'', show_int (sf_size file))],
                     dv_body = Ends (sf_body file)\<rparr>
         | Some wanted \<Rightarrow>
             (case fs_get fs (lc_key located) (Some wanted) objs of
                None \<Rightarrow> json_reply 404 ''File not found''
              | Some rangedFile \<Rightarrow>
                  (case sf_range rangedFile of
                     None \<Rightarrow> \<lparr>dv_status = 200, dv_headers = headers, dv_body = Ends (sf_body rangedFile)\<rparr>
                   | Some r \<Rightarrow>
                       \<lparr>dv_status = 206,
                        dv_headers = headers @
                          [(''content-range'', ''bytes '' @ show_int (sr_offset r) @ ''-'' @
                             show_int (sr_offset r + sr_length r - 1) @ ''/'' @ show_int (sr_totalSize r)),
                           (''content-length'', show_int (sr_length r))],
                        dv_body = Ends (sf_body rangedFile)\<rparr>)))"

definition serveDecoded :: "delivery_env \<Rightarrow> located \<Rightarrow> serve_options \<Rightarrow> headers \<Rightarrow> delivered" where
  \<comment> \<open>the branch that decompresses a file stored as gzip\<close>
  "serveDecoded env located opts common =
     (let decompressed = de_gunzip env (sf_body (lc_file located));
          headers = common @ [(''accept-ranges'', ''bytes'')];
          known = (case lc_originalSize located of None \<Rightarrow> None | Some n \<Rightarrow> if n = 0 then None else Some n)
      in case sv_range opts of
           None \<Rightarrow> \<lparr>dv_status = 200,
                     dv_headers = headers @ (case known of None \<Rightarrow> [] | Some n \<Rightarrow> [(''content-length'', show_int n)]),
                     dv_body = Ends decompressed\<rparr>
         | Some (offset, len) \<Rightarrow>
             \<lparr>dv_status = 206,
              dv_headers = headers @ (case known of None \<Rightarrow> []
                | Some n \<Rightarrow> (let last' = min (offset + len) n - 1
                            in [(''content-range'', ''bytes '' @ show_int offset @ ''-'' @ show_int last' @ ''/'' @ show_int n),
                                (''content-length'', show_int (last' - offset + 1))])),
              dv_body = sliceStream decompressed offset len (lc_originalSize located)\<rparr>)"

definition serveFile :: "'s file_storage \<Rightarrow> 's \<Rightarrow> delivery_env \<Rightarrow> located \<Rightarrow> serve_options \<Rightarrow> delivered" where
  "serveFile fs objs env located opts =
     (let isGzipStored = (lc_contentEncoding located = Some ''gzip'');
          passthrough = (isGzipStored \<and> sv_clientAcceptsGzip opts \<and> \<not> truthy (sv_rangeHeader opts));
          etag = representationEtag (sf_etag (lc_file located)) (isGzipStored \<and> \<not> passthrough);
          common = file_headers (de_siteHost env) located opts etag
      in if (case etag of None \<Rightarrow> False | Some e \<Rightarrow> etagMatches (sv_ifNoneMatch opts) e)
         then \<lparr>dv_status = 304, dv_headers = common, dv_body = Ends []\<rparr>
         else if \<not> isGzipStored then servePlain fs objs located opts common
         else if passthrough
         then \<lparr>dv_status = 200,
               dv_headers = common @ [(''content-encoding'', ''gzip''), (''content-length'', show_int (sf_size (lc_file located)))],
               dv_body = Ends (sf_body (lc_file located))\<rparr>
         else serveDecoded env located opts common)"

section \<open>The route\<close>

definition SITE_PREVIEW_HEADER :: string where "SITE_PREVIEW_HEADER = ''x-serve-site-preview''"

definition sitePreview :: "string option \<Rightarrow> string option" where
  "sitePreview v = (if v = Some ''pinned'' \<or> v = Some ''latest'' then v else None)"

definition trustedOrigins :: "delivery_env \<Rightarrow> http_request \<Rightarrow> string list" where
  "trustedOrigins env request =
     (case de_baseUrl env of
        None \<Rightarrow> de_credentialedOrigins env
      | Some (protocol, origin) \<Rightarrow>
          (if de_siteHost env
           then protocol @ ''//'' @ js_lower (case header request ''Host'' of Some h \<Rightarrow> h | None \<Rightarrow> de_urlHost env)
           else origin) # de_credentialedOrigins env)"

definition corsPolicy :: "delivery_env \<Rightarrow> http_request \<Rightarrow> access_proof option \<Rightarrow> cors_policy" where
  "corsPolicy env request proof' =
     \<lparr>cp_proof = proof', cp_origin = header request ''Origin'', cp_trustedOrigins = trustedOrigins env request\<rparr>"

definition with_cors :: "cors_policy \<Rightarrow> delivered \<Rightarrow> delivered" where
  "with_cors policy res = res\<lparr>dv_headers := applyCors policy (dv_headers res)\<rparr>"

definition decorate :: "delivery_env \<Rightarrow> http_request \<Rightarrow> access_proof \<Rightarrow> delivered \<Rightarrow> delivered" where
  "decorate env request proof' res =
     with_cors (corsPolicy env request (Some proof'))
       (if proof' \<noteq> NoProof then res\<lparr>dv_headers := addVary [''Cookie'', ''Authorization''] (dv_headers res)\<rparr> else res)"

definition from_response :: "http_response \<Rightarrow> delivered" where
  \<comment> \<open>a response of the access check, its header names in lower case\<close>
  "from_response r = \<lparr>dv_status = rs_status r, dv_headers = map (\<lambda>(n, v). (js_lower n, v)) (rs_headers r),
     dv_body = Ends (case rs_body r of None \<Rightarrow> [] | Some t \<Rightarrow> [t])\<rparr>"

text \<open>
  What a located file becomes: the response for it, the rule headers, and \<open>noindex\<close> on a
  preview host.
\<close>

definition deliver_file ::
  "'s file_storage \<Rightarrow> 's \<Rightarrow> delivery_env \<Rightarrow> http_request \<Rightarrow> bool \<Rightarrow> string option \<Rightarrow> bool \<Rightarrow> site_hosting option \<Rightarrow> string
   \<Rightarrow> located \<Rightarrow> delivered" where
  "deliver_file fs objs env request pinned preview isProtected hosting servePath located =
     (let rangeHeader = header request ''Range'';
          acceptEncoding = (case header request ''Accept-Encoding'' of None \<Rightarrow> [] | Some t \<Rightarrow> t);
          res = serveFile fs objs env located
            \<lparr>sv_range = parseRange rangeHeader, sv_rangeHeader = rangeHeader,
             sv_clientAcceptsGzip = contains_text ''gzip'' acceptEncoding,
             sv_ifNoneMatch = header request ''If-None-Match'',
             sv_cacheControl = cacheControlFor pinned (lc_contentType located) isProtected\<rparr>;
          res1 = applySiteHeaders res hosting servePath (de_siteHost env)
      in if de_siteHost env \<and> (pinned \<or> preview \<noteq> None)
         then res1\<lparr>dv_headers := own_set (dv_headers res1) ''x-robots-tag'' ''noindex''\<rparr> else res1)"

definition deliver_missing ::
  "'s file_storage \<Rightarrow> 's \<Rightarrow> delivery_env \<Rightarrow> http_request \<Rightarrow> layout list \<Rightarrow> bool \<Rightarrow> string option \<Rightarrow> bool \<Rightarrow> bool
   \<Rightarrow> site_hosting option \<Rightarrow> string \<Rightarrow> delivered" where
  \<comment> \<open>no file at the path: the directory redirect, the SPA index, \<open>404.html\<close>\<close>
  "deliver_missing fs objs env request layouts pinned preview isProtected spa hosting servePath =
     (if servePath \<noteq> [] \<and> \<not> ends_with ''/'' servePath \<and> hasIndex fs objs layouts servePath
      then \<lparr>dv_status = 301,
            dv_headers = [(''location'', hq_protocol request @ ''//'' @ de_urlHost env @ hq_pathname request @ ''/'' @ hq_search request)],
            dv_body = Ends []\<rparr>
      else (case archiveFallback fs objs layouts servePath spa of
              None \<Rightarrow> json_reply 404 ''File not found''
            | Some (NotFoundPage located) \<Rightarrow>
                applySiteHeaders (serve404Page env located) hosting servePath (de_siteHost env)
            | Some (SpaIndex located) \<Rightarrow>
                deliver_file fs objs env request pinned preview isProtected hosting servePath located))"

definition deliver_path ::
  "'s file_storage \<Rightarrow> 's \<Rightarrow> delivery_env \<Rightarrow> http_request \<Rightarrow> string \<Rightarrow> layout list \<Rightarrow> bool \<Rightarrow> string option \<Rightarrow> bool \<Rightarrow> bool
   \<Rightarrow> site_hosting option \<Rightarrow> string \<Rightarrow> bool \<Rightarrow> delivered" where
  \<comment> \<open>the lookup, then the plain rules on a miss: one rewrite, never a chain\<close>
  "deliver_path fs objs env request id' layouts pinned preview isProtected spa hosting servePath rewritten =
     (case locate_in fs objs layouts servePath of
        Some located \<Rightarrow> deliver_file fs objs env request pinned preview isProtected hosting servePath located
      | None \<Rightarrow>
          (case Option.bind hosting (\<lambda>h. siteRedirect h servePath FallbackPhase) of
             None \<Rightarrow> deliver_missing fs objs env request layouts pinned preview isProtected spa hosting servePath
           | Some rule \<Rightarrow>
               if rm_status rule \<noteq> 200 then siteRedirectResponse rule id' (hq_search request) isProtected
               else if rewritten
               then deliver_missing fs objs env request layouts pinned preview isProtected spa hosting servePath
               else let servePath' = targetFilePath (rm_to rule)
                    in (case locate_in fs objs layouts servePath' of
                          Some located \<Rightarrow> deliver_file fs objs env request pinned preview isProtected hosting servePath' located
                        | None \<Rightarrow> deliver_missing fs objs env request layouts pinned preview isProtected spa hosting servePath')))"

definition deliver ::
  "'s file_storage \<Rightarrow> 's \<Rightarrow> delivery_env \<Rightarrow> http_request \<Rightarrow> string \<Rightarrow> string \<Rightarrow> thumb_request \<Rightarrow> asset \<Rightarrow> version option \<Rightarrow> bool
   \<Rightarrow> delivered" where
  \<comment> \<open>everything after the access check\<close>
  "deliver fs objs env request id' filePath thumb asset version isProtected =
     (case thumb of
        Thumb sz \<Rightarrow> serveThumbnail fs objs (a_id asset) (map_option v_id version) sz isProtected
      | _ \<Rightarrow>
          (let preview = sitePreview (header request SITE_PREVIEW_HEADER);
               pinned = ((case version of None \<Rightarrow> False | Some v \<Rightarrow> id' = v_id v) \<and> preview \<noteq> Some ''latest'');
               layouts = (case version of Some v \<Rightarrow> [versionedLayout asset v, legacyLayout asset] | None \<Rightarrow> [legacyLayout asset]);
               isArchive = list_ex ly_archive layouts;
               hosting = (if isArchive then hostingFor asset version else None);
               spa = (a_spa asset = Some True)
           in if isArchive \<and> isControlFile filePath then json_reply 404 ''File not found''
              else (case Option.bind hosting (\<lambda>h. siteRedirect h filePath ForcePhase) of
                      None \<Rightarrow> deliver_path fs objs env request id' layouts pinned preview isProtected spa hosting filePath False
                    | Some forced \<Rightarrow>
                        if rm_status forced = 200
                        then deliver_path fs objs env request id' layouts pinned preview isProtected spa hosting
                               (targetFilePath (rm_to forced)) True
                        else siteRedirectResponse forced id' (hq_search request) isProtected)))"

definition serveRoute ::
  "platform \<Rightarrow> ('k, blob) kv_port \<Rightarrow> 's file_storage \<Rightarrow> delivery_env \<Rightarrow> database \<Rightarrow> 's \<Rightarrow> http_request
   \<Rightarrow> string \<Rightarrow> string option \<Rightarrow> string option \<Rightarrow> 'k \<times> password_memo \<Rightarrow> delivered \<times> 'k \<times> password_memo" where
  \<comment> \<open>\<open>id'\<close>, \<open>path\<close> and \<open>query\<close>: the route's parameters and the \<open>thumb\<close> query\<close>
  "serveRoute pf kv fs env db objs request id' path query st =
     (let filePath = (case path of None \<Rightarrow> [] | Some p \<Rightarrow> p);
          thumb = detectThumbRequest filePath query;
          refusalCors = corsPolicy env request None
      in if thumb = InvalidThumb then (with_cors refusalCors (json_reply 400 ''Invalid thumbnail size''), st)
         else (case resolveAssetVersion db id' of
                 None \<Rightarrow> (with_cors refusalCors (json_reply 404 ''File not found''), st)
               | Some (asset, version) \<Rightarrow>
                   (case resolveAccess pf kv \<lparr>ad_findProtection = (\<lambda>i. asset_findProtection i db),
                        ad_signingSecret = de_signingSecret env, ad_siteHost = de_siteHost env, ad_now = de_now env\<rparr>
                        asset request st of
                      (Challenge response, st') \<Rightarrow> (with_cors refusalCors (from_response response), st')
                    | (AllowAccess proof', st') \<Rightarrow>
                        (decorate env request proof'
                           (deliver fs objs env request id' filePath thumb asset version (proof' \<noteq> NoProof)), st'))))"

definition file_route ::
  "platform \<Rightarrow> ('k, blob) kv_port \<Rightarrow> 's file_storage \<Rightarrow> delivery_env \<Rightarrow> database \<Rightarrow> 's \<Rightarrow> http_request
   \<Rightarrow> string \<Rightarrow> string option \<Rightarrow> string option \<Rightarrow> 'k \<times> password_memo \<Rightarrow> delivered \<times> 'k \<times> password_memo" where
  \<comment> \<open>the route behind the \<open>nosniff\<close> middleware\<close>
  "file_route pf kv fs env db objs request id' path query st =
     (let (res, st') = serveRoute pf kv fs env db objs request id' path query st
      in (res\<lparr>dv_headers := own_set (dv_headers res) ''x-content-type-options'' ''nosniff''\<rparr>, st'))"

definition auth_route ::
  "platform \<Rightarrow> ('k, blob) kv_port \<Rightarrow> delivery_env \<Rightarrow> database \<Rightarrow> http_request \<Rightarrow> string \<Rightarrow> 'k \<times> password_memo
   \<Rightarrow> delivered \<times> 'k \<times> password_memo" where
  "auth_route pf kv env db request id' st =
     (case asset_find id' db of
        None \<Rightarrow> (json_reply 404 ''File not found'', st)
      | Some asset \<Rightarrow>
          (case handleAuthSubmit pf kv \<lparr>ad_findProtection = (\<lambda>i. asset_findProtection i db),
               ad_signingSecret = de_signingSecret env, ad_siteHost = de_siteHost env, ad_now = de_now env\<rparr>
               asset request st of
             (None, st') \<Rightarrow> (json_reply 404 ''File not found'', st')
           | (Some response, st') \<Rightarrow> (from_response response, st')))"

end
