(* ===== verification/Delivery_Properties.thy ===== *)
theory Delivery_Properties
  imports File_Delivery
begin

text \<open>
  What the file routes guarantee, over \<open>file_route\<close>: bytes behind a password need a proof,
  no shared cache may keep them, active content never runs on the shared origin, conditional
  requests and ranges are answered exactly.
\<close>

section \<open>Headers a response may carry\<close>

definition not_public :: "headers \<Rightarrow> bool" where
  "not_public h \<longleftrightarrow> (case map_of h ''cache-control'' of None \<Rightarrow> True | Some cc \<Rightarrow> \<not> starts_with ''public'' cc)"

definition attachment_only :: "headers \<Rightarrow> bool" where
  "attachment_only h \<longleftrightarrow> map_of h ''content-security-policy'' = Some ''sandbox''
     \<and> (case map_of h ''content-disposition'' of None \<Rightarrow> False | Some d \<Rightarrow> starts_with ''attachment'' d)"

definition inert :: "headers \<Rightarrow> bool" where
  \<comment> \<open>a browser runs no script of this response on its origin\<close>
  "inert h \<longleftrightarrow> (case map_of h ''content-type'' of None \<Rightarrow> True | Some t \<Rightarrow> isInlineType t \<or> attachment_only h)"

definition safe_headers :: "bool \<Rightarrow> bool \<Rightarrow> headers \<Rightarrow> bool" where
  "safe_headers siteHost isProtected h \<longleftrightarrow> (isProtected \<longrightarrow> not_public h) \<and> (\<not> siteHost \<longrightarrow> inert h)"

lemmas safe_defs = safe_headers_def not_public_def inert_def attachment_only_def

definition untouched_names :: "string list" where
  "untouched_names = [''cache-control'', ''content-type'', ''content-disposition'']"

lemma denied_names: "n \<in> set untouched_names \<Longrightarrow> isDeniedHeader n"
  by (auto simp: untouched_names_def isDeniedHeader_def DENIED_HEADERS_def)

lemma site_header_keeps:
  "isDeniedHeader n \<or> (\<not> siteHost \<and> n = ''content-security-policy'') \<Longrightarrow>
     map_of (fold (site_header siteHost) hs h) n = map_of h n"
  by (induction hs arbitrary: h) (auto simp: site_header_def)

lemma safe_headers_cong:
  assumes "\<forall>n \<in> set untouched_names. map_of h' n = map_of h n"
    and "\<not> siteHost \<Longrightarrow> map_of h' ''content-security-policy'' = map_of h ''content-security-policy''"
  shows "safe_headers siteHost p h' \<longleftrightarrow> safe_headers siteHost p h"
  using assms by (cases siteHost) (simp_all add: safe_defs untouched_names_def split: option.splits)

lemma safe_applySiteHeaders [simp]:
  "safe_headers siteHost p (dv_headers (applySiteHeaders res hosting path siteHost)) \<longleftrightarrow>
     safe_headers siteHost p (dv_headers res)"
  by (cases hosting)
     (auto simp: applySiteHeaders_def site_header_keeps denied_names intro!: safe_headers_cong)

lemma safe_own_set [simp]:
  "n \<notin> set untouched_names \<Longrightarrow> n \<noteq> ''content-security-policy'' \<Longrightarrow>
     safe_headers siteHost p (own_set h n v) \<longleftrightarrow> safe_headers siteHost p h"
  by (intro safe_headers_cong) auto

lemma safe_addVary [simp]: "safe_headers siteHost p (addVary vs h) \<longleftrightarrow> safe_headers siteHost p h"
  by (intro safe_headers_cong) (auto simp: untouched_names_def)

lemma safe_applyCors [simp]: "safe_headers siteHost p (applyCors policy h) \<longleftrightarrow> safe_headers siteHost p h"
  by (intro safe_headers_cong) (auto simp: untouched_names_def applyCors_other)

lemma inert_safe: "inert h \<longleftrightarrow> safe_headers False False h"
  by (simp add: safe_headers_def)

lemma safe_json_reply [simp]: "safe_headers siteHost p (dv_headers (json_reply status message))"
proof -
  have "isInlineType ''application/json''" by code_simp
  then show ?thesis by (simp add: safe_defs json_reply_def)
qed

lemma safe_dispositions:
  \<comment> \<open>a type, a cache policy and the disposition of that type, before headers of other names\<close>
  assumes "isProtected \<Longrightarrow> \<not> starts_with ''public'' cc"
  shows "safe_headers siteHost isProtected
    ([(''content-type'', t), (''cache-control'', cc)] @ dispositionHeaders t name siteHost @ h)"
  using assms by (auto simp: safe_defs dispositionHeaders_def Let_def starts_with_def)

lemma cacheControl_private [simp]: "\<not> starts_with ''public'' (cacheControlFor pinned t True)"
  by (simp add: cacheControlFor_def Let_def privateForm_def PINNED_CACHE_CONTROL_def ENTRY_CACHE_CONTROL_def
      DEFAULT_CACHE_CONTROL_def starts_with_def)

lemma safe_siteRedirect: "safe_headers siteHost p (dv_headers (siteRedirectResponse m i search p))"
  by (simp add: safe_defs siteRedirectResponse_def Let_def starts_with_def)

lemma safe_thumbnail: "safe_headers siteHost p (dv_headers (serveThumbnail fs objs a v sz p))"
proof -
  have "isInlineType ''application/json''" "isInlineType ''image/webp''" by code_simp+
  then show ?thesis
    by (auto simp: safe_defs serveThumbnail_def Let_def starts_with_def THUMBNAIL_CONTENT_TYPE_def split: option.splits)
qed

lemma safe_404Page: "safe_headers (de_siteHost env) p (dv_headers (serve404Page env located))"
  unfolding serve404Page_def Let_def delivered.simps append_assoc
  by (rule safe_dispositions) (simp add: starts_with_def)

lemma safe_servePlain:
  assumes "\<And>h. safe_headers siteHost p (common @ h)"
  shows "safe_headers siteHost p (dv_headers (servePlain fs objs located opts common))"
  using assms by (auto simp: servePlain_def Let_def split: option.splits)

lemma safe_serveDecoded:
  assumes "\<And>h. safe_headers siteHost p (common @ h)"
  shows "safe_headers siteHost p (dv_headers (serveDecoded env located opts common))"
  using assms by (simp add: serveDecoded_def Let_def split: option.split prod.split)

lemma safe_serveFile:
  assumes "isProtected \<Longrightarrow> \<not> starts_with ''public'' (sv_cacheControl opts)" and "de_siteHost env = sh"
  shows "safe_headers sh isProtected (dv_headers (serveFile fs objs env located opts))"
proof -
  have c: "safe_headers sh isProtected (file_headers sh located opts etag @ h)" for etag h
    unfolding file_headers_def append_assoc by (rule safe_dispositions) (rule assms(1))
  have c0: "safe_headers sh isProtected (file_headers sh located opts etag)" for etag
    using c[of etag "[]"] by simp
  show ?thesis
    unfolding serveFile_def Let_def assms(2)
    by (simp add: c c0 safe_servePlain safe_serveDecoded)
qed

lemma safe_deliver_file:
  "safe_headers (de_siteHost env) p (dv_headers (deliver_file fs objs env request pinned preview p hosting path located))"
  by (auto simp: deliver_file_def Let_def untouched_names_def intro!: safe_serveFile)

lemma safe_deliver_missing:
  "safe_headers (de_siteHost env) p
     (dv_headers (deliver_missing fs objs env request layouts pinned preview p spa hosting path))"
proof -
  have "safe_headers sh p [(''location'', l)]" for sh l by (simp add: safe_defs)
  then show ?thesis
    by (auto simp: deliver_missing_def safe_404Page safe_deliver_file split: option.splits fallback.splits)
qed

lemma safe_deliver_path:
  "safe_headers (de_siteHost env) p
     (dv_headers (deliver_path fs objs env request i layouts pinned preview p spa hosting path rewritten))"
  by (auto simp: deliver_path_def Let_def safe_deliver_file safe_deliver_missing safe_siteRedirect split: option.splits)

lemma safe_deliver:
  "safe_headers (de_siteHost env) p (dv_headers (deliver fs objs env request i path thumb asset version p))"
  by (auto simp: deliver_def Let_def safe_deliver_path safe_siteRedirect safe_thumbnail
      split: option.splits thumb_request.splits)

section \<open>A proof for every protected byte\<close>

abbreviation gate ::
  "platform \<Rightarrow> ('k, blob) kv_port \<Rightarrow> delivery_env \<Rightarrow> database \<Rightarrow> asset \<Rightarrow> http_request \<Rightarrow> 'k \<times> password_memo
   \<Rightarrow> access_resolution \<times> 'k \<times> password_memo" where
  "gate pf kv env db asset request st \<equiv>
     resolveAccess pf kv \<lparr>ad_findProtection = (\<lambda>i. asset_findProtection i db),
       ad_signingSecret = de_signingSecret env, ad_siteHost = de_siteHost env, ad_now = de_now env\<rparr> asset request st"

lemma file_route_cases:
  assumes "resolveAssetVersion db i = Some (asset, version)"
  obtains (invalid) "file_route pf kv fs env db objs request i path query st =
      ((with_cors (corsPolicy env request None) (json_reply 400 ''Invalid thumbnail size''))
         \<lparr>dv_headers := own_set (applyCors (corsPolicy env request None) [(''content-type'', ''application/json'')])
            ''x-content-type-options'' ''nosniff''\<rparr>, st)"
  | (refused) response where "fst (gate pf kv env db asset request st) = Challenge response"
      "file_route pf kv fs env db objs request i path query st =
        ((from_response response)\<lparr>dv_headers := own_set (applyCors (corsPolicy env request None)
            (dv_headers (from_response response))) ''x-content-type-options'' ''nosniff''\<rparr>,
         snd (gate pf kv env db asset request st))"
  | (allowed) proof' where "fst (gate pf kv env db asset request st) = AllowAccess proof'"
      "file_route pf kv fs env db objs request i path query st =
        (let res = decorate env request proof' (deliver fs objs env request i
             (case path of None \<Rightarrow> [] | Some p \<Rightarrow> p) (detectThumbRequest (case path of None \<Rightarrow> [] | Some p \<Rightarrow> p) query)
             asset version (proof' \<noteq> NoProof))
         in res\<lparr>dv_headers := own_set (dv_headers res) ''x-content-type-options'' ''nosniff''\<rparr>,
         snd (gate pf kv env db asset request st))"
proof -
  obtain resolution st' where Pair: "gate pf kv env db asset request st = (resolution, st')"
    by (rule prod.exhaust)
  show ?thesis
  proof (cases "detectThumbRequest (case path of None \<Rightarrow> [] | Some p \<Rightarrow> p) query = InvalidThumb")
    case True
    then show ?thesis
      by (intro invalid) (simp add: file_route_def serveRoute_def with_cors_def json_reply_def)
  next
    case False
    show ?thesis
    proof (cases resolution)
      case (AllowAccess proof')
      with False Pair assms show ?thesis
        by (intro allowed[of proof']) (simp_all add: file_route_def serveRoute_def Let_def)
    next
      case (Challenge response)
      with False Pair assms show ?thesis
        by (intro refused[of response]) (simp_all add: file_route_def serveRoute_def Let_def with_cors_def)
    qed
  qed
qed

lemma gate_protected:
  assumes "accessModeOf asset = PasswordAccess"
    and "fst (gate pf kv env db asset request st) = AllowAccess proof'"
  shows "proof' \<noteq> NoProof \<and> (\<exists>secret prot. de_signingSecret env = Some secret
    \<and> asset_findProtection (a_id asset) db = Some prot
    \<and> (verifyAuthCookie pf secret (dict_get (parseCookieHeader (header request ''Cookie'')) (authCookieName (de_siteHost env)))
          (a_id asset) (prot_version prot) (de_now env)
      \<or> (\<exists>pw. basicPassword pf (header request ''Authorization'') = Some pw
          \<and> fst (attemptPassword pf kv (a_id asset) prot (Some pw) (clientIp request) (de_now env) st) = AttemptOk)))"
  using assms
  by (auto simp: resolveAccess_def Let_def truthy_def split: option.splits prod.splits attempt_result.splits if_splits)

text \<open>
  C1: Nobody learns a byte of a protected asset without a proof. When what a request is answered
  depends at all on what the object store holds, for an asset whose protection is on, then the
  deployment has its signing secret, the asset has its password material, and the request
  carries either a cookie that verifies for this asset at its current password version or the
  password itself, accepted by the throttled check. This covers files, directory
  redirects, thumbnails, fallback pages and error statuses alike.
\<close>

theorem protected_bytes_need_proof:
  assumes "resolveAssetVersion db i = Some (asset, version)" and "accessModeOf asset = PasswordAccess"
    and "file_route pf kv fs env db objs request i path query st \<noteq> file_route pf kv fs env db objs' request i path query st"
  shows "\<exists>secret prot. de_signingSecret env = Some secret \<and> asset_findProtection (a_id asset) db = Some prot
    \<and> (verifyAuthCookie pf secret (dict_get (parseCookieHeader (header request ''Cookie'')) (authCookieName (de_siteHost env)))
          (a_id asset) (prot_version prot) (de_now env)
      \<or> (\<exists>pw. basicPassword pf (header request ''Authorization'') = Some pw
          \<and> fst (attemptPassword pf kv (a_id asset) prot (Some pw) (clientIp request) (de_now env) st) = AttemptOk))"
proof -
  have "fst (gate pf kv env db asset request st) \<noteq> Challenge response" for response
  proof
    assume "fst (gate pf kv env db asset request st) = Challenge response"
    then have "file_route pf kv fs env db o1 request i path query st = file_route pf kv fs env db o2 request i path query st" for o1 o2
      using assms(1) by (cases "gate pf kv env db asset request st") (simp add: file_route_def serveRoute_def Let_def)
    with assms(3) show False by blast
  qed
  then obtain proof' where "fst (gate pf kv env db asset request st) = AllowAccess proof'"
    by (cases "fst (gate pf kv env db asset request st)") auto
  from gate_protected[OF assms(2) this] show ?thesis by blast
qed

lemma lower_names:
  "js_lower ''Content-Type'' = ''content-type''" "js_lower ''Retry-After'' = ''retry-after''"
  "js_lower ''WWW-Authenticate'' = ''www-authenticate''" "js_lower ''Cache-Control'' = ''cache-control''"
  by code_simp+

lemma refusal_not_public:
  assumes "fst (gate pf kv env db asset request st) = Challenge response"
  shows "not_public (dv_headers (from_response response))"
proof -
  have "map_of (dv_headers (from_response r)) ''cache-control'' = Some ''no-store''"
    if "r \<in> {signingSecretMissingResponse, misconfiguredResponse, basicChallengeResponse, rateLimitedResponse n b,
        passwordPageResponse a m e}" for r n b a m e
    using that
    by (auto simp: from_response_def signingSecretMissingResponse_def misconfiguredResponse_def service_unavailable_def
        basicChallengeResponse_def rateLimitedResponse_def passwordPageResponse_def noStoreHeaders_def lower_names)
  moreover have "response \<in> {signingSecretMissingResponse, misconfiguredResponse, basicChallengeResponse} \<or>
      (\<exists>n. response = rateLimitedResponse n False) \<or> (\<exists>a m e. response = passwordPageResponse a m e)"
    using assms
    by (auto simp: resolveAccess_def challengeFor_def Let_def split: option.splits prod.splits attempt_result.splits if_splits)
  ultimately have "map_of (dv_headers (from_response response)) ''cache-control'' = Some ''no-store''" by blast
  then show ?thesis by (simp add: not_public_def starts_with_def)
qed



section \<open>Conditional requests and ranges\<close>

lemma etagMatches_self:
  assumes "e \<noteq> []" and "CHR '','' \<notin> set e" and "js_trim e = e"
  shows "etagMatches (Some e) e"
  using assms by (simp add: etagMatches_def truthy_def split_on_id)

lemma file_headers_etag: "map_of (file_headers sh located opts etag) ''etag'' = etag"
  by (auto simp: file_headers_def dispositionHeaders_def Let_def split: option.splits)

lemma representationEtag_nonempty: "representationEtag t b = Some e \<Longrightarrow> e \<noteq> []"
  by (auto simp: representationEtag_def Let_def starts_with_def truthy_def split: if_splits option.splits)

definition validators :: "string set" where
  "validators = {''etag'', ''cache-control'', ''content-disposition'', ''content-type''}"

definition extends_headers :: "headers \<Rightarrow> headers \<Rightarrow> bool" where
  \<comment> \<open>nothing but headers of other names was added\<close>
  "extends_headers common h \<longleftrightarrow> (\<exists>added. h = common @ added \<and> (\<forall>n \<in> validators. map_of added n = None))"

lemma extends_headersI: "\<forall>n \<in> validators. map_of added n = None \<Longrightarrow> extends_headers common (common @ added)"
  by (auto simp: extends_headers_def)

lemma extends_headers_refl: "extends_headers common common"
  by (auto simp: extends_headers_def)

lemma extends_headersD: "extends_headers common h \<Longrightarrow> n \<in> validators \<Longrightarrow> map_of h n = map_of common n"
  by (auto simp: extends_headers_def map_add_def split: option.split)

lemma servePlain_extends:
  "servePlain fs objs located opts common = json_reply 404 ''File not found''
   \<or> extends_headers common (dv_headers (servePlain fs objs located opts common))"
  by (auto simp: servePlain_def Let_def validators_def split: option.splits intro!: extends_headersI)

lemma serveDecoded_extends: "extends_headers common (dv_headers (serveDecoded env located opts common))"
  by (auto simp: serveDecoded_def Let_def validators_def split: option.splits prod.splits intro!: extends_headersI)

lemma serveFile_extends:
  assumes "gz = (lc_contentEncoding located = Some ''gzip'')"
    and "pass = (gz \<and> sv_clientAcceptsGzip opts \<and> \<not> truthy (sv_rangeHeader opts))"
    and "tag = representationEtag (sf_etag (lc_file located)) (gz \<and> \<not> pass)"
  shows "serveFile fs objs env located opts = json_reply 404 ''File not found''
    \<or> extends_headers (file_headers (de_siteHost env) located opts tag) (dv_headers (serveFile fs objs env located opts))"
proof -
  have "extends_headers c (c @ [(''content-encoding'', ''gzip''), (''content-length'', l)])" for c l
    by (rule extends_headersI) (simp add: validators_def)
  then show ?thesis
    using servePlain_extends[of fs objs located opts "file_headers (de_siteHost env) located opts tag"]
      serveDecoded_extends[of "file_headers (de_siteHost env) located opts tag" env located opts]
    unfolding serveFile_def Let_def assms(1)[symmetric] assms(2)[symmetric] assms(3)[symmetric]
    by (simp add: extends_headers_refl)
qed

lemma serveFile_304:
  assumes "gz = (lc_contentEncoding located = Some ''gzip'')"
    and "pass = (gz \<and> sv_clientAcceptsGzip opts \<and> \<not> truthy (sv_rangeHeader opts))"
    and "representationEtag (sf_etag (lc_file located)) (gz \<and> \<not> pass) = Some e"
    and "etagMatches (sv_ifNoneMatch opts) e"
  shows "serveFile fs objs env located opts =
    \<lparr>dv_status = 304, dv_headers = file_headers (de_siteHost env) located opts (Some e), dv_body = Ends []\<rparr>"
  unfolding serveFile_def Let_def assms(1)[symmetric] assms(2)[symmetric] assms(3) using assms(4) by simp

lemma file_headers_ifNoneMatch: "file_headers sh located (opts\<lparr>sv_ifNoneMatch := v\<rparr>) etag = file_headers sh located opts etag"
  by (simp add: file_headers_def)

text \<open>
  Revalidation works: a client that sends back the entity tag a file was served with gets a
  304 without a body, carrying the same tag, cache policy and disposition, whichever way
  the file was encoded. (The store's tag holds no comma and no outer white space.)
\<close>

theorem revalidated_with_304:
  assumes "serveFile fs objs env located opts = first" and "map_of (dv_headers first) ''etag'' = Some e"
    and "CHR '','' \<notin> set e" and "js_trim e = e"
  shows "\<exists>h. serveFile fs objs env located (opts\<lparr>sv_ifNoneMatch := Some e\<rparr>)
      = \<lparr>dv_status = 304, dv_headers = h, dv_body = Ends []\<rparr>
    \<and> (\<forall>n \<in> {''etag'', ''cache-control'', ''content-disposition'', ''content-type''}. map_of h n = map_of (dv_headers first) n)"
proof -
  define gz where "gz = (lc_contentEncoding located = Some ''gzip'')"
  define pass where "pass = (gz \<and> sv_clientAcceptsGzip opts \<and> \<not> truthy (sv_rangeHeader opts))"
  define tag where "tag = representationEtag (sf_etag (lc_file located)) (gz \<and> \<not> pass)"
  let ?common = "file_headers (de_siteHost env) located opts tag"
  have "first \<noteq> json_reply 404 ''File not found''" using assms(2) by (auto simp: json_reply_def)
  then have ext: "extends_headers ?common (dv_headers first)"
    using serveFile_extends[OF gz_def pass_def tag_def, of fs objs env] assms(1) by blast
  then have tag: "tag = Some e"
    using assms(2) extends_headersD[OF ext, of "''etag''"] file_headers_etag[of "de_siteHost env" located opts tag]
    by (simp add: validators_def)
  let ?opts = "opts\<lparr>sv_ifNoneMatch := Some e\<rparr>"
  have t: "representationEtag (sf_etag (lc_file located)) (gz \<and> \<not> pass) = Some e"
    unfolding tag_def[symmetric] by (rule tag)
  have m: "etagMatches (sv_ifNoneMatch ?opts) e"
    using etagMatches_self[OF representationEtag_nonempty[OF t] assms(3,4)] by simp
  have p: "pass = (gz \<and> sv_clientAcceptsGzip ?opts \<and> \<not> truthy (sv_rangeHeader ?opts))" by (simp add: pass_def)
  have "serveFile fs objs env located ?opts = \<lparr>dv_status = 304, dv_headers = ?common, dv_body = Ends []\<rparr>"
    using serveFile_304[OF gz_def p t m, of fs objs env] unfolding file_headers_ifNoneMatch tag .
  moreover have "\<forall>n \<in> validators. map_of ?common n = map_of (dv_headers first) n"
    using extends_headersD[OF ext] by simp
  ultimately show ?thesis unfolding validators_def by blast
qed

text \<open>
  A range of a file kept in the in-memory store is answered with exactly those bytes: status
  206, the requested slice as the body, its length as the content length, and a content range that
  names its first and last byte and the size of the whole.
\<close>

theorem memory_range_served:
  assumes "map_of (ms_objects objs) (lc_key located) = Some entry"
    and "lc_contentEncoding located \<noteq> Some ''gzip''" and "sv_ifNoneMatch opts = None"
    and "sv_range opts = Some (from, len)" and "0 \<le> from" and "from < int (length (so_data entry))" and "0 < len"
  shows "\<exists>bytes. bytes = take (nat len) (drop (nat from) (so_data entry)) \<and> bytes \<noteq> []
    \<and> dv_status (serveFile (memory_storage_port md5) objs env located opts) = 206
    \<and> dv_body (serveFile (memory_storage_port md5) objs env located opts) = Ends [bytes]
    \<and> map_of (dv_headers (serveFile (memory_storage_port md5) objs env located opts)) ''content-length''
        = Some (show_int (int (length bytes)))
    \<and> map_of (dv_headers (serveFile (memory_storage_port md5) objs env located opts)) ''content-range''
        = Some (''bytes '' @ show_int from @ ''-'' @ show_int (from + int (length bytes) - 1) @ ''/'' @
            show_int (int (length (so_data entry))))"
proof -
  define bytes where "bytes = take (nat len) (drop (nat from) (so_data entry))"
  obtain f r where f: "mem_get (lc_key located) (Some (from, len)) objs = Some f" "sf_range f = Some r"
    "concat (sf_body f) = bytes" "sr_length r = int (length bytes)" "sr_totalSize r = int (length (so_data entry))"
    using memory_get_range[OF assms(1,5), of len] assms(7) unfolding bytes_def by (auto simp del: concat_eq_Nil_conv length_concat)
  have o: "sr_offset r = from" and b: "sf_body f = [concat (sf_body f)]"
    using f(1,2) assms(1,6) by (auto simp: mem_get_def Let_def)
  have ne: "bytes \<noteq> []" using assms(5,6,7) by (auto simp: bytes_def)
  have e: "\<not> (case tag of None \<Rightarrow> False | Some e \<Rightarrow> etagMatches (sv_ifNoneMatch opts) e)" for tag
    using assms(3) by (simp add: etagMatches_def truthy_def split: option.split)
  have names: "map_of (file_headers sh located opts tag) ''content-length'' = None"
    "map_of (file_headers sh located opts tag) ''content-range'' = None" for sh tag
    by (auto simp: file_headers_def dispositionHeaders_def Let_def split: option.splits)
  have s: "serveFile (memory_storage_port md5) objs env located opts =
      servePlain (memory_storage_port md5) objs located opts
        (file_headers (de_siteHost env) located opts (representationEtag (sf_etag (lc_file located)) False))"
    using e[of "representationEtag (sf_etag (lc_file located)) False"] assms(2) by (simp add: serveFile_def Let_def)
  show ?thesis
    unfolding s bytes_def[symmetric] using ne f o b assms(4)
    by (simp add: servePlain_def Let_def memory_storage_port_def names map_add_def)
qed

text \<open>
  The bucket-backed store reports the range it was asked for instead of the range it has: an
  open-ended range is answered with a content length of \<open>2^53 - 1\<close> whatever the file's size.
\<close>

lemma r2_open_range_length:
  assumes "rb_get bucket (lc_key located) (Some (5, MAX_SAFE_INTEGER)) objs = Some obj"
    and "fs_get fs = r2_get bucket" and "lc_contentEncoding located \<noteq> Some ''gzip''"
    and "sv_ifNoneMatch opts = None" and "sv_range opts = parseRange (Some ''bytes=5-'')"
  shows "map_of (dv_headers (serveFile fs objs env located opts)) ''content-length'' = Some (show_int 9007199254740991)"
proof -
  have p: "parseRange (Some ''bytes=5-'') = Some (5, MAX_SAFE_INTEGER)"
    by (simp add: parseRange_def starts_with_def is_digit_def code_unit_def decimal_def Let_def)
  have e: "\<not> (case tag of None \<Rightarrow> False | Some e \<Rightarrow> etagMatches (sv_ifNoneMatch opts) e)" for tag
    using assms(4) by (simp add: etagMatches_def truthy_def split: option.split)
  show ?thesis
    using e[of "representationEtag (sf_etag (lc_file located)) False"] assms p
    by (simp add: serveFile_def servePlain_def r2_get_def Let_def map_add_def MAX_SAFE_INTEGER_def
        file_headers_def dispositionHeaders_def split: option.splits)
qed

section \<open>A worked instance\<close>

definition docs_asset :: asset where
  "docs_asset = site_asset\<lparr>a_hosting := Some \<lparr>sh_headers = [\<lparr>hr_pattern = ''/*'', hr_headers = [(''x-a'', ''b'')]\<rparr>],
     sh_redirects = [], sh_warnings = []\<rparr>\<rparr>"

definition docs_database :: database where
  "docs_database = asset_setProtection ''a1'' (MakePassword (ph_hash (hashPassword toy_platform ''pw'' ''s'' 1))
     (ph_salt (hashPassword toy_platform ''pw'' ''s'' 1))) (asset_save docs_asset empty_database)"

definition docs_env :: delivery_env where
  "docs_env = \<lparr>de_gunzip = id, de_now = 5000, de_signingSecret = Some ''k'', de_siteHost = False,
     de_baseUrl = Some (''https:'', ''https://s.example''), de_credentialedOrigins = [], de_urlHost = ''s.example''\<rparr>"

definition docs_objects :: "string \<Rightarrow> memory_storage" where
  "docs_objects index = \<lparr>ms_objects = [(''assets/a1/files/index.html'',
     \<lparr>so_data = index, so_contentType = ''text/html'', so_contentEncoding = None, so_etag = ''e''\<rparr>)],
     ms_usedBytes = int (length index), ms_capacityBytes = 100\<rparr>"

definition docs_route :: "string \<Rightarrow> http_request \<Rightarrow> delivered" where
  "docs_route index request = fst (file_route toy_platform sql_port (memory_storage_port id) docs_env docs_database
     (docs_objects index) request ''a1'' None None ([], []))"

lemma docs_found: "\<exists>asset. resolveAssetVersion docs_database ''a1'' = Some (asset, None) \<and> accessModeOf asset = PasswordAccess
    \<and> a_id asset = ''a1''"
proof -
  have "map_option (\<lambda>(a, v). (v, accessModeOf a, a_id a)) (resolveAssetVersion docs_database ''a1'')
      = Some (None, PasswordAccess, ''a1'')" by code_simp
  then show ?thesis by auto
qed

lemma docs_gate:
  "resolveAssetVersion docs_database ''a1'' = Some (asset, version) \<Longrightarrow>
     fst (gate toy_platform sql_port docs_env docs_database asset basic_request ([], [])) = AllowAccess BasicProof"
proof -
  have "map_option (\<lambda>(a, v). fst (gate toy_platform sql_port docs_env docs_database a basic_request ([], [])) = AllowAccess BasicProof)
      (resolveAssetVersion docs_database ''a1'') = Some True" by code_simp
  then show "resolveAssetVersion docs_database ''a1'' = Some (asset, version) \<Longrightarrow> ?thesis" by simp
qed

lemma file_route_allowed:
  assumes "resolveAssetVersion db i = Some (asset, version)"
    and "fst (gate pf kv env db asset request st) = AllowAccess proof'"
    and "detectThumbRequest (case path of None \<Rightarrow> [] | Some p \<Rightarrow> p) query = thumb" and "thumb \<noteq> InvalidThumb"
    and "res = deliver fs objs env request i (case path of None \<Rightarrow> [] | Some p \<Rightarrow> p) thumb asset version (proof' \<noteq> NoProof)"
  shows "dv_status (fst (file_route pf kv fs env db objs request i path query st)) = dv_status res"
    and "dv_body (fst (file_route pf kv fs env db objs request i path query st)) = dv_body res"
    and "\<lbrakk>n \<noteq> ''access-control-allow-origin''; n \<noteq> ''access-control-allow-credentials''; n \<noteq> ''cross-origin-resource-policy'';
           n \<noteq> ''vary''; n \<noteq> ''x-content-type-options''\<rbrakk> \<Longrightarrow>
      map_of (dv_headers (fst (file_route pf kv fs env db objs request i path query st))) n = map_of (dv_headers res) n"
  using assms
  by (cases "gate pf kv env db asset request st";
      simp add: file_route_def serveRoute_def Let_def decorate_def with_cors_def applyCors_other)+

lemma docs_delivers:
  "resolveAssetVersion docs_database ''a1'' = Some (asset, version) \<Longrightarrow>
     streamed (dv_body (docs_route ''one'' basic_request)) = ''one''
   \<and> streamed (dv_body (docs_route ''two'' basic_request)) = ''two''
   \<and> map_of (dv_headers (docs_route ''one'' basic_request)) ''content-type'' = Some ''text/html''"
proof -
  assume a: "resolveAssetVersion docs_database ''a1'' = Some (asset, version)"
  have t: "detectThumbRequest (case None of None \<Rightarrow> [] | Some p \<Rightarrow> p) None = NoThumb" by code_simp
  have "map_option (\<lambda>(a, v). streamed (dv_body (deliver (memory_storage_port id) (docs_objects ''one'') docs_env basic_request ''a1'' [] NoThumb a v True)) = ''one''
      \<and> streamed (dv_body (deliver (memory_storage_port id) (docs_objects ''two'') docs_env basic_request ''a1'' [] NoThumb a v True)) = ''two''
      \<and> map_of (dv_headers (deliver (memory_storage_port id) (docs_objects ''one'') docs_env basic_request ''a1'' [] NoThumb a v True))
          ''content-type'' = Some ''text/html'')
    (resolveAssetVersion docs_database ''a1'') = Some True" by code_simp
  with a show ?thesis
    unfolding docs_route_def
    by (simp add: file_route_allowed[OF a docs_gate[OF a] t _ refl])
qed

lemma protected_bytes_need_proof_witness:
  "\<exists>secret prot. de_signingSecret docs_env = Some secret \<and> asset_findProtection ''a1'' docs_database = Some prot"
proof -
  obtain asset where a: "resolveAssetVersion docs_database ''a1'' = Some (asset, None)"
    "accessModeOf asset = PasswordAccess" "a_id asset = ''a1''" using docs_found by blast
  have "docs_route ''one'' basic_request \<noteq> docs_route ''two'' basic_request" using docs_delivers[OF a(1)] by auto
  then have "file_route toy_platform sql_port (memory_storage_port id) docs_env docs_database (docs_objects ''one'')
       basic_request ''a1'' None None ([], []) \<noteq>
     file_route toy_platform sql_port (memory_storage_port id) docs_env docs_database (docs_objects ''two'')
       basic_request ''a1'' None None ([], [])"
    by (auto simp: docs_route_def)
  from protected_bytes_need_proof[OF a(1,2) this] a(3) show ?thesis by auto
qed



definition docs_located :: located where
  "docs_located = \<lparr>lc_key = ''assets/a1/files/index.html'',
     lc_file = \<lparr>sf_body = [''abcdef''], sf_size = 6, sf_contentType = ''text/html'', sf_contentEncoding = None,
       sf_etag = Some ''e'', sf_range = None\<rparr>,
     lc_contentType = ''text/html'', lc_contentEncoding = None, lc_displayName = ''index.html'', lc_originalSize = None\<rparr>"

definition docs_options :: serve_options where
  "docs_options = \<lparr>sv_range = Some (1, 3), sv_rangeHeader = Some ''bytes=1-3'', sv_clientAcceptsGzip = False,
     sv_ifNoneMatch = None, sv_cacheControl = ENTRY_CACHE_CONTROL\<rparr>"

lemma revalidated_with_304_witness:
  "dv_status (serveFile (memory_storage_port id) (docs_objects ''abcdef'') docs_env docs_located
     (docs_options\<lparr>sv_ifNoneMatch := Some [CHR 0x22, CHR ''e'', CHR 0x22]\<rparr>)) = 304"
proof -
  have "map_of (dv_headers (serveFile (memory_storage_port id) (docs_objects ''abcdef'') docs_env docs_located docs_options)) ''etag''
      = Some [CHR 0x22, CHR ''e'', CHR 0x22]" by code_simp
  moreover have "CHR '','' \<notin> set [CHR 0x22, CHR ''e'', CHR 0x22]" "js_trim [CHR 0x22, CHR ''e'', CHR 0x22] = [CHR 0x22, CHR ''e'', CHR 0x22]"
    by code_simp+
  ultimately show ?thesis using revalidated_with_304[OF refl] by fastforce
qed

lemma memory_range_served_witness:
  "dv_body (serveFile (memory_storage_port id) (docs_objects ''abcdef'') docs_env docs_located docs_options) = Ends [''bcd'']"
proof -
  have "map_of (ms_objects (docs_objects ''abcdef'')) (lc_key docs_located) =
      Some \<lparr>so_data = ''abcdef'', so_contentType = ''text/html'', so_contentEncoding = None, so_etag = ''e''\<rparr>"
    by (simp add: docs_objects_def docs_located_def)
  from memory_range_served[OF this, of docs_options 1 3 id docs_env] show ?thesis
    by (simp add: docs_located_def docs_options_def)
qed

section \<open>What a rewrite reaches\<close>

definition exposed_asset :: asset where
  \<comment> \<open>a public site with the rule \<open>/rules /_headers 200\<close>\<close>
  "exposed_asset = site_asset\<lparr>a_hosting := Some \<lparr>sh_headers = [], sh_redirects =
     [\<lparr>rr_from = ''/rules'', rr_to = ''/_headers'', rr_status = 200, rr_force = True\<rparr>], sh_warnings = []\<rparr>\<rparr>"

definition exposed_objects :: memory_storage where
  "exposed_objects = \<lparr>ms_objects = [(''assets/a1/files/_headers'',
     \<lparr>so_data = ''/*'', so_contentType = ''text/plain'', so_contentEncoding = None, so_etag = ''e''\<rparr>)],
     ms_usedBytes = 2, ms_capacityBytes = 100\<rparr>"

text \<open>
  The control files are answered as a miss at their own paths only: a rewrite rule that names one
  as its target serves it.
\<close>

lemma control_file_through_rewrite:
  "dv_status (deliver (memory_storage_port id) exposed_objects docs_env basic_request ''a1'' ''_headers'' NoThumb
     exposed_asset None False) = 404
   \<and> dv_status (deliver (memory_storage_port id) exposed_objects docs_env basic_request ''a1'' ''rules'' NoThumb
     exposed_asset None False) = 200"
  by code_simp

end
