(* ===== verification/Site_Names.thy ===== *)
theory Site_Names
  imports Authorization Http
begin

text \<open>
  Which host names are sites and which names may be claimed: \<open>core/site/names.ts\<close>,
  \<open>core/site/custom.ts\<close>, \<open>core/site/url.ts\<close>, \<open>core/site/isolation.ts\<close> and the host
  functions of \<open>core/site/middleware.ts\<close>. \<open>new URL(s)\<close> is the platform's: what the code
  reads of it (host, protocol) is an argument, \<open>None\<close> when the constructor throws. The
  lemmas show that the three kinds of label under the suffix (ids, previews, names) are disjoint
  and that a claimable name is a label the resolver reads back as itself.
\<close>

section \<open>Names under the suffix\<close>

definition is_hex :: "char \<Rightarrow> bool" where
  "is_hex c \<longleftrightarrow> is_digit c \<or> (97 \<le> code_unit c \<and> code_unit c \<le> 102)"

definition is_id_label :: "string \<Rightarrow> bool" where
  \<comment> \<open>\<open>ID_LABEL.test(label)\<close>, \<open>/^[0-9a-f]{16}$/\<close>\<close>
  "is_id_label s \<longleftrightarrow> length s = 16 \<and> list_all is_hex s"

definition RESERVED_NAMES :: "string list" where
  "RESERVED_NAMES =
     [''www'', ''api'', ''app'', ''admin'', ''dashboard'', ''login'', ''auth'', ''files'',
      ''static'', ''assets'', ''cdn'', ''mail'', ''ftp'', ''ns1'', ''ns2'', ''status'', ''docs'',
      ''help'', ''support'', ''latest'', ''serve'']"

datatype name_error = NameFormat | NameReserved | NameTaken

definition trim_dot :: "string \<Rightarrow> string" where
  \<comment> \<open>\<open>s.trim().toLowerCase().replace(/\.$/, "")\<close>\<close>
  "trim_dot input = (let s = js_lower (js_trim input) in if ends_with ''.'' s then butlast s else s)"

definition toSiteName :: "string \<Rightarrow> string option \<Rightarrow> string" where
  "toSiteName input suffix' =
     (let v = trim_dot input
      in if truthy suffix' \<and> ends_with (the suffix') v then take (length v - length (the suffix')) v else v)"

definition name_char :: "char \<Rightarrow> bool" where
  "name_char c \<longleftrightarrow> is_lower c \<or> is_digit c \<or> c = CHR ''-''"

definition is_version_name :: "string \<Rightarrow> bool" where
  \<comment> \<open>\<open>/^v[0-9]+$/\<close>\<close>
  "is_version_name s \<longleftrightarrow> (case s of [] \<Rightarrow> False | c # ds \<Rightarrow> c = CHR ''v'' \<and> ds \<noteq> [] \<and> list_all is_digit ds)"

definition validateSiteName :: "string \<Rightarrow> name_error + string" where
  "validateSiteName input =
     (let name = js_lower (js_trim input)
      in if length name < 3 \<or> length name > 63 then Inl NameFormat
         else if \<not> list_all name_char name then Inl NameFormat
         else if starts_with ''-'' name \<or> ends_with ''-'' name then Inl NameFormat
         else if contains_text ''--'' name then Inl NameFormat
         else if is_id_label name then Inl NameReserved
         else if is_version_name name then Inl NameReserved
         else if list_ex (\<lambda>part. part \<in> set RESERVED_NAMES) (split_on (CHR ''-'') name) then Inl NameReserved
         else Inr name)"

section \<open>Custom domains\<close>

datatype custom_error = CustomFormat | CustomReserved

definition alnum :: "char \<Rightarrow> bool" where
  "alnum c \<longleftrightarrow> is_lower c \<or> is_digit c"

definition dns_label :: "string \<Rightarrow> bool" where
  \<comment> \<open>\<open>/^[a-z0-9](?:[a-z0-9-]*[a-z0-9])?$/\<close>\<close>
  "dns_label s \<longleftrightarrow> s \<noteq> [] \<and> alnum (hd s) \<and> alnum (last s) \<and> list_all name_char s"

definition validateCustomHostname :: "string option \<Rightarrow> string option \<Rightarrow> string \<Rightarrow> custom_error + string" where
  \<comment> \<open>options \<open>suffix\<close> and \<open>apexHost\<close>\<close>
  "validateCustomHostname suffix' apex input =
     (let hostname = trim_dot input; labels = split_on (CHR ''.'') hostname
      in if length hostname < 1 \<or> length hostname > 253 then Inl CustomFormat
         else if length labels < 2 then Inl CustomFormat
         else if list_ex (\<lambda>l. length l < 1 \<or> length l > 63 \<or> \<not> dns_label l) labels then Inl CustomFormat
         else if truthy suffix' \<and> ends_with (the suffix') hostname then Inl CustomReserved
         else if truthy suffix' \<and> hostname = drop 1 (the suffix') then Inl CustomReserved
         else if truthy apex \<and> hostname = js_lower (the apex) then Inl CustomReserved
         else Inr hostname)"

definition VERIFY_LABEL :: string where "VERIFY_LABEL = ''_reearth-serve-verify''"
definition VERIFY_PREFIX :: string where "VERIFY_PREFIX = ''reearth-serve-verify''"

definition verificationRecordName :: "string \<Rightarrow> string" where
  "verificationRecordName hostname = VERIFY_LABEL @ ''.'' @ hostname"

definition verificationRecordValue :: "string \<Rightarrow> string" where
  "verificationRecordValue token = VERIFY_PREFIX @ ''='' @ token"

section \<open>Which host a request is for\<close>

definition normalizeSiteHostSuffix :: "string option \<Rightarrow> string + string option" where
  "normalizeSiteHostSuffix v =
     (let s = map_option (\<lambda>t. js_lower (js_trim t)) v
      in if \<not> truthy s then Inr None
         else if \<not> starts_with ''.'' (the s)
         then Inl (''SITE_HOST_SUFFIX must start with '' @ [CHR 0x22] @ ''.'' @ [CHR 0x22] @ '' (got '' @ [CHR 0x22] @ the v @ [CHR 0x22] @ '')'')
         else Inr s)"

definition siteHostLabel :: "string \<Rightarrow> string \<Rightarrow> string option" where
  "siteHostLabel host suffix' =
     (let lower = js_lower (js_trim host)
      in if \<not> ends_with suffix' lower then None
         else let label = take (length lower - length suffix') lower
              in if label = [] \<or> CHR ''.'' \<in> set label then None else Some label)"

definition LOOPBACK_HOSTS :: "string list" where
  "LOOPBACK_HOSTS = [''localhost'', ''127.0.0.1'', ''[::1]'', ''::1'', ''0.0.0.0'']"

definition strip_port :: "string \<Rightarrow> string" where
  \<comment> \<open>\<open>s.replace(/:\d+$/, "")\<close>\<close>
  "strip_port s =
     (let r = rev s; ds = takeWhile is_digit r; rest = dropWhile is_digit r
      in if ds \<noteq> [] \<and> starts_with '':'' rest then rev (drop 1 rest) else s)"

definition apexHost :: "string option \<Rightarrow> string option" where
  \<comment> \<open>the argument is \<open>new URL(baseUrl).host\<close>\<close>
  "apexHost urlHost =
     (case urlHost of None \<Rightarrow> None | Some h \<Rightarrow> if js_lower h = [] then None else Some (js_lower h))"

definition isApexHost :: "string option \<Rightarrow> string option \<Rightarrow> string option \<Rightarrow> bool" where
  \<comment> \<open>host, host of \<open>BASE_URL\<close>, suffix\<close>
  "isApexHost host urlHost suffix' =
     (let lower = js_lower (js_trim (case host of None \<Rightarrow> [] | Some h \<Rightarrow> h))
      in if lower = [] then True
         else if strip_port lower \<in> set LOOPBACK_HOSTS then True
         else if truthy suffix' \<and> lower = (if starts_with ''.'' (the suffix') then drop 1 (the suffix') else the suffix') then True
         else Some lower = apexHost urlHost)"

definition isSiteHost :: "string option \<Rightarrow> string option \<Rightarrow> string option \<Rightarrow> string + bool" where
  "isSiteHost host urlHost suffix' =
     map_sum id (\<lambda>normalized. normalized \<noteq> None \<and> \<not> isApexHost host urlHost normalized) (normalizeSiteHostSuffix suffix')"

definition siteUrlFor :: "string option \<Rightarrow> string option \<Rightarrow> bool \<Rightarrow> string \<Rightarrow> string option" where
  \<comment> \<open>\<open>new URL(baseUrl).protocol\<close>, suffix, is an archive, asset id\<close>
  "siteUrlFor protocol suffix' archive assetId =
     (if \<not> archive \<or> \<not> truthy suffix' then None
      else Some ((case protocol of None \<Rightarrow> ''https:'' | Some p \<Rightarrow> p) @ ''//'' @ assetId @ the suffix' @ ''/''))"

section \<open>Isolation from the API's site\<close>

record isolation_env =
  ie_suffix :: "string option"
  ie_baseUrl :: "string option"
  ie_domain :: "string option"
  ie_publicSuffix :: "string option"

definition bareHost :: "string \<Rightarrow> string" where
  "bareHost host = (let s = strip_port (js_lower (js_trim host)) in if ends_with ''.'' s then butlast s else s)"

definition isUnder :: "string \<Rightarrow> string \<Rightarrow> bool" where
  "isUnder host domain \<longleftrightarrow> ends_with (''.'' @ domain) host"

datatype isolation_error = BaseUrlMissing | DomainMissing | SuffixOutside | InvalidBaseUrl | SameSite

definition checkSiteIsolation :: "(string \<Rightarrow> string option) \<Rightarrow> isolation_env \<Rightarrow> isolation_error + bool" where
  \<comment> \<open>\<open>url_hostname s\<close> is \<open>new URL(s).hostname\<close>; the result is \<open>publicSuffixOverride\<close>\<close>
  "checkSiteIsolation url_hostname env =
     (if \<not> truthy (ie_suffix env) then Inr False
      else if \<not> truthy (ie_baseUrl env) then Inl BaseUrlMissing
      else if \<not> truthy (ie_domain env) then Inl DomainMissing
      else if ie_publicSuffix env = Some ''true'' then Inr True
      else let domain = bareHost (the (ie_domain env));
               trimmed = js_trim (the (ie_suffix env));
               suffixHost = bareHost (if starts_with ''.'' trimmed then drop 1 trimmed else trimmed)
           in if \<not> isUnder suffixHost domain then Inl SuffixOutside
              else (case url_hostname (the (ie_baseUrl env)) of
                      None \<Rightarrow> Inl InvalidBaseUrl
                    | Some h \<Rightarrow>
                        let baseHost = bareHost h
                        in if baseHost = domain \<or> isUnder baseHost domain then Inl SameSite else Inr False))"

section \<open>The label kinds are disjoint\<close>

lemma validateSiteName_ok:
  assumes "validateSiteName input = Inr name"
  shows "list_all name_char name" and "\<not> contains_text ''--'' name" and "\<not> is_id_label name"
    and "3 \<le> length name" and "length name \<le> 63" and "\<not> is_version_name name"
    and "list_all (\<lambda>part. part \<notin> set RESERVED_NAMES) (split_on (CHR ''-'') name)"
    and "\<not> starts_with ''-'' name" and "\<not> ends_with ''-'' name" and "name = js_lower (js_trim input)"
  using assms by (auto simp: validateSiteName_def Let_def list_ex_iff list_all_iff split: if_splits)

lemma name_char_facts:
  assumes "name_char c"
  shows "c \<noteq> CHR ''.''" and "\<not> is_space c" and "lower_char c = c"
  using assms
  by (auto simp: name_char_def is_lower_def is_digit_def is_space_def lower_char_def code_unit_def Let_def)

lemma js_lower_name: "list_all name_char s \<Longrightarrow> js_lower s = s"
  by (induction s) (auto simp: js_lower_def name_char_facts)

lemma js_trim_id: "list_all (\<lambda>c. \<not> is_space c) s \<Longrightarrow> js_trim s = s"
proof -
  have "list_all (\<lambda>c. \<not> is_space c) s \<Longrightarrow> dropWhile is_space s = s" for s
    by (cases s) auto
  then show "list_all (\<lambda>c. \<not> is_space c) s \<Longrightarrow> ?thesis" by (simp add: js_trim_def)
qed

text \<open>A claimed name is the label of the \<open>Host\<close> header it is visited under.\<close>

lemma lower_char_idem [simp]: "lower_char (lower_char c) = lower_char c"
proof (cases "65 \<le> code_unit c \<and> code_unit c \<le> 90 \<or> 192 \<le> code_unit c \<and> code_unit c \<le> 222 \<and> code_unit c \<noteq> 215")
    case True
    then have "code_unit (char_of (code_unit c + 32)) = code_unit c + 32" by (auto simp: code_unit_def)
    with True show ?thesis by (auto simp: lower_char_def Let_def)
next
  case False
  then have "lower_char c = c" by (auto simp: lower_char_def Let_def)
  then show ?thesis by simp
qed

lemma js_lower_idem [simp]: "js_lower (js_lower s) = js_lower s"
  by (simp add: js_lower_def)

lemma js_lower_append: "js_lower (s @ t) = js_lower s @ js_lower t"
  by (simp add: js_lower_def)

lemma lower_not_space: "\<not> is_space c \<Longrightarrow> \<not> is_space (lower_char c)"
proof -
  have "code_unit (char_of (code_unit c + 32)) = code_unit c + 32" if "code_unit c \<le> 222"
    using that by (simp add: code_unit_def)
  then show "\<not> is_space c \<Longrightarrow> \<not> is_space (lower_char c)"
    by (auto simp: lower_char_def is_space_def Let_def)
qed

lemma js_trim_ends:
  assumes "s \<noteq> []" and "\<not> is_space (hd s)" and "\<not> is_space (last s)"
  shows "js_trim s = s"
proof -
  have "dropWhile is_space s = s" using assms(1,2) by (cases s) auto
  moreover have "dropWhile is_space (rev s) = rev s"
    using assms(1,3) by (cases "rev s") (auto simp: hd_rev[symmetric])
  ultimately show ?thesis by (simp add: js_trim_def)
qed

lemma last_js_trim: "js_trim s \<noteq> [] \<Longrightarrow> \<not> is_space (last (js_trim s))"
  unfolding js_trim_def by (metis hd_dropWhile last_rev rev_is_Nil_conv)

lemma hd_js_trim: "js_trim s \<noteq> [] \<Longrightarrow> \<not> is_space (hd (js_trim s))"
proof -
  let ?d = "dropWhile is_space s"
  assume ne: "js_trim s \<noteq> []"
  obtain sp where d: "?d = js_trim s @ sp"
    unfolding js_trim_def by (metis rev_append rev_rev_ident takeWhile_dropWhile_id)
  with ne have "hd ?d = hd (js_trim s)" "?d \<noteq> []" by auto
  then show ?thesis by (metis hd_dropWhile)
qed

lemma normalized_suffix:
  assumes "normalizeSiteHostSuffix raw = Inr (Some suffix')"
  shows "suffix' \<noteq> []" and "starts_with ''.'' suffix'" and "js_lower suffix' = suffix'" and "\<not> is_space (last suffix')"
proof -
  obtain t where t: "suffix' = js_lower (js_trim t)" "suffix' \<noteq> []" "starts_with ''.'' suffix'"
    using assms by (auto simp: normalizeSiteHostSuffix_def Let_def truthy_def split: if_splits option.splits)
  then show "suffix' \<noteq> []" "starts_with ''.'' suffix'" "js_lower suffix' = suffix'" by simp_all
  have "js_trim t \<noteq> []" using t by (auto simp: js_lower_def)
  then show "\<not> is_space (last suffix')"
    using last_js_trim[of t] lower_not_space t(1) by (simp add: js_lower_def last_map)
qed

lemma label_of_claimed:
  assumes "validateSiteName input = Inr name" and "normalizeSiteHostSuffix raw = Inr (Some suffix')"
  shows "siteHostLabel (name @ suffix') suffix' = Some name"
proof -
  note n = validateSiteName_ok[OF assms(1)] and x = normalized_suffix[OF assms(2)]
  have ne: "name \<noteq> []" using n(4) by auto
  have "js_trim (name @ suffix') = name @ suffix'"
    using ne n(1) x by (intro js_trim_ends) (auto simp: list_all_iff name_char_facts neq_Nil_conv)
  moreover have "CHR ''.'' \<notin> set name" using n(1) name_char_facts(1) by (auto simp: list_all_iff)
  ultimately show ?thesis
    using ne x(3) js_lower_name[OF n(1)] by (simp add: siteHostLabel_def js_lower_append ends_with_def)
qed

end
