(* ===== verification/Site_Hosts.thy ===== *)
theory Site_Hosts
  imports Site_Names Asset_Store Tenancy
begin

text \<open>
  Claiming, changing, verifying and releasing site names (\<open>core/site/usecase.ts\<close>), resolving
  a host to an asset through a short-lived cache (\<open>core/site/resolver.ts\<close>), and the HTTP
  handlers in front (\<open>core/site/handler.ts\<close>). The state is the database and the key-value
  store the cache lives in; a deployment without a cache is \<open>None\<close>. DNS and the certificate
  provisioner are outside services: functions of the dependencies record, \<open>Inl\<close> for a
  thrown error. Error messages are a datatype, one constructor per message.
\<close>

section \<open>Resolution\<close>

definition HOST_CACHE_TTL_SECONDS :: int where "HOST_CACHE_TTL_SECONDS = 60"

definition hostCacheKey :: "string \<Rightarrow> string" where
  "hostCacheKey hostname = ''host:'' @ hostname"

datatype cached_resolution = CachedAsset (cr_id: string) (cr_previews: bool) | CachedDisabled | CachedGone | CachedMiss

datatype site_target = TargetAsset string "string option" | TargetDisabled | TargetGone

datatype site_query = LabelQuery string | CustomQuery string

definition encode_resolution :: "cached_resolution \<Rightarrow> blob" where
  \<comment> \<open>\<open>JSON.stringify(value)\<close>, as the text parses back\<close>
  "encode_resolution r = Blob (JObj (case r of
       CachedAsset i p \<Rightarrow> [(''t'', JStr ''asset''), (''id'', JStr i), (''previews'', JBool p)]
     | CachedDisabled \<Rightarrow> [(''t'', JStr ''disabled'')]
     | CachedGone \<Rightarrow> [(''t'', JStr ''gone'')]
     | CachedMiss \<Rightarrow> [(''t'', JStr ''miss'')]))"

definition decode_resolution :: "json \<Rightarrow> cached_resolution" where
  \<comment> \<open>how the fields of a parsed entry are read; an unknown \<open>t\<close> answers as a miss\<close>
  "decode_resolution j =
     (case json_field j ''t'' of
        Some (JStr t) \<Rightarrow>
          if t = ''asset'' then CachedAsset (case json_field j ''id'' of Some (JStr i) \<Rightarrow> i | _ \<Rightarrow> [])
                                   (json_field j ''previews'' = Some (JBool True))
          else if t = ''disabled'' then CachedDisabled
          else if t = ''gone'' then CachedGone
          else CachedMiss
      | _ \<Rightarrow> CachedMiss)"

definition readCache :: "('k, blob) kv_port option \<Rightarrow> int \<Rightarrow> string \<Rightarrow> 'k \<Rightarrow> cached_resolution option \<times> 'k" where
  "readCache cache now key s =
     (case cache of
        None \<Rightarrow> (None, s)
      | Some kv \<Rightarrow>
          (case kv_get kv now key s of
             (Some (Blob j), s') \<Rightarrow> ((if j = JNull then None else Some (decode_resolution j)), s')
           | (_, s') \<Rightarrow> (None, s')))"

definition writeCache :: "('k, blob) kv_port option \<Rightarrow> int \<Rightarrow> string \<Rightarrow> cached_resolution \<Rightarrow> 'k \<Rightarrow> 'k" where
  "writeCache cache now key r s =
     (case cache of None \<Rightarrow> s
      | Some kv \<Rightarrow> kv_put kv now key (encode_resolution r) (Some HOST_CACHE_TTL_SECONDS) s)"

definition row_resolution :: "site_host option \<Rightarrow> cached_resolution" where
  "row_resolution row =
     (case row of
        None \<Rightarrow> CachedMiss
      | Some h \<Rightarrow>
          if sh_releasedAt h \<noteq> None \<or> sh_assetId h = None then CachedGone
          else if sh_disabledAt h \<noteq> None then CachedDisabled
          else if sh_kind h = Custom \<and> sh_verifiedAt h = None then CachedMiss
          else CachedAsset (the (sh_assetId h)) (sh_kind h = Subdomain \<and> sh_previews h))"

definition resolveRow ::
  "('k, blob) kv_port option \<Rightarrow> int \<Rightarrow> database \<Rightarrow> string \<Rightarrow> 'k \<Rightarrow> cached_resolution \<times> 'k" where
  "resolveRow cache now db hostname s =
     (case readCache cache now (hostCacheKey hostname) s of
        (Some cached, s') \<Rightarrow> (cached, s')
      | (None, s') \<Rightarrow>
          (let resolution = row_resolution (host_find hostname db)
           in (resolution, writeCache cache now (hostCacheKey hostname) resolution s')))"

definition fromCached :: "cached_resolution \<Rightarrow> site_target option" where
  "fromCached resolution =
     (case resolution of
        CachedAsset i _ \<Rightarrow> Some (TargetAsset i None)
      | CachedDisabled \<Rightarrow> Some TargetDisabled
      | CachedGone \<Rightarrow> Some TargetGone
      | CachedMiss \<Rightarrow> None)"

definition preview_version :: "string \<Rightarrow> nat option" where
  \<comment> \<open>\<open>/^v([1-9][0-9]*)$/\<close>\<close>
  "preview_version left =
     (case left of
        v # d # ds \<Rightarrow>
          if v = CHR ''v'' \<and> is_digit d \<and> d \<noteq> CHR ''0'' \<and> list_all is_digit ds
          then Some (nat (foldl (\<lambda>n c. 10 * n + (int (code_unit c) - 48)) 0 (d # ds))) else None
      | _ \<Rightarrow> None)"

definition preview_target :: "database \<Rightarrow> string \<Rightarrow> cached_resolution \<Rightarrow> site_target option" where
  \<comment> \<open>the part of \<open>resolvePreview\<close> after the row is known\<close>
  "preview_target db left resolution =
     (case resolution of
        CachedAsset i previews \<Rightarrow>
          if \<not> previews then None
          else (case preview_version left of
                  Some n \<Rightarrow> map_option (\<lambda>v. TargetAsset (v_id v) (Some ''pinned'')) (version_findByAssetAndNumber i n db)
                | None \<Rightarrow> map_option (\<lambda>v. TargetAsset (v_id v) (Some ''latest'')) (version_findLatest i db))
      | other \<Rightarrow> fromCached other)"

definition resolvePreview ::
  "('k, blob) kv_port option \<Rightarrow> int \<Rightarrow> database \<Rightarrow> string \<Rightarrow> string \<Rightarrow> string \<Rightarrow> 'k \<Rightarrow> site_target option \<times> 'k" where
  "resolvePreview cache now db suffix' left name s =
     (if preview_version left = None \<and> left \<noteq> ''latest'' then (None, s)
      else (case resolveRow cache now db (name @ suffix') s of
              (resolution, s') \<Rightarrow> (preview_target db left resolution, s')))"

definition resolveNamed ::
  "('k, blob) kv_port option \<Rightarrow> int \<Rightarrow> database \<Rightarrow> string \<Rightarrow> 'k \<Rightarrow> site_target option \<times> 'k" where
  "resolveNamed cache now db hostname s =
     (case resolveRow cache now db hostname s of (resolution, s') \<Rightarrow> (fromCached resolution, s'))"

definition composeSiteHostResolver ::
  "('k, blob) kv_port option \<Rightarrow> int \<Rightarrow> database \<Rightarrow> string \<Rightarrow> site_query \<Rightarrow> 'k \<Rightarrow> site_target option \<times> 'k" where
  "composeSiteHostResolver cache now db suffix' query s =
     (case query of
        CustomQuery hostname \<Rightarrow> resolveNamed cache now db hostname s
      | LabelQuery label \<Rightarrow>
          if is_id_label label then (Some (TargetAsset label None), s)
          else (case index_of ''--'' label of
                  Some i \<Rightarrow> resolvePreview cache now db suffix' (take i label) (drop (i + 2) label) s
                | None \<Rightarrow> resolveNamed cache now db (label @ suffix') s))"

section \<open>Use cases\<close>

definition SITE_HOST_QUOTA :: nat where "SITE_HOST_QUOTA = 20"
definition RELEASE_COOLDOWN_MS :: int where "RELEASE_COOLDOWN_MS = 30 * 24 * 60 * 60 * 1000"
definition VERIFY_ATTEMPT_LIMIT :: int where "VERIFY_ATTEMPT_LIMIT = 10"
definition VERIFY_ATTEMPT_WINDOW_SECONDS :: int where "VERIFY_ATTEMPT_WINDOW_SECONDS = 60 * 60"

datatype site_error =
    NotEnabled | ProjectRequired | ArchiveRequired | QuotaReached | NameReleased
  | BadName name_error | BadCustom custom_error | OnCooldown int
  | HostNotFound | NotCustom | Unverified | PreviewsOnCustom | VerifyRateLimited

type_synonym site_failure = "nat \<times> site_error"

record provisioner =
  pr_provision :: "string \<Rightarrow> string + string"
  pr_status :: "string \<Rightarrow> string + string"

record site_deps =
  sd_suffix :: "string option"
  sd_baseHost :: "string option"
    \<comment> \<open>\<open>new URL(baseUrl ?? "").host\<close>\<close>
  sd_dns :: "(string \<Rightarrow> string list) option"
  sd_provisioner :: "provisioner option"
  sd_fallbackOrigin :: "string option"

definition cnameTarget :: "site_deps \<Rightarrow> string" where
  "cnameTarget deps =
     (if truthy (sd_fallbackOrigin deps) then the (sd_fallbackOrigin deps)
      else case apexHost (sd_baseHost deps) of Some h \<Rightarrow> h | None \<Rightarrow> [])"

definition dropCache :: "('k, blob) kv_port option \<Rightarrow> string list \<Rightarrow> 'k \<Rightarrow> 'k" where
  "dropCache cache hostnames s =
     (case cache of None \<Rightarrow> s | Some kv \<Rightarrow> fold (\<lambda>h. kv_delete kv (hostCacheKey h)) hostnames s)"

definition toFullHost :: "string \<Rightarrow> string option \<Rightarrow> string" where
  "toFullHost hostname suffix' =
     (let name = toSiteName hostname suffix'
      in if truthy suffix' \<and> CHR ''.'' \<notin> set name then name @ the suffix' else name)"

definition claimed_hostname :: "site_deps \<Rightarrow> site_host_kind \<Rightarrow> string \<Rightarrow> site_error + string" where
  \<comment> \<open>the validation step of \<open>claimSiteHost\<close>\<close>
  "claimed_hostname deps kind hostname =
     (case kind of
        Custom \<Rightarrow> map_sum BadCustom id (validateCustomHostname (sd_suffix deps) (apexHost (sd_baseHost deps)) hostname)
      | Subdomain \<Rightarrow> map_sum BadName (\<lambda>name. name @ the (sd_suffix deps))
          (validateSiteName (toSiteName hostname (sd_suffix deps))))"

definition free_hostname :: "int \<Rightarrow> string \<Rightarrow> database \<Rightarrow> site_error + database" where
  \<comment> \<open>the look at the existing row: taken, on cooldown, or removed because its cooldown is served\<close>
  "free_hostname now hostname db =
     (case host_find hostname db of
        None \<Rightarrow> Inr db
      | Some existing \<Rightarrow>
          (case sh_releasedAt existing of
             None \<Rightarrow> Inl (BadName NameTaken)
           | Some releasedAt \<Rightarrow>
               if now < releasedAt + RELEASE_COOLDOWN_MS then Inl (OnCooldown (releasedAt + RELEASE_COOLDOWN_MS))
               else Inr (host_remove hostname db)))"

definition claimSiteHost ::
  "('k, blob) kv_port option \<Rightarrow> site_deps \<Rightarrow> int \<Rightarrow> string \<Rightarrow> asset \<Rightarrow> string \<Rightarrow> site_host_kind \<Rightarrow> string option
   \<Rightarrow> database \<times> 'k \<Rightarrow> (site_failure + site_host) \<times> database \<times> 'k" where
  \<comment> \<open>\<open>token\<close> is \<open>newVerificationToken()\<close>\<close>
  "claimSiteHost cache deps now token asset hostname0 kind userId st =
     (let (db, s) = st
      in if \<not> truthy (sd_suffix deps) then (Inl (503, NotEnabled), st)
         else if \<not> truthy (a_projectId asset) then (Inl (400, ProjectRequired), st)
         else if a_type asset \<noteq> Some TypeArchive then (Inl (400, ArchiveRequired), st)
         else (case claimed_hostname deps kind hostname0 of
           Inl e \<Rightarrow> (Inl (400, e), st)
         | Inr hostname \<Rightarrow>
             (case free_hostname now hostname db of
                Inl e \<Rightarrow> (Inl (400, e), st)
              | Inr db1 \<Rightarrow>
                  if host_countActiveByProject (the (a_projectId asset)) db1 \<ge> SITE_HOST_QUOTA
                  then (Inl (400, QuotaReached), db1, s)
                  else let host = \<lparr>sh_hostname = hostname, sh_assetId = Some (a_id asset),
                             sh_projectId = the (a_projectId asset), sh_kind = kind, sh_verifiedAt = None,
                             sh_verificationToken = (if kind = Custom then Some token else None),
                             sh_certificateStatus = None, sh_disabledAt = None, sh_previews = False,
                             sh_releasedAt = None, sh_createdAt = now, sh_createdBy = userId\<rparr>
                       in (case host_insert host db1 of
                             (False, db2) \<Rightarrow> (Inl (400, BadName NameTaken), db2, s)
                           | (True, db2) \<Rightarrow> (Inr host, db2, dropCache cache [hostname] s)))))"

definition updateSiteHost ::
  "('k, blob) kv_port option \<Rightarrow> site_deps \<Rightarrow> int \<Rightarrow> string \<Rightarrow> string option \<Rightarrow> string \<Rightarrow> bool option \<Rightarrow> bool option
   \<Rightarrow> database \<times> 'k \<Rightarrow> (site_failure + site_host) \<times> database \<times> 'k" where
  "updateSiteHost cache deps now assetId projectId hostname0 disabled previews st =
     (let (db, s) = st; hostname = toFullHost hostname0 (sd_suffix deps)
      in case host_find hostname db of
           None \<Rightarrow> (Inl (404, HostNotFound), st)
         | Some existing \<Rightarrow>
             if sh_releasedAt existing \<noteq> None
             then (Inl (if Some (sh_projectId existing) = projectId then (409, NameReleased) else (404, HostNotFound)), st)
             else if sh_assetId existing \<noteq> Some assetId then (Inl (404, HostNotFound), st)
             else if previews = Some True \<and> sh_kind existing = Custom then (Inl (400, PreviewsOnCustom), st)
             else let patch = \<lparr>hp_disabledAt = map_option (\<lambda>d. if d then Some now else None) disabled,
                        hp_previews = previews, hp_verifiedAt = None, hp_certificateStatus = None\<rparr>
                  in (Inr (patch_host patch existing), host_update hostname patch db, dropCache cache [hostname] s))"

definition releaseSiteHost ::
  "('k, blob) kv_port option \<Rightarrow> site_deps \<Rightarrow> int \<Rightarrow> string \<Rightarrow> string \<Rightarrow> database \<times> 'k
   \<Rightarrow> (site_failure + unit) \<times> database \<times> 'k" where
  \<comment> \<open>the best-effort \<open>deprovision\<close> of a verified custom domain changes no state here\<close>
  "releaseSiteHost cache deps now assetId hostname0 st =
     (let (db, s) = st; hostname = toFullHost hostname0 (sd_suffix deps)
      in case host_find hostname db of
           None \<Rightarrow> (Inl (404, HostNotFound), st)
         | Some existing \<Rightarrow>
             if sh_releasedAt existing \<noteq> None \<or> sh_assetId existing \<noteq> Some assetId
             then (Inl (404, HostNotFound), st)
             else (Inr (), host_release hostname now db, dropCache cache [hostname] s))"

definition certificate_patch :: "string option \<Rightarrow> site_host_patch" where
  "certificate_patch status =
     \<lparr>hp_disabledAt = None, hp_previews = None, hp_verifiedAt = None, hp_certificateStatus = Some status\<rparr>"

definition refreshCertificateStatus :: "site_deps \<Rightarrow> site_host \<Rightarrow> database \<Rightarrow> site_host \<times> database" where
  "refreshCertificateStatus deps host db =
     (case sd_provisioner deps of
        None \<Rightarrow> (host, db)
      | Some p \<Rightarrow>
          if sh_kind host \<noteq> Custom \<or> sh_verifiedAt host = None then (host, db)
          else if sh_certificateStatus host = Some ''active'' then (host, db)
          else (case pr_status p (sh_hostname host) of
                  Inl _ \<Rightarrow> (host, db)
                | Inr status \<Rightarrow>
                    if Some status = sh_certificateStatus host then (host, db)
                    else (host\<lparr>sh_certificateStatus := Some status\<rparr>,
                          host_update (sh_hostname host) (certificate_patch (Some status)) db)))"

definition provisionCertificate :: "site_deps \<Rightarrow> string \<Rightarrow> string option" where
  "provisionCertificate deps hostname =
     (case sd_provisioner deps of
        None \<Rightarrow> None
      | Some p \<Rightarrow> (case pr_provision p hostname of Inl _ \<Rightarrow> Some ''pending'' | Inr status \<Rightarrow> Some status))"

definition takeVerifyAttempt :: "('k, blob) kv_port option \<Rightarrow> int \<Rightarrow> string \<Rightarrow> int \<Rightarrow> 'k \<Rightarrow> bool \<times> 'k" where
  \<comment> \<open>the stored text is a number, which \<open>JSON.parse\<close> and \<open>parseInt\<close> read alike\<close>
  "takeVerifyAttempt cache now hostname limit s =
     (case cache of
        None \<Rightarrow> (True, s)
      | Some kv \<Rightarrow>
          (let key = ''verify-attempts:'' @ hostname; (stored, s1) = kv_get kv now key s;
               count = (case stored of Some (Blob (JNum n)) \<Rightarrow> n | _ \<Rightarrow> 0)
           in if count \<ge> limit then (False, s1)
              else (True, kv_put kv now key (Blob (JNum (count + 1))) (Some VERIFY_ATTEMPT_WINDOW_SECONDS) s1)))"

definition verifySiteHost ::
  "('k, blob) kv_port option \<Rightarrow> site_deps \<Rightarrow> int \<Rightarrow> string \<Rightarrow> string \<Rightarrow> database \<times> 'k
   \<Rightarrow> (site_failure + site_host) \<times> database \<times> 'k" where
  "verifySiteHost cache deps now assetId hostname0 st =
     (let (db, s) = st; hostname = toFullHost hostname0 (sd_suffix deps)
      in case host_find hostname db of
           None \<Rightarrow> (Inl (404, HostNotFound), st)
         | Some existing \<Rightarrow>
             if sh_releasedAt existing \<noteq> None \<or> sh_assetId existing \<noteq> Some assetId then (Inl (404, HostNotFound), st)
             else if sh_kind existing \<noteq> Custom then (Inl (400, NotCustom), st)
             else (case takeVerifyAttempt cache now hostname VERIFY_ATTEMPT_LIMIT s of
                (False, s1) \<Rightarrow> (Inl (429, VerifyRateLimited), db, s1)
              | (True, s1) \<Rightarrow>
                  if sh_verifiedAt existing \<noteq> None
                  then (case refreshCertificateStatus deps existing db of (host, db') \<Rightarrow> (Inr host, db', s1))
                  else let expected = verificationRecordValue (case sh_verificationToken existing of None \<Rightarrow> [] | Some t \<Rightarrow> t);
                           records = (case sd_dns deps of None \<Rightarrow> [] | Some lookup \<Rightarrow> lookup (verificationRecordName hostname))
                       in if \<not> list_ex (\<lambda>r. js_trim r = expected) records then (Inl (409, Unverified), db, s1)
                          else let certificateStatus = provisionCertificate deps hostname;
                                   patch = \<lparr>hp_disabledAt = None, hp_previews = None, hp_verifiedAt = Some (Some now),
                                     hp_certificateStatus = Some certificateStatus\<rparr>
                               in (Inr (existing\<lparr>sh_verifiedAt := Some now, sh_certificateStatus := certificateStatus\<rparr>),
                                   host_update hostname patch db, dropCache cache [hostname] s1)))"

definition releaseAssetSiteHosts ::
  "('k, blob) kv_port option \<Rightarrow> string \<Rightarrow> int \<Rightarrow> database \<times> 'k \<Rightarrow> string list \<times> database \<times> 'k" where
  "releaseAssetSiteHosts cache assetId now st =
     (let (db, s) = st; (released, db') = host_releaseByAsset assetId now db
      in (released, db', dropCache cache released s))"

definition getAssetSiteHost :: "site_deps \<Rightarrow> string \<Rightarrow> string \<Rightarrow> database \<Rightarrow> site_host option" where
  "getAssetSiteHost deps assetId hostname db =
     (case host_find (toFullHost hostname (sd_suffix deps)) db of
        None \<Rightarrow> None
      | Some host \<Rightarrow> if sh_releasedAt host \<noteq> None \<or> sh_assetId host \<noteq> Some assetId then None else Some host)"

definition purgeReleasedSiteHosts ::
  "('k, blob) kv_port option \<Rightarrow> int \<Rightarrow> nat option \<Rightarrow> database \<times> 'k \<Rightarrow> string list \<times> database \<times> 'k" where
  "purgeReleasedSiteHosts cache now limit st =
     (let (db, s) = st;
          (purged, db') = host_purgeReleasedBefore (now - RELEASE_COOLDOWN_MS) (case limit of None \<Rightarrow> 100 | Some l \<Rightarrow> l) db
      in (purged, db', dropCache cache purged s))"

definition siteHostUrl :: "string option \<Rightarrow> string \<Rightarrow> string" where
  \<comment> \<open>\<open>new URL(baseUrl).protocol\<close> and the host name\<close>
  "siteHostUrl protocol hostname = (case protocol of None \<Rightarrow> ''https:'' | Some p \<Rightarrow> p) @ ''//'' @ hostname @ ''/''"

end
