(* ===== verification/Site_Resolution.thy ===== *)
theory Site_Resolution
  imports Site_Hosts
begin

text \<open>
  The host cache and the table agree. \<open>site_event\<close> lists what can happen to a deployment's
  site names: a visit, each use case of \<open>core/site/usecase.ts\<close>, the passing of time, and any
  database write outside \<open>site_hosts\<close>. The locale \<open>host_cache\<close> is the cached resolver as
  a client of the key-value port: its invariant says that a cache entry a reader may still
  see is the resolution of the table's row (or, for a name whose served-cooldown row was removed
  by a claim that then failed, still \<open>gone\<close>). Both key-value stores interpret it. The second
  half follows single names: a claim goes live at once, a release answers \<open>gone\<close>, a custom
  domain needs its TXT record.
\<close>

section \<open>Reading and writing an entry\<close>

lemma decode_encode: "encode_resolution r = Blob j \<Longrightarrow> decode_resolution j = r"
  by (cases r) (auto simp: encode_resolution_def decode_resolution_def)

lemma encode_not_null [simp]: "encode_resolution r \<noteq> Blob JNull" "encode_resolution r \<noteq> Garbage"
  by (simp_all add: encode_resolution_def)

lemma encode_inject [simp]: "encode_resolution r = encode_resolution r' \<longleftrightarrow> r = r'"
  by (cases r; cases r') (auto simp: encode_resolution_def)

lemma encode_blob: obtains j where "encode_resolution r = Blob j" "j \<noteq> JNull" "decode_resolution j = r"
  using decode_encode[of r] encode_not_null[of r] by (metis blob.exhaust)

lemma hostCacheKey_inject [simp]: "hostCacheKey h = hostCacheKey h' \<longleftrightarrow> h = h'"
  by (simp add: hostCacheKey_def)

lemma attempts_key_other [simp]: "hostCacheKey h \<noteq> ''verify-attempts:'' @ x"
  by (simp add: hostCacheKey_def)

section \<open>What each write does to a row\<close>

lemma find_row_update:
  assumes "\<And>r. key (f r) = key r"
  shows "find_row key k (update_rows P f t) = map_option (\<lambda>r. if P r then f r else r) (find_row key k t)"
  using assms by (induction t) (auto simp: update_rows_def)

lemma host_find_update:
  "host_find h (host_update n p db) =
     map_option (\<lambda>r. if sh_hostname r = n \<and> host_active r then patch_host p r else r) (host_find h db)"
  unfolding host_find_def host_update_def by (simp add: find_row_update)

lemma host_find_name: "host_find h db = Some r \<Longrightarrow> sh_hostname r = h"
  unfolding host_find_def by (rule conjunct2[OF find_row_Some])

lemma host_find_update_other [simp]: "h \<noteq> n \<Longrightarrow> host_find h (host_update n p db) = host_find h db"
  using host_find_name[of h db] by (cases "host_find h db") (simp_all add: host_find_update)

lemma host_find_remove: "host_find h (host_remove n db) = (if h = n then None else host_find h db)"
  unfolding host_find_def host_remove_def by (simp add: find_delete_rows del: find_row_None)

lemma host_find_release:
  "host_find h (host_release n t db) =
     map_option (\<lambda>r. if sh_hostname r = n \<and> host_active r then r\<lparr>sh_releasedAt := Some t, sh_assetId := None\<rparr> else r)
       (host_find h db)"
  unfolding host_find_def host_release_def by (simp add: find_row_update)

lemma host_find_release_other [simp]: "h \<noteq> n \<Longrightarrow> host_find h (host_release n t db) = host_find h db"
  using host_find_name[of h db] by (cases "host_find h db") (simp_all add: host_find_release)

lemma host_find_insert_other:
  "h \<noteq> sh_hostname r \<Longrightarrow> host_find h (snd (host_insert r db)) = host_find h db"
  unfolding host_find_def host_insert_def
  by (cases "find_row sh_hostname h (db_hosts db)") (simp_all add: find_row_append del: find_row_None)

lemma host_find_releaseByAsset_other:
  assumes "h \<notin> set (fst (host_releaseByAsset a t db))"
  shows "host_find h (snd (host_releaseByAsset a t db)) = host_find h db"
proof -
  have "\<not> (sh_assetId r = Some a \<and> host_active r)" if "host_find h db = Some r" for r
    using assms that find_row_Some[of sh_hostname h "db_hosts db" r]
    by (auto simp: host_releaseByAsset_def host_find_def)
  moreover have "host_find h (snd (host_releaseByAsset a t db)) =
      map_option (\<lambda>r. if sh_assetId r = Some a \<and> host_active r
        then r\<lparr>sh_releasedAt := Some t, sh_assetId := None\<rparr> else r) (host_find h db)"
    unfolding host_find_def host_releaseByAsset_def by (simp add: find_row_update)
  ultimately show ?thesis by (cases "host_find h db") auto
qed

lemma find_row_delete_other:
  "\<forall>r \<in> set t. key r = k \<longrightarrow> \<not> P r \<Longrightarrow> find_row key k (delete_rows P t) = find_row key k t"
  by (induction t) (auto simp: delete_rows_def)

lemma host_find_purge_other:
  assumes "h \<notin> set (fst (host_purgeReleasedBefore b l db))"
  shows "host_find h (snd (host_purgeReleasedBefore b l db)) = host_find h db"
  using assms unfolding host_find_def host_purgeReleasedBefore_def Let_def
  by (auto intro!: find_row_delete_other)

lemma certificate_keeps_resolution:
  "row_resolution (host_find h (host_update n (certificate_patch s) db)) = row_resolution (host_find h db)"
  by (cases "host_find h db") (auto simp: host_find_update row_resolution_def certificate_patch_def patch_host_def)

lemma certificate_keeps_absence:
  "host_find h (host_update n (certificate_patch s) db) = None \<longleftrightarrow> host_find h db = None"
  by (simp add: host_find_update)

section \<open>What can happen\<close>

datatype site_event =
    Visit site_query
  | Claim site_deps asset string site_host_kind "string option" string
  | Switch site_deps string "string option" string "bool option" "bool option"
  | Release site_deps string string
  | Verify site_deps string string
  | Refresh site_deps string string
  | ReleaseAll string
  | Purge "nat option"
  | Wait nat
  | OtherWrite database

definition site_event_step ::
  "('k, blob) kv_port \<Rightarrow> string \<Rightarrow> site_event \<Rightarrow> int \<times> database \<times> 'k \<Rightarrow> int \<times> database \<times> 'k" where
  \<comment> \<open>the dependencies of a request are its own, but for the suffix, which the deployment fixes\<close>
  "site_event_step kv suffix' event st =
     (case st of (now, db, s) \<Rightarrow>
       (case event of
          Visit q \<Rightarrow> (now, db, snd (composeSiteHostResolver (Some kv) now db suffix' q s))
        | Claim deps asset name kind user token \<Rightarrow>
            (now, snd (claimSiteHost (Some kv) (deps\<lparr>sd_suffix := Some suffix'\<rparr>) now token asset name kind user (db, s)))
        | Switch deps asset project name disabled previews \<Rightarrow>
            (now, snd (updateSiteHost (Some kv) (deps\<lparr>sd_suffix := Some suffix'\<rparr>) now asset project name disabled previews (db, s)))
        | Release deps asset name \<Rightarrow>
            (now, snd (releaseSiteHost (Some kv) (deps\<lparr>sd_suffix := Some suffix'\<rparr>) now asset name (db, s)))
        | Verify deps asset name \<Rightarrow>
            (now, snd (verifySiteHost (Some kv) (deps\<lparr>sd_suffix := Some suffix'\<rparr>) now asset name (db, s)))
        | Refresh deps asset name \<Rightarrow>
            (case getAssetSiteHost (deps\<lparr>sd_suffix := Some suffix'\<rparr>) asset name db of
               None \<Rightarrow> st | Some host \<Rightarrow> (now, snd (refreshCertificateStatus deps host db), s))
        | ReleaseAll asset \<Rightarrow> (now, snd (releaseAssetSiteHosts (Some kv) asset now (db, s)))
        | Purge limit \<Rightarrow> (now, snd (purgeReleasedSiteHosts (Some kv) now limit (db, s)))
        | Wait n \<Rightarrow> (now + int n, db, s)
        | OtherWrite db' \<Rightarrow> if db_hosts db' = db_hosts db then (now, db', s) else st))"

definition site_run :: "('k, blob) kv_port \<Rightarrow> string \<Rightarrow> site_event list \<Rightarrow> int \<times> database \<times> 'k \<Rightarrow> int \<times> database \<times> 'k" where
  "site_run kv suffix' events st = fold (site_event_step kv suffix') events st"

definition table_preview :: "database \<Rightarrow> string \<Rightarrow> string \<Rightarrow> string \<Rightarrow> site_target option" where
  "table_preview db suffix' left name =
     (if preview_version left = None \<and> left \<noteq> ''latest'' then None
      else preview_target db left (row_resolution (host_find (name @ suffix') db)))"

definition table_resolver :: "database \<Rightarrow> string \<Rightarrow> site_query \<Rightarrow> site_target option" where
  \<comment> \<open>the specification: no cache, one look at the row\<close>
  "table_resolver db suffix' query =
     (case query of
        CustomQuery hostname \<Rightarrow> fromCached (row_resolution (host_find hostname db))
      | LabelQuery label \<Rightarrow>
          if is_id_label label then Some (TargetAsset label None)
          else (case index_of ''--'' label of
                  None \<Rightarrow> fromCached (row_resolution (host_find (label @ suffix') db))
                | Some i \<Rightarrow> table_preview db suffix' (take i label) (drop (i + 2) label)))"

section \<open>Cache and table\<close>

definition answers_table :: "database \<Rightarrow> string \<Rightarrow> cached_resolution \<Rightarrow> bool" where
  "answers_table db h r \<longleftrightarrow>
     r = row_resolution (host_find h db) \<or> (host_find h db = None \<and> r = CachedGone)"

lemma answers_table_cong:
  assumes "row_resolution (host_find h db') = row_resolution (host_find h db)"
    and "host_find h db' = None \<longleftrightarrow> host_find h db = None"
  shows "answers_table db' h r = answers_table db h r"
  using assms by (simp add: answers_table_def)

lemma free_hostname_cases:
  assumes "free_hostname now h db = Inr db1"
  shows "db1 = db \<or> (db1 = host_remove h db \<and> row_resolution (host_find h db) = CachedGone \<and> host_find h db \<noteq> None)"
  using assms by (auto simp: free_hostname_def row_resolution_def split: option.splits if_splits)

lemma free_hostname_answers:
  assumes "free_hostname now h db = Inr db1" and "answers_table db h' r"
  shows "answers_table db1 h' r"
  using free_hostname_cases[OF assms(1)]
proof
  assume "db1 = db"
  with assms(2) show ?thesis by simp
next
  assume *: "db1 = host_remove h db \<and> row_resolution (host_find h db) = CachedGone \<and> host_find h db \<noteq> None"
  then show ?thesis
    using assms(2) by (cases "h' = h") (auto simp: answers_table_def host_find_remove)
qed

locale host_cache = key_value_port kv contents invar
  for kv :: "('s, blob) kv_port" and contents and invar
begin

definition coherent :: "int \<Rightarrow> database \<Rightarrow> 's \<Rightarrow> bool" where
  "coherent now db s \<longleftrightarrow> invar s \<and>
     (\<forall>t h b. now \<le> t \<longrightarrow> visible t (contents s) (hostCacheKey h) = Some b \<longrightarrow>
        (\<exists>r. b = encode_resolution r \<and> answers_table db h r))"

lemma coherentD:
  "coherent now db s \<Longrightarrow> now \<le> t \<Longrightarrow> visible t (contents s) (hostCacheKey h) = Some b \<Longrightarrow>
   \<exists>r. b = encode_resolution r \<and> answers_table db h r"
  by (auto simp: coherent_def)

lemma coherent_invar: "coherent now db s \<Longrightarrow> invar s"
  by (simp add: coherent_def)

lemma coherent_wait:
  assumes "coherent now db s"
  shows "coherent (now + int n) db s"
proof -
  have "now \<le> t" if "now + int n \<le> t" for t using that by linarith
  then show ?thesis using assms unfolding coherent_def by blast
qed

lemma coherent_get: "coherent now db s \<Longrightarrow> coherent now db (snd (kv_get kv now k s))"
  by (auto simp: coherent_def get_frame get_invar)

lemma coherent_put_other:
  assumes "coherent now db s" and "\<And>h. hostCacheKey h \<noteq> k"
  shows "coherent now db (kv_put kv now k v ttl s)"
proof -
  have "visible t (contents (kv_put kv now k v ttl s)) (hostCacheKey h) = visible t (contents s) (hostCacheKey h)" for t h
    using assms by (simp add: coherent_invar put_contents visible_def)
  then show ?thesis using assms(1) by (simp add: coherent_def put_invar)
qed

lemma coherent_put_row:
  assumes "coherent now db s" and "answers_table db h r"
  shows "coherent now db (kv_put kv now (hostCacheKey h) (encode_resolution r) ttl s)"
  unfolding coherent_def
proof (intro conjI allI impI)
  show "invar (kv_put kv now (hostCacheKey h) (encode_resolution r) ttl s)"
    using assms(1) by (simp add: coherent_invar put_invar)
next
  fix t h' b
  assume t: "now \<le> t" and v: "visible t (contents (kv_put kv now (hostCacheKey h) (encode_resolution r) ttl s)) (hostCacheKey h') = Some b"
  show "\<exists>r. b = encode_resolution r \<and> answers_table db h' r"
  proof (cases "h' = h")
    case True
    with v assms show ?thesis
      by (auto simp: coherent_invar put_contents visible_def split: if_splits)
  next
    case False
    with v have "visible t (contents s) (hostCacheKey h') = Some b"
      using assms(1) by (simp add: coherent_invar put_contents visible_def)
    then show ?thesis using coherentD[OF assms(1) t] by blast
  qed
qed

lemma coherent_cong:
  assumes "coherent now db s" and "\<And>h r. answers_table db h r \<Longrightarrow> answers_table db' h r"
  shows "coherent now db' s"
  using assms unfolding coherent_def by blast

lemma contents_drop:
  "invar s \<Longrightarrow> invar (dropCache (Some kv) hs s) \<and>
   contents (dropCache (Some kv) hs s) = (\<lambda>k. if k \<in> hostCacheKey ` set hs then None else contents s k)"
proof (induction hs arbitrary: s)
  case Nil
  then show ?case by (simp add: dropCache_def)
next
  case (Cons h hs)
  have step: "dropCache (Some kv) (h # hs) s = dropCache (Some kv) hs (kv_delete kv (hostCacheKey h) s)"
    by (simp add: dropCache_def)
  show ?case unfolding step
    using Cons.IH[OF delete_invar[OF Cons.prems]] Cons.prems
    by (auto simp: delete_contents fun_eq_iff)
qed

lemma coherent_drop:
  assumes "coherent now db s" and "\<And>h r. h \<notin> set hs \<Longrightarrow> answers_table db h r \<Longrightarrow> answers_table db' h r"
  shows "coherent now db' (dropCache (Some kv) hs s)"
proof -
  have "visible t (contents (dropCache (Some kv) hs s)) (hostCacheKey h) =
      (if h \<in> set hs then None else visible t (contents s) (hostCacheKey h))" for t h
    using contents_drop[OF coherent_invar[OF assms(1)]] by (auto simp: visible_def)
  then show ?thesis
    using assms contents_drop[OF coherent_invar[OF assms(1)]]
    unfolding coherent_def by (auto split: if_splits) metis
qed

lemma resolveRow_coherent:
  assumes "coherent now db s"
  shows "coherent now db (snd (resolveRow (Some kv) now db h s)) \<and>
    answers_table db h (fst (resolveRow (Some kv) now db h s))"
proof -
  obtain c s1 where g: "kv_get kv now (hostCacheKey h) s = (c, s1)" by fastforce
  have s1: "coherent now db s1" using coherent_get[OF assms, of "hostCacheKey h"] g by simp
  show ?thesis
  proof (cases c)
    case None
    have "readCache (Some kv) now (hostCacheKey h) s = (None, s1)" by (simp add: readCache_def g None)
    then show ?thesis
      using s1 by (simp add: resolveRow_def writeCache_def Let_def coherent_put_row answers_table_def)
  next
    case (Some b)
    then obtain r where r: "b = encode_resolution r" "answers_table db h r"
      using get_sound[OF coherent_invar[OF assms], of now "hostCacheKey h"] g coherentD[OF assms order_refl, of h]
      by auto
    then obtain j where "b = Blob j" "j \<noteq> JNull" "decode_resolution j = r"
      using encode_blob[of r] by metis
    then have "readCache (Some kv) now (hostCacheKey h) s = (Some r, s1)"
      by (simp add: readCache_def g Some)
    then show ?thesis using s1 r by (simp add: resolveRow_def)
  qed
qed

text \<open>One lemma per event.\<close>

lemma resolvePreview_coherent:
  assumes "coherent now db s"
  shows "coherent now db (snd (resolvePreview (Some kv) now db suffix' left name s))"
  using assms conjunct1[OF resolveRow_coherent[OF assms, of "name @ suffix'"]]
  by (auto simp: resolvePreview_def split: prod.splits)

lemma resolveNamed_coherent:
  assumes "coherent now db s"
  shows "coherent now db (snd (resolveNamed (Some kv) now db h s))"
  using conjunct1[OF resolveRow_coherent[OF assms, of h]]
  by (auto simp: resolveNamed_def split: prod.splits)

lemma visit_coherent:
  "coherent now db s \<Longrightarrow> coherent now db (snd (composeSiteHostResolver (Some kv) now db suffix' q s))"
  by (auto simp: composeSiteHostResolver_def resolvePreview_coherent resolveNamed_coherent
      split: site_query.splits option.splits)

lemma claim_coherent:
  assumes "coherent now db s"
  shows "coherent now (fst (snd (claimSiteHost (Some kv) deps now token asset name kind user (db, s))))
    (snd (snd (claimSiteHost (Some kv) deps now token asset name kind user (db, s))))"
proof -
  have freed: "coherent now db1 s" if "free_hostname now h db = Inr db1" for h db1
    using assms free_hostname_answers[OF that] by (rule coherent_cong)
  have added: "coherent now db2 (dropCache (Some kv) [sh_hostname r] s)"
    if "coherent now db1 s" and "host_insert r db1 = (b, db2)" for r b db1 db2
    by (rule coherent_drop[OF that(1)])
      (use host_find_insert_other[of _ r db1] that(2) in \<open>simp add: answers_table_def\<close>)
  have kept: "db2 = db1" if "host_insert r db1 = (False, db2)" for r db1 db2
    using that by (simp add: host_insert_def split: if_splits)
  note defs = claimSiteHost_def Let_def
  show ?thesis
  proof (cases "claimed_hostname deps kind name")
    case (Inl e)
    then show ?thesis using assms by (simp add: defs)
  next
    case h: (Inr h)
    show ?thesis
    proof (cases "free_hostname now h db")
      case (Inl e)
      then show ?thesis using assms h by (simp add: defs)
    next
      case (Inr db1)
      define row where "row = \<lparr>sh_hostname = h, sh_assetId = Some (a_id asset), sh_projectId = the (a_projectId asset),
        sh_kind = kind, sh_verifiedAt = None, sh_verificationToken = (if kind = Custom then Some token else None),
        sh_certificateStatus = None, sh_disabledAt = None, sh_previews = False, sh_releasedAt = None,
        sh_createdAt = now, sh_createdBy = user\<rparr>"
      obtain b db2 where ins: "host_insert row db1 = (b, db2)" by fastforce
      have "coherent now db1 s" using freed[OF Inr] .
      moreover have "coherent now db2 (dropCache (Some kv) [h] s)"
        using added[OF freed[OF Inr] ins] by (simp add: row_def)
      ultimately show ?thesis
        using assms h Inr ins kept[of row db1 db2] unfolding defs row_def by (cases b) simp_all
    qed
  qed
qed

lemma switch_coherent:
  assumes "coherent now db s"
  shows "coherent now (fst (snd (updateSiteHost (Some kv) deps now a p name d pv (db, s))))
    (snd (snd (updateSiteHost (Some kv) deps now a p name d pv (db, s))))"
proof -
  have "coherent now (host_update h patch db) (dropCache (Some kv) [h] s)" for h patch
    by (rule coherent_drop[OF assms]) (simp add: answers_table_def)
  with assms show ?thesis by (simp add: updateSiteHost_def Let_def split: option.splits)
qed

lemma release_coherent:
  assumes "coherent now db s"
  shows "coherent now (fst (snd (releaseSiteHost (Some kv) deps now a name (db, s))))
    (snd (snd (releaseSiteHost (Some kv) deps now a name (db, s))))"
proof -
  have "coherent now (host_release h t db) (dropCache (Some kv) [h] s)" for h t
    by (rule coherent_drop[OF assms]) (simp add: answers_table_def)
  with assms show ?thesis by (simp add: releaseSiteHost_def Let_def split: option.splits)
qed

lemma certificate_coherent:
  "coherent now db s \<Longrightarrow> coherent now (host_update n (certificate_patch st) db) s"
  by (erule coherent_cong)
    (erule iffD2[OF answers_table_cong[OF certificate_keeps_resolution certificate_keeps_absence]])

lemma refresh_coherent:
  "coherent now db s \<Longrightarrow> coherent now (snd (refreshCertificateStatus deps host db)) s"
  by (simp add: refreshCertificateStatus_def certificate_coherent split: option.splits sum.splits)

lemma attempt_coherent:
  assumes "coherent now db s"
  shows "coherent now db (snd (takeVerifyAttempt (Some kv) now h l s))"
proof -
  obtain v s1 where g: "kv_get kv now (''verify-attempts:'' @ h) s = (v, s1)" by fastforce
  have c: "coherent now db s1"
    using coherent_get[OF assms, of "''verify-attempts:'' @ h"] unfolding g by simp
  have "coherent now db (kv_put kv now (''verify-attempts:'' @ h) x ttl s1)" for x ttl
    by (rule coherent_put_other[OF c attempts_key_other])
  with g c show ?thesis by (simp add: takeVerifyAttempt_def Let_def)
qed

lemma verify_coherent:
  assumes "coherent now db s"
  shows "coherent now (fst (snd (verifySiteHost (Some kv) deps now a name (db, s))))
    (snd (snd (verifySiteHost (Some kv) deps now a name (db, s))))"
proof -
  have "coherent now (host_update h patch db) (dropCache (Some kv) [h] s')" if "coherent now db s'" for h patch s'
    by (rule coherent_drop[OF that]) (simp add: answers_table_def)
  moreover have "coherent now db s'" if "takeVerifyAttempt (Some kv) now h l s = (b, s')" for h l b s'
    using attempt_coherent[OF assms, of h l] that by simp
  moreover have "coherent now db' s'" if "refreshCertificateStatus deps r db = (r', db')" "coherent now db s'" for r r' db' s'
    using refresh_coherent[OF that(2), of deps r] that(1) by simp
  ultimately show ?thesis
    using assms by (auto simp: verifySiteHost_def Let_def split: option.splits prod.splits bool.splits)
qed

lemma releaseAll_coherent:
  assumes "coherent now db s"
  shows "coherent now (fst (snd (releaseAssetSiteHosts (Some kv) a now (db, s))))
    (snd (snd (releaseAssetSiteHosts (Some kv) a now (db, s))))"
  using coherent_drop[OF assms, of "fst (host_releaseByAsset a now db)" "snd (host_releaseByAsset a now db)"]
  by (simp add: releaseAssetSiteHosts_def answers_table_def host_find_releaseByAsset_other split_beta)

lemma purge_coherent:
  assumes "coherent now db s"
  shows "coherent now (fst (snd (purgeReleasedSiteHosts (Some kv) now l (db, s))))
    (snd (snd (purgeReleasedSiteHosts (Some kv) now l (db, s))))"
proof -
  have "coherent now (snd (host_purgeReleasedBefore b n db)) (dropCache (Some kv) (fst (host_purgeReleasedBefore b n db)) s)" for b n
    by (rule coherent_drop[OF assms]) (simp add: answers_table_def host_find_purge_other)
  then show ?thesis
    by (simp add: purgeReleasedSiteHosts_def split_beta)
qed

lemma step_coherent:
  assumes "coherent now db s"
  shows "case site_event_step kv suffix' ev (now, db, s) of (now', db', s') \<Rightarrow> coherent now' db' s'"
  using assms visit_coherent[OF assms] claim_coherent[OF assms] switch_coherent[OF assms]
    release_coherent[OF assms] verify_coherent[OF assms] refresh_coherent[OF assms]
    releaseAll_coherent[OF assms] purge_coherent[OF assms] coherent_wait[OF assms]
    coherent_cong[OF assms]
  by (cases ev) (simp_all add: site_event_step_def split_beta answers_table_def host_find_def split: option.splits)

lemma run_coherent:
  "coherent now db s \<Longrightarrow> case site_run kv suffix' evs (now, db, s) of (now', db', s') \<Rightarrow> coherent now' db' s'"
proof (induction evs arbitrary: now db s)
  case Nil
  then show ?case by (simp add: site_run_def)
next
  case (Cons ev evs)
  obtain now1 db1 s1 where e: "site_event_step kv suffix' ev (now, db, s) = (now1, db1, s1)"
    by (rule prod_cases3)
  then have "coherent now1 db1 s1" using step_coherent[OF Cons.prems, of suffix' ev] by simp
  from Cons.IH[OF this] show ?case by (simp add: site_run_def e)
qed

lemma empty_coherent: "invar s \<Longrightarrow> contents s = (\<lambda>_. None) \<Longrightarrow> coherent now db s"
  by (simp add: coherent_def visible_def)

lemma resolveRow_target:
  assumes "coherent now db s"
  shows "fst (resolveRow (Some kv) now db h s) = row_resolution (host_find h db) \<or>
    (row_resolution (host_find h db) = CachedMiss \<and> fst (resolveRow (Some kv) now db h s) = CachedGone)"
  using conjunct2[OF resolveRow_coherent[OF assms, of h]] by (auto simp: answers_table_def row_resolution_def)

lemma preview_target_ends:
  "preview_target db left CachedGone = Some TargetGone" "preview_target db left CachedMiss = None"
  by (simp_all add: preview_target_def fromCached_def)

theorem resolver_answers:
  assumes "coherent now db s"
  shows "fst (composeSiteHostResolver (Some kv) now db suffix' q s) = table_resolver db suffix' q \<or>
    (table_resolver db suffix' q = None \<and>
     fst (composeSiteHostResolver (Some kv) now db suffix' q s) = Some TargetGone)"
proof -
  have named: "fst (resolveNamed (Some kv) now db h s) = fromCached (row_resolution (host_find h db)) \<or>
      (fromCached (row_resolution (host_find h db)) = None \<and> fst (resolveNamed (Some kv) now db h s) = Some TargetGone)" for h
    using resolveRow_target[OF assms, of h] by (auto simp: resolveNamed_def fromCached_def split_beta)
  have preview: "fst (resolvePreview (Some kv) now db suffix' left name s) = table_preview db suffix' left name \<or>
      (table_preview db suffix' left name = None \<and> fst (resolvePreview (Some kv) now db suffix' left name s) = Some TargetGone)"
    for left name
    using resolveRow_target[OF assms, of "name @ suffix'"]
    by (auto simp: resolvePreview_def table_preview_def preview_target_ends split_beta)
  show ?thesis
  proof (cases q)
    case (CustomQuery h)
    with named show ?thesis by (simp add: composeSiteHostResolver_def table_resolver_def)
  next
    case (LabelQuery label)
    then show ?thesis
      using named[of "label @ suffix'"] preview
      by (cases "index_of ''--'' label") (simp_all add: composeSiteHostResolver_def table_resolver_def)
  qed
qed

corollary run_answers:
  assumes "coherent now0 db0 s0"
  shows "case site_run kv suffix' events (now0, db0, s0) of (now, db, s) \<Rightarrow>
    (let answer = fst (composeSiteHostResolver (Some kv) now db suffix' q s)
     in answer = table_resolver db suffix' q \<or> table_resolver db suffix' q = None \<and> answer = Some TargetGone)"
proof -
  obtain now db s where r: "site_run kv suffix' events (now0, db0, s0) = (now, db, s)" by (rule prod_cases3)
  then have "coherent now db s" using run_coherent[OF assms, of suffix' events] by simp
  from resolver_answers[OF this, of suffix' q] r show ?thesis by (simp add: Let_def)
qed

end

interpretation memory_hosts: host_cache "memory_port :: (blob memory_kv, blob) kv_port" memory_contents memory_invar
  by unfold_locales

interpretation sql_hosts: host_cache "sql_port :: (blob kv_table, blob) kv_port" sql_contents sql_invar
  by unfold_locales

text \<open>
  C12: The cached resolver implements the table: after any history of claims, switches,
  verifications, releases, purges and visits, over either store, a visitor is sent where the
  \<open>site_hosts\<close> row says now. The one exception is a name nobody holds any more, which may still
  answer "gone" instead of "no such host".
\<close>

theorem cached_resolver_refines_table:
  "(case site_run memory_port suffix' events (now0, db0, []) of (now, db, s) \<Rightarrow>
      (let answer = fst (composeSiteHostResolver (Some memory_port) now db suffix' q s)
       in answer = table_resolver db suffix' q \<or> table_resolver db suffix' q = None \<and> answer = Some TargetGone)) \<and>
   (case site_run sql_port suffix' events (now0, db0, []) of (now, db, s) \<Rightarrow>
      (let answer = fst (composeSiteHostResolver (Some sql_port) now db suffix' q s)
       in answer = table_resolver db suffix' q \<or> table_resolver db suffix' q = None \<and> answer = Some TargetGone))"
  by (intro conjI memory_hosts.run_answers sql_hosts.run_answers
      memory_hosts.empty_coherent sql_hosts.empty_coherent)
    (simp_all add: memory_contents_def memory_invar_def sql_invar_def fun_eq_iff)


section \<open>Following one name\<close>

lemma claim_inserts:
  assumes "claimSiteHost cache deps now token asset name kind user (db, s) = (Inr host, db', s')"
  shows "host_find (sh_hostname host) db' = Some host" and "claimed_hostname deps kind name = Inr (sh_hostname host)"
    and "sh_assetId host = Some (a_id asset)" and "sh_kind host = kind" and "sh_releasedAt host = None"
    and "sh_disabledAt host = None" and "sh_verifiedAt host = None" and "sh_previews host = False"
    and "sh_verificationToken host = (if kind = Custom then Some token else None)"
proof -
  obtain h db1 where c: "claimed_hostname deps kind name = Inr h" and f: "free_hostname now h db = Inr db1"
    using assms by (auto simp: claimSiteHost_def Let_def split: if_splits sum.splits)
  define row where "row = \<lparr>sh_hostname = h, sh_assetId = Some (a_id asset), sh_projectId = the (a_projectId asset),
    sh_kind = kind, sh_verifiedAt = None, sh_verificationToken = (if kind = Custom then Some token else None),
    sh_certificateStatus = None, sh_disabledAt = None, sh_previews = False, sh_releasedAt = None,
    sh_createdAt = now, sh_createdBy = user\<rparr>"
  have "host = row \<and> host_insert row db1 = (True, db')"
    using assms c f by (auto simp: claimSiteHost_def Let_def row_def split: if_splits prod.splits bool.splits)
  moreover have "host_find (sh_hostname row) db' = Some row" if "host_insert row db1 = (True, db')"
    using that host_insert_claims[of row db1] host_insert_first_wins[of row db1]
    by (cases "host_find (sh_hostname row) db1") auto
  ultimately show "host_find (sh_hostname host) db' = Some host" and "claimed_hostname deps kind name = Inr (sh_hostname host)"
    and "sh_assetId host = Some (a_id asset)" and "sh_kind host = kind" and "sh_releasedAt host = None"
    and "sh_disabledAt host = None" and "sh_verifiedAt host = None" and "sh_previews host = False"
    and "sh_verificationToken host = (if kind = Custom then Some token else None)"
    using c by (simp_all add: row_def)
qed

section \<open>What an event may do to the table\<close>

definition dns_proves :: "site_deps \<Rightarrow> string \<Rightarrow> string \<Rightarrow> bool" where
  \<comment> \<open>a TXT record at the verification name carries the token\<close>
  "dns_proves deps hostname token \<longleftrightarrow>
     (case sd_dns deps of None \<Rightarrow> False
      | Some lookup \<Rightarrow> list_ex (\<lambda>r. js_trim r = verificationRecordValue token) (lookup (verificationRecordName hostname)))"

inductive site_change :: "site_event \<Rightarrow> int \<Rightarrow> database \<Rightarrow> database \<Rightarrow> bool" for ev now db where
  same: "db_hosts db' = db_hosts db \<Longrightarrow> site_change ev now db db'"
| switched: "hp_verifiedAt p = None \<Longrightarrow> site_change ev now db (host_update n p db)"
| verified: "ev = Verify deps a n \<Longrightarrow> host_find h db = Some r \<Longrightarrow> sh_kind r = Custom \<Longrightarrow>
    dns_proves deps h (case sh_verificationToken r of None \<Rightarrow> [] | Some t \<Rightarrow> t) \<Longrightarrow>
    site_change ev now db (host_update h p db)"
| released: "site_change ev now db (host_release n now db)"
| released_all: "site_change ev now db (snd (host_releaseByAsset a now db))"
| purged: "site_change ev now db (snd (host_purgeReleasedBefore (now - RELEASE_COOLDOWN_MS) l db))"
| freed: "free_hostname now h db = Inr db' \<Longrightarrow> site_change ev now db db'"
| claimed: "free_hostname now h db = Inr db1 \<Longrightarrow> sh_releasedAt r = None \<Longrightarrow> sh_verifiedAt r = None \<Longrightarrow>
    (sh_kind r = Custom \<longrightarrow> sh_verificationToken r \<noteq> None) \<Longrightarrow>
    host_countActiveByProject (sh_projectId r) db1 < SITE_HOST_QUOTA \<Longrightarrow>
    site_change ev now db (snd (host_insert r db1))"

lemma claim_changes:
  "site_change ev now db (fst (snd (claimSiteHost cache deps now token asset name kind user (db, s))))"
proof -
  have same': "site_change ev now db db" by (rule same) simp
  note defs = claimSiteHost_def Let_def
  show ?thesis
  proof (cases "claimed_hostname deps kind name")
    case (Inl e)
    then show ?thesis using same' by (simp add: defs)
  next
    case h: (Inr h)
    show ?thesis
    proof (cases "free_hostname now h db")
      case (Inl e)
      then show ?thesis using same' h by (simp add: defs)
    next
      case (Inr db1)
      define row where "row = \<lparr>sh_hostname = h, sh_assetId = Some (a_id asset), sh_projectId = the (a_projectId asset),
        sh_kind = kind, sh_verifiedAt = None, sh_verificationToken = (if kind = Custom then Some token else None),
        sh_certificateStatus = None, sh_disabledAt = None, sh_previews = False, sh_releasedAt = None,
        sh_createdAt = now, sh_createdBy = user\<rparr>"
      obtain b db2 where ins: "host_insert row db1 = (b, db2)" by fastforce
      have "site_change ev now db db2" if "\<not> host_countActiveByProject (the (a_projectId asset)) db1 \<ge> SITE_HOST_QUOTA"
        using claimed[OF Inr, of row] ins that by (simp add: row_def)
      then show ?thesis
        using same' freed[OF Inr] h Inr ins unfolding defs row_def by (cases b) simp_all
    qed
  qed
qed

lemma refresh_changes: "site_change ev now db (snd (refreshCertificateStatus deps host db))"
  by (auto simp: refreshCertificateStatus_def certificate_patch_def intro: same switched split: option.splits sum.splits)

lemma verify_changes:
  assumes "ev = Verify deps' a n" and "sd_dns deps' = sd_dns deps"
  shows "site_change ev now db (fst (snd (verifySiteHost cache deps now a' name (db, s))))"
proof -
  have same': "site_change ev now db db" by (rule same) simp
  have ref: "site_change ev now db db'" if "refreshCertificateStatus deps r db = (r', db')" for r r' db'
    using refresh_changes[of ev now db deps r] that by simp
  have ver: "site_change ev now db (host_update h p db)"
    if "host_find h db = Some r" "sh_kind r = Custom"
      "list_ex (\<lambda>rec. js_trim rec = verificationRecordValue (case sh_verificationToken r of None \<Rightarrow> [] | Some t \<Rightarrow> t))
         (case sd_dns deps of None \<Rightarrow> [] | Some lookup \<Rightarrow> lookup (verificationRecordName h))" for h r p
    using that assms(2) by (intro verified[OF assms(1)]) (auto simp: dns_proves_def split: option.splits)
  show ?thesis
    unfolding verifySiteHost_def Let_def
    using same' ref ver by (auto split: option.splits prod.splits bool.splits)
qed

lemma event_changes:
  assumes "site_event_step kv suffix' ev (now, db, s) = (now', db', s')"
  shows "site_change ev now db db'" and "now \<le> now'"
proof -
  have "site_change ev now db (fst (snd (site_event_step kv suffix' ev (now, db, s))))"
  proof (cases ev)
    case (Claim deps asset name kind user token)
    then show ?thesis using claim_changes by (simp add: site_event_step_def)
  next
    case (Switch deps a p name d pv)
    then show ?thesis
      by (auto simp: site_event_step_def updateSiteHost_def Let_def intro: same switched split: option.splits)
  next
    case (Release deps a name)
    then show ?thesis
      by (auto simp: site_event_step_def releaseSiteHost_def Let_def intro: same released split: option.splits)
  next
    case (Verify deps a name)
    then show ?thesis
      using verify_changes[OF Verify, of "deps\<lparr>sd_suffix := Some suffix'\<rparr>"] by (simp add: site_event_step_def)
  next
    case (Refresh deps a name)
    then show ?thesis
      using refresh_changes by (auto simp: site_event_step_def intro: same split: option.splits)
  next
    case (ReleaseAll a)
    then show ?thesis
      using released_all by (simp add: site_event_step_def releaseAssetSiteHosts_def split_beta)
  next
    case (Purge l)
    then show ?thesis
      using purged by (simp add: site_event_step_def purgeReleasedSiteHosts_def split_beta)
  qed (auto simp: site_event_step_def intro: same)
  with assms show "site_change ev now db db'" by simp
  show "now \<le> now'" using assms by (auto simp: site_event_step_def split: site_event.splits option.splits if_splits)
qed

lemma run_Cons: "site_run kv suffix' (ev # evs) st = site_run kv suffix' evs (site_event_step kv suffix' ev st)"
  by (simp add: site_run_def)

lemma run_append: "site_run kv suffix' (evs @ evs') st = site_run kv suffix' evs' (site_run kv suffix' evs st)"
  by (simp add: site_run_def)

lemma run_time: "site_run kv suffix' evs (now, db, s) = (now', db', s') \<Longrightarrow> now \<le> now'"
proof (induction evs arbitrary: now db s)
  case Nil
  then show ?case by (simp add: site_run_def)
next
  case (Cons ev evs)
  obtain n1 d1 s1 where e: "site_event_step kv suffix' ev (now, db, s) = (n1, d1, s1)" by (rule prod_cases3)
  have "n1 \<le> now'" using Cons.IH Cons.prems by (simp add: run_Cons e)
  with event_changes(2)[OF e] show ?case by simp
qed

text \<open>An invariant of the table that every change keeps while the clock is below a bound.\<close>

lemma run_invariant:
  assumes step: "\<And>ev now db db'. ev \<in> set evs \<Longrightarrow> now < bound \<Longrightarrow> P db \<Longrightarrow> site_change ev now db db' \<Longrightarrow> P db'"
    and "P db" and "site_run kv suffix' evs (now, db, s) = (now', db', s')" and "now' < bound"
  shows "P db'"
  using assms
proof (induction evs arbitrary: now db s)
  case Nil
  then show ?case by (simp add: site_run_def)
next
  case (Cons ev evs)
  obtain n1 d1 s1 where e: "site_event_step kv suffix' ev (now, db, s) = (n1, d1, s1)" by (rule prod_cases3)
  have r: "site_run kv suffix' evs (n1, d1, s1) = (now', db', s')" using Cons.prems(3) by (simp add: run_Cons e)
  have "now < bound" using event_changes(2)[OF e] run_time[OF r] Cons.prems(4) by simp
  then have "P d1" using Cons.prems(1)[OF list.set_intros(1) _ Cons.prems(2) event_changes(1)[OF e]] by simp
  show ?case
    by (rule Cons.IH[OF Cons.prems(1)[OF list.set_intros(2)] \<open>P d1\<close> r Cons.prems(4)])
qed

definition hosts_ok :: "database \<Rightarrow> bool" where
  \<comment> \<open>\<open>hostname\<close> is the primary key\<close>
  "hosts_ok db \<longleftrightarrow> distinct (map sh_hostname (db_hosts db))"

lemma hosts_ok_change:
  assumes "hosts_ok db" and "site_change ev now db db'"
  shows "hosts_ok db'"
proof -
  have upd: "map sh_hostname (update_rows P f t) = map sh_hostname t" if "\<And>r. sh_hostname (f r) = sh_hostname r" for P f t
    using that by (simp add: update_rows_def)
  have free: "hosts_ok db1" if "free_hostname now h db = Inr db1" for h db1
    using free_hostname_cases[OF that] assms(1) by (auto simp: hosts_ok_def host_remove_def distinct_delete_rows)
  show ?thesis
    using assms(2)
  proof cases
    case (claimed h db1 r)
    then show ?thesis using free[of h db1] by (auto simp: hosts_ok_def host_insert_def)
  qed (use assms(1) free in \<open>auto simp: hosts_ok_def host_update_def host_release_def host_releaseByAsset_def
      host_purgeReleasedBefore_def Let_def upd distinct_delete_rows\<close>)
qed

section \<open>The quota\<close>

definition quota_ok :: "database \<Rightarrow> bool" where
  "quota_ok db \<longleftrightarrow> list_all (\<lambda>r. host_countActiveByProject (sh_projectId r) db \<le> SITE_HOST_QUOTA) (db_hosts db)"

lemma quota_ok_alt: "quota_ok db \<longleftrightarrow> (\<forall>p. host_countActiveByProject p db \<le> SITE_HOST_QUOTA)"
proof -
  have "host_countActiveByProject p db \<le> SITE_HOST_QUOTA"
    if "\<forall>r \<in> set (db_hosts db). host_countActiveByProject (sh_projectId r) db \<le> SITE_HOST_QUOTA" for p
  proof (cases "\<exists>r \<in> set (db_hosts db). sh_projectId r = p")
    case False
    then have "filter (\<lambda>h. sh_projectId h = p \<and> host_active h) (db_hosts db) = []"
      by (auto simp: filter_empty_conv)
    then show ?thesis by (simp add: host_countActiveByProject_def)
  qed (use that in auto)
  then show ?thesis by (auto simp: quota_ok_def list_all_iff)
qed

lemma count_update_le:
  assumes "\<And>r. Q (f r) \<Longrightarrow> Q r"
  shows "length (filter Q (update_rows P f t)) \<le> length (filter Q t)"
proof (induction t)
  case (Cons r t)
  then show ?case using assms[of r] by (cases "P r"; cases "Q (f r)"; cases "Q r") (simp_all add: update_rows_def)
qed (simp add: update_rows_def)

lemma count_delete_le: "length (filter Q (delete_rows P t)) \<le> length (filter Q t)"
  by (induction t) (auto simp: delete_rows_def)

lemma quota_change:
  assumes "quota_ok db" and "site_change ev now db db'"
  shows "quota_ok db'"
proof -
  let ?n = "\<lambda>p d. host_countActiveByProject p d"
  have q: "?n p db \<le> SITE_HOST_QUOTA" for p using assms(1) by (simp add: quota_ok_alt)
  have upd: "?n p (host_update n patch db) \<le> ?n p db" "?n p (host_release n t db) \<le> ?n p db"
    "?n p (snd (host_releaseByAsset a t db)) \<le> ?n p db" "?n p (host_remove n db) \<le> ?n p db"
    "?n p (snd (host_purgeReleasedBefore t l db)) \<le> ?n p db" for p n patch t a l
    by (simp_all add: host_countActiveByProject_def host_update_def host_release_def host_releaseByAsset_def
        host_remove_def host_purgeReleasedBefore_def Let_def host_active_def count_delete_le)
      (rule count_update_le, simp)+
  have free: "?n p db1 \<le> SITE_HOST_QUOTA" if "free_hostname now h db = Inr db1" for h db1 p
    using free_hostname_cases[OF that] q[of p] upd(4)[of p h] by auto
  have "?n p db' \<le> SITE_HOST_QUOTA" for p
    using assms(2)
  proof cases
    case (claimed h db1 r)
    have "?n p (snd (host_insert r db1)) \<le> (if sh_projectId r = p then Suc (?n p db1) else ?n p db1)"
      by (simp add: host_countActiveByProject_def host_insert_def)
    with claimed(1,6) free[OF claimed(2), of p] show ?thesis by (auto split: if_splits)
  next
    case same
    then show ?thesis using q[of p] by (simp add: host_countActiveByProject_def)
  qed (simp_all add: free le_trans[OF upd(1) q] le_trans[OF upd(2) q] le_trans[OF upd(3) q] le_trans[OF upd(5) q])
  then show ?thesis by (simp add: quota_ok_alt)
qed

text \<open>
  The quota holds: whatever is claimed, released and purged, in any order and over any cache,
  a project never has more than twenty active names.
\<close>

theorem claims_within_quota:
  "case site_run kv suffix' events (now0, db0\<lparr>db_hosts := []\<rparr>, s0) of (now, db, s) \<Rightarrow>
     host_countActiveByProject projectId db \<le> SITE_HOST_QUOTA"
proof -
  obtain now db s where r: "site_run kv suffix' events (now0, db0\<lparr>db_hosts := []\<rparr>, s0) = (now, db, s)"
    by (rule prod_cases3)
  have "quota_ok (db0\<lparr>db_hosts := []\<rparr>)" by (simp add: quota_ok_def)
  have "quota_ok db"
    by (rule run_invariant[where P = quota_ok and bound = "now + 1", OF quota_change \<open>quota_ok (db0\<lparr>db_hosts := []\<rparr>)\<close> r])
      simp_all
  with r show ?thesis by (simp add: quota_ok_alt)
qed

section \<open>A released name is held\<close>

definition held :: "string \<Rightarrow> int \<Rightarrow> database \<Rightarrow> bool" where
  "held h t db \<longleftrightarrow> hosts_ok db \<and> (case host_find h db of None \<Rightarrow> False | Some r \<Rightarrow> sh_releasedAt r = Some t)"

lemma held_change:
  assumes "held h t db" and "now < t + RELEASE_COOLDOWN_MS" and "site_change ev now db db'"
  shows "held h t db'"
proof -
  obtain r where r: "host_find h db = Some r" "sh_releasedAt r = Some t" and ok: "hosts_ok db"
    using assms(1) by (auto simp: held_def split: option.splits)
  have inactive: "\<not> host_active r" using r(2) by (simp add: host_active_def)
  have row: "r \<in> set (db_hosts db)" "sh_hostname r = h"
    using r(1) find_row_Some[of sh_hostname h "db_hosts db" r] by (auto simp: host_find_def)
  have free: "host_find h db1 = Some r" if "free_hostname now h' db = Inr db1" for h' db1
  proof -
    have "h \<noteq> h'" using that r assms(2) by (auto simp: free_hostname_def split: if_splits)
    with free_hostname_cases[OF that] r(1) show ?thesis by (auto simp: host_find_remove)
  qed
  have "host_find h db' = Some r"
    using assms(3)
  proof cases
    case (purged l)
    have "h \<notin> set (fst (host_purgeReleasedBefore (now - RELEASE_COOLDOWN_MS) l db))"
    proof
      assume "h \<in> set (fst (host_purgeReleasedBefore (now - RELEASE_COOLDOWN_MS) l db))"
      then obtain g where "g \<in> set (db_hosts db)" "sh_hostname g = h"
        "\<exists>u. sh_releasedAt g = Some u \<and> u < now - RELEASE_COOLDOWN_MS"
        by (auto simp: host_purgeReleasedBefore_def Let_def order_asc_def dest!: in_set_takeD split: option.splits)
      moreover from this row ok have "g = r" by (auto simp: hosts_ok_def distinct_map inj_on_def)
      ultimately show False using r(2) assms(2) by simp
    qed
    with purged r(1) show ?thesis by (simp add: host_find_purge_other)
  next
    case (released_all a)
    then show ?thesis
      using r inactive by (simp add: host_find_def host_releaseByAsset_def find_row_update)
  next
    case (claimed h' db1 q)
    have "host_find h (snd (host_insert q db1)) = Some r"
      using free[OF claimed(2)] host_insert_first_wins[of q db1] host_find_insert_other[of h q db1]
      by (cases "h = sh_hostname q") auto
    with claimed show ?thesis by simp
  qed (use r(1) inactive free in \<open>auto simp: host_find_update host_find_release\<close>, simp add: host_find_def)
  with hosts_ok_change[OF ok assms(3)] r(2) show ?thesis by (simp add: held_def)
qed

lemma held_gone: "held h t db \<Longrightarrow> row_resolution (host_find h db) = CachedGone"
  by (auto simp: held_def row_resolution_def split: option.splits)

lemma held_refuses:
  assumes "held h t db" and "now < t + RELEASE_COOLDOWN_MS"
  shows "free_hostname now h db = Inl (OnCooldown (t + RELEASE_COOLDOWN_MS))"
  using assms by (auto simp: held_def free_hostname_def split: option.splits)

lemma release_holds:
  assumes "hosts_ok db" and "releaseSiteHost cache deps now a name (db, s) = (Inr (), db', s')"
  shows "held (toFullHost name (sd_suffix deps)) now db'"
proof -
  have "site_change (Release deps a name) now db db'" and "db' = host_release (toFullHost name (sd_suffix deps)) now db"
    using assms(2) released by (auto simp: releaseSiteHost_def Let_def split: option.splits if_splits)
  moreover obtain r where "host_find (toFullHost name (sd_suffix deps)) db = Some r" "sh_releasedAt r = None"
    using assms(2) by (auto simp: releaseSiteHost_def Let_def split: option.splits if_splits)
  ultimately show ?thesis
    using hosts_ok_change[OF assms(1)] host_find_name
    by (auto simp: held_def host_find_release host_active_def)
qed

text \<open>
  C18: Releasing a name takes the site down at once and holds the name for thirty days: whatever
  happens in between (claims, switches, verifications, purges, visits), before the cooldown ends
  every visitor of the host is told "gone", and every claim of the name is refused with the time
  it becomes free.
\<close>

theorem released_name_held:
  assumes "site_run memory_port suffix' before (now0, db0, []) = (now, db, s)" and "hosts_ok db0"
    and "releaseSiteHost (Some memory_port) deps now a name (db, s) = (Inr (), db1, s1)"
    and "toFullHost name (sd_suffix deps) = h"
    and "site_run memory_port suffix' after (now, db1, s1) = (now2, db2, s2)"
    and "now2 < now + RELEASE_COOLDOWN_MS"
  shows "fst (composeSiteHostResolver (Some memory_port) now2 db2 suffix' (CustomQuery h) s2) = Some TargetGone \<and>
    (\<forall>label. h = label @ suffix' \<longrightarrow> \<not> is_id_label label \<longrightarrow> index_of ''--'' label = None \<longrightarrow>
      fst (composeSiteHostResolver (Some memory_port) now2 db2 suffix' (LabelQuery label) s2) = Some TargetGone) \<and>
    (\<forall>deps' asset kind wanted token user. truthy (sd_suffix deps') \<longrightarrow> truthy (a_projectId asset) \<longrightarrow>
      a_type asset = Some TypeArchive \<longrightarrow> claimed_hostname deps' kind wanted = Inr h \<longrightarrow>
      claimSiteHost (Some memory_port) deps' now2 token asset wanted kind user (db2, s2)
        = (Inl (400, OnCooldown (now + RELEASE_COOLDOWN_MS)), db2, s2))"
proof -
  have ok: "hosts_ok db"
    by (rule run_invariant[where P = hosts_ok and bound = "now + 1", OF _ assms(2,1)])
      (auto intro: hosts_ok_change)
  have start: "held h now db1" using release_holds[OF ok assms(3)] assms(4) by simp
  have held: "held h now db2"
    by (rule run_invariant[where P = "held h now", OF _ start assms(5,6)]) (rule held_change)
  have "memory_hosts.coherent now0 db0 []"
    by (rule memory_hosts.empty_coherent) (simp_all add: memory_contents_def memory_invar_def fun_eq_iff)
  from memory_hosts.run_coherent[OF this, of suffix' before]
  have "memory_hosts.coherent now db s" using assms(1) by simp
  from memory_hosts.release_coherent[OF this, of deps a name]
  have "memory_hosts.coherent now db1 s1" using assms(3) by simp
  from memory_hosts.run_coherent[OF this, of suffix' after]
  have coh: "memory_hosts.coherent now2 db2 s2" using assms(5) by simp
  have t: "table_resolver db2 suffix' (CustomQuery h) = Some TargetGone"
    using held_gone[OF held] by (simp add: table_resolver_def fromCached_def)
  with memory_hosts.resolver_answers[OF coh, of suffix' "CustomQuery h"]
  have "fst (composeSiteHostResolver (Some memory_port) now2 db2 suffix' (CustomQuery h) s2) = Some TargetGone"
    by simp
  moreover have "fst (composeSiteHostResolver (Some memory_port) now2 db2 suffix' (LabelQuery label) s2) = Some TargetGone"
    if "h = label @ suffix'" "\<not> is_id_label label" "index_of ''--'' label = None" for label
    using memory_hosts.resolver_answers[OF coh, of suffix' "LabelQuery label"] held_gone[OF held] that
    by (simp add: table_resolver_def fromCached_def)
  moreover have "claimSiteHost (Some memory_port) deps' now2 token asset wanted kind user (db2, s2)
      = (Inl (400, OnCooldown (now + RELEASE_COOLDOWN_MS)), db2, s2)"
    if "truthy (sd_suffix deps')" "truthy (a_projectId asset)" "a_type asset = Some TypeArchive"
      "claimed_hostname deps' kind wanted = Inr h" for deps' asset kind wanted token user
    using that held_refuses[OF held assms(6)] by (simp add: claimSiteHost_def)
  ultimately show ?thesis by blast
qed

definition demo_host :: site_host where
  "demo_host = \<lparr>sh_hostname = ''map.s'', sh_assetId = Some ''a1'', sh_projectId = ''p1'', sh_kind = Subdomain,
     sh_verifiedAt = None, sh_verificationToken = None, sh_certificateStatus = None, sh_disabledAt = None,
     sh_previews = False, sh_releasedAt = None, sh_createdAt = 1, sh_createdBy = None\<rparr>"

definition demo_deps :: site_deps where
  "demo_deps = \<lparr>sd_suffix = Some ''.s'', sd_baseHost = None,
     sd_dns = Some (\<lambda>_. ['' reearth-serve-verify=k '']), sd_provisioner = None, sd_fallbackOrigin = None\<rparr>"

lemmas demo_site_simps = demo_host_def demo_deps_def Let_def truthy_def code_unit_def
  toFullHost_def toSiteName_def trim_dot_def js_trim_def js_lower_def lower_char_def is_space_def ends_with_def
  host_find_def host_active_def

lemma demo_full_host: "toFullHost ''map'' (Some ''.s'') = ''map.s''"
  by (simp add: demo_site_simps)

lemma released_name_held_witness:
  "fst (composeSiteHostResolver (Some memory_port) 7 (host_release ''map.s'' 5 (empty_database\<lparr>db_hosts := [demo_host]\<rparr>)) ''.s''
     (CustomQuery ''map.s'') []) = Some TargetGone"
proof -
  let ?db = "empty_database\<lparr>db_hosts := [demo_host]\<rparr>"
  have f: "host_find ''map.s'' ?db = Some demo_host" by (simp add: host_find_def demo_host_def)
  have r: "releaseSiteHost (Some memory_port) demo_deps 5 ''a1'' ''map'' (?db, [])
      = (Inr (), host_release ''map.s'' 5 ?db, [])"
    using f by (simp add: Let_def releaseSiteHost_def demo_full_host demo_deps_def demo_host_def dropCache_def
        memory_port_def memory_delete_def own_delete_def)
  have a: "site_run memory_port ''.s'' [Wait 2] (5, host_release ''map.s'' 5 ?db, []) = (7, host_release ''map.s'' 5 ?db, [])"
    by (simp add: site_run_def site_event_step_def)
  have "hosts_ok ?db" by (simp add: hosts_ok_def)
  moreover have "site_run memory_port ''.s'' [] (5, ?db, []) = (5, ?db, [])" by (simp add: site_run_def)
  ultimately show ?thesis
    using released_name_held[OF _ _ r _ a, of "[]" 5 ?db "''map.s''"]
    by (simp add: demo_deps_def demo_full_host RELEASE_COOLDOWN_MS_def)
qed

section \<open>A claimed name is live\<close>


section \<open>A custom domain needs its record\<close>

definition proof_seen :: "site_event list \<Rightarrow> string \<Rightarrow> string \<Rightarrow> bool" where
  \<comment> \<open>some verification asked a DNS that answered with the token\<close>
  "proof_seen events hostname token \<longleftrightarrow>
     list_ex (\<lambda>ev. case ev of Verify deps _ _ \<Rightarrow> dns_proves deps hostname token | _ \<Rightarrow> False) events"

definition custom_row_ok :: "site_event list \<Rightarrow> site_host \<Rightarrow> bool" where
  "custom_row_ok events r \<longleftrightarrow>
     (sh_kind r = Custom \<longrightarrow>
       (case sh_verificationToken r of None \<Rightarrow> False
        | Some t \<Rightarrow> sh_verifiedAt r \<noteq> None \<longrightarrow> proof_seen events (sh_hostname r) t))"

definition custom_ok :: "site_event list \<Rightarrow> database \<Rightarrow> bool" where
  "custom_ok events db \<longleftrightarrow> hosts_ok db \<and> list_all (custom_row_ok events) (db_hosts db)"

lemma list_all_update_rows:
  "list_all Q t \<Longrightarrow> (\<And>r. r \<in> set t \<Longrightarrow> P r \<Longrightarrow> Q r \<Longrightarrow> Q (f r)) \<Longrightarrow> list_all Q (update_rows P f t)"
  by (auto simp: update_rows_def list_all_iff)

lemma list_all_delete_rows: "list_all Q t \<Longrightarrow> list_all Q (delete_rows P t)"
  by (simp add: list_all_iff)

lemma custom_row_ok_patch: "hp_verifiedAt p = None \<Longrightarrow> custom_row_ok events (patch_host p r) = custom_row_ok events r"
  by (simp add: custom_row_ok_def patch_host_def split: option.splits)

lemma custom_row_ok_release:
  "custom_row_ok events (r\<lparr>sh_releasedAt := t, sh_assetId := a\<rparr>) = custom_row_ok events r"
  by (simp add: custom_row_ok_def split: option.splits)

lemma custom_ok_change:
  assumes "ev \<in> set events" and "custom_ok events db" and "site_change ev now db db'"
  shows "custom_ok events db'"
proof -
  have ok: "hosts_ok db" and rows: "list_all (custom_row_ok events) (db_hosts db)"
    using assms(2) by (simp_all add: custom_ok_def)
  have free: "list_all (custom_row_ok events) (db_hosts db1)" if "free_hostname now h db = Inr db1" for h db1
    using free_hostname_cases[OF that] rows by (auto simp: host_remove_def list_all_delete_rows)
  have "list_all (custom_row_ok events) (db_hosts db')"
    using assms(3)
  proof cases
    case (verified deps a n h r p)
    have seen: "dns_proves deps h t \<Longrightarrow> proof_seen events h t" for t
      using assms(1) verified(2) unfolding proof_seen_def list_ex_iff
      by (intro bexI[of _ "Verify deps a n"]) simp_all
    have "q = r" if "q \<in> set (db_hosts db)" "sh_hostname q = h" for q
    proof -
      have "r \<in> set (db_hosts db)" "sh_hostname r = h"
        using verified(3) find_row_Some[of sh_hostname h "db_hosts db" r] by (auto simp: host_find_def)
      with that ok show ?thesis by (auto simp: hosts_ok_def distinct_map inj_on_def)
    qed
    with verified(1,4,5) rows seen show ?thesis
      by (auto simp: host_update_def custom_row_ok_def patch_host_def intro!: list_all_update_rows split: option.splits)
  next
    case (claimed h db1 r)
    then show ?thesis
      using free[of h db1] by (auto simp: host_insert_def custom_row_ok_def list_all_iff split: option.splits)
  next
    case (switched p n)
    then show ?thesis
      using rows by (auto simp: host_update_def custom_row_ok_patch intro!: list_all_update_rows)
  qed (use rows free in \<open>auto simp: host_release_def host_releaseByAsset_def host_purgeReleasedBefore_def Let_def
      custom_row_ok_release intro!: list_all_update_rows list_all_delete_rows\<close>)
  with hosts_ok_change[OF ok assms(3)] show ?thesis by (simp add: custom_ok_def)
qed

text \<open>
  C19: A custom domain that serves an asset has been proved: in any history that starts with an
  empty table, if a visitor of a customer's domain is sent to an asset, then some verification
  request looked up \<open>_reearth-serve-verify.<domain>\<close> and found the token of the domain's row.
\<close>

theorem custom_domain_proved:
  assumes "site_run memory_port suffix' events (now0, db0, []) = (now, db, s)" and "db_hosts db0 = []"
    and "fst (composeSiteHostResolver (Some memory_port) now db suffix' (CustomQuery h) s) = Some (TargetAsset i p)"
    and "host_find h db = Some r" and "sh_kind r = Custom"
  shows "\<exists>token. sh_verificationToken r = Some token \<and> proof_seen events h token"
proof -
  have "custom_ok events db"
    by (rule run_invariant[where P = "custom_ok events" and bound = "now + 1", OF custom_ok_change _ assms(1)])
      (use assms(2) in \<open>simp_all add: custom_ok_def hosts_ok_def\<close>)
  have "memory_hosts.coherent now0 db0 []"
    by (rule memory_hosts.empty_coherent) (simp_all add: memory_contents_def memory_invar_def fun_eq_iff)
  from memory_hosts.run_coherent[OF this, of suffix' events]
  have "memory_hosts.coherent now db s" using assms(1) by simp
  from memory_hosts.resolver_answers[OF this, of suffix' "CustomQuery h"] assms(3,4)
  have "fromCached (row_resolution (Some r)) = Some (TargetAsset i p)"
    by (simp add: table_resolver_def)
  then have "sh_verifiedAt r \<noteq> None"
    using assms(5) by (auto simp: row_resolution_def fromCached_def split: if_splits)
  moreover have "r \<in> set (db_hosts db)" and "sh_hostname r = h"
    using assms(4) find_row_Some[of sh_hostname h "db_hosts db" r] by (auto simp: host_find_def)
  ultimately show ?thesis
    using \<open>custom_ok events db\<close> assms(5) by (auto simp: custom_ok_def custom_row_ok_def list_all_iff split: option.splits)
qed

section \<open>Concrete histories\<close>

definition demo_site :: asset where
  "demo_site = (blank_asset ''a1'')\<lparr>a_type := Some TypeArchive, a_projectId := Some ''p1''\<rparr>"

lemmas demo_claim_simps = claimSiteHost_def claimed_hostname_def free_hostname_def host_insert_def
  host_countActiveByProject_def SITE_HOST_QUOTA_def demo_site_def blank_asset_def dropCache_def
  memory_port_def memory_delete_def own_delete_def validateSiteName_def is_id_label_def is_version_name_def
  RESERVED_NAMES_def starts_with_def name_char_def is_lower_def is_digit_def find_row_def empty_database_def

definition demo_claimed :: site_host where
  "demo_claimed = demo_host\<lparr>sh_createdAt := 5\<rparr>"

lemma demo_claim:
  "claimSiteHost (Some memory_port) (demo_deps\<lparr>sd_suffix := Some ''.s''\<rparr>) 5 ''k'' demo_site ''map'' Subdomain None (empty_database, [])
     = (Inr demo_claimed, empty_database\<lparr>db_hosts := [demo_claimed]\<rparr>, [])"
  by (simp add: demo_claim_simps demo_site_simps demo_claimed_def)


definition demo_custom :: site_host where
  "demo_custom = demo_host\<lparr>sh_hostname := ''m.org'', sh_kind := Custom, sh_verificationToken := Some ''k'',
     sh_verifiedAt := Some 5, sh_createdAt := 5\<rparr>"

lemma demo_custom_name: "validateCustomHostname (Some ''.s'') None ''m.org'' = Inr ''m.org''"
  by code_simp

lemma demo_record: "js_trim '' reearth-serve-verify=k '' = verificationRecordValue ''k''"
  by code_simp

lemma demo_custom_run:
  "site_run memory_port ''.s'' [Claim demo_deps demo_site ''m.org'' Custom None ''k'', Verify demo_deps ''a1'' ''m.org'']
     (5, empty_database, [])
   = (5, empty_database\<lparr>db_hosts := [demo_custom]\<rparr>,
      [(''verify-attempts:m.org'', \<lparr>entry_value = Blob (JNum 1), entry_expires = Some 3600005\<rparr>)])"
proof -
  let ?row = "demo_custom\<lparr>sh_verifiedAt := None\<rparr>"
  have c: "site_event_step memory_port ''.s'' (Claim demo_deps demo_site ''m.org'' Custom None ''k'') (5, empty_database, [])
      = (5, empty_database\<lparr>db_hosts := [?row]\<rparr>, [])"
    using demo_custom_name
    by (simp add: site_event_step_def claimSiteHost_def claimed_hostname_def free_hostname_def host_insert_def
        host_countActiveByProject_def SITE_HOST_QUOTA_def demo_site_def blank_asset_def dropCache_def
        memory_port_def memory_delete_def own_delete_def find_row_def empty_database_def Let_def truthy_def
        demo_deps_def apexHost_def host_find_def demo_custom_def demo_host_def)
  have h: "toFullHost ''m.org'' (Some ''.s'') = ''m.org''" by (simp add: demo_site_simps)
  have v: "site_event_step memory_port ''.s'' (Verify demo_deps ''a1'' ''m.org'') (5, empty_database\<lparr>db_hosts := [?row]\<rparr>, [])
      = (5, empty_database\<lparr>db_hosts := [demo_custom]\<rparr>,
         [(''verify-attempts:m.org'', \<lparr>entry_value = Blob (JNum 1), entry_expires = Some 3600005\<rparr>)])"
    using demo_record
    by (simp add: site_event_step_def verifySiteHost_def h demo_custom_def find_row_def demo_deps_def demo_host_def
        host_find_def host_active_def Let_def takeVerifyAttempt_def memory_port_def memory_get_def memory_put_def memory_delete_def own_delete_def
        VERIFY_ATTEMPT_LIMIT_def VERIFY_ATTEMPT_WINDOW_SECONDS_def
        provisionCertificate_def host_update_def update_rows_def patch_host_def dropCache_def hostCacheKey_def)
  from c v show ?thesis by (simp add: site_run_def)
qed

lemma custom_domain_proved_witness:
  "proof_seen [Claim demo_deps demo_site ''m.org'' Custom None ''k'', Verify demo_deps ''a1'' ''m.org''] ''m.org'' ''k''"
proof -
  let ?db = "empty_database\<lparr>db_hosts := [demo_custom]\<rparr>"
  have f: "host_find ''m.org'' ?db = Some demo_custom"
    by (simp add: host_find_def demo_custom_def demo_host_def)
  have "fst (composeSiteHostResolver (Some memory_port) 5 ?db ''.s'' (CustomQuery ''m.org'')
      [(''verify-attempts:m.org'', \<lparr>entry_value = Blob (JNum 1), entry_expires = Some 3600005\<rparr>)])
      = Some (TargetAsset ''a1'' None)"
    by (simp add: composeSiteHostResolver_def resolveNamed_def resolveRow_def readCache_def memory_port_def
        memory_get_def hostCacheKey_def f split_beta Let_def) (simp add: row_resolution_def demo_custom_def demo_host_def fromCached_def)
  from custom_domain_proved[OF demo_custom_run _ this f]
  have "\<exists>token. sh_verificationToken demo_custom = Some token \<and>
      proof_seen [Claim demo_deps demo_site ''m.org'' Custom None ''k'', Verify demo_deps ''a1'' ''m.org''] ''m.org'' token"
    by (simp add: empty_database_def) (simp add: demo_custom_def)
  then show ?thesis by (auto simp: demo_custom_def)
qed

text \<open>
  The brake on verification counts attempts in a window that every attempt restarts: ten attempts
  fifty minutes apart use up the limit, and the eleventh is refused although the hour before it
  saw only one.
\<close>

definition spaced_attempts :: "nat \<Rightarrow> blob memory_kv" where
  "spaced_attempts n = fold (\<lambda>i s. snd (takeVerifyAttempt (Some memory_port) (3000000 * int i) ''m.org'' VERIFY_ATTEMPT_LIMIT s)) [0..<n] []"

lemma attempt_window_slides:
  "\<not> fst (takeVerifyAttempt (Some memory_port) 30000000 ''m.org'' VERIFY_ATTEMPT_LIMIT (spaced_attempts 10))"
  by code_simp

end
