(* ===== verification/Site_Middleware.thy ===== *)
theory Site_Middleware
  imports Site_Resolution File_Delivery
begin

text \<open>
  The site-host middleware (\<open>core/site/middleware.ts\<close>) and the file-only router behind it
  (\<open>siteApp\<close> in \<open>core/app.ts\<close>). A request is an \<open>http_request\<close> with its body; the
  router is an argument, so that what the middleware guarantees is seen to hold for any router.
  \<open>new URL(location, base)\<close> is the platform's: an argument that yields the parts the code
  reads, \<open>None\<close> when it throws. Setting \<open>pathname\<close> to a string of URL path characters
  stores it with a leading slash.
\<close>

record url_view =
  uv_origin :: string
    \<comment> \<open>scheme and authority, as \<open>toString()\<close> prints them\<close>
  uv_pathname :: string
  uv_search :: string
  uv_hash :: string

definition set_pathname :: "string \<Rightarrow> url_view \<Rightarrow> url_view" where
  "set_pathname p u = u\<lparr>uv_pathname := (if starts_with ''/'' p then p else ''/'' @ p)\<rparr>"

definition url_text :: "url_view \<Rightarrow> string" where
  "url_text u = uv_origin u @ uv_pathname u @ uv_search u @ uv_hash u"

section \<open>The fixed answers\<close>

definition plain_response :: "nat \<Rightarrow> string \<Rightarrow> delivered" where
  "plain_response status message =
     \<lparr>dv_status = status,
      dv_headers = [(''content-type'', ''text/plain; charset=utf-8''), (''cache-control'', ''no-store'')],
      dv_body = Ends [message]\<rparr>"

definition tooLargeResponse :: delivered where
  "tooLargeResponse = plain_response 413 ''Payload too large''"

definition page_of :: "string \<Rightarrow> string" where
  \<comment> \<open>the two pages share their mark-up\<close>
  "page_of message = ''<!doctype html><meta charset='' @ [CHR 0x22] @ ''utf-8'' @ [CHR 0x22] @ ''><title>'' @ message
     @ ''</title><h1>'' @ message @ ''</h1>''"

definition goneResponse :: delivered where
  "goneResponse =
     \<lparr>dv_status = 410,
      dv_headers = [(''content-type'', ''text/html; charset=utf-8''), (''cache-control'', ''no-store''), (''x-robots-tag'', ''noindex'')],
      dv_body = Ends [page_of ''This site has moved or been removed'']\<rparr>"

definition disabledResponse :: delivered where
  "disabledResponse =
     \<lparr>dv_status = 503,
      dv_headers = [(''content-type'', ''text/html; charset=utf-8''), (''cache-control'', ''no-store''),
        (''x-robots-tag'', ''noindex''), (''retry-after'', ''3600'')],
      dv_body = Ends [page_of ''This site is temporarily unavailable'']\<rparr>"

section \<open>The rewrite\<close>

definition MAX_REWRITTEN_BODY_BYTES :: int where "MAX_REWRITTEN_BODY_BYTES = 64 * 1024"

definition js_parse_int :: "string \<Rightarrow> int option" where
  \<comment> \<open>\<open>Number.parseInt(s, 10)\<close>, \<open>None\<close> for \<open>NaN\<close>\<close>
  "js_parse_int s =
     (let t = dropWhile is_space s;
          negative = starts_with ''-'' t;
          u = (if negative \<or> starts_with ''+'' t then drop 1 t else t);
          ds = takeWhile is_digit u
      in if ds = [] then None else Some (if negative then - decimal ds else decimal ds))"

definition drop_header :: "string \<Rightarrow> (string \<times> string) list \<Rightarrow> (string \<times> string) list" where
  \<comment> \<open>\<open>headers.delete(name)\<close>\<close>
  "drop_header name hs = filter (\<lambda>(n, _). n \<noteq> name) hs"

definition rewriteRequest :: "http_request \<Rightarrow> string \<Rightarrow> string \<Rightarrow> (string \<times> string) list \<Rightarrow> (http_request \<times> string) option" where
  \<comment> \<open>the original request and its body, the new path and headers; \<open>None\<close> is over the cap\<close>
  "rewriteRequest original body path headers =
     (let rewritten = original\<lparr>hq_pathname := path, hq_headers := headers\<rparr>
      in if hq_method original = ''GET'' \<or> hq_method original = ''HEAD'' then Some (rewritten, [])
         else if (case js_parse_int (case header original ''Content-Length'' of None \<Rightarrow> [] | Some t \<Rightarrow> t) of
                    None \<Rightarrow> False | Some declared \<Rightarrow> declared > MAX_REWRITTEN_BODY_BYTES) then None
         else if int (length body) > MAX_REWRITTEN_BODY_BYTES then None
         else Some (rewritten, body))"

definition unrewriteLocation :: "(string \<Rightarrow> url_view option) \<Rightarrow> delivered \<Rightarrow> string \<Rightarrow> delivered option" where
  \<comment> \<open>\<open>new_url location\<close> is \<open>new URL(location, "http://site.invalid")\<close>\<close>
  "unrewriteLocation new_url res prefix' =
     (let location = map_of (dv_headers res) ''location''
      in if \<not> truthy location then Some res
         else (case new_url (the location) of
                 None \<Rightarrow> None
               | Some target \<Rightarrow>
                   if \<not> starts_with prefix' (uv_pathname target) then Some res
                   else let rest = drop (length prefix') (uv_pathname target);
                            target' = set_pathname (if rest = [] then ''/'' else rest) target
                        in Some (res\<lparr>dv_headers := own_set (dv_headers res) ''location''
                             (if starts_with ''/'' (the location) then uv_pathname target' @ uv_search target'
                              else url_text target')\<rparr>)))"

section \<open>The middleware\<close>

definition resolveIdLabel :: "site_query \<Rightarrow> site_target option" where
  \<comment> \<open>the resolver of a deployment without names\<close>
  "resolveIdLabel query =
     (case query of
        LabelQuery label \<Rightarrow> if is_id_label label then Some (TargetAsset label None) else None
      | CustomQuery _ \<Rightarrow> None)"

datatype site_outcome = Next | Answer delivered | Throws

definition site_query_of :: "string \<Rightarrow> string option \<Rightarrow> string \<Rightarrow> site_query option" where
  \<comment> \<open>suffix, host of \<open>BASE_URL\<close>, the \<open>Host\<close> header, trimmed and lower-cased\<close>
  "site_query_of suffix' urlHost host =
     (case siteHostLabel host suffix' of
        Some label \<Rightarrow> Some (LabelQuery label)
      | None \<Rightarrow> if isApexHost (Some host) urlHost (Some suffix') then None else Some (CustomQuery host))"

definition site_request :: "http_request \<Rightarrow> string \<Rightarrow> string \<Rightarrow> string option \<Rightarrow> (http_request \<times> string) option" where
  \<comment> \<open>the request for the router: path under \<open>/files/{id}\<close>, the preview mark the resolver's own\<close>
  "site_request request body id' preview =
     (let headers = drop_header SITE_PREVIEW_HEADER (hq_headers request)
      in rewriteRequest request body (''/files/'' @ id' @ hq_pathname request)
           (case preview of None \<Rightarrow> headers | Some p \<Rightarrow> own_set headers SITE_PREVIEW_HEADER p))"

definition siteHostMiddleware ::
  "(string \<Rightarrow> url_view option) \<Rightarrow> (site_query \<Rightarrow> 'k \<Rightarrow> site_target option \<times> 'k)
   \<Rightarrow> (http_request \<Rightarrow> string \<Rightarrow> 'k \<Rightarrow> delivered \<times> 'k) \<Rightarrow> string option \<Rightarrow> string option
   \<Rightarrow> http_request \<Rightarrow> string \<Rightarrow> 'k \<Rightarrow> site_outcome \<times> 'k" where
  \<comment> \<open>\<open>new URL\<close>, the resolver, the router, the normalised suffix, the host of \<open>BASE_URL\<close>\<close>
  "siteHostMiddleware new_url resolve serve suffix' urlHost request body s =
     (case suffix' of
        None \<Rightarrow> (Next, s)
      | Some sfx \<Rightarrow>
          (case site_query_of sfx urlHost (js_lower (js_trim (case header request ''Host'' of None \<Rightarrow> [] | Some h \<Rightarrow> h))) of
             None \<Rightarrow> (Next, s)
           | Some query \<Rightarrow>
               (case resolve query s of
                  (None, s1) \<Rightarrow> (Answer (plain_response 404 ''Not found''), s1)
                | (Some TargetDisabled, s1) \<Rightarrow> (Answer disabledResponse, s1)
                | (Some TargetGone, s1) \<Rightarrow> (Answer goneResponse, s1)
                | (Some (TargetAsset id' preview), s1) \<Rightarrow>
                    (case site_request request body id' preview of
                       None \<Rightarrow> (Answer tooLargeResponse, s1)
                     | Some (rewritten, body') \<Rightarrow>
                         (case serve rewritten body' s1 of
                            (res, s2) \<Rightarrow>
                              (case unrewriteLocation new_url res (''/files/'' @ id') of
                                 None \<Rightarrow> (Throws, s2)
                               | Some res' \<Rightarrow> (Answer res', s2)))))))"

section \<open>What a visitor can reach\<close>

lemma is_site_host_query:
  assumes "isSiteHost host urlHost (Some raw) = Inr True" and "normalizeSiteHostSuffix (Some raw) = Inr (Some sfx)"
  shows "site_query_of sfx urlHost (js_lower (js_trim (case host of None \<Rightarrow> [] | Some h \<Rightarrow> h))) \<noteq> None"
proof -
  let ?h = "js_lower (js_trim (case host of None \<Rightarrow> [] | Some h \<Rightarrow> h))"
  have trim: "js_lower (js_trim ?h) = ?h"
  proof (cases "?h = []")
    case False
    let ?t = "js_trim (case host of None \<Rightarrow> [] | Some h \<Rightarrow> h)"
    have t: "?t \<noteq> []" using False by (auto simp: js_lower_def)
    have "\<not> is_space (hd ?h)" and "\<not> is_space (last ?h)"
      using lower_not_space[OF hd_js_trim[OF t]] lower_not_space[OF last_js_trim[OF t]] t
      by (simp_all add: js_lower_def hd_map last_map)
    then show ?thesis using js_trim_ends[OF False] by simp
  next
    case True
    show ?thesis unfolding True by (simp add: js_trim_def js_lower_def)
  qed
  have "\<not> isApexHost host urlHost (Some sfx)"
    using assms by (simp add: isSiteHost_def map_sum_def)
  then have "\<not> isApexHost (Some ?h) urlHost (Some sfx)"
    using trim by (simp add: isApexHost_def Let_def)
  then show ?thesis by (simp add: site_query_of_def split: option.splits)
qed

lemma rewrite_body_bound:
  "rewriteRequest original body path headers = Some (q, b) \<Longrightarrow>
   int (length b) \<le> MAX_REWRITTEN_BODY_BYTES \<and> hq_pathname q = path \<and> hq_headers q = headers \<and> hq_method q = hq_method original"
  by (auto simp: rewriteRequest_def Let_def MAX_REWRITTEN_BODY_BYTES_def split: if_splits)

lemma site_request_preview:
  assumes "site_request request body id' preview = Some (q, b)"
  shows "header q SITE_PREVIEW_HEADER = preview" and "hq_pathname q = ''/files/'' @ id' @ hq_pathname request"
    and "int (length b) \<le> MAX_REWRITTEN_BODY_BYTES"
proof -
  have low: "js_lower SITE_PREVIEW_HEADER = SITE_PREVIEW_HEADER"
    by (simp add: SITE_PREVIEW_HEADER_def js_lower_def lower_char_def code_unit_def)
  have gone: "map_of (drop_header SITE_PREVIEW_HEADER hs) SITE_PREVIEW_HEADER = None" for hs
    by (induction hs) (auto simp: drop_header_def)
  note r = rewrite_body_bound[OF assms[unfolded site_request_def Let_def]]
  show "header q SITE_PREVIEW_HEADER = preview"
    using r low gone[of "hq_headers request"] by (simp add: header_def split: option.splits)
  show "hq_pathname q = ''/files/'' @ id' @ hq_pathname request" and "int (length b) \<le> MAX_REWRITTEN_BODY_BYTES"
    using r by simp_all
qed

text \<open>
  C17: On a site host there is nothing but the site: a request whose host is a site host never
  goes on to the application (no API route, no UI), whatever the router and the resolver are. It
  gets one of the four fixed pages, or what the file router answers to a request under
  \<open>/files/{id}/\<close> of the asset the resolver chose, with a body of at most 64 KiB and the preview
  mark of the resolver: a visitor's own mark does not get through.
\<close>

theorem site_host_serves_only_the_site:
  assumes "isSiteHost (header request ''Host'') urlHost (Some raw) = Inr True"
    and "normalizeSiteHostSuffix (Some raw) = Inr (Some sfx)"
    and "siteHostMiddleware new_url resolve serve (Some sfx) urlHost request body s = (outcome, s')"
  shows "outcome \<noteq> Next \<and>
    (outcome \<in> Answer ` {plain_response 404 ''Not found'', disabledResponse, goneResponse, tooLargeResponse} \<or>
     (\<exists>query id' preview s1 q b.
        site_query_of sfx urlHost (js_lower (js_trim (case header request ''Host'' of None \<Rightarrow> [] | Some h \<Rightarrow> h))) = Some query \<and>
        resolve query s = (Some (TargetAsset id' preview), s1) \<and>
        hq_pathname q = ''/files/'' @ id' @ hq_pathname request \<and>
        header q SITE_PREVIEW_HEADER = preview \<and> int (length b) \<le> MAX_REWRITTEN_BODY_BYTES \<and>
        outcome = (case unrewriteLocation new_url (fst (serve q b s1)) (''/files/'' @ id') of
                     None \<Rightarrow> Throws | Some res \<Rightarrow> Answer res)))"
proof -
  obtain query where q: "site_query_of sfx urlHost (js_lower (js_trim (case header request ''Host'' of None \<Rightarrow> [] | Some h \<Rightarrow> h))) = Some query"
    using is_site_host_query[OF assms(1,2)] by auto
  obtain target s1 where r: "resolve query s = (target, s1)" by fastforce
  show ?thesis
  proof (cases "target = None \<or> target = Some TargetDisabled \<or> target = Some TargetGone")
    case True
    then show ?thesis using assms(3) q r by (auto simp: siteHostMiddleware_def)
  next
    case False
    then obtain id' preview where t: "target = Some (TargetAsset id' preview)"
      by (cases target) (auto elim: site_target.exhaust)
    show ?thesis
    proof (cases "site_request request body id' preview")
      case None
      then show ?thesis using assms(3) q r t by (auto simp: siteHostMiddleware_def)
    next
      case (Some qb)
      obtain rq b where qb: "qb = (rq, b)" by fastforce
      have o: "outcome = (case unrewriteLocation new_url (fst (serve rq b s1)) (''/files/'' @ id') of
          None \<Rightarrow> Throws | Some res \<Rightarrow> Answer res)"
        using assms(3) q r t Some qb by (auto simp: siteHostMiddleware_def split: prod.splits option.splits)
      then have "outcome \<noteq> Next" by (simp split: option.splits)
      with o q r t site_request_preview[of request body id' preview rq b] Some qb show ?thesis by blast
    qed
  qed
qed

definition tab_location :: string where
  "tab_location = ''/files/x/'' @ [CHR 0x09] @ ''/evil.example''"

definition demo_new_url :: "string \<Rightarrow> url_view option" where
  \<comment> \<open>a URL parser on the locations of the examples: tabs dropped, the fragment split off\<close>
  "demo_new_url location =
     (let s = filter (\<lambda>c. c \<noteq> CHR 0x09) location; (path, hash) = (takeWhile (\<lambda>c. c \<noteq> CHR ''#'') s, dropWhile (\<lambda>c. c \<noteq> CHR ''#'') s)
      in Some \<lparr>uv_origin = ''http://site.invalid'', uv_pathname = takeWhile (\<lambda>c. c \<noteq> CHR ''?'') path,
           uv_search = dropWhile (\<lambda>c. c \<noteq> CHR ''?'') path, uv_hash = hash\<rparr>)"

definition demo_request :: http_request where
  "demo_request = \<lparr>hq_method = ''GET'', hq_headers = [(''host'', ''map.s''), (''x-serve-site-preview'', ''pinned'')],
     hq_protocol = ''https:'', hq_hostname = ''map.s'', hq_pathname = ''/a'', hq_search = [], hq_form = None\<rparr>"

lemma site_host_serves_only_the_site_witness:
  "fst (siteHostMiddleware demo_new_url (\<lambda>q s. (Some (TargetAsset ''x'' None), s)) (\<lambda>q b s. (plain_response 200 (hq_pathname q), s))
     (Some ''.s'') None demo_request [] ()) \<noteq> Next"
proof -
  have "isSiteHost (header demo_request ''Host'') None (Some ''.s'') = Inr True"
    and "normalizeSiteHostSuffix (Some ''.s'') = Inr (Some ''.s'')"
    by code_simp+
  from site_host_serves_only_the_site[OF this prod.collapse[symmetric], of demo_new_url
      "\<lambda>q s. (Some (TargetAsset ''x'' None), s)" "\<lambda>q b s. (plain_response 200 (hq_pathname q), s)" "[]" "()"]
  show ?thesis by blast
qed

section \<open>Where the rewriting of \<open>Location\<close> goes wrong\<close>

text \<open>
  A tab in a splat survives the check of the redirect target, and the URL parser drops it: the
  path that then begins with two slashes is another origin to the visitor's browser.
\<close>

lemma splat_redirect_leaves_site:
  assumes "new_url tab_location = Some \<lparr>uv_origin = ''http://site.invalid'', uv_pathname = ''/files/x//evil.example'', uv_search = [], uv_hash = []\<rparr>"
    and "matchRedirect [\<lparr>rr_from = ''/go/*'', rr_to = ''/:splat'', rr_status = 301, rr_force = False\<rparr>]
      (''/go/'' @ [CHR 0x09] @ ''/evil.example'') = Some rule"
  shows "map_option (\<lambda>res. map_of (dv_headers res) ''location'')
      (unrewriteLocation new_url (siteRedirectResponse rule ''x'' [] False) ''/files/x'') = Some (Some ''//evil.example'')"
proof -
  have "matchRedirect [\<lparr>rr_from = ''/go/*'', rr_to = ''/:splat'', rr_status = 301, rr_force = False\<rparr>]
      (''/go/'' @ [CHR 0x09] @ ''/evil.example'') = Some \<lparr>rm_to = ''/'' @ [CHR 0x09] @ ''/evil.example'', rm_status = 301, rm_force = False\<rparr>"
    by code_simp
  with assms show ?thesis
    by (simp add: unrewriteLocation_def siteRedirectResponse_def tab_location_def truthy_def Let_def
        set_pathname_def starts_with_def)
qed

text \<open>The fragment of a rule's target is lost on a site host.\<close>

lemma redirect_fragment_lost:
  assumes "new_url ''/files/x/docs#intro'' = Some \<lparr>uv_origin = ''http://site.invalid'', uv_pathname = ''/files/x/docs'', uv_search = [], uv_hash = ''#intro''\<rparr>"
  shows "map_option (\<lambda>res. map_of (dv_headers res) ''location'')
      (unrewriteLocation new_url (siteRedirectResponse \<lparr>rm_to = ''/docs#intro'', rm_status = 301, rm_force = False\<rparr> ''x'' [] False) ''/files/x'')
     = Some (Some ''/docs'')"
  using assms by (simp add: unrewriteLocation_def siteRedirectResponse_def truthy_def Let_def set_pathname_def starts_with_def)

section \<open>The file-only router\<close>

definition siteApp ::
  "platform \<Rightarrow> ('k, blob) kv_port \<Rightarrow> 's file_storage \<Rightarrow> delivery_env \<Rightarrow> database \<Rightarrow> 's
   \<Rightarrow> (string \<Rightarrow> (string \<times> string option) option) \<Rightarrow> (string \<Rightarrow> string option) \<Rightarrow> delivered
   \<Rightarrow> http_request \<Rightarrow> 'k \<times> password_memo \<Rightarrow> delivered \<times> 'k \<times> password_memo" where
  \<comment> \<open>\<open>path_params\<close> is the router's match of \<open>/:id\<close>, \<open>/:id/\<close> and \<open>/:id/:path{.+}\<close> under
    \<open>/files\<close>, \<open>thumb_query\<close> reads the \<open>thumb\<close> parameter of the query, \<open>not_found\<close> is the
    router's own 404\<close>
  "siteApp pf kv fs env db objs path_params thumb_query not_found request st =
     (case path_params (hq_pathname request) of
        None \<Rightarrow> (not_found\<lparr>dv_headers := own_set (dv_headers not_found) ''x-content-type-options'' ''nosniff''\<rparr>, st)
      | Some (id', path) \<Rightarrow>
          if hq_method request = ''POST'' \<and> path = Some AUTH_PATH_SEGMENT
          then (case auth_route pf kv (env\<lparr>de_siteHost := True\<rparr>) db request id' st of
                  (res, st') \<Rightarrow> (res\<lparr>dv_headers := own_set (dv_headers res) ''x-content-type-options'' ''nosniff''\<rparr>, st'))
          else if hq_method request = ''OPTIONS''
          then (\<lparr>dv_status = 204,
                 dv_headers = own_set (preflight_headers (header request ''Origin'') (trustedOrigins (env\<lparr>de_siteHost := True\<rparr>) request))
                   ''x-content-type-options'' ''nosniff'',
                 dv_body = Ends []\<rparr>, st)
          else if hq_method request = ''GET'' \<or> hq_method request = ''HEAD''
          then file_route pf kv fs (env\<lparr>de_siteHost := True\<rparr>) db objs request id' path (thumb_query (hq_search request)) st
          else (not_found\<lparr>dv_headers := own_set (dv_headers not_found) ''x-content-type-options'' ''nosniff''\<rparr>, st))"

end
