(* ===== verification/Cleanup.thy ===== *)
theory Cleanup
  imports File_Storage Site_Hosts
begin

text \<open>
  The scheduled cleanup (\<open>core/cleanup/usecase.ts\<close>): deleting all objects under a prefix
  within a budget of subrequests, the sweep of expired assets, the older sweep of orphaned
  objects, and the queue of prefixes a request could not finish. The locale \<open>object_store\<close>
  is the interface the deletion loop relies on (a page of a listing holds every key the
  cursor promises, a batch delete removes exactly its keys); the memory store interprets it.
  The lemmas show that the loop ends, what is left when it says it is done, that nothing outside
  the prefix is touched, and that ticks repeated on a growing backlog finish.
\<close>

section \<open>The budget\<close>

record budget =
  bg_cap :: int
  bg_used :: int

definition canAfford :: "budget \<Rightarrow> int \<Rightarrow> bool" where
  "canAfford b n \<longleftrightarrow> bg_used b + n \<le> bg_cap b"

definition charge :: "int \<Rightarrow> budget \<Rightarrow> budget" where
  "charge n b = b\<lparr>bg_used := bg_used b + n\<rparr>"

definition budget_remaining :: "budget \<Rightarrow> int" where
  "budget_remaining b = max 0 (bg_cap b - bg_used b)"

definition PER_ASSET_TAIL_BUDGET :: int where "PER_ASSET_TAIL_BUDGET = 4"

lemma charge_simps [simp]:
  "bg_cap (charge n b) = bg_cap b" "bg_used (charge n b) = bg_used b + n"
  by (simp_all add: charge_def)

section \<open>Deleting a prefix\<close>

definition delete_page ::
  "'s file_storage \<Rightarrow> string list \<Rightarrow> budget \<Rightarrow> 's \<Rightarrow> (budget \<times> 's) option" where
  \<comment> \<open>the deletion of one page of keys; \<open>None\<close> when it cannot be paid key by key\<close>
  "delete_page fs keys b s =
     (if keys = [] then Some (b, s)
      else case fs_deleteMany fs of
             Some deleteMany \<Rightarrow> Some (charge 1 b, deleteMany keys s)
           | None \<Rightarrow>
               if \<not> canAfford b (int (length keys)) then None
               else Some (charge (int (length keys)) b, fold (fs_delete fs) keys s))"

lemma delete_page_used: "delete_page fs keys b s = Some (b', s') \<Longrightarrow> bg_cap b' = bg_cap b \<and> bg_used b \<le> bg_used b'"
  by (auto simp: delete_page_def split: if_splits option.splits)

function delete_pages ::
  "'s file_storage \<Rightarrow> string \<Rightarrow> string option \<Rightarrow> budget \<Rightarrow> 's \<Rightarrow> bool \<times> budget \<times> 's" where
  "delete_pages fs prefix' cursor b s =
     (if \<not> canAfford b 2 then (False, b, s)
      else case fs_list fs prefix' (Some 1000) cursor s of
        (keys, next') \<Rightarrow>
          (case delete_page fs keys (charge 1 b) s of
             None \<Rightarrow> (False, charge 1 b, s)
           | Some (b', s') \<Rightarrow>
               if next' = None \<or> next' = Some [] then (True, b', s')
               else delete_pages fs prefix' next' b' s'))"
  by pat_completeness auto
termination
  by (relation "measure (\<lambda>(fs, prefix', cursor, b, s). nat (bg_cap b - bg_used b))")
    (auto simp: canAfford_def dest!: delete_page_used)

declare delete_pages.simps [simp del]

definition deleteAllR2Objects :: "'s file_storage \<Rightarrow> string \<Rightarrow> budget \<Rightarrow> 's \<Rightarrow> bool \<times> budget \<times> 's" where
  "deleteAllR2Objects fs prefix' b s = delete_pages fs prefix' None b s"

section \<open>Expired assets\<close>

record cleanup_result =
  cl_deletedAssets :: "string list"
  cl_deletedJobs :: "string list"
  cl_budgetExhausted :: bool

definition asset_prefix :: "string \<Rightarrow> string" where
  "asset_prefix id' = ''assets/'' @ id' @ ''/''"

definition in_flight :: "job option \<Rightarrow> bool" where
  "in_flight job = (case job of None \<Rightarrow> False | Some j \<Rightarrow> j_status j = JobPending \<or> j_status j = JobRunning)"

definition drop_job :: "string \<Rightarrow> budget \<Rightarrow> database \<Rightarrow> string list \<times> budget \<times> database" where
  \<comment> \<open>the associated job: looked up, deleted if there\<close>
  "drop_job id' b db =
     (if job_find id' db = None then ([], charge 1 b, db) else ([id'], charge 2 b, job_delete id' db))"

fun expire_assets ::
  "'s file_storage \<Rightarrow> bool \<Rightarrow> asset list \<Rightarrow> cleanup_result \<Rightarrow> budget \<Rightarrow> database \<Rightarrow> 's
   \<Rightarrow> cleanup_result \<times> budget \<times> database \<times> 's" where
  \<comment> \<open>the loop over the expired assets; the flag says whether \<open>options.versions\<close> is given\<close>
  "expire_assets fs vs [] res b db s = (res, b, db, s)"
| "expire_assets fs vs (asset # rest) res b db s =
     (if \<not> canAfford b (2 + PER_ASSET_TAIL_BUDGET) then (res\<lparr>cl_budgetExhausted := True\<rparr>, b, db, s)
      else if in_flight (job_find (a_id asset) db) then expire_assets fs vs rest res (charge 1 b) db s
      else case deleteAllR2Objects fs (asset_prefix (a_id asset)) (charge 1 b) s of
        (False, b1, s1) \<Rightarrow> (res\<lparr>cl_budgetExhausted := True\<rparr>, b1, db, s1)
      | (True, b1, s1) \<Rightarrow>
          (let db1 = (if vs then snd (version_deleteByAssetId (a_id asset) db) else db);
               b2 = (if vs then charge 1 b1 else b1);
               db2 = asset_delete (a_id asset) db1;
               b3 = charge 1 b2
           in case drop_job (a_id asset) b3 db2 of
                (dropped, b4, db3) \<Rightarrow>
                  expire_assets fs vs rest
                    (res\<lparr>cl_deletedAssets := cl_deletedAssets res @ [a_id asset],
                         cl_deletedJobs := cl_deletedJobs res @ dropped\<rparr>) b4 db3 s1))"

definition no_cleanup :: cleanup_result where
  "no_cleanup = \<lparr>cl_deletedAssets = [], cl_deletedJobs = [], cl_budgetExhausted = False\<rparr>"

definition cleanupExpiredAssets ::
  "'s file_storage \<Rightarrow> bool \<Rightarrow> nat \<Rightarrow> int \<Rightarrow> budget \<Rightarrow> database \<Rightarrow> 's \<Rightarrow> cleanup_result \<times> budget \<times> database \<times> 's" where
  "cleanupExpiredAssets fs vs maxAssets now b db s =
     expire_assets fs vs (asset_listExpired now maxAssets db) no_cleanup (charge 1 b) db s"

section \<open>Orphaned objects\<close>

definition extractAssetId :: "string \<Rightarrow> string option" where
  "extractAssetId key =
     (if \<not> starts_with ''assets/'' key then None
      else let rest = drop 7 key in map_option (\<lambda>i. take i rest) (index_of ''/'' rest))"

fun add_ids :: "nat \<Rightarrow> string list \<Rightarrow> string list \<Rightarrow> string list" where
  \<comment> \<open>a \<open>Set\<close> keeps insertion order; an empty id is falsy and is not added\<close>
  "add_ids maxAssets [] ids = ids"
| "add_ids maxAssets (key # keys) ids =
     (let ids' = (case extractAssetId key of None \<Rightarrow> ids
                  | Some i \<Rightarrow> if i = [] \<or> i \<in> set ids then ids else ids @ [i])
      in if length ids' \<ge> maxAssets then ids' else add_ids maxAssets keys ids')"

function scan_ids ::
  "'s file_storage \<Rightarrow> nat \<Rightarrow> string option \<Rightarrow> string list \<Rightarrow> budget \<Rightarrow> 's \<Rightarrow> string list \<times> budget" where
  "scan_ids fs maxAssets cursor ids b s =
     (if length ids < maxAssets \<and> canAfford b 1
      then (case fs_list fs ''assets/'' (Some 1000) cursor s of
              (keys, next') \<Rightarrow>
                (let ids' = add_ids maxAssets keys ids; b' = charge 1 b
                 in if next' = None \<or> next' = Some [] \<or> length ids' \<ge> maxAssets then (ids', b')
                    else scan_ids fs maxAssets next' ids' b' s))
      else (ids, b))"
  by pat_completeness auto
termination
  by (relation "measure (\<lambda>(fs, m, cursor, ids, b, s). nat (bg_cap b - bg_used b))") (auto simp: canAfford_def)

declare scan_ids.simps [simp del]

fun remove_orphans ::
  "'s file_storage \<Rightarrow> bool \<Rightarrow> string list \<Rightarrow> cleanup_result \<Rightarrow> budget \<Rightarrow> database \<Rightarrow> 's
   \<Rightarrow> cleanup_result \<times> budget \<times> database \<times> 's" where
  "remove_orphans fs vs [] res b db s = (res, b, db, s)"
| "remove_orphans fs vs (id' # rest) res b db s =
     (if \<not> canAfford b (3 + PER_ASSET_TAIL_BUDGET) then (res\<lparr>cl_budgetExhausted := True\<rparr>, b, db, s)
      else if asset_find id' db \<noteq> None then remove_orphans fs vs rest res (charge 1 b) db s
      else case deleteAllR2Objects fs (asset_prefix id') (charge 1 b) s of
        (False, b1, s1) \<Rightarrow> (res\<lparr>cl_budgetExhausted := True\<rparr>, b1, db, s1)
      | (True, b1, s1) \<Rightarrow>
          (let db1 = (if vs then snd (version_deleteByAssetId id' db) else db);
               b2 = (if vs then charge 1 b1 else b1)
           in case drop_job id' b2 db1 of
                (dropped, b3, db2) \<Rightarrow>
                  remove_orphans fs vs rest
                    (res\<lparr>cl_deletedAssets := cl_deletedAssets res @ [id'],
                         cl_deletedJobs := cl_deletedJobs res @ dropped\<rparr>) b3 db2 s1))"

definition cleanupOrphans ::
  "'s file_storage \<Rightarrow> bool \<Rightarrow> nat \<Rightarrow> budget \<Rightarrow> database \<Rightarrow> 's \<Rightarrow> cleanup_result \<times> budget \<times> database \<times> 's" where
  \<comment> \<open>the branch for a metadata store without \<open>listExpired\<close>\<close>
  "cleanupOrphans fs vs maxAssets b db s =
     (case scan_ids fs maxAssets None [] b s of
        (ids, b') \<Rightarrow> remove_orphans fs vs ids no_cleanup b' db s)"

section \<open>The queue of prefixes\<close>

fun drain_entries ::
  "'s file_storage \<Rightarrow> pending_cleanup list \<Rightarrow> string list \<Rightarrow> budget \<Rightarrow> database \<Rightarrow> 's
   \<Rightarrow> (string list \<times> bool) \<times> budget \<times> database \<times> 's" where
  "drain_entries fs [] drained b db s = ((drained, False), b, db, s)"
| "drain_entries fs (entry # rest) drained b db s =
     (if \<not> canAfford b 3 then ((drained, True), b, db, s)
      else case deleteAllR2Objects fs (pc_prefix entry) b s of
        (False, b1, s1) \<Rightarrow> ((drained, True), b1, db, s1)
      | (True, b1, s1) \<Rightarrow>
          drain_entries fs rest (drained @ [pc_prefix entry]) (charge 1 b1) (cleanup_remove (pc_prefix entry) db) s1)"

definition drainPendingCleanups ::
  "'s file_storage \<Rightarrow> nat \<Rightarrow> budget \<Rightarrow> database \<Rightarrow> 's \<Rightarrow> (string list \<times> bool) \<times> budget \<times> database \<times> 's" where
  "drainPendingCleanups fs maxPrefixes b db s =
     (if \<not> canAfford b 1 then (([], True), b, db, s)
      else drain_entries fs (cleanup_list maxPrefixes db) [] (charge 1 b) db s)"

fun drain_ticks :: "'s file_storage \<Rightarrow> nat \<Rightarrow> int \<Rightarrow> nat \<Rightarrow> database \<Rightarrow> 's \<Rightarrow> database \<times> 's" where
  \<comment> \<open>the drain of one scheduled run after another, each with a fresh budget\<close>
  "drain_ticks fs maxPrefixes cap 0 db s = (db, s)"
| "drain_ticks fs maxPrefixes cap (Suc n) db s =
     (case drainPendingCleanups fs maxPrefixes \<lparr>bg_cap = cap, bg_used = 0\<rparr> db s of
        (_, _, db', s') \<Rightarrow> drain_ticks fs maxPrefixes cap n db' s')"

section \<open>What the loop relies on, and what it does\<close>

locale object_store =
  fixes fs :: "'s file_storage"
    and stored_keys :: "'s \<Rightarrow> string set"
    and after :: "string option \<Rightarrow> string \<Rightarrow> bool"
  assumes finite_keys: "finite (stored_keys s)"
    and after_start: "after None k"
    and list_sound: "fs_list fs p (Some n) c s = (ks, next') \<Longrightarrow> set ks \<subseteq> {k \<in> stored_keys s. starts_with p k}"
    and list_last: "0 < n \<Longrightarrow> fs_list fs p (Some n) c s = (ks, None) \<Longrightarrow>
      k \<in> stored_keys s \<Longrightarrow> starts_with p k \<Longrightarrow> after c k \<Longrightarrow> k \<in> set ks"
    and list_more: "0 < n \<Longrightarrow> p \<noteq> [] \<Longrightarrow> fs_list fs p (Some n) c s = (ks, Some d) \<Longrightarrow>
      d \<noteq> [] \<and> ks \<noteq> [] \<and> (\<forall>k \<in> stored_keys s. starts_with p k \<longrightarrow> after c k \<longrightarrow> k \<in> set ks \<or> after (Some d) k)"
    and deleteMany_keys: "fs_deleteMany fs = Some dm \<Longrightarrow> stored_keys (dm ks s) = stored_keys s - set ks"
    and delete_keys: "stored_keys (fs_delete fs k s) = stored_keys s - {k}"
begin

lemma fold_delete_keys: "stored_keys (fold (fs_delete fs) ks s) = stored_keys s - set ks"
  by (induction ks arbitrary: s) (auto simp: delete_keys)

lemma delete_page_keys: "delete_page fs ks b s = Some (b', s') \<Longrightarrow> stored_keys s' = stored_keys s - set ks"
  by (auto simp: delete_page_def fold_delete_keys deleteMany_keys split: if_splits option.splits)

lemma delete_page_fits:
  "delete_page fs ks b s = Some (b', s') \<Longrightarrow> bg_used b + 1 \<le> bg_cap b \<Longrightarrow> bg_used b' \<le> bg_cap b'"
  by (auto simp: delete_page_def canAfford_def split: if_splits option.splits)

definition deletes :: "string \<Rightarrow> (string \<Rightarrow> bool) \<Rightarrow> bool \<times> budget \<times> 's \<Rightarrow> budget \<Rightarrow> 's \<Rightarrow> bool" where
  \<comment> \<open>what a run of the loop over the keys \<open>todo\<close> did to the store and the budget\<close>
  "deletes p todo out b s \<longleftrightarrow> (case out of (done', b', s') \<Rightarrow>
     stored_keys s' \<subseteq> stored_keys s \<and> (\<forall>k \<in> stored_keys s - stored_keys s'. starts_with p k) \<and>
     (done' \<longrightarrow> (\<forall>k \<in> stored_keys s'. starts_with p k \<longrightarrow> \<not> todo k)) \<and>
     bg_cap b' = bg_cap b \<and> bg_used b \<le> bg_used b' \<and> (bg_used b \<le> bg_cap b \<longrightarrow> bg_used b' \<le> bg_cap b))"

lemma delete_pages_deletes: "p \<noteq> [] \<Longrightarrow> deletes p (after c) (delete_pages fs p c b s) b s"
proof (induction "nat (bg_cap b - bg_used b)" arbitrary: c b s rule: less_induct)
  case less
  obtain ks next' where l: "fs_list fs p (Some 1000) c s = (ks, next')" by fastforce
  show ?case
  proof (cases "canAfford b 2")
    case False
    then show ?thesis by (simp add: delete_pages.simps[of fs p c b s] deletes_def)
  next
    case afford: True
    show ?thesis
    proof (cases "delete_page fs ks (charge 1 b) s")
      case None
      then show ?thesis using afford l
        by (simp add: delete_pages.simps[of fs p c b s] deletes_def canAfford_def)
    next
      case (Some out)
      obtain b1 s1 where o: "out = (b1, s1)" by fastforce
      have keys: "stored_keys s1 = stored_keys s - set ks" using delete_page_keys Some o by blast
      have sound: "set ks \<subseteq> {k \<in> stored_keys s. starts_with p k}" using list_sound l by blast
      have used: "bg_cap b1 = bg_cap b" "bg_used b < bg_used b1" "bg_used b1 \<le> bg_cap b"
        using delete_page_used[of fs ks "charge 1 b" s b1 s1] delete_page_fits[of ks "charge 1 b" s b1 s1] Some o afford
        by (simp_all add: canAfford_def)
      show ?thesis
      proof (cases "next' = None \<or> next' = Some []")
        case True
        then have "next' = None" using list_more[of 1000 p c s ks "[]"] less.prems l by auto
        with list_last[of 1000 p c s ks] l have "k \<in> set ks" if "k \<in> stored_keys s" "starts_with p k" "after c k" for k
          using that by simp
        with True show ?thesis using afford l Some o keys sound used
          by (auto simp: delete_pages.simps[of fs p c b s] deletes_def)
      next
        case False
        then obtain d where d: "next' = Some d" by auto
        have later: "k \<in> set ks \<or> after (Some d) k" if "k \<in> stored_keys s" "starts_with p k" "after c k" for k
          using list_more[of 1000 p c s ks d] less.prems l d that by auto
        obtain f b2 s2 where r: "delete_pages fs p (Some d) b1 s1 = (f, b2, s2)" by (rule prod_cases3)
        have "deletes p (after (Some d)) (f, b2, s2) b1 s1"
          using less.hyps[of b1 "Some d" s1] less.prems used afford r by (simp add: canAfford_def)
        note rest = this[unfolded deletes_def, simplified]
        have "\<not> after c k" if "f" "k \<in> stored_keys s2" "starts_with p k" for k
          using rest that keys later[of k] by blast
        moreover have "delete_pages fs p c b s = (f, b2, s2)"
          using afford l Some o d False r by (simp add: delete_pages.simps[of fs p c b s])
        ultimately show ?thesis
          using keys sound used rest by (auto simp: deletes_def)
      qed
    qed
  qed
qed

text \<open>A run that can pay for one page either finishes or removes something.\<close>

lemma delete_pages_progress:
  assumes "p \<noteq> []" and "canAfford b 2" and "fs_deleteMany fs \<noteq> None" and "delete_pages fs p None b s = (done', b', s')"
  shows "done' \<or> card (stored_keys s') < card (stored_keys s)"
proof -
  obtain ks next' where l: "fs_list fs p (Some 1000) None s = (ks, next')" by fastforce
  obtain dm where dm: "fs_deleteMany fs = Some dm" using assms(3) by blast
  show ?thesis
  proof (cases "ks = []")
    case True
    then have "next' = None" using list_more[of 1000 p None s ks] assms(1) l by (cases next') auto
    with True show ?thesis using assms(2,4) l
      by (simp add: delete_pages.simps[of fs p None b s] delete_page_def)
  next
    case False
    obtain b1 s1 where pg: "delete_page fs ks (charge 1 b) s = Some (b1, s1)"
      using dm False by (auto simp: delete_page_def)
    have "set ks \<subseteq> stored_keys s" using list_sound[OF l] by auto
    moreover have "stored_keys s1 = stored_keys s - set ks" using delete_page_keys[OF pg] .
    ultimately have less: "card (stored_keys s1) < card (stored_keys s)"
      using False finite_keys by (intro psubset_card_mono) (auto simp: neq_Nil_conv)
    show ?thesis
    proof (cases "next' = None \<or> next' = Some []")
      case True
      then show ?thesis using assms(2,4) l pg by (simp add: delete_pages.simps[of fs p None b s])
    next
      case more: False
      then have "delete_pages fs p next' b1 s1 = (done', b', s')"
        using assms(2,4) l pg by (auto simp: delete_pages.simps[of fs p None b s])
      then have "stored_keys s' \<subseteq> stored_keys s1"
        using delete_pages_deletes[OF assms(1), of next' b1 s1] by (simp add: deletes_def)
      with less finite_keys show ?thesis by (meson card_mono le_less_trans)
    qed
  qed
qed

text \<open>
  The queue of prefixes. \<open>cleared\<close> relates the state before and after: nothing is added, only
  objects under the prefixes of \<open>es\<close> go, and an entry that goes has no object left.
\<close>

definition cleared :: "pending_cleanup set \<Rightarrow> database \<Rightarrow> 's \<Rightarrow> database \<Rightarrow> 's \<Rightarrow> bool" where
  "cleared es db s db' s' \<longleftrightarrow>
     stored_keys s' \<subseteq> stored_keys s \<and> set (db_cleanup db') \<subseteq> set (db_cleanup db) \<and>
     length (db_cleanup db') \<le> length (db_cleanup db) \<and>
     (\<forall>k \<in> stored_keys s - stored_keys s'. \<exists>e \<in> es. starts_with (pc_prefix e) k) \<and>
     (\<forall>e \<in> set (db_cleanup db) - set (db_cleanup db'). \<forall>k \<in> stored_keys s'. \<not> starts_with (pc_prefix e) k)"

lemma cleared_refl: "cleared es db s db s"
  by (simp add: cleared_def)

lemma clearedD:
  assumes "cleared es db s db' s'"
  shows "stored_keys s' \<subseteq> stored_keys s" and "set (db_cleanup db') \<subseteq> set (db_cleanup db)"
    and "length (db_cleanup db') \<le> length (db_cleanup db)"
    and "k \<in> stored_keys s \<Longrightarrow> k \<notin> stored_keys s' \<Longrightarrow> \<exists>e \<in> es. starts_with (pc_prefix e) k"
    and "e \<in> set (db_cleanup db) \<Longrightarrow> e \<notin> set (db_cleanup db') \<Longrightarrow> k \<in> stored_keys s' \<Longrightarrow> \<not> starts_with (pc_prefix e) k"
  using assms by (simp_all add: cleared_def)

lemma cleared_trans:
  assumes "cleared es db s db1 s1" and "cleared es db1 s1 db2 s2"
  shows "cleared es db s db2 s2"
  unfolding cleared_def
proof (intro conjI ballI)
  show "stored_keys s2 \<subseteq> stored_keys s" using clearedD(1)[OF assms(1)] clearedD(1)[OF assms(2)] by (rule order_trans[rotated])
  show "set (db_cleanup db2) \<subseteq> set (db_cleanup db)" using clearedD(2)[OF assms(1)] clearedD(2)[OF assms(2)] by (rule order_trans[rotated])
  show "length (db_cleanup db2) \<le> length (db_cleanup db)" using clearedD(3)[OF assms(1)] clearedD(3)[OF assms(2)] by simp
  show "\<exists>e \<in> es. starts_with (pc_prefix e) k" if "k \<in> stored_keys s - stored_keys s2" for k
    using that clearedD(4)[OF assms(1), of k] clearedD(4)[OF assms(2), of k] by (cases "k \<in> stored_keys s1") auto
  show "\<not> starts_with (pc_prefix e) k" if "e \<in> set (db_cleanup db) - set (db_cleanup db2)" "k \<in> stored_keys s2" for e k
    using that clearedD(5)[OF assms(1), of e k] clearedD(5)[OF assms(2), of e k] clearedD(1)[OF assms(2)]
    by (cases "e \<in> set (db_cleanup db1)") auto
qed

lemma cleared_mono: "cleared es db s db' s' \<Longrightarrow> es \<subseteq> es' \<Longrightarrow> cleared es' db s db' s'"
  unfolding cleared_def by blast

lemma delete_all_cleared:
  assumes "pc_prefix e \<noteq> []" and "e \<in> es" and "deleteAllR2Objects fs (pc_prefix e) b s = (f, b', s')"
  shows "cleared es db s (if f then cleanup_remove (pc_prefix e) db else db) s'"
proof -
  have d: "deletes (pc_prefix e) (after None) (f, b', s') b s"
    using delete_pages_deletes[OF assms(1), of None b s] assms(3) by (simp add: deleteAllR2Objects_def)
  then show ?thesis
    using assms(2) by (auto simp: cleared_def deletes_def cleanup_remove_def delete_rows_def after_start)
qed

lemma drain_entries_cleared:
  assumes "set entries \<subseteq> es" and "\<forall>e \<in> es. pc_prefix e \<noteq> []"
    and "drain_entries fs entries drained b db s = (out, b', db', s')"
  shows "cleared es db s db' s'"
  using assms
proof (induction entries arbitrary: drained b db s)
  case Nil
  then show ?case by (simp add: cleared_refl)
next
  case (Cons e entries)
  obtain f b1 s1 where d: "deleteAllR2Objects fs (pc_prefix e) b s = (f, b1, s1)" by (rule prod_cases3)
  have one: "cleared es db s (if f then cleanup_remove (pc_prefix e) db else db) s1"
    using delete_all_cleared[of e es b s f b1 s1 db] Cons.prems d by auto
  show ?case
  proof (cases "canAfford b 3 \<and> f")
    case True
    then have "drain_entries fs entries (drained @ [pc_prefix e]) (charge 1 b1) (cleanup_remove (pc_prefix e) db) s1 = (out, b', db', s')"
      using Cons.prems(3) d by simp
    from Cons.IH[OF _ Cons.prems(2) this] Cons.prems(1) one True show ?thesis
      by (auto intro: cleared_trans)
  next
    case False
    then show ?thesis using Cons.prems(3) d one by (auto simp: cleared_refl split: if_splits)
  qed
qed

definition backlog :: "database \<Rightarrow> 's \<Rightarrow> nat" where
  "backlog db s = card (stored_keys s) + length (db_cleanup db)"

lemma cleared_backlog: "cleared es db s db' s' \<Longrightarrow> backlog db' s' \<le> backlog db s"
  unfolding cleared_def backlog_def by (meson add_mono card_mono finite_keys)

lemma drain_entries_progress:
  assumes "drain_entries fs (e # entries) drained b db s = (out, b', db', s')" and "canAfford b 3"
    and "\<forall>e \<in> set (e # entries). pc_prefix e \<noteq> []" and "e \<in> set (db_cleanup db)" and "fs_deleteMany fs \<noteq> None"
  shows "backlog db' s' < backlog db s"
proof -
  obtain f b1 s1 where d: "deleteAllR2Objects fs (pc_prefix e) b s = (f, b1, s1)" by (rule prod_cases3)
  have afford: "canAfford b 2" using assms(2) by (simp add: canAfford_def)
  have ne: "pc_prefix e \<noteq> []" using assms(3) by simp
  show ?thesis
  proof (cases f)
    case True
    then have "drain_entries fs entries (drained @ [pc_prefix e]) (charge 1 b1) (cleanup_remove (pc_prefix e) db) s1 = (out, b', db', s')"
      using assms(1,2) d by simp
    from cleared_backlog[OF drain_entries_cleared[OF order_refl _ this]] assms(3)
    have "backlog db' s' \<le> backlog (cleanup_remove (pc_prefix e) db) s1" by simp
    moreover have "length (db_cleanup (cleanup_remove (pc_prefix e) db)) < length (db_cleanup db)"
      using assms(4) by (auto simp: cleanup_remove_def delete_rows_def intro!: length_filter_less)
    moreover have "card (stored_keys s1) \<le> card (stored_keys s)"
      using delete_pages_deletes[OF ne, of None b s] d finite_keys
      by (auto simp: deletes_def deleteAllR2Objects_def intro: card_mono)
    ultimately show ?thesis by (simp add: backlog_def)
  next
    case False
    then have "db' = db" "s' = s1" using assms(1,2) d by auto
    moreover have "card (stored_keys s1) < card (stored_keys s)"
      using delete_pages_progress[OF ne afford assms(5), of s f b1 s1] d False by (simp add: deleteAllR2Objects_def)
    ultimately show ?thesis by (simp add: backlog_def)
  qed
qed

lemma cleanup_list_subset: "set (cleanup_list n db) \<subseteq> set (db_cleanup db)"
  by (auto simp: cleanup_list_def order_asc_def dest: in_set_takeD)

lemma drain_cleared:
  assumes "\<forall>e \<in> set (db_cleanup db). pc_prefix e \<noteq> []" and "drainPendingCleanups fs m b db s = (out, b', db', s')"
  shows "cleared (set (db_cleanup db)) db s db' s'"
  using assms drain_entries_cleared[OF cleanup_list_subset assms(1)]
  by (auto simp: drainPendingCleanups_def cleared_refl split: if_splits)

lemma drain_progress:
  assumes "\<forall>e \<in> set (db_cleanup db). pc_prefix e \<noteq> []" and "db_cleanup db \<noteq> []" and "0 < m" and "4 \<le> cap"
    and "fs_deleteMany fs \<noteq> None" and "drainPendingCleanups fs m \<lparr>bg_cap = cap, bg_used = 0\<rparr> db s = (out, b', db', s')"
  shows "backlog db' s' < backlog db s"
proof -
  have "length (cleanup_list m db) = min (length (db_cleanup db)) m"
    by (simp add: cleanup_list_def order_asc_def)
  then have "length (cleanup_list m db) > 0" using assms(2,3) by simp
  then obtain e es where es: "cleanup_list m db = e # es" by (cases "cleanup_list m db") auto
  have e: "e \<in> set (db_cleanup db)" and ne: "\<forall>x \<in> set (e # es). pc_prefix x \<noteq> []"
    using cleanup_list_subset[of m db] es assms(1) by auto
  have "drain_entries fs (e # es) [] (charge 1 \<lparr>bg_cap = cap, bg_used = 0\<rparr>) db s = (out, b', db', s')"
    using assms(4,6) es by (simp add: drainPendingCleanups_def canAfford_def split: if_splits)
  from drain_entries_progress[OF this _ ne e assms(5)] assms(4) show ?thesis by (simp add: canAfford_def)
qed

theorem drain_ticks_finish:
  assumes "\<forall>e \<in> set (db_cleanup db). pc_prefix e \<noteq> []" and "0 < m" and "4 \<le> cap" and "fs_deleteMany fs \<noteq> None"
    and "backlog db s \<le> n" and "drain_ticks fs m cap n db s = (db', s')"
  shows "db_cleanup db' = [] \<and> cleared (set (db_cleanup db)) db s db' s'"
  using assms
proof (induction n arbitrary: db s)
  case 0
  then show ?case by (simp add: backlog_def cleared_refl)
next
  case (Suc n)
  obtain out b1 db1 s1 where d: "drainPendingCleanups fs m \<lparr>bg_cap = cap, bg_used = 0\<rparr> db s = (out, b1, db1, s1)"
    by (metis surj_pair)
  have c: "cleared (set (db_cleanup db)) db s db1 s1" using drain_cleared[OF Suc.prems(1) d] .
  then have sub: "set (db_cleanup db1) \<subseteq> set (db_cleanup db)" by (simp add: cleared_def)
  have n: "backlog db1 s1 \<le> n \<or> db_cleanup db = []"
    using drain_progress[OF Suc.prems(1) _ Suc.prems(2,3,4) d] Suc.prems(5) by linarith
  have r: "drain_ticks fs m cap n db1 s1 = (db', s')" using Suc.prems(6) d by simp
  have idle: "drain_ticks fs m cap k db2 s2 = (db2, s2)" if "db_cleanup db2 = []" for k db2 s2
  proof (induction k)
    case (Suc k)
    have "drainPendingCleanups fs m \<lparr>bg_cap = cap, bg_used = 0\<rparr> db2 s2
        = (([], False), \<lparr>bg_cap = cap, bg_used = 1\<rparr>, db2, s2)"
      using that assms(3) by (simp add: drainPendingCleanups_def canAfford_def cleanup_list_def order_asc_def charge_def)
    with Suc show ?case by simp
  qed simp
  show ?case
  proof (cases "db_cleanup db = []")
    case True
    then have "db' = db" "s' = s" using idle[of db "Suc n" s] Suc.prems(6) by simp_all
    with True show ?thesis by (simp add: cleared_refl)
  next
    case False
    from Suc.IH[OF _ Suc.prems(2,3,4) _ r] n False sub Suc.prems(1)
    have "db_cleanup db' = [] \<and> cleared (set (db_cleanup db1)) db1 s1 db' s'" by auto
    with cleared_trans[OF c cleared_mono[OF _ sub]] show ?thesis by blast
  qed
qed

text \<open>The sweep of expired assets.\<close>

definition swept :: "asset set \<Rightarrow> database \<Rightarrow> 's \<Rightarrow> cleanup_result \<Rightarrow> database \<Rightarrow> 's \<Rightarrow> bool" where
  \<comment> \<open>what the sweep of \<open>xs\<close>, started in \<open>db\<close> and \<open>s\<close>, has done so far\<close>
  "swept xs db s res db' s' \<longleftrightarrow>
     stored_keys s' \<subseteq> stored_keys s \<and>
     (\<forall>k \<in> stored_keys s - stored_keys s'. \<exists>a \<in> xs. starts_with (asset_prefix (a_id a)) k \<and> \<not> in_flight (job_find (a_id a) db)) \<and>
     (\<forall>i \<in> set (cl_deletedAssets res). asset_find i db' = None \<and> (\<exists>a \<in> xs. a_id a = i) \<and> \<not> in_flight (job_find i db) \<and>
        (\<forall>k \<in> stored_keys s'. \<not> starts_with (asset_prefix i) k)) \<and>
     (\<forall>i. i \<notin> set (cl_deletedAssets res) \<longrightarrow> asset_find i db' = asset_find i db) \<and>
     (\<forall>i. job_find i db' = job_find i db \<or> \<not> in_flight (job_find i db))"

lemma asset_find_delete: "asset_find i (asset_delete j db) = (if i = j then None else asset_find i db)"
  by (simp add: asset_find_def asset_delete_def find_delete_rows del: find_row_None)

lemma job_find_delete: "job_find i (job_delete j db) = (if i = j then None else job_find i db)"
  by (simp add: job_find_def job_delete_def find_delete_rows del: find_row_None)

lemma drop_job_finds:
  assumes "drop_job j b db = (dropped, b', db')"
  shows "asset_find i db' = asset_find i db" and "i \<noteq> j \<Longrightarrow> job_find i db' = job_find i db"
proof -
  have "asset_find i (job_delete j db) = asset_find i db" by (simp add: asset_find_def job_delete_def)
  with assms show "asset_find i db' = asset_find i db" by (auto simp: drop_job_def split: if_splits)
  show "i \<noteq> j \<Longrightarrow> job_find i db' = job_find i db"
    using assms by (auto simp: drop_job_def job_find_delete split: if_splits)
qed

lemma version_delete_finds:
  "asset_find i (snd (version_deleteByAssetId j db)) = asset_find i db"
  "job_find i (snd (version_deleteByAssetId j db)) = job_find i db"
  by (simp_all add: version_deleteByAssetId_def asset_find_def job_find_def)

lemma asset_delete_job [simp]: "job_find i (asset_delete j db) = job_find i db"
  by (simp add: asset_delete_def job_find_def)

lemma swept_step:
  assumes "swept xs db0 s0 res db s" and "a \<in> xs" and "\<not> in_flight (job_find (a_id a) db)"
    and "deleteAllR2Objects fs (asset_prefix (a_id a)) b s = (True, b1, s1)"
    and "db1 = (if vs then snd (version_deleteByAssetId (a_id a) db) else db)"
    and "drop_job (a_id a) b2 (asset_delete (a_id a) db1) = (dropped, b3, db3)"
  shows "swept xs db0 s0 (res\<lparr>cl_deletedAssets := cl_deletedAssets res @ [a_id a], cl_deletedJobs := js\<rparr>) db3 s1"
proof -
  have ne: "asset_prefix (a_id a) \<noteq> []" by (simp add: asset_prefix_def)
  have d: "stored_keys s1 \<subseteq> stored_keys s" "\<forall>k \<in> stored_keys s - stored_keys s1. starts_with (asset_prefix (a_id a)) k"
    "\<forall>k \<in> stored_keys s1. \<not> starts_with (asset_prefix (a_id a)) k"
    using delete_pages_deletes[OF ne, of None b s] assms(4) by (auto simp: deletes_def deleteAllR2Objects_def after_start)
  have idle: "\<not> in_flight (job_find (a_id a) db0)"
    using assms(1,3) unfolding swept_def by metis
  have af: "asset_find i db3 = (if i = a_id a then None else asset_find i db)" for i
    using drop_job_finds(1)[OF assms(6), of i] assms(5) by (simp add: asset_find_delete version_delete_finds)
  have jf: "i \<noteq> a_id a \<Longrightarrow> job_find i db3 = job_find i db" for i
    using drop_job_finds(2)[OF assms(6), of i] assms(5) by (simp add: version_delete_finds)
  have old: "asset_find i db = None" "\<exists>a \<in> xs. a_id a = i" "\<not> in_flight (job_find i db0)"
      "k \<in> stored_keys s \<Longrightarrow> \<not> starts_with (asset_prefix i) k" if "i \<in> set (cl_deletedAssets res)" for i k
    using assms(1) that by (auto simp: swept_def)
  note sw = assms(1)[unfolded swept_def]
  let ?res = "res\<lparr>cl_deletedAssets := cl_deletedAssets res @ [a_id a], cl_deletedJobs := js\<rparr>"
  have 1: "stored_keys s1 \<subseteq> stored_keys s0" using conjunct1[OF sw] d(1) by (rule order_trans[rotated])
  have 2: "\<exists>a \<in> xs. starts_with (asset_prefix (a_id a)) k \<and> \<not> in_flight (job_find (a_id a) db0)"
    if "k \<in> stored_keys s0 - stored_keys s1" for k
  proof (cases "k \<in> stored_keys s")
    case True
    with that d(2) idle assms(2) show ?thesis by blast
  next
    case False
    with that conjunct1[OF conjunct2[OF sw]] show ?thesis by blast
  qed
  have 3: "asset_find i db3 = None \<and> (\<exists>a \<in> xs. a_id a = i) \<and> \<not> in_flight (job_find i db0) \<and>
      (\<forall>k \<in> stored_keys s1. \<not> starts_with (asset_prefix i) k)" if "i \<in> set (cl_deletedAssets ?res)" for i
  proof (cases "i = a_id a")
    case True
    then show ?thesis using af idle assms(2) d(3) by auto
  next
    case False
    then have "i \<in> set (cl_deletedAssets res)" using that by simp
    from old[OF this] af[of i] d(1) show ?thesis by auto
  qed
  have 4: "asset_find i db3 = asset_find i db0" if "i \<notin> set (cl_deletedAssets ?res)" for i
  proof -
    have "i \<notin> set (cl_deletedAssets res)" "i \<noteq> a_id a" using that by auto
    with af[of i] sw show ?thesis by simp
  qed
  have 5: "job_find i db3 = job_find i db0 \<or> \<not> in_flight (job_find i db0)" for i
    using jf[of i] idle sw by (cases "i = a_id a") auto
  show ?thesis unfolding swept_def using 1 2 3 4 5 by blast
qed

lemma swept_fewer:
  assumes "swept xs db0 s0 res db s" and "stored_keys s1 \<subseteq> stored_keys s"
    and "\<forall>k \<in> stored_keys s - stored_keys s1. starts_with (asset_prefix (a_id a)) k" and "a \<in> xs"
    and "\<not> in_flight (job_find (a_id a) db0)"
  shows "swept xs db0 s0 res db s1"
proof -
  note sw = assms(1)[unfolded swept_def]
  have 1: "stored_keys s1 \<subseteq> stored_keys s0" using conjunct1[OF sw] assms(2) by (rule order_trans[rotated])
  have 2: "\<exists>a \<in> xs. starts_with (asset_prefix (a_id a)) k \<and> \<not> in_flight (job_find (a_id a) db0)"
    if "k \<in> stored_keys s0 - stored_keys s1" for k
  proof (cases "k \<in> stored_keys s")
    case True
    with that assms(3,4,5) show ?thesis by blast
  next
    case False
    with that conjunct1[OF conjunct2[OF sw]] show ?thesis by blast
  qed
  have 3: "asset_find i db = None \<and> (\<exists>a \<in> xs. a_id a = i) \<and> \<not> in_flight (job_find i db0) \<and>
      (\<forall>k \<in> stored_keys s1. \<not> starts_with (asset_prefix i) k)" if "i \<in> set (cl_deletedAssets res)" for i
    using conjunct1[OF conjunct2[OF conjunct2[OF sw]]] that assms(2) by (meson subsetD)
  show ?thesis unfolding swept_def using 1 2 3 conjunct2[OF conjunct2[OF conjunct2[OF sw]]] by blast
qed

lemma delete_all_budget:
  assumes "deleteAllR2Objects fs p b s = (f, b', s')" and "p \<noteq> []"
  shows "bg_cap b' = bg_cap b" and "bg_used b \<le> bg_cap b \<Longrightarrow> bg_used b' \<le> bg_cap b"
  using delete_pages_deletes[OF assms(2), of None b s] assms(1) by (auto simp: deletes_def deleteAllR2Objects_def)

lemma expire_swept:
  assumes "expire_assets fs vs assets res b db s = (res', b', db', s')" and "swept xs db0 s0 res db s" and "set assets \<subseteq> xs"
  shows "swept xs db0 s0 res' db' s'"
  using assms
proof (induction assets arbitrary: res b db s)
  case Nil
  then show ?case by simp
next
  case (Cons a assets)
  have flag: "swept xs db0 s0 (r\<lparr>cl_budgetExhausted := x\<rparr>) d t = swept xs db0 s0 r d t" for r x d t
    by (simp add: swept_def)
  have ne: "asset_prefix (a_id a) \<noteq> []" by (simp add: asset_prefix_def)
  show ?case
  proof (cases "canAfford b (2 + PER_ASSET_TAIL_BUDGET) \<and> \<not> in_flight (job_find (a_id a) db)")
    case False
    then show ?thesis
      using Cons by (auto simp: flag split: if_splits)
  next
    case go: True
    obtain f b1 s1 where d: "deleteAllR2Objects fs (asset_prefix (a_id a)) (charge 1 b) s = (f, b1, s1)" by (rule prod_cases3)
    show ?thesis
    proof (cases f)
      case False
      then have r: "res' = res\<lparr>cl_budgetExhausted := True\<rparr>" "db' = db" "s' = s1" using Cons.prems(1) go d by auto
      have "stored_keys s1 \<subseteq> stored_keys s" "\<forall>k \<in> stored_keys s - stored_keys s1. starts_with (asset_prefix (a_id a)) k"
        using delete_pages_deletes[OF ne, of None "charge 1 b" s] d by (auto simp: deletes_def deleteAllR2Objects_def)
      moreover have "\<not> in_flight (job_find (a_id a) db0)" using Cons.prems(2) go unfolding swept_def by metis
      ultimately have "swept xs db0 s0 res db s1"
        using swept_fewer[OF Cons.prems(2), of s1 a] Cons.prems(3) by simp
      then show ?thesis by (simp add: r flag)
    next
      case True
      define db1 where "db1 = (if vs then snd (version_deleteByAssetId (a_id a) db) else db)"
      define b2 where "b2 = charge 1 (if vs then charge 1 b1 else b1)"
      obtain dropped b3 db3 where dr: "drop_job (a_id a) b2 (asset_delete (a_id a) db1) = (dropped, b3, db3)"
        by (rule prod_cases3)
      have "swept xs db0 s0 (res\<lparr>cl_deletedAssets := cl_deletedAssets res @ [a_id a],
          cl_deletedJobs := cl_deletedJobs res @ dropped\<rparr>) db3 s1"
        using swept_step[OF Cons.prems(2) _ _ _ db1_def dr, of "charge 1 b" b1 s1] Cons.prems(3) go d True by simp
      moreover have "expire_assets fs vs assets (res\<lparr>cl_deletedAssets := cl_deletedAssets res @ [a_id a],
          cl_deletedJobs := cl_deletedJobs res @ dropped\<rparr>) b3 db3 s1 = (res', b', db', s')"
        using Cons.prems(1) go d True dr by (simp add: Let_def db1_def b2_def)
      ultimately show ?thesis using Cons.IH Cons.prems(3) by auto
    qed
  qed
qed

end

section \<open>The in-memory store is such a store\<close>

definition memory_keys :: "memory_storage \<Rightarrow> string set" where
  "memory_keys st = fst ` set (ms_objects st)"

definition key_after :: "string option \<Rightarrow> string \<Rightarrow> bool" where
  "key_after cursor key = (case cursor of None \<Rightarrow> True | Some c \<Rightarrow> c < key)"

lemma mem_release_keys: "memory_keys (mem_release k st) = memory_keys st - {k}"
proof (cases "map_of (ms_objects st) k")
  case None
  then have "k \<notin> memory_keys st" by (simp add: memory_keys_def map_of_eq_None_iff)
  then show ?thesis using None by (simp add: mem_release_def)
next
  case (Some entry)
  then show ?thesis by (auto simp: mem_release_def memory_keys_def own_delete_def)
qed

lemma mem_deleteMany_keys: "memory_keys (mem_deleteMany ks st) = memory_keys st - set ks"
  unfolding mem_deleteMany_def by (induction ks arbitrary: st) (auto simp: mem_release_keys)

lemma mem_list_matching:
  "mem_list p (Some n) c st = (ks, next') \<Longrightarrow>
   \<exists>m. sorted m \<and> set m = {k \<in> memory_keys st. starts_with p k \<and> key_after c k} \<and> ks = take n m \<and>
     next' = (if n < length m \<and> ks \<noteq> [] then Some (last ks) else None)"
  unfolding mem_list_def Let_def
  by (rule exI[of _ "filter (\<lambda>key. case c of None \<Rightarrow> True | Some after \<Rightarrow> after < key)
      (sort (filter (starts_with p) (map fst (ms_objects st))))"])
    (auto simp: memory_keys_def key_after_def sorted_wrt_filter)

interpretation memory_objects: object_store "memory_storage_port md5" memory_keys key_after
proof (unfold_locales, goal_cases)
  case (1 s)
  then show ?case by (simp add: memory_keys_def)
next
  case (2 k)
  then show ?case by (simp add: key_after_def)
next
  case (3 p n c s ks next')
  then show ?case
    using mem_list_matching[of p n c s ks next'] by (auto simp: memory_storage_port_def dest: in_set_takeD)
next
  case (4 n p c s ks k)
  then obtain m where m: "set m = {k \<in> memory_keys s. starts_with p k \<and> key_after c k}" "ks = take n m"
    "None = (if n < length m \<and> ks \<noteq> [] then Some (last ks) else None)"
    using mem_list_matching[of p n c s ks None] by (auto simp: memory_storage_port_def)
  have "ks = m" using m(2,3) 4(1) by (auto split: if_splits)
  with 4 m(1) show ?case by simp
next
  case (5 n p c s ks d)
  then obtain m where m: "sorted m" "set m = {k \<in> memory_keys s. starts_with p k \<and> key_after c k}" "ks = take n m"
    "Some d = (if n < length m \<and> ks \<noteq> [] then Some (last ks) else None)"
    using mem_list_matching[of p n c s ks "Some d"] by (auto simp: memory_storage_port_def)
  then have ne: "ks \<noteq> []" and d: "d = last ks" by (auto split: if_splits)
  have "d \<in> set m" using ne d m(3) by (metis in_set_takeD last_in_set)
  then have "d \<noteq> []" using m(2) 5(2) by (auto simp: starts_with_def)
  moreover have "k \<in> set ks \<or> d < k" if "k \<in> set m" for k
  proof (cases "k \<in> set ks")
    case False
    have "m = ks @ drop n m" using m(3) by simp
    then have "sorted (ks @ drop n m)" using m(1) by simp
    moreover have "k \<in> set (drop n m)" using that False m(3) by (metis Un_iff append_take_drop_id set_append)
    moreover have "d \<in> set ks" using ne d by simp
    ultimately have "d \<le> k" by (auto simp: sorted_append)
    with \<open>d \<in> set ks\<close> False show ?thesis by (auto simp: le_less)
  qed simp
  ultimately show ?case using ne m(2) by (auto simp: key_after_def)
next
  case (6 dm ks s)
  then show ?case by (auto simp: memory_storage_port_def mem_deleteMany_keys)
next
  case (7 k s)
  then show ?case by (simp add: memory_storage_port_def mem_release_keys)
qed



section \<open>What a run costs\<close>

lemma delete_page_cost:
  "delete_page fs ks b s = Some (b', s') \<Longrightarrow> bg_used b + 1 \<le> bg_cap b \<Longrightarrow>
   bg_cap b' = bg_cap b \<and> bg_used b \<le> bg_used b' \<and> bg_used b' \<le> bg_cap b"
  by (auto simp: delete_page_def canAfford_def split: if_splits option.splits)

lemma delete_pages_cost:
  "delete_pages fs p c b s = (f, b', s') \<Longrightarrow>
   bg_cap b' = bg_cap b \<and> bg_used b \<le> bg_used b' \<and> (bg_used b \<le> bg_cap b \<longrightarrow> bg_used b' \<le> bg_cap b)"
proof (induction fs p c b s rule: delete_pages.induct)
  case (1 fs p c b s)
  obtain ks next' where l: "fs_list fs p (Some 1000) c s = (ks, next')" by fastforce
  show ?case
  proof (cases "canAfford b 2")
    case False
    then show ?thesis using "1.prems" by (simp add: delete_pages.simps[of fs p c b s])
  next
    case afford: True
    show ?thesis
    proof (cases "delete_page fs ks (charge 1 b) s")
      case None
      then show ?thesis using "1.prems" afford l by (auto simp: delete_pages.simps[of fs p c b s] canAfford_def)
    next
      case (Some out)
      obtain b1 s1 where o: "out = (b1, s1)" by fastforce
      have used: "bg_cap b1 = bg_cap b" "bg_used b \<le> bg_used b1" "bg_used b1 \<le> bg_cap b"
        using delete_page_cost[of fs ks "charge 1 b" s b1 s1] Some o afford by (simp_all add: canAfford_def)
      show ?thesis
      proof (cases "next' = None \<or> next' = Some []")
        case True
        then show ?thesis using "1.prems" afford l Some o used by (auto simp: delete_pages.simps[of fs p c b s])
      next
        case False
        then have r: "delete_pages fs p next' b1 s1 = (f, b', s')"
          using "1.prems" afford l Some o by (auto simp: delete_pages.simps[of fs p c b s])
        have "bg_cap b' = bg_cap b1 \<and> bg_used b1 \<le> bg_used b' \<and> (bg_used b1 \<le> bg_cap b1 \<longrightarrow> bg_used b' \<le> bg_cap b1)"
          using "1.IH"[OF _ l[symmetric] Some[unfolded o] refl False r] afford by simp
        with used show ?thesis by simp
      qed
    qed
  qed
qed

lemma expire_cost:
  "expire_assets fs vs assets res b db s = (res', b', db', s') \<Longrightarrow> bg_used b \<le> bg_cap b + 4 \<Longrightarrow>
   bg_cap b' = bg_cap b \<and> bg_used b' \<le> bg_cap b + 4"
proof (induction assets arbitrary: res b db s)
  case (Cons a assets)
  note prems = Cons.prems[simplified]
  show ?case
  proof (cases "canAfford b (2 + PER_ASSET_TAIL_BUDGET)")
    case False
    then show ?thesis using prems by auto
  next
    case go: True
    then have le: "bg_used (charge 1 b) \<le> bg_cap b" by (simp add: canAfford_def PER_ASSET_TAIL_BUDGET_def)
    show ?thesis
    proof (cases "in_flight (job_find (a_id a) db)")
      case True
      then show ?thesis using Cons.IH[of res "charge 1 b" db s] prems go le by simp
    next
      case False
      obtain f b1 s1 where d: "deleteAllR2Objects fs (asset_prefix (a_id a)) (charge 1 b) s = (f, b1, s1)" by (rule prod_cases3)
      have b1: "bg_cap b1 = bg_cap b" "bg_used b1 \<le> bg_cap b"
        using delete_pages_cost d le unfolding deleteAllR2Objects_def by fastforce+
      show ?thesis
      proof (cases f)
        case False
        then show ?thesis using prems go d b1 \<open>\<not> in_flight _\<close> by auto
      next
        case True
        define db1 where "db1 = (if vs then snd (version_deleteByAssetId (a_id a) db) else db)"
        define b2 where "b2 = charge 1 (if vs then charge 1 b1 else b1)"
        obtain dropped b3 db3 where dr: "drop_job (a_id a) b2 (asset_delete (a_id a) db1) = (dropped, b3, db3)"
          by (rule prod_cases3)
        have "bg_cap b3 = bg_cap b" "bg_used b3 \<le> bg_cap b + 4"
          using dr b1 by (auto simp: drop_job_def b2_def split: if_splits)
        moreover have "expire_assets fs vs assets (res\<lparr>cl_deletedAssets := cl_deletedAssets res @ [a_id a],
            cl_deletedJobs := cl_deletedJobs res @ dropped\<rparr>) b3 db3 s1 = (res', b', db', s')"
          using prems go d True dr \<open>\<not> in_flight _\<close> by (simp add: Let_def db1_def b2_def)
        ultimately show ?thesis using Cons.IH by metis
      qed
    qed
  qed
qed simp

lemma drain_entries_cost:
  "drain_entries fs entries drained b db s = (out, b', db', s') \<Longrightarrow> bg_used b \<le> bg_cap b + 4 \<Longrightarrow>
   bg_cap b' = bg_cap b \<and> bg_used b' \<le> bg_cap b + 4"
proof (induction entries arbitrary: drained b db s)
  case (Cons e entries)
  obtain f b1 s1 where d: "deleteAllR2Objects fs (pc_prefix e) b s = (f, b1, s1)" by (rule prod_cases3)
  have b1: "canAfford b 3 \<Longrightarrow> bg_cap b1 = bg_cap b \<and> bg_used b1 \<le> bg_cap b"
    using delete_pages_cost d unfolding deleteAllR2Objects_def canAfford_def by fastforce
  show ?case
  proof (cases "canAfford b 3 \<and> f")
    case True
    then have "drain_entries fs entries (drained @ [pc_prefix e]) (charge 1 b1) (cleanup_remove (pc_prefix e) db) s1 = (out, b', db', s')"
      using Cons.prems(1) d by simp
    from Cons.IH[OF this] b1 True show ?thesis by simp
  next
    case False
    then show ?thesis using Cons.prems d b1 by (auto split: if_splits)
  qed
qed simp

text \<open>
  A scheduled run stays within its budget of subrequests, but for a tail of at most four: on
  any object store, whatever its listings answer (even one whose listing never ends), the sweep
  of expired assets and the drain of the queue together end having spent at most the cap and
  the four bookkeeping statements of one asset.
\<close>

theorem cleanup_within_budget:
  assumes "1 \<le> bg_cap b" and "bg_used b = 0"
    and "cleanupExpiredAssets fs versions' maxAssets now b db objs = (res, b1, db1, objs1)"
    and "drainPendingCleanups fs maxPrefixes b1 db1 objs1 = (out, b2, db2, objs2)"
  shows "bg_used b1 \<le> bg_cap b + 4 \<and> bg_used b2 \<le> bg_cap b + 4"
proof -
  have 1: "bg_cap b1 = bg_cap b" "bg_used b1 \<le> bg_cap b + 4"
    using expire_cost[OF assms(3)[unfolded cleanupExpiredAssets_def]] assms(1,2) by simp_all
  have "bg_used b2 \<le> bg_cap b1 + 4"
    using assms(4) 1 drain_entries_cost[of fs "cleanup_list maxPrefixes db1" "[]" "charge 1 b1" db1 objs1 out b2 db2 objs2]
    by (auto simp: drainPendingCleanups_def canAfford_def split: if_splits)
  with 1 show ?thesis by simp
qed

lemma extractAssetId_prefix:
  assumes "CHR ''/'' \<notin> set i"
  shows "extractAssetId (asset_prefix i @ rest) = Some i"
proof -
  have "drop 7 (asset_prefix i @ rest) = i @ CHR ''/'' # rest" by (simp add: asset_prefix_def)
  moreover have "starts_with ''assets/'' (asset_prefix i @ rest)" by (simp add: asset_prefix_def starts_with_def)
  ultimately show ?thesis using index_of_append_sep[OF assms, of rest] by (simp add: extractAssetId_def Let_def)
qed

section \<open>A concrete run\<close>

text \<open>
  One expired asset with one object and a finished job, and a cap of seven: the reserve of six
  is affordable at the start and the run spends eight.
\<close>

definition expired_asset :: asset where
  "expired_asset = (blank_asset ''a1'')\<lparr>a_expiresAt := 5\<rparr>"

definition finished_job :: job where
  "finished_job = \<lparr>j_id = ''a1'', j_assetId = ''a1'', j_status = JobCompleted, j_createdAt = 1, j_updatedAt = 1,
     j_completedAt = None, j_startedAt = None, j_error = None, j_totalFiles = None, j_fileCount = None,
     j_extractedSize = None, j_retryCount = None, j_retryFileCount = None, j_retryExtractedSize = None,
     j_sessionId = None, j_projectId = None, j_versionId = None\<rparr>"

definition expired_database :: database where
  "expired_database = job_save finished_job (asset_save expired_asset
     (empty_database\<lparr>db_cleanup := [\<lparr>pc_prefix = ''assets/b/'', pc_createdAt = 1\<rparr>]\<rparr>))"

definition expired_objects :: memory_storage where
  "expired_objects = \<lparr>ms_objects =
       map (\<lambda>k. (k, \<lparr>so_data = [], so_contentType = [], so_contentEncoding = None, so_etag = []\<rparr>))
         [''assets/a1/f'', ''assets/b/f'', ''assets/c/f''],
     ms_usedBytes = 0, ms_capacityBytes = 10\<rparr>"

lemma expired_run:
  "case cleanupExpiredAssets (memory_storage_port id) True 100 9 \<lparr>bg_cap = 7, bg_used = 0\<rparr> expired_database expired_objects of
     (res, b, db, objs) \<Rightarrow> cl_deletedAssets res = [''a1''] \<and> cl_deletedJobs res = [''a1''] \<and> bg_used b = 8
       \<and> map fst (ms_objects objs) = [''assets/b/f'', ''assets/c/f'']"
  by code_simp



lemma cleanup_within_budget_witness:
  "bg_used (fst (snd (cleanupExpiredAssets (memory_storage_port id) True 100 9 \<lparr>bg_cap = 7, bg_used = 0\<rparr>
     expired_database expired_objects))) \<le> 11"
proof -
  obtain res b1 db1 objs1 where r: "cleanupExpiredAssets (memory_storage_port id) True 100 9 \<lparr>bg_cap = 7, bg_used = 0\<rparr>
      expired_database expired_objects = (res, b1, db1, objs1)" by (metis surj_pair)
  obtain out b2 db2 objs2 where d: "drainPendingCleanups (memory_storage_port id) 50 b1 db1 objs1 = (out, b2, db2, objs2)"
    by (metis surj_pair)
  from cleanup_within_budget[OF _ _ r d] r show ?thesis by simp
qed

end
