(* ===== verification/Job_Queue.thy ===== *)
theory Job_Queue
  imports Sql_Tables "HOL-Library.Multiset"
begin

text \<open>
  The job queue port (\<open>core/queue/port.ts\<close>) and its two implementations under \<open>src/\<close>:
  the array of \<open>adapters/memory/memory-queue.ts\<close> and the outbox table of
  \<open>adapters/sql/queue.ts\<close>, with its buffered retries. A delivery is a body and the number
  of this attempt; once it is acknowledged or retried it is out of the consumer's hands (a second
  call throws). A row's \<open>crypto.randomUUID()\<close> is a number not used before. The locale
  \<open>job_queue\<close> is the port's contract over the multiset of what is queued; both queues
  interpret it, and the property of this theory is proved once, inside it.
\<close>

section \<open>The port\<close>

record 'b delivery =
  dl_body :: 'b
  dl_attempts :: nat

record ('q, 'b) queue_port =
  qp_send :: "int \<Rightarrow> 'b \<Rightarrow> int \<Rightarrow> 'q \<Rightarrow> 'q"
    \<comment> \<open>the clock, the message, \<open>delaySeconds\<close>\<close>
  qp_receive :: "int \<Rightarrow> nat \<Rightarrow> 'q \<Rightarrow> 'b delivery list \<times> 'q"
  qp_retry :: "int \<Rightarrow> 'b delivery \<Rightarrow> int \<Rightarrow> 'q \<Rightarrow> 'q"
  qp_flush :: "'q \<Rightarrow> 'q"

section \<open>The array-backed queue\<close>

record 'b queue_entry =
  qe_body :: 'b
  qe_attempts :: nat
  qe_availableAt :: int

record 'b memory_queue =
  mq_sent :: "('b \<times> int) list"
  mq_dead :: "'b list"
  mq_pending :: "'b queue_entry list"

definition mq_empty :: "'b memory_queue" where
  "mq_empty = \<lparr>mq_sent = [], mq_dead = [], mq_pending = []\<rparr>"

definition mq_send :: "int \<Rightarrow> 'b \<Rightarrow> int \<Rightarrow> 'b memory_queue \<Rightarrow> 'b memory_queue" where
  "mq_send now message delaySeconds q =
     q\<lparr>mq_sent := mq_sent q @ [(message, delaySeconds)],
       mq_pending := mq_pending q @ [\<lparr>qe_body = message, qe_attempts = 0, qe_availableAt = now + delaySeconds * 1000\<rparr>]\<rparr>"

definition mq_receive :: "int \<Rightarrow> 'b memory_queue \<Rightarrow> 'b delivery list \<times> 'b memory_queue" where
  \<comment> \<open>the loop runs backwards and unshifts, which keeps the order\<close>
  "mq_receive now q =
     (map (\<lambda>e. \<lparr>dl_body = qe_body e, dl_attempts = qe_attempts e + 1\<rparr>) (filter (\<lambda>e. qe_availableAt e \<le> now) (mq_pending q)),
      q\<lparr>mq_pending := filter (\<lambda>e. \<not> qe_availableAt e \<le> now) (mq_pending q)\<rparr>)"

definition mq_retry :: "nat \<Rightarrow> int \<Rightarrow> 'b delivery \<Rightarrow> int \<Rightarrow> 'b memory_queue \<Rightarrow> 'b memory_queue" where
  "mq_retry maxAttempts now d delaySeconds q =
     (if dl_attempts d \<ge> maxAttempts then q\<lparr>mq_dead := mq_dead q @ [dl_body d]\<rparr>
      else q\<lparr>mq_pending := mq_pending q @
             [\<lparr>qe_body = dl_body d, qe_attempts = dl_attempts d, qe_availableAt = now + delaySeconds * 1000\<rparr>]\<rparr>)"

definition memory_queue_port :: "nat \<Rightarrow> ('b memory_queue, 'b) queue_port" where
  "memory_queue_port maxAttempts = \<lparr>qp_send = mq_send, qp_receive = (\<lambda>now limit. mq_receive now),
     qp_retry = mq_retry maxAttempts, qp_flush = id\<rparr>"

section \<open>The outbox table\<close>

record 'b queue_row =
  qr_id :: nat
  qr_queue :: string
  qr_body :: 'b
  qr_attempts :: nat
  qr_availableAt :: int
  qr_createdAt :: int

record 'b sql_queue =
  sq_rows :: "'b queue_row list"
    \<comment> \<open>in \<open>rowid\<close> order\<close>
  sq_pending :: "'b queue_row list"
    \<comment> \<open>the buffered \<open>INSERT\<close>s\<close>
  sq_dead :: "'b list"
  sq_ids :: nat
    \<comment> \<open>how many ids have been drawn\<close>

definition sq_insert :: "string \<Rightarrow> 'b \<Rightarrow> nat \<Rightarrow> int \<Rightarrow> int \<Rightarrow> nat \<Rightarrow> 'b queue_row" where
  "sq_insert queue body attempts availableAt createdAt i =
     \<lparr>qr_id = i, qr_queue = queue, qr_body = body, qr_attempts = attempts, qr_availableAt = availableAt, qr_createdAt = createdAt\<rparr>"

definition sq_send :: "string \<Rightarrow> int \<Rightarrow> 'b \<Rightarrow> int \<Rightarrow> 'b sql_queue \<Rightarrow> 'b sql_queue" where
  "sq_send queue now message delaySeconds q =
     q\<lparr>sq_rows := sq_rows q @ [sq_insert queue message 0 (now + delaySeconds * 1000) now (sq_ids q)], sq_ids := sq_ids q + 1\<rparr>"

definition sq_receive :: "string \<Rightarrow> int \<Rightarrow> nat \<Rightarrow> 'b sql_queue \<Rightarrow> 'b delivery list \<times> 'b sql_queue" where
  \<comment> \<open>one \<open>DELETE \<dots> RETURNING\<close>; the order of the returned rows is the table's here\<close>
  "sq_receive queue now limit q =
     (let chosen = map qr_id (take limit (order_asc qr_availableAt
            (filter (\<lambda>r. qr_queue r = queue \<and> qr_availableAt r \<le> now) (sq_rows q))))
      in (map (\<lambda>r. \<lparr>dl_body = qr_body r, dl_attempts = qr_attempts r + 1\<rparr>) (filter (\<lambda>r. qr_id r \<in> set chosen) (sq_rows q)),
          q\<lparr>sq_rows := delete_rows (\<lambda>r. qr_id r \<in> set chosen) (sq_rows q)\<rparr>))"

definition sq_retry :: "string \<Rightarrow> nat \<Rightarrow> int \<Rightarrow> 'b delivery \<Rightarrow> int \<Rightarrow> 'b sql_queue \<Rightarrow> 'b sql_queue" where
  "sq_retry queue maxAttempts now d delaySeconds q =
     (if dl_attempts d \<ge> maxAttempts then q\<lparr>sq_dead := sq_dead q @ [dl_body d]\<rparr>
      else q\<lparr>sq_pending := sq_pending q @
             [sq_insert queue (dl_body d) (dl_attempts d) (now + delaySeconds * 1000) now (sq_ids q)], sq_ids := sq_ids q + 1\<rparr>)"

definition sq_flush :: "'b sql_queue \<Rightarrow> 'b sql_queue" where
  "sq_flush q = (if sq_pending q = [] then q else q\<lparr>sq_rows := sq_rows q @ sq_pending q, sq_pending := []\<rparr>)"

definition sq_depth :: "string \<Rightarrow> 'b sql_queue \<Rightarrow> nat" where
  "sq_depth queue q = length (filter (\<lambda>r. qr_queue r = queue) (sq_rows q))"

definition sq_empty :: "'b sql_queue" where
  "sq_empty = \<lparr>sq_rows = [], sq_pending = [], sq_dead = [], sq_ids = 0\<rparr>"

definition sql_queue_port :: "string \<Rightarrow> nat \<Rightarrow> ('b sql_queue, 'b) queue_port" where
  "sql_queue_port queue maxAttempts = \<lparr>qp_send = sq_send queue, qp_receive = sq_receive queue,
     qp_retry = sq_retry queue maxAttempts, qp_flush = sq_flush\<rparr>"

section \<open>What happens to a message\<close>

datatype 'b queue_event = Send 'b int | Receive nat | Ack nat | Retry nat int | Flush | Elapse nat

record ('q, 'b) queue_history =
  qh_now :: int
  qh_queue :: 'q
  qh_sent :: "'b multiset"
  qh_hand :: "'b delivery list"
  qh_acked :: "'b multiset"

definition queue_step :: "('q, 'b) queue_port \<Rightarrow> 'b queue_event \<Rightarrow> ('q, 'b) queue_history \<Rightarrow> ('q, 'b) queue_history" where
  \<comment> \<open>\<open>Ack i\<close> and \<open>Retry i d\<close> settle the \<open>i\<close>-th delivery the consumer holds, if there is one\<close>
  "queue_step port ev h =
     (case ev of
        Send m d \<Rightarrow> h\<lparr>qh_queue := qp_send port (qh_now h) m d (qh_queue h), qh_sent := add_mset m (qh_sent h)\<rparr>
      | Receive limit \<Rightarrow>
          (case qp_receive port (qh_now h) limit (qh_queue h) of
             (ds, q) \<Rightarrow> h\<lparr>qh_queue := q, qh_hand := qh_hand h @ ds\<rparr>)
      | Ack i \<Rightarrow>
          if i < length (qh_hand h)
          then h\<lparr>qh_hand := take i (qh_hand h) @ drop (i + 1) (qh_hand h),
                 qh_acked := add_mset (dl_body (qh_hand h ! i)) (qh_acked h)\<rparr>
          else h
      | Retry i d \<Rightarrow>
          if i < length (qh_hand h)
          then h\<lparr>qh_hand := take i (qh_hand h) @ drop (i + 1) (qh_hand h),
                 qh_queue := qp_retry port (qh_now h) (qh_hand h ! i) d (qh_queue h)\<rparr>
          else h
      | Flush \<Rightarrow> h\<lparr>qh_queue := qp_flush port (qh_queue h)\<rparr>
      | Elapse n \<Rightarrow> h\<lparr>qh_now := qh_now h + int n\<rparr>)"

definition queue_run :: "('q, 'b) queue_port \<Rightarrow> 'b queue_event list \<Rightarrow> ('q, 'b) queue_history \<Rightarrow> ('q, 'b) queue_history" where
  "queue_run port evs h = fold (queue_step port) evs h"

definition fresh_history :: "int \<Rightarrow> 'q \<Rightarrow> ('q, 'b) queue_history" where
  "fresh_history now q = \<lparr>qh_now = now, qh_queue = q, qh_sent = {#}, qh_hand = [], qh_acked = {#}\<rparr>"

section \<open>The contract\<close>

locale job_queue =
  fixes port :: "('q, 'b) queue_port"
    and queued :: "'q \<Rightarrow> ('b \<times> nat) multiset"
    and dead :: "'q \<Rightarrow> 'b multiset"
    and invar :: "'q \<Rightarrow> bool"
    and maxAttempts :: nat
  assumes max_pos: "0 < maxAttempts"
    and send_queued: "invar q \<Longrightarrow> queued (qp_send port now m d q) = add_mset (m, 0) (queued q)"
    and send_dead: "dead (qp_send port now m d q) = dead q"
    and receive_queued: "invar q \<Longrightarrow> qp_receive port now limit q = (ds, q') \<Longrightarrow>
      \<exists>taken. queued q = mset taken + queued q' \<and> ds = map (\<lambda>(m, n). \<lparr>dl_body = m, dl_attempts = n + 1\<rparr>) taken"
    and receive_dead: "qp_receive port now limit q = (ds, q') \<Longrightarrow> dead q' = dead q"
    and retry_again: "invar q \<Longrightarrow> dl_attempts dl < maxAttempts \<Longrightarrow>
      queued (qp_retry port now dl d q) = add_mset (dl_body dl, dl_attempts dl) (queued q) \<and>
      dead (qp_retry port now dl d q) = dead q"
    and retry_dead: "maxAttempts \<le> dl_attempts dl \<Longrightarrow>
      queued (qp_retry port now dl d q) = queued q \<and> dead (qp_retry port now dl d q) = add_mset (dl_body dl) (dead q)"
    and flush_queued: "queued (qp_flush port q) = queued q"
    and flush_dead: "dead (qp_flush port q) = dead q"
    and send_invar: "invar q \<Longrightarrow> invar (qp_send port now m d q)"
    and receive_invar: "invar q \<Longrightarrow> invar (snd (qp_receive port now limit q))"
    and retry_invar: "invar q \<Longrightarrow> invar (qp_retry port now dl d q)"
    and flush_invar: "invar q \<Longrightarrow> invar (qp_flush port q)"
begin

definition conserved :: "('q, 'b) queue_history \<Rightarrow> bool" where
  "conserved h \<longleftrightarrow> invar (qh_queue h) \<and>
     qh_sent h = image_mset fst (queued (qh_queue h)) + image_mset dl_body (mset (qh_hand h)) + qh_acked h + dead (qh_queue h) \<and>
     (\<forall>(m, n) \<in># queued (qh_queue h). n < maxAttempts) \<and>
     (\<forall>d \<in> set (qh_hand h). 1 \<le> dl_attempts d \<and> dl_attempts d \<le> maxAttempts)"

lemma mset_without_nth: "i < length xs \<Longrightarrow> add_mset (xs ! i) (mset (take i xs @ drop (i + 1) xs)) = mset xs"
proof -
  assume "i < length xs"
  then have "mset xs = mset (take i xs @ xs ! i # drop (i + 1) xs)" using id_take_nth_drop[of i xs] by simp
  then show ?thesis by simp
qed

lemma step_conserved:
  assumes "conserved h"
  shows "conserved (queue_step port ev h)"
proof (cases ev)
  case (Send m d)
  with assms max_pos show ?thesis
    by (auto simp: conserved_def queue_step_def send_queued send_dead send_invar)
next
  case (Receive limit)
  obtain ds q where r: "qp_receive port (qh_now h) limit (qh_queue h) = (ds, q)" by fastforce
  obtain taken where t: "queued (qh_queue h) = mset taken + queued q"
    "ds = map (\<lambda>(m, n). \<lparr>dl_body = m, dl_attempts = n + 1\<rparr>) taken"
    using receive_queued[OF _ r] assms by (auto simp: conserved_def)
  have bodies: "image_mset dl_body (mset ds) = image_mset fst (mset taken)"
    unfolding t(2) by (induction taken) auto
  have bound: "\<forall>d \<in> set ds. 1 \<le> dl_attempts d \<and> dl_attempts d \<le> maxAttempts"
  proof
    fix d assume "d \<in> set ds"
    then obtain m n where d: "(m, n) \<in> set taken" "d = \<lparr>dl_body = m, dl_attempts = n + 1\<rparr>" using t(2) by auto
    then have "(m, n) \<in># queued (qh_queue h)" using t(1) by simp
    then have "n < maxAttempts" using assms unfolding conserved_def by blast
    with d show "1 \<le> dl_attempts d \<and> dl_attempts d \<le> maxAttempts" by simp
  qed
  have "invar q" using receive_invar[of "qh_queue h" "qh_now h" limit] r assms by (simp add: conserved_def)
  then show ?thesis
    using assms Receive r t(1) bodies bound receive_dead[OF r]
    by (auto simp: conserved_def queue_step_def)
next
  case (Ack i)
  show ?thesis
  proof (cases "i < length (qh_hand h)")
    case True
    have "image_mset dl_body (mset (qh_hand h)) =
        add_mset (dl_body (qh_hand h ! i)) (image_mset dl_body (mset (take i (qh_hand h) @ drop (i + 1) (qh_hand h))))"
      using mset_without_nth[OF True] by (metis image_mset_add_mset)
    with assms Ack True show ?thesis
      by (auto simp: conserved_def queue_step_def dest: in_set_takeD in_set_dropD)
  qed (use assms Ack in \<open>simp add: queue_step_def\<close>)
next
  case (Retry i d)
  show ?thesis
  proof (cases "i < length (qh_hand h)")
    case True
    let ?dl = "qh_hand h ! i"
    have hand: "image_mset dl_body (mset (qh_hand h)) =
        add_mset (dl_body ?dl) (image_mset dl_body (mset (take i (qh_hand h) @ drop (i + 1) (qh_hand h))))"
      using mset_without_nth[OF True] by (metis image_mset_add_mset)
    show ?thesis
    proof (cases "dl_attempts ?dl < maxAttempts")
      case again: True
      with assms Retry True hand retry_again[OF _ again, of "qh_queue h" "qh_now h" d] retry_invar show ?thesis
        by (auto simp: conserved_def queue_step_def dest: in_set_takeD in_set_dropD)
    next
      case False
      then have "maxAttempts \<le> dl_attempts ?dl" by simp
      with assms Retry True hand retry_dead[of ?dl "qh_now h" d "qh_queue h"] retry_invar show ?thesis
        by (auto simp: conserved_def queue_step_def dest: in_set_takeD in_set_dropD)
    qed
  qed (use assms Retry in \<open>simp add: queue_step_def\<close>)
qed (use assms in \<open>simp_all add: conserved_def queue_step_def flush_queued flush_dead flush_invar\<close>)

lemma run_conserved: "conserved h \<Longrightarrow> conserved (queue_run port evs h)"
  unfolding queue_run_def by (induction evs arbitrary: h) (simp_all add: step_conserved)

lemma fresh_conserved: "invar q \<Longrightarrow> queued q = {#} \<Longrightarrow> dead q = {#} \<Longrightarrow> conserved (fresh_history now q)"
  by (simp add: conserved_def fresh_history_def)

end


definition mq_queued :: "'b memory_queue \<Rightarrow> ('b \<times> nat) multiset" where
  "mq_queued q = image_mset (\<lambda>e. (qe_body e, qe_attempts e)) (mset (mq_pending q))"

definition sq_queued :: "string \<Rightarrow> 'b sql_queue \<Rightarrow> ('b \<times> nat) multiset" where
  "sq_queued queue q = image_mset (\<lambda>r. (qr_body r, qr_attempts r))
     (mset (filter (\<lambda>r. qr_queue r = queue) (sq_rows q @ sq_pending q)))"

definition sq_ok :: "'b sql_queue \<Rightarrow> bool" where
  "sq_ok q \<longleftrightarrow> distinct (map qr_id (sq_rows q @ sq_pending q)) \<and> (\<forall>r \<in> set (sq_rows q @ sq_pending q). qr_id r < sq_ids q)"

lemma image_mset_split:
  "image_mset f (mset xs) = image_mset f (mset (filter P xs)) + image_mset f (mset (filter (\<lambda>x. \<not> P x) xs))"
  by (induction xs) auto

lemma mq_receive_queued:
  assumes "mq_receive now q = (ds, q')"
  shows "\<exists>taken. mq_queued q = mset taken + mq_queued q' \<and> ds = map (\<lambda>(m, n). \<lparr>dl_body = m, dl_attempts = n + 1\<rparr>) taken"
proof (intro exI conjI)
  let ?due = "filter (\<lambda>e. qe_availableAt e \<le> now) (mq_pending q)"
  let ?taken = "map (\<lambda>e. (qe_body e, qe_attempts e)) ?due"
  have "q' = q\<lparr>mq_pending := filter (\<lambda>e. \<not> qe_availableAt e \<le> now) (mq_pending q)\<rparr>"
    using assms by (simp add: mq_receive_def)
  then show "mq_queued q = mset ?taken + mq_queued q'"
    using image_mset_split[of "\<lambda>e. (qe_body e, qe_attempts e)" "mq_pending q" "\<lambda>e. qe_availableAt e \<le> now"]
    by (simp add: mq_queued_def)
  show "ds = map (\<lambda>(m, n). \<lparr>dl_body = m, dl_attempts = n + 1\<rparr>) ?taken"
    using assms by (simp add: mq_receive_def o_def)
qed

interpretation memory_jobs: job_queue "memory_queue_port 5" mq_queued "\<lambda>q. mset (mq_dead q)" "\<lambda>_. True" 5
proof (unfold_locales, goal_cases)
  case (4 q now limit ds q')
  then show ?case using mq_receive_queued[of now q ds q'] by (simp add: memory_queue_port_def)
qed (auto simp: memory_queue_port_def mq_send_def mq_retry_def mq_queued_def mq_receive_def)

lemma sq_receive_queued:
  assumes "sq_ok q" and "sq_receive queue now limit q = (ds, q')"
  shows "\<exists>taken. sq_queued queue q = mset taken + sq_queued queue q' \<and> ds = map (\<lambda>(m, n). \<lparr>dl_body = m, dl_attempts = n + 1\<rparr>) taken"
proof -
  define chosen where "chosen = map qr_id (take limit (order_asc qr_availableAt
      (filter (\<lambda>r. qr_queue r = queue \<and> qr_availableAt r \<le> now) (sq_rows q))))"
  let ?claimed = "filter (\<lambda>r. qr_id r \<in> set chosen) (sq_rows q)"
  have ours: "qr_queue r = queue" if r: "r \<in> set (sq_rows q)" "qr_id r \<in> set chosen" for r
  proof -
    obtain c where c: "c \<in> set (sq_rows q)" "qr_queue c = queue" "qr_id c = qr_id r"
      using r(2) by (auto simp: chosen_def order_asc_def dest!: in_set_takeD)
    then have "c = r" using r(1) assms(1) by (auto simp: sq_ok_def distinct_map inj_on_def)
    with c show ?thesis by simp
  qed
  have r: "ds = map (\<lambda>r. \<lparr>dl_body = qr_body r, dl_attempts = qr_attempts r + 1\<rparr>) ?claimed"
    "q' = q\<lparr>sq_rows := filter (\<lambda>r. qr_id r \<notin> set chosen) (sq_rows q)\<rparr>"
    using assms(2) by (simp_all add: sq_receive_def chosen_def Let_def delete_rows_def)
  have "filter (\<lambda>r. qr_queue r = queue) ?claimed = ?claimed" by (rule filter_True) (use ours in auto)
  then have "filter (\<lambda>r. qr_id r \<in> set chosen) (filter (\<lambda>r. qr_queue r = queue) (sq_rows q)) = ?claimed"
    by (simp add: conj_commute)
  then have "image_mset (\<lambda>r. (qr_body r, qr_attempts r)) (mset (filter (\<lambda>r. qr_queue r = queue) (sq_rows q))) =
      image_mset (\<lambda>r. (qr_body r, qr_attempts r)) (mset ?claimed) +
      image_mset (\<lambda>r. (qr_body r, qr_attempts r)) (mset (filter (\<lambda>r. qr_queue r = queue) (sq_rows q')))"
    using image_mset_split[of "\<lambda>r. (qr_body r, qr_attempts r)" "filter (\<lambda>r. qr_queue r = queue) (sq_rows q)" "\<lambda>r. qr_id r \<in> set chosen"] r(2)
    by (simp add: conj_commute)
  then have "sq_queued queue q = mset (map (\<lambda>r. (qr_body r, qr_attempts r)) ?claimed) + sq_queued queue q'"
    using r(2) by (simp add: sq_queued_def)
  moreover have "ds = map (\<lambda>(m, n). \<lparr>dl_body = m, dl_attempts = n + 1\<rparr>) (map (\<lambda>r. (qr_body r, qr_attempts r)) ?claimed)"
    using r(1) by simp
  ultimately show ?thesis by blast
qed

interpretation sql_jobs: job_queue "sql_queue_port queue 5" "sq_queued queue" "\<lambda>q. mset (sq_dead q)" sq_ok 5
proof (unfold_locales, goal_cases)
  case (4 q now limit ds q')
  then show ?case using sq_receive_queued[of q queue now limit ds q'] by (simp add: sql_queue_port_def)
next
  case (11 q now limit)
  then show ?case
    by (auto simp: sql_queue_port_def sq_receive_def sq_ok_def Let_def distinct_delete_rows)
next
  case (12 q now dl d)
  then show ?case by (auto simp: sql_queue_port_def sq_retry_def sq_insert_def sq_ok_def less_SucI)
next
  case (10 q now m d)
  then show ?case by (auto simp: sql_queue_port_def sq_send_def sq_insert_def sq_ok_def less_SucI)
qed (auto simp: sql_queue_port_def sq_send_def sq_retry_def sq_flush_def sq_insert_def sq_queued_def sq_receive_def
    sq_ok_def Let_def)

text \<open>
  C15: Neither queue loses or doubles a message: in any history of sends, claims, acknowledgements,
  retries and flushes, the messages sent are exactly those still queued (in the table, or in the
  buffer of retries), those a consumer holds, those acknowledged, and those that ran out of
  attempts; and no message is delivered more than five times.
\<close>

theorem queue_conserves_messages:
  "(let h = queue_run (memory_queue_port 5) evs (fresh_history now mq_empty)
    in qh_sent h = image_mset fst (mq_queued (qh_queue h)) + image_mset dl_body (mset (qh_hand h)) + qh_acked h
         + mset (mq_dead (qh_queue h)) \<and> list_all (\<lambda>d. dl_attempts d \<le> 5) (qh_hand h)) \<and>
   (let h = queue_run (sql_queue_port queue 5) evs (fresh_history now sq_empty)
    in qh_sent h = image_mset fst (sq_queued queue (qh_queue h)) + image_mset dl_body (mset (qh_hand h)) + qh_acked h
         + mset (sq_dead (qh_queue h)) \<and> list_all (\<lambda>d. dl_attempts d \<le> 5) (qh_hand h))"
proof -
  have "memory_jobs.conserved (queue_run (memory_queue_port 5) evs (fresh_history now mq_empty))"
    by (intro memory_jobs.run_conserved memory_jobs.fresh_conserved) (simp_all add: mq_queued_def mq_empty_def)
  moreover have "sql_jobs.conserved queue (queue_run (sql_queue_port queue 5) evs (fresh_history now sq_empty))"
    by (intro sql_jobs.run_conserved sql_jobs.fresh_conserved) (simp_all add: sq_queued_def sq_empty_def sq_ok_def)
  ultimately show ?thesis
    by (simp add: memory_jobs.conserved_def sql_jobs.conserved_def Let_def list_all_iff)
qed

end
