(* ===== verification/Extraction_Jobs.thy ===== *)
theory Extraction_Jobs
  imports Cleanup Job_Queue Tenancy File_Delivery
begin

text \<open>
  Extraction jobs after they are created: the message that runs one
  (\<open>core/extraction/handler.ts\<close>) and the consumer that launches the container, the job routes
  and the container's status reports (\<open>core/job/handler.ts\<close>), the reading of a site's rule
  files when an extraction completes (\<open>core/site/hosting.ts\<close>), and the scheduled recovery of
  \<open>core/cleanup/handler.ts\<close>. The container launcher, \<open>gunzip\<close> and the text decoder are
  arguments. The stores here do not fail, so the fall-backs for a failed read or batch are not
  in the model.
\<close>

section \<open>The message and its delivery\<close>

record extraction_message =
  em_jobId :: string
  em_assetId :: string
  em_versionId :: "string option"
  em_archiveKey :: string
  em_archiveFilename :: string
  em_archiveFormat :: archive_format

definition extractionMessageForJob :: "job \<Rightarrow> database \<Rightarrow> extraction_message option" where
  "extractionMessageForJob job db =
     (if truthy (j_versionId job)
      then (case version_find (the (j_versionId job)) db of
              None \<Rightarrow> None
            | Some v \<Rightarrow>
                map_option (\<lambda>fmt. \<lparr>em_jobId = j_id job, em_assetId = j_assetId job, em_versionId = Some (v_id v),
                    em_archiveKey = versionStorageKey (j_assetId job) (v_id v) (v_filename v),
                    em_archiveFilename = v_filename v, em_archiveFormat = fmt\<rparr>) (v_archiveFormat v))
      else (case asset_find (j_assetId job) db of
              None \<Rightarrow> None
            | Some a \<Rightarrow>
                map_option (\<lambda>fmt. \<lparr>em_jobId = j_id job, em_assetId = j_assetId job, em_versionId = None,
                    em_archiveKey = storageKey (j_assetId job) (a_filename a),
                    em_archiveFilename = a_filename a, em_archiveFormat = fmt\<rparr>) (a_archiveFormat a)))"

definition retryDelaySeconds :: "nat \<Rightarrow> nat" where
  "retryDelaySeconds attempts = min (60 * 2 ^ (attempts - 1)) 1200"

definition MISCONFIGURED_RETRY_DELAY_SECONDS :: nat where "MISCONFIGURED_RETRY_DELAY_SECONDS = 300"

definition touchPendingJob :: "int \<Rightarrow> string \<Rightarrow> database \<Rightarrow> database" where
  "touchPendingJob now jobId db =
     (case job_find jobId db of
        None \<Rightarrow> db
      | Some job \<Rightarrow> if j_status job = JobPending then job_save (job\<lparr>j_updatedAt := now\<rparr>) db else db)"

datatype settlement = Acked | Retried nat

fun launch_all ::
  "(extraction_message \<Rightarrow> bool) \<Rightarrow> int \<Rightarrow> extraction_message delivery list \<Rightarrow> database \<Rightarrow> settlement list \<times> database" where
  \<comment> \<open>\<open>launch m\<close>: does \<open>launchArchiveExtractor\<close> return\<close>
  "launch_all launch now [] db = ([], db)"
| "launch_all launch now (m # ms) db =
     (if launch (dl_body m)
      then (case launch_all launch now ms db of (ss, db') \<Rightarrow> (Acked # ss, db'))
      else (case launch_all launch now ms (touchPendingJob now (em_jobId (dl_body m)) db) of
              (ss, db') \<Rightarrow> (Retried (retryDelaySeconds (dl_attempts m)) # ss, db')))"

definition handleQueue ::
  "bool \<Rightarrow> (extraction_message \<Rightarrow> bool) \<Rightarrow> int \<Rightarrow> extraction_message delivery list \<Rightarrow> database \<Rightarrow> settlement list \<times> database" where
  "handleQueue archiveExtractorAvailable launch now messages db =
     (if \<not> archiveExtractorAvailable then (map (\<lambda>_. Retried MISCONFIGURED_RETRY_DELAY_SECONDS) messages, db)
      else launch_all launch now messages db)"

section \<open>The rules of an extracted site\<close>

definition candidateKeys :: "string \<Rightarrow> string option \<Rightarrow> string \<Rightarrow> string list" where
  "candidateKeys assetId versionId name =
     (if truthy versionId then [''assets/'' @ assetId @ ''/v/'' @ the versionId @ ''/files/'' @ name] else []) @
     [''assets/'' @ assetId @ ''/files/'' @ name]"

datatype control_file = ControlText string | TooLarge | Missing

record text_decoding =
  td_gunzip :: "string list \<Rightarrow> string list"
  td_text :: "string list \<Rightarrow> string"
    \<comment> \<open>\<open>new Response(body).text()\<close>\<close>

fun readControlFile :: "'s file_storage \<Rightarrow> text_decoding \<Rightarrow> string list \<Rightarrow> 's \<Rightarrow> control_file" where
  "readControlFile fs td [] s = Missing"
| "readControlFile fs td (key # keys) s =
     (case fs_get fs key None s of
        None \<Rightarrow> readControlFile fs td keys s
      | Some file \<Rightarrow>
          if sf_size file > int MAX_CONTROL_FILE_BYTES then TooLarge
          else ControlText (td_text td (if sf_contentEncoding file = Some ''gzip'' then td_gunzip td (sf_body file) else sf_body file)))"

definition too_large_warning :: "string \<Rightarrow> string" where
  "too_large_warning name = name @ '' ignored: the file is larger than '' @ show_nat MAX_CONTROL_FILE_BYTES @ '' bytes''"

definition readSiteHosting :: "'s file_storage \<Rightarrow> text_decoding \<Rightarrow> string \<Rightarrow> string option \<Rightarrow> 's \<Rightarrow> site_hosting option" where
  "readSiteHosting fs td assetId versionId s =
     (let headersFile = readControlFile fs td (candidateKeys assetId versionId HEADERS_FILE) s;
          redirectsFile = readControlFile fs td (candidateKeys assetId versionId REDIRECTS_FILE) s
      in if headersFile = Missing \<and> redirectsFile = Missing then None
         else let (headers, w1) = (case headersFile of
                     TooLarge \<Rightarrow> ([], [too_large_warning ''_headers''])
                   | ControlText t \<Rightarrow> (ph_rules (parseHeaders t), ph_warnings (parseHeaders t))
                   | Missing \<Rightarrow> ([], []));
                  (redirects, w2) = (case redirectsFile of
                     TooLarge \<Rightarrow> ([], [too_large_warning ''_redirects''])
                   | ControlText t \<Rightarrow> (pr_rules (parseRedirects t), pr_warnings (parseRedirects t))
                   | Missing \<Rightarrow> ([], []))
              in Some (boundHosting \<lparr>sh_headers = headers, sh_redirects = redirects, sh_warnings = w1 @ w2\<rparr>))"

datatype placement = OnAsset site_hosting | OnVersion string site_hosting

definition hostingOnExtractionComplete ::
  "'s file_storage \<Rightarrow> text_decoding \<Rightarrow> job \<Rightarrow> asset option \<Rightarrow> 's \<Rightarrow> placement option" where
  "hostingOnExtractionComplete fs td job asset s =
     (case asset of
        None \<Rightarrow> None
      | Some a \<Rightarrow>
          if a_type a \<noteq> Some TypeArchive then None
          else map_option (\<lambda>hosting. if truthy (j_versionId job) then OnVersion (the (j_versionId job)) hosting else OnAsset hosting)
                 (readSiteHosting fs td (j_assetId job) (j_versionId job) s))"

section \<open>Status reports\<close>

record status_report =
  sp_status :: job_status
  sp_totalFiles :: "int option"
  sp_fileCount :: "int option"
  sp_extractedSize :: "int option"
  sp_error :: "string option"

definition orElse :: "'a option \<Rightarrow> 'a option \<Rightarrow> 'a option" where
  "orElse a b = (case a of None \<Rightarrow> b | Some v \<Rightarrow> Some v)"

definition reported_job :: "int \<Rightarrow> status_report \<Rightarrow> job \<Rightarrow> job" where
  "reported_job now r job =
     (let done' = (sp_status r = JobCompleted)
      in job\<lparr>j_status := sp_status r, j_updatedAt := now,
          j_startedAt := (if sp_status r = JobRunning \<and> (j_startedAt job = None \<or> j_startedAt job = Some 0) then Some now else j_startedAt job),
          j_completedAt := (if done' \<or> sp_status r = JobFailed then Some now else j_completedAt job),
          j_totalFiles := orElse (sp_totalFiles r) (j_totalFiles job),
          j_fileCount := (let n = orElse (sp_fileCount r) (j_fileCount job) in if done' then orElse n (Some 0) else n),
          j_extractedSize := (let n = orElse (sp_extractedSize r) (j_extractedSize job) in if done' then orElse n (Some 0) else n),
          j_error := (if truthy (sp_error r) then sp_error r else j_error job)\<rparr>)"

definition mirror_asset :: "job \<Rightarrow> asset \<Rightarrow> asset" where
  "mirror_asset job a =
     (case j_status job of
        JobRunning \<Rightarrow> a\<lparr>a_status := Some AssetExtracting\<rparr>
      | JobCompleted \<Rightarrow> a\<lparr>a_status := Some AssetReady, a_fileCount := j_fileCount job, a_extractedSize := j_extractedSize job\<rparr>
      | JobFailed \<Rightarrow> a\<lparr>a_status := Some AssetFailed\<rparr>
      | JobPending \<Rightarrow> a)"

definition mirror_version :: "job \<Rightarrow> version \<Rightarrow> version" where
  "mirror_version job v =
     (case j_status job of
        JobRunning \<Rightarrow> v\<lparr>v_status := Some AssetExtracting\<rparr>
      | JobCompleted \<Rightarrow> v\<lparr>v_status := Some AssetReady, v_fileCount := j_fileCount job, v_extractedSize := j_extractedSize job\<rparr>
      | JobFailed \<Rightarrow> v\<lparr>v_status := Some AssetFailed\<rparr>
      | JobPending \<Rightarrow> v)"

definition extendDemoExpiry :: "int \<Rightarrow> int \<Rightarrow> asset \<Rightarrow> asset" where
  "extendDemoExpiry now ttl a =
     (if a_expiresAt a > 0 then a\<lparr>a_expiresAt := max (a_expiresAt a) (now + ttl * 1000)\<rparr> else a)"

definition hosting_patch :: "site_hosting \<Rightarrow> version_patch" where
  "hosting_patch h = \<lparr>vp_status = None, vp_userMeta = None, vp_hosting = Some h\<rparr>"

definition job_status_handler ::
  "'s file_storage \<Rightarrow> text_decoding \<Rightarrow> int \<Rightarrow> int \<Rightarrow> string \<Rightarrow> status_report \<Rightarrow> database \<Rightarrow> 's \<Rightarrow> nat \<times> database" where
  \<comment> \<open>the status of the reply and the new database\<close>
  "job_status_handler fs td now ttl id' report db s =
     (case job_find id' db of
        None \<Rightarrow> (404, db)
      | Some job0 \<Rightarrow>
          (let job = reported_job now report job0;
               ofVersion = truthy (j_versionId job);
               asset0 = asset_find (j_assetId job) db;
               version0 = (if ofVersion then version_find (the (j_versionId job)) db else None);
               asset1 = (if ofVersion then asset0 else map_option (mirror_asset job) asset0);
               v = map_option (mirror_version job) version0;
               asset2 = (if sp_status report = JobFailed then asset1 else map_option (extendDemoExpiry now ttl) asset1);
               placed = (if sp_status report = JobCompleted then hostingOnExtractionComplete fs td job asset2 s else None);
               asset3 = (case placed of Some (OnAsset h) \<Rightarrow> map_option (\<lambda>a. a\<lparr>a_hosting := Some h\<rparr>) asset2 | _ \<Rightarrow> asset2);
               db1 = saveJob job asset3 v db
           in (200, case placed of Some (OnVersion i h) \<Rightarrow> version_update i (hosting_patch h) db1 | _ \<Rightarrow> db1)))"

section \<open>The public job routes\<close>

datatype job_reply = JobError string | OneJob job | Jobs "job list" "string option"

definition list_jobs_handler ::
  "request \<Rightarrow> string list \<Rightarrow> nat option \<Rightarrow> string option \<Rightarrow> string option \<Rightarrow> string option \<Rightarrow> database \<Rightarrow> nat \<times> job_reply" where
  \<comment> \<open>\<open>workspaceIds\<close>: \<open>members.listForCaller()\<close>; then \<open>limit\<close>, \<open>cursor\<close>, \<open>workspaceId\<close>, \<open>projectId\<close>\<close>
  "list_jobs_handler rq workspaceIds limit0 cursor workspaceId projectId db =
     (let limit = Some (min (case limit0 of None \<Rightarrow> 20 | Some l \<Rightarrow> l) 100);
          page = (\<lambda>scope. case job_list scope limit cursor db of (items, next') \<Rightarrow> (200, Jobs items next'));
          denied = (\<lambda>name. (404, JobError (name @ '' not found'')))
      in case rq_user rq of
           None \<Rightarrow> if truthy (rq_sessionId rq) then page (SessionScope (the (rq_sessionId rq))) else (200, Jobs [] None)
         | Some user \<Rightarrow>
             if truthy projectId then
               (case authorizeProject (accessCtx rq db) (the projectId) ReadJob of
                  Granted _ \<Rightarrow> page (ProjectScope (the projectId))
                | Unavailable \<Rightarrow> (503, JobError ''Authorization service unavailable'')
                | _ \<Rightarrow> denied ''Project'')
             else if truthy workspaceId then
               (case authorizeWorkspace (accessCtx rq db) (the workspaceId) ReadWorkspace of
                  Granted _ \<Rightarrow> page (WorkspaceScope (the workspaceId))
                | Unavailable \<Rightarrow> (503, JobError ''Authorization service unavailable'')
                | _ \<Rightarrow> denied ''Workspace'')
             else page (VisibleScope workspaceIds (u_id user)))"

definition get_job_handler :: "request \<Rightarrow> string \<Rightarrow> database \<Rightarrow> nat \<times> job_reply" where
  "get_job_handler rq id' db =
     (case authorizeJob (accessCtx rq db) (job_find id' db) ReadJob of
        Granted job \<Rightarrow> (200, OneJob job)
      | Unavailable \<Rightarrow> (503, JobError ''Authorization service unavailable'')
      | _ \<Rightarrow> (404, JobError ''Job not found''))"

definition retry_job_handler ::
  "('q, extraction_message) queue_port option \<Rightarrow> int \<Rightarrow> request \<Rightarrow> string \<Rightarrow> database \<Rightarrow> 'q \<Rightarrow> (nat \<times> job_reply) \<times> database \<times> 'q" where
  "retry_job_handler queue now rq id' db q =
     (case authorizeJob (accessCtx rq db) (job_find id' db) RetryJob of
        Granted job0 \<Rightarrow>
          if j_status job0 = JobCompleted then ((400, JobError ''Job already completed''), db, q)
          else let job = job0\<lparr>j_status := JobPending, j_updatedAt := now\<rparr>; db' = job_save job db
               in ((200, OneJob job), db',
                   (case queue of
                      None \<Rightarrow> q
                    | Some port \<Rightarrow>
                        (case extractionMessageForJob job db' of
                           None \<Rightarrow> q | Some m \<Rightarrow> qp_send port now m 0 q)))
      | Unavailable \<Rightarrow> ((503, JobError ''Authorization service unavailable''), db, q)
      | _ \<Rightarrow> ((404, JobError ''Job not found''), db, q))"

section \<open>The scheduled recovery\<close>

definition MAX_RETRIES :: int where "MAX_RETRIES = 5"
definition MAX_RETRIABLE_PER_TICK :: nat where "MAX_RETRIABLE_PER_TICK = 50"

definition reconciled :: "job \<Rightarrow> asset \<Rightarrow> asset" where
  "reconciled job a = a\<lparr>a_status := Some AssetReady, a_fileCount := orElse (j_fileCount job) (a_fileCount a),
     a_extractedSize := orElse (j_extractedSize job) (a_extractedSize a)\<rparr>"

fun reconcile_jobs :: "job list \<Rightarrow> database \<Rightarrow> database" where
  "reconcile_jobs [] db = db"
| "reconcile_jobs (job # jobs) db =
     (case asset_find (j_assetId job) db of
        None \<Rightarrow> reconcile_jobs jobs db
      | Some a \<Rightarrow>
          if a_status a \<noteq> Some AssetExtracting \<and> a_status a \<noteq> Some AssetPending then reconcile_jobs jobs db
          else reconcile_jobs jobs (asset_save (reconciled job a) db))"

definition reconcileStuckAssets :: "database \<Rightarrow> database" where
  \<comment> \<open>the \<open>ttlSeconds\<close> of \<open>metadata.save\<close> is not read by the SQL store\<close>
  "reconcileStuckAssets db = reconcile_jobs (job_listStuckAssets 20 db) db"

definition job_progressed :: "job \<Rightarrow> bool" where
  "job_progressed job \<longleftrightarrow>
     coalesce0 (j_fileCount job) > coalesce0 (j_retryFileCount job) \<or>
     coalesce0 (j_extractedSize job) > coalesce0 (j_retryExtractedSize job)"

definition effectiveRetryCount :: "job \<Rightarrow> int" where
  "effectiveRetryCount job = (if job_progressed job then 0 else coalesce0 (j_retryCount job))"

definition given_up :: "int \<Rightarrow> job \<Rightarrow> job" where
  "given_up now job = job\<lparr>j_status := JobFailed, j_retryCount := Some (MAX_RETRIES + 1),
     j_error := Some (''Max retries ('' @ show_int MAX_RETRIES @ '') exceeded''), j_updatedAt := now, j_completedAt := Some now\<rparr>"

definition requeued :: "int \<Rightarrow> int \<Rightarrow> job \<Rightarrow> job" where
  "requeued now retryCount job = job\<lparr>j_retryCount := Some (retryCount + 1), j_retryFileCount := Some (coalesce0 (j_fileCount job)),
     j_retryExtractedSize := Some (coalesce0 (j_extractedSize job)), j_status := JobPending, j_updatedAt := now\<rparr>"

definition give_up :: "int \<Rightarrow> job \<Rightarrow> database \<Rightarrow> database" where
  "give_up now job db =
     (if truthy (j_versionId job)
      then saveJob (given_up now job) None
             (map_option (\<lambda>v. v\<lparr>v_status := Some AssetFailed\<rparr>) (version_find (the (j_versionId job)) db)) db
      else saveJob (given_up now job)
             (map_option (\<lambda>a. a\<lparr>a_status := Some AssetFailed\<rparr>) (asset_find (j_assetId job) db)) None db)"

definition retrigger_one ::
  "('q, extraction_message) queue_port \<Rightarrow> (extraction_message \<Rightarrow> bool) \<Rightarrow> int \<Rightarrow> job \<Rightarrow> database \<times> 'q \<Rightarrow> database \<times> 'q" where
  \<comment> \<open>\<open>accepts m\<close>: does the queue take the message, or does \<open>send\<close> throw\<close>
  "retrigger_one port accepts now job st =
     (let (db, q) = st; retryCount = effectiveRetryCount job
      in if retryCount \<ge> MAX_RETRIES then (give_up now job db, q)
         else (case extractionMessageForJob job db of
                 None \<Rightarrow> st
               | Some m \<Rightarrow>
                   if \<not> accepts m then st
                   else (job_save (requeued now retryCount job) db, qp_send port now m 0 q)))"

definition retriggerPendingJobs ::
  "('q, extraction_message) queue_port \<Rightarrow> (extraction_message \<Rightarrow> bool) \<Rightarrow> int \<Rightarrow> int \<Rightarrow> database \<times> 'q \<Rightarrow> database \<times> 'q" where
  "retriggerPendingJobs port accepts now stuckThresholdMs st =
     fold (retrigger_one port accepts now)
       (job_listRetriable now stuckThresholdMs MAX_RETRIES MAX_RETRIABLE_PER_TICK (fst st)) st"

definition handleScheduled ::
  "'s file_storage \<Rightarrow> ('k, blob) kv_port option \<Rightarrow> (('q, extraction_message) queue_port \<times> (extraction_message \<Rightarrow> bool)) option
   \<Rightarrow> int \<Rightarrow> int \<Rightarrow> int \<Rightarrow> database \<times> 's \<times> 'k \<times> 'q \<Rightarrow> database \<times> 's \<times> 'k \<times> 'q" where
  \<comment> \<open>the subrequest budget, the stuck threshold, the clock\<close>
  "handleScheduled fs cache queue subrequestBudget stuckThresholdMs now st =
     (case st of (db, s, k, q) \<Rightarrow>
       (case cleanupExpiredAssets fs True 100 now \<lparr>bg_cap = subrequestBudget, bg_used = 0\<rparr> db s of
          (_, b1, db1, s1) \<Rightarrow>
            (case drainPendingCleanups fs 50 b1 db1 s1 of
               (_, _, db2, s2) \<Rightarrow>
                 (case purgeReleasedSiteHosts cache now None (db2, k) of
                    (_, db3, k') \<Rightarrow>
                      (let db4 = reconcileStuckAssets db3
                       in case queue of
                            None \<Rightarrow> (db4, s2, k', q)
                          | Some (port, accepts) \<Rightarrow>
                              (case retriggerPendingJobs port accepts now stuckThresholdMs (db4, q) of
                                 (db5, q') \<Rightarrow> (db5, s2, k', q')))))))"

section \<open>How long a job is retried\<close>

definition recorded ::
  "('q, extraction_message) queue_port \<Rightarrow> ('q \<times> extraction_message list, extraction_message) queue_port" where
  \<comment> \<open>a queue that also writes down what is sent to it\<close>
  "recorded port = \<lparr>qp_send = (\<lambda>now m d (q, log). (qp_send port now m d q, m # log)),
     qp_receive = (\<lambda>now limit (q, log). case qp_receive port now limit q of (ds, q') \<Rightarrow> (ds, (q', log))),
     qp_retry = (\<lambda>now d delay (q, log). (qp_retry port now d delay q, log)),
     qp_flush = (\<lambda>(q, log). (qp_flush port q, log))\<rparr>"

definition sends_of :: "string \<Rightarrow> 'q \<times> extraction_message list \<Rightarrow> nat" where
  "sends_of jid q = length (filter (\<lambda>m. em_jobId m = jid) (snd q))"

lemma message_job: "extractionMessageForJob job db = Some m \<Longrightarrow> em_jobId m = j_id job"
  by (auto simp: extractionMessageForJob_def split: if_splits option.splits)

lemma sends_recorded [simp]:
  "sends_of jid (qp_send (recorded port) now m d q) = (if em_jobId m = jid then 1 else 0) + sends_of jid q"
  by (cases q) (simp add: recorded_def sends_of_def)

lemma job_find_save [simp]:
  "job_find i (job_save job db) = (if i = j_id job then Some (jobUpsertArgs job) else job_find i db)"
  by (simp add: job_find_def job_save_def jobUpsertArgs_def)

lemma saveJob_jobs: "db_jobs (saveJob job a v db) = db_jobs (job_save job db)"
  by (simp add: saveJob_def Let_def asset_save_def version_extraction_update_def split: option.split)

lemma job_find_saveJob [simp]:
  "job_find i (saveJob job a v db) = (if i = j_id job then Some (jobUpsertArgs job) else job_find i db)"
proof -
  have "job_find i (saveJob job a v db) = job_find i (job_save job db)" by (simp add: job_find_def saveJob_jobs)
  then show ?thesis by simp
qed

lemma job_save_distinct: "distinct (map j_id (db_jobs db)) \<Longrightarrow> distinct (map j_id (db_jobs (job_save job db)))"
  by (simp add: job_save_def distinct_replace_row)

lemma job_ids_kept [simp]: "j_id (given_up now job) = j_id job" "j_id (requeued now n job) = j_id job"
  "j_id (reported_job now r job) = j_id job" "j_id (jobUpsertArgs job) = j_id job"
  by (simp_all add: given_up_def requeued_def reported_job_def jobUpsertArgs_def Let_def)

definition retrigger_outcome :: "int \<Rightarrow> job \<Rightarrow> job \<Rightarrow> nat \<Rightarrow> bool" where
  \<comment> \<open>what one pass over \<open>job\<close> leaves in its row, and how many messages it sends\<close>
  "retrigger_outcome now job job' n \<longleftrightarrow>
     (effectiveRetryCount job \<ge> MAX_RETRIES \<and> job' = jobUpsertArgs (given_up now job) \<and> n = 0) \<or>
     (effectiveRetryCount job < MAX_RETRIES \<and>
        (job' = job \<and> n = 0 \<or> job' = jobUpsertArgs (requeued now (effectiveRetryCount job) job) \<and> n = 1))"

lemma retrigger_one_other:
  assumes "j_id job \<noteq> jid"
  shows "job_find jid (fst (retrigger_one (recorded port) accepts now job st)) = job_find jid (fst st)"
    and "sends_of jid (snd (retrigger_one (recorded port) accepts now job st)) = sends_of jid (snd st)"
  using assms message_job
  by (auto simp: retrigger_one_def give_up_def Let_def split: prod.split option.split)

lemma retrigger_one_own:
  assumes "job_find (j_id job) (fst st) = Some job"
  shows "\<exists>job' n. job_find (j_id job) (fst (retrigger_one (recorded port) accepts now job st)) = Some job' \<and>
    sends_of (j_id job) (snd (retrigger_one (recorded port) accepts now job st)) = n + sends_of (j_id job) (snd st) \<and>
    retrigger_outcome now job job' n"
  using assms message_job[of job]
  by (auto simp: retrigger_one_def give_up_def Let_def retrigger_outcome_def split: prod.split option.split)

lemma retrigger_others:
  assumes "jid \<notin> j_id ` set js"
  shows "job_find jid (fst (fold (retrigger_one (recorded port) accepts now) js st)) = job_find jid (fst st)"
    and "sends_of jid (snd (fold (retrigger_one (recorded port) accepts now) js st)) = sends_of jid (snd st)"
  using assms by (induction js arbitrary: st) (auto simp: retrigger_one_other)

lemma listRetriable_rows:
  assumes "distinct (map j_id (db_jobs db))" and "job \<in> set (job_listRetriable now thr n limit db)"
  shows "job_find (j_id job) db = Some job" and "retriable n (now - thr) job"
proof -
  have "job \<in> set (order_asc j_updatedAt (filter (retriable n (now - thr)) (db_jobs db)))"
    using assms(2) by (auto simp: job_listRetriable_def dest: in_set_takeD)
  then have "job \<in> set (db_jobs db)" and "retriable n (now - thr) job" by (auto simp: order_asc_def)
  then show "job_find (j_id job) db = Some job" and "retriable n (now - thr) job"
    using assms(1) by (auto simp: job_find_def find_row_Some_iff)
qed

lemma listRetriable_distinct:
  "distinct (map j_id (db_jobs db)) \<Longrightarrow> distinct (map j_id (job_listRetriable now thr n limit db))"
proof -
  assume "distinct (map j_id (db_jobs db))"
  then have "distinct (map j_id (order_asc j_updatedAt (filter (retriable n (now - thr)) (db_jobs db))))"
    by (auto simp: order_asc_def distinct_map intro: inj_on_subset)
  then show ?thesis by (simp add: job_listRetriable_def flip: take_map)
qed

lemma retrigger_job:
  assumes "distinct (map j_id (db_jobs db))" and "job_find jid db = Some job"
    and st': "st' = retriggerPendingJobs (recorded port) accepts now thr (db, q)"
  shows "if job \<in> set (job_listRetriable now thr MAX_RETRIES MAX_RETRIABLE_PER_TICK db)
    then \<exists>job' n. job_find jid (fst st') = Some job' \<and> sends_of jid (snd st') = n + sends_of jid q
           \<and> retrigger_outcome now job job' n
    else job_find jid (fst st') = Some job \<and> sends_of jid (snd st') = sends_of jid q"
proof -
  let ?js = "job_listRetriable now thr MAX_RETRIES MAX_RETRIABLE_PER_TICK db"
  let ?f = "fold (retrigger_one (recorded port) accepts now)"
  have jid: "j_id job = jid" using assms(2) by (auto simp: job_find_def dest: find_row_Some)
  show ?thesis
  proof (cases "job \<in> set ?js")
    case True
    then obtain xs ys where js: "?js = xs @ job # ys" by (meson split_list)
    then have out: "jid \<notin> j_id ` set xs" "jid \<notin> j_id ` set ys"
      using listRetriable_distinct[OF assms(1), of now thr MAX_RETRIES MAX_RETRIABLE_PER_TICK] jid by auto
    let ?st = "?f xs (db, q)"
    have same: "job_find jid (fst ?st) = Some job" "sends_of jid (snd ?st) = sends_of jid q"
      using retrigger_others[OF out(1), of port accepts now "(db, q)"] assms(2) by simp_all
    obtain job' n where own: "job_find jid (fst (retrigger_one (recorded port) accepts now job ?st)) = Some job'"
      "sends_of jid (snd (retrigger_one (recorded port) accepts now job ?st)) = n + sends_of jid (snd ?st)"
      "retrigger_outcome now job job' n"
      using retrigger_one_own[of job ?st port accepts now] same(1) jid by auto
    have "st' = ?f ys (retrigger_one (recorded port) accepts now job ?st)"
      by (simp add: st' retriggerPendingJobs_def js)
    then have "job_find jid (fst st') = Some job'" "sends_of jid (snd st') = n + sends_of jid q"
      using own same by (simp_all add: retrigger_others[OF out(2)])
    then show ?thesis using own(3) True by auto
  next
    case False
    have "jid \<notin> j_id ` set ?js"
      using False listRetriable_rows(1)[OF assms(1)] assms(2) by (metis (no_types, lifting) image_iff option.inject)
    then show ?thesis using False assms(2) by (simp add: st' retriggerPendingJobs_def retrigger_others)
  qed
qed

datatype recovery_event = CronTick int | Reported int status_report | LaunchFailed int

definition shows_progress :: "string \<Rightarrow> database \<Rightarrow> int \<Rightarrow> status_report \<Rightarrow> bool" where
  "shows_progress jid db now r =
     (case job_find jid db of None \<Rightarrow> False | Some job \<Rightarrow> job_progressed (reported_job now r job))"

definition recovery_step ::
  "('q, extraction_message) queue_port \<Rightarrow> (extraction_message \<Rightarrow> bool) \<Rightarrow> 's file_storage \<Rightarrow> text_decoding \<Rightarrow> int \<Rightarrow> int \<Rightarrow> 's
   \<Rightarrow> string \<Rightarrow> recovery_event \<Rightarrow> database \<times> 'q \<times> extraction_message list \<Rightarrow> database \<times> 'q \<times> extraction_message list" where
  \<comment> \<open>a container that reports on the job without extracting more than before\<close>
  "recovery_step port accepts fs td ttl thr s jid ev st =
     (case ev of
        CronTick now \<Rightarrow> retriggerPendingJobs (recorded port) accepts now thr st
      | Reported now r \<Rightarrow>
          if shows_progress jid (fst st) now r then st else (snd (job_status_handler fs td now ttl jid r (fst st) s), snd st)
      | LaunchFailed now \<Rightarrow> (touchPendingJob now jid (fst st), snd st))"

lemma retriggerPendingJobs_ids:
  assumes "distinct (map j_id (db_jobs (fst st)))"
  shows "distinct (map j_id (db_jobs (fst (retriggerPendingJobs port accepts now thr st))))"
proof -
  have "distinct (map j_id (db_jobs (fst (fold (retrigger_one port accepts now) js st))))"
    if "distinct (map j_id (db_jobs (fst st)))" for js st
    using that
  proof (induction js arbitrary: st)
    case (Cons job js)
    have "distinct (map j_id (db_jobs (fst (retrigger_one port accepts now job st))))"
      using Cons.prems job_save_distinct by (auto simp: retrigger_one_def give_up_def Let_def saveJob_jobs split: prod.split option.split)
    then show ?case using Cons.IH by simp
  qed simp
  then show ?thesis using assms by (simp add: retriggerPendingJobs_def)
qed

lemma placed_jobs:
  "db_jobs (case placed of Some (OnVersion i h) \<Rightarrow> version_update i (hosting_patch h) db | _ \<Rightarrow> db) = db_jobs db"
  by (simp add: version_update_def split: option.split placement.split)

lemma job_status_row:
  assumes "job_find jid db = Some job"
  shows "job_find jid (snd (job_status_handler fs td now ttl jid r db s)) = Some (jobUpsertArgs (reported_job now r job))"
    and "distinct (map j_id (db_jobs db)) \<Longrightarrow> distinct (map j_id (db_jobs (snd (job_status_handler fs td now ttl jid r db s))))"
proof -
  have jid: "j_id job = jid" using assms by (auto simp: job_find_def dest: find_row_Some)
  have rows: "db_jobs (snd (job_status_handler fs td now ttl jid r db s)) = db_jobs (job_save (reported_job now r job) db)"
    by (simp only: job_status_handler_def assms option.case Let_def snd_conv placed_jobs saveJob_jobs)
  then have "job_find jid (snd (job_status_handler fs td now ttl jid r db s)) = job_find jid (job_save (reported_job now r job) db)"
    by (simp add: job_find_def)
  then show "job_find jid (snd (job_status_handler fs td now ttl jid r db s)) = Some (jobUpsertArgs (reported_job now r job))"
    using jid by simp
  show "distinct (map j_id (db_jobs (snd (job_status_handler fs td now ttl jid r db s))))" if "distinct (map j_id (db_jobs db))"
    using that rows by (simp add: job_save_distinct)
qed

definition retries_used :: "string \<Rightarrow> database \<Rightarrow> int \<Rightarrow> bool" where
  \<comment> \<open>the job is at the mark of its last retry, and its budget is spent up to \<open>n\<close>\<close>
  "retries_used jid db n \<longleftrightarrow> distinct (map j_id (db_jobs db)) \<and>
     (\<exists>job. job_find jid db = Some job \<and> \<not> job_progressed job \<and> n \<le> coalesce0 (j_retryCount job))"

lemma upsert_counts [simp]: "coalesce0 (j_retryCount (jobUpsertArgs job)) = coalesce0 (j_retryCount job)"
  "job_progressed (jobUpsertArgs job) = job_progressed job"
  by (simp_all add: jobUpsertArgs_def coalesce0_def job_progressed_def split: option.split)

lemma requeued_counts [simp]: "\<not> job_progressed (requeued now n job)" "coalesce0 (j_retryCount (requeued now n job)) = n + 1"
  "coalesce0 (j_retryCount (given_up now job)) = MAX_RETRIES + 1" "job_progressed (given_up now job) = job_progressed job"
  "coalesce0 (j_retryCount (reported_job now r job)) = coalesce0 (j_retryCount job)"
  by (simp_all add: requeued_def given_up_def reported_job_def job_progressed_def coalesce0_def Let_def)

lemma outcome_counts:
  assumes "retrigger_outcome now job job' n" and "\<not> job_progressed job" and "coalesce0 (j_retryCount job) \<le> MAX_RETRIES + 1"
  shows "\<not> job_progressed job'" and "coalesce0 (j_retryCount job) + int n \<le> coalesce0 (j_retryCount job')"
    and "coalesce0 (j_retryCount job') \<le> MAX_RETRIES + 1"
    and "0 < n \<Longrightarrow> coalesce0 (j_retryCount job') \<le> MAX_RETRIES"
  using assms by (auto simp: retrigger_outcome_def effectiveRetryCount_def)

lemma recovery_step_counts:
  fixes st :: "database \<times> 'q \<times> extraction_message list"
  assumes "distinct (map j_id (db_jobs (fst st)))" and "job_find jid (fst st) = Some job" and "\<not> job_progressed job"
    and "coalesce0 (j_retryCount job) \<le> MAX_RETRIES + 1"
    and st'_def: "st' = recovery_step port accepts fs td ttl thr s jid ev st"
  shows "\<exists>job'. distinct (map j_id (db_jobs (fst st'))) \<and> job_find jid (fst st') = Some job' \<and> \<not> job_progressed job' \<and>
    coalesce0 (j_retryCount job') \<le> MAX_RETRIES + 1 \<and>
    (sends_of jid (snd st') = sends_of jid (snd st) \<and> coalesce0 (j_retryCount job) \<le> coalesce0 (j_retryCount job') \<or>
     sends_of jid (snd st') = 1 + sends_of jid (snd st) \<and> coalesce0 (j_retryCount job) + 1 \<le> coalesce0 (j_retryCount job') \<and>
       coalesce0 (j_retryCount job') \<le> MAX_RETRIES)"
proof (cases ev)
  case (CronTick now)
  have st': "st' = retriggerPendingJobs (recorded port) accepts now thr (fst st, snd st)"
    by (simp add: st'_def recovery_step_def CronTick)
  note tick = retrigger_job[OF assms(1,2) st']
  have ids: "distinct (map j_id (db_jobs (fst st')))"
    using retriggerPendingJobs_ids assms(1) st' by simp
  show ?thesis
  proof (cases "job \<in> set (job_listRetriable now thr MAX_RETRIES MAX_RETRIABLE_PER_TICK (fst st))")
    case True
    then obtain job' n where out: "job_find jid (fst st') = Some job'" "sends_of jid (snd st') = n + sends_of jid (snd st)"
      "retrigger_outcome now job job' n" using tick by auto
    have "n = 0 \<or> n = 1" using out(3) by (auto simp: retrigger_outcome_def)
    then show ?thesis using ids out outcome_counts[OF out(3) assms(3,4)] by auto
  next
    case False
    then show ?thesis using tick ids assms(3,4) by auto
  qed
next
  case (Reported now r)
  show ?thesis
  proof (cases "shows_progress jid (fst st) now r")
    case True
    then show ?thesis using assms(1-4) by (simp add: st'_def recovery_step_def Reported)
  next
    case False
    then have "\<not> job_progressed (reported_job now r job)" using assms(2) by (simp add: shows_progress_def)
    then show ?thesis
      using False assms(4)
      by (simp add: st'_def recovery_step_def Reported job_status_row(1)[OF assms(2)] job_status_row(2)[OF assms(2) assms(1)])
  qed
next
  case (LaunchFailed now)
  have jid: "j_id job = jid" using assms(2) by (auto simp: job_find_def dest: find_row_Some)
  have touch: "\<not> job_progressed (job\<lparr>j_updatedAt := now\<rparr>)" using assms(3) by (simp add: job_progressed_def)
  show ?thesis
    using assms(1-4) jid touch
    by (simp add: st'_def recovery_step_def LaunchFailed touchPendingJob_def job_save_distinct)
qed

text \<open>
  C30: A job whose extraction never gets past the point of its last retry, whatever the container
  reports in between and however often its launch fails, is sent to the queue by the cron at most
  as often as its retry budget allows.
\<close>

theorem stuck_job_sends_bounded:
  assumes "database_ok db" and "job_find jid db = Some job" and "\<not> job_progressed job"
    and "0 \<le> coalesce0 (j_retryCount job)" and "coalesce0 (j_retryCount job) \<le> MAX_RETRIES"
  shows "int (sends_of jid (snd (fold (recovery_step port accepts fs td ttl thr s jid) evs (db, q, []))))
    \<le> MAX_RETRIES - coalesce0 (j_retryCount job)"
proof -
  let ?count = "\<lambda>job. coalesce0 (j_retryCount job)"
  have run: "int (sends_of jid (snd (fold (recovery_step port accepts fs td ttl thr s jid) evs st)))
      \<le> int (sends_of jid (snd st)) + max 0 (MAX_RETRIES - ?count j)"
    if "distinct (map j_id (db_jobs (fst st)))" "job_find jid (fst st) = Some j" "\<not> job_progressed j"
      "?count j \<le> MAX_RETRIES + 1" for st j
    using that
  proof (induction evs arbitrary: st j)
    case (Cons ev evs)
    define st' where "st' = recovery_step port accepts fs td ttl thr s jid ev st"
    obtain j' where j': "distinct (map j_id (db_jobs (fst st')))" "job_find jid (fst st') = Some j'" "\<not> job_progressed j'"
      "?count j' \<le> MAX_RETRIES + 1" and
      step: "sends_of jid (snd st') = sends_of jid (snd st) \<and> ?count j \<le> ?count j' \<or>
        sends_of jid (snd st') = 1 + sends_of jid (snd st) \<and> ?count j + 1 \<le> ?count j' \<and> ?count j' \<le> MAX_RETRIES"
      using recovery_step_counts[OF Cons.prems st'_def] by blast
    have "int (sends_of jid (snd (fold (recovery_step port accepts fs td ttl thr s jid) evs st')))
      \<le> int (sends_of jid (snd st')) + max 0 (MAX_RETRIES - ?count j')"
      by (rule Cons.IH[OF j'])
    then show ?case using step by (auto simp: st'_def)
  qed simp
  have ids: "distinct (map j_id (db_jobs db))" using assms(1) by (simp add: database_ok_def)
  show ?thesis using run[of "(db, q, [])" job] ids assms(2-5) by (simp add: sends_of_def)
qed

section \<open>A stuck job is given up\<close>

definition archive_format_of :: "job \<Rightarrow> database \<Rightarrow> archive_format option" where
  "archive_format_of job db =
     (if truthy (j_versionId job) then Option.bind (version_find (the (j_versionId job)) db) v_archiveFormat
      else Option.bind (asset_find (j_assetId job) db) a_archiveFormat)"

lemma message_iff: "extractionMessageForJob job db = None \<longleftrightarrow> archive_format_of job db = None"
  by (simp add: extractionMessageForJob_def archive_format_of_def split: option.split)

lemma asset_find_save:
  "Option.bind (asset_find i (asset_save a db)) a_archiveFormat =
     (if i = a_id a then a_archiveFormat a else Option.bind (asset_find i db) a_archiveFormat)"
proof -
  have "asset_find i db = map_option parseAssetRow (asset_row_of i db)" for db by (simp add: asset_find_def asset_row_of_def)
  then show ?thesis by (simp add: asset_row_of_save parseAssetRow_def assetUpsertArgs_def)
qed

lemma formats_after_job_save [simp]: "archive_format_of job (job_save j db) = archive_format_of job db"
  by (simp add: archive_format_of_def version_find_def asset_find_def job_save_def)

lemma asset_find_id: "asset_find i db = Some a \<Longrightarrow> a_id a = i"
  by (auto simp: asset_find_def parseAssetRow_def asset_row_id_def dest!: find_row_Some)

lemma version_find_id: "version_find i db = Some v \<Longrightarrow> v_id v = i"
  by (auto simp: version_find_def dest!: find_row_Some)

lemma format_failed_asset:
  assumes "asset_find i db = Some a"
  shows "archive_format_of job (asset_save (a\<lparr>a_status := st\<rparr>) db) = archive_format_of job db"
proof -
  have "version_find k (asset_save (a\<lparr>a_status := st\<rparr>) db) = version_find k db" for k
    by (simp add: version_find_def asset_save_def Let_def)
  then show ?thesis
    using assms asset_find_id[OF assms] by (simp add: archive_format_of_def asset_find_save)
qed

lemma format_failed_version:
  assumes "version_find i db = Some v"
  shows "archive_format_of job (version_extraction_update (v\<lparr>v_status := st\<rparr>) db) = archive_format_of job db"
proof -
  have "asset_find k (version_extraction_update w db) = asset_find k db" for k w
    by (simp add: asset_find_def version_extraction_update_def)
  moreover have "version_find k (version_extraction_update w db) =
      (if k = v_id w then map_option (\<lambda>r. r\<lparr>v_status := v_status w, v_contentEncoding := v_contentEncoding w,
              v_originalSize := v_originalSize w, v_archiveFormat := v_archiveFormat w,
              v_fileCount := v_fileCount w, v_extractedSize := v_extractedSize w,
              v_jobId := v_jobId w, v_hosting := v_hosting w\<rparr>) (version_find k db) else version_find k db)" for k w
    by (simp add: version_find_def version_extraction_update_def find_update_rows)
  ultimately show ?thesis
    using assms version_find_id[OF assms] by (auto simp: archive_format_of_def)
qed

lemma retrigger_one_format:
  "archive_format_of job (fst (retrigger_one port accepts now j st)) = archive_format_of job (fst st)"
proof -
  have find: "asset_find i (job_save k db) = asset_find i db" "version_find i (job_save k db) = version_find i db" for i k db
    by (simp_all add: asset_find_def version_find_def job_save_def)
  have "archive_format_of job (give_up now j db) = archive_format_of job db" for db
    using format_failed_asset[of "j_assetId j" "job_save (given_up now j) db"]
      format_failed_version[of "the (j_versionId j)" "job_save (given_up now j) db"]
    by (auto simp: give_up_def saveJob_def Let_def find split: option.split)
  then show ?thesis by (simp add: retrigger_one_def Let_def split: prod.split option.split)
qed

lemma retrigger_format:
  "archive_format_of job (fst (fold (retrigger_one port accepts now) js st)) = archive_format_of job (fst st)"
  by (induction js arbitrary: st) (simp_all add: retrigger_one_format)

definition job_ids :: "database \<Rightarrow> string set" where
  "job_ids db = j_id ` set (db_jobs db)"

lemma job_ids_save: "j_id job \<in> job_ids db \<Longrightarrow> job_ids (job_save job db) = job_ids db"
  by (auto simp: job_ids_def job_save_def set_replace_row)

lemma retrigger_one_ids: "j_id job \<in> job_ids (fst st) \<Longrightarrow> job_ids (fst (retrigger_one port accepts now job st)) = job_ids (fst st)"
proof -
  have "job_ids (saveJob k a v db) = job_ids (job_save k db)" for k a v db by (simp add: job_ids_def saveJob_jobs)
  moreover assume "j_id job \<in> job_ids (fst st)"
  ultimately show ?thesis
    by (cases st) (simp add: retrigger_one_def give_up_def Let_def job_ids_save split: option.split)
qed

lemma retrigger_ids:
  "j_id ` set js \<subseteq> job_ids (fst st) \<Longrightarrow> job_ids (fst (fold (retrigger_one port accepts now) js st)) = job_ids (fst st)"
  by (induction js arbitrary: st) (simp_all add: retrigger_one_ids)

lemma listRetriable_ids: "j_id ` set (job_listRetriable now thr n limit db) \<subseteq> job_ids db"
  by (auto simp: job_listRetriable_def order_asc_def job_ids_def dest!: in_set_takeD)

lemma listed:
  assumes "length (db_jobs db) \<le> limit" and "job_find jid db = Some job" and "retriable n (now - thr) job"
  shows "job \<in> set (job_listRetriable now thr n limit db)"
proof -
  have "job \<in> set (db_jobs db)" using assms(2) unfolding job_find_def by (rule conjunct1[OF find_row_Some])
  then have "job \<in> set (order_asc j_updatedAt (filter (retriable n (now - thr)) (db_jobs db)))"
    using assms(3) by (simp add: order_asc_def)
  moreover have "length (order_asc j_updatedAt (filter (retriable n (now - thr)) (db_jobs db))) \<le> limit"
    using assms(1) by (auto simp: order_asc_def intro: order_trans[OF length_filter_le])
  ultimately show ?thesis by (simp add: job_listRetriable_def)
qed

definition exhausted :: "job \<Rightarrow> bool" where
  "exhausted job \<longleftrightarrow> j_status job = JobFailed \<and> j_retryCount job = Some (MAX_RETRIES + 1) \<and> \<not> job_progressed job"

definition waiting :: "int \<Rightarrow> int \<Rightarrow> job \<Rightarrow> bool" where
  \<comment> \<open>\<open>k\<close> retries spent, and in the cron's hands at any time after \<open>t\<close>\<close>
  "waiting k t job \<longleftrightarrow> k \<le> coalesce0 (j_retryCount job) \<and> coalesce0 (j_retryCount job) \<le> MAX_RETRIES \<and> \<not> job_progressed job \<and>
     (j_status job = JobFailed \<or> j_status job \<in> {JobPending, JobRunning} \<and> j_updatedAt job \<le> t)"

definition tick_state :: "string \<Rightarrow> string set \<Rightarrow> int \<Rightarrow> int \<Rightarrow> database \<Rightarrow> bool" where
  "tick_state jid ids k t db \<longleftrightarrow> distinct (map j_id (db_jobs db)) \<and> job_ids db = ids \<and>
     (\<exists>job. job_find jid db = Some job \<and> (exhausted job \<or> waiting k t job \<and> archive_format_of job db \<noteq> None))"

lemma retrigger_sends:
  assumes "job_find (j_id job) (fst st) = Some job" and "effectiveRetryCount job < MAX_RETRIES"
    and "archive_format_of job (fst st) \<noteq> None"
  shows "job_find (j_id job) (fst (retrigger_one port (\<lambda>_. True) now job st))
    = Some (jobUpsertArgs (requeued now (effectiveRetryCount job) job))"
proof -
  obtain m where "extractionMessageForJob job (fst st) = Some m" using assms(3) message_iff by fastforce
  then show ?thesis using assms by (cases st) (simp add: retrigger_one_def Let_def)
qed

lemma retrigger_listed:
  assumes "distinct (map j_id (db_jobs db))" and "job \<in> set (job_listRetriable now thr MAX_RETRIES MAX_RETRIABLE_PER_TICK db)"
    and "archive_format_of job db \<noteq> None"
  shows "job_find (j_id job) (fst (retriggerPendingJobs (recorded port) (\<lambda>_. True) now thr (db, q))) =
    Some (jobUpsertArgs (if effectiveRetryCount job \<ge> MAX_RETRIES then given_up now job
                         else requeued now (effectiveRetryCount job) job))"
proof -
  let ?js = "job_listRetriable now thr MAX_RETRIES MAX_RETRIABLE_PER_TICK db"
  let ?f = "fold (retrigger_one (recorded port) (\<lambda>_. True) now)"
  obtain xs ys where js: "?js = xs @ job # ys" using assms(2) by (meson split_list)
  then have out: "j_id job \<notin> j_id ` set xs" "j_id job \<notin> j_id ` set ys"
    using listRetriable_distinct[OF assms(1), of now thr MAX_RETRIES MAX_RETRIABLE_PER_TICK] by auto
  have same: "job_find (j_id job) (fst (?f xs (db, q))) = Some job"
    using listRetriable_rows(1)[OF assms(1,2)] by (simp add: retrigger_others[OF out(1)])
  have "job_find (j_id job) (fst (retrigger_one (recorded port) (\<lambda>_. True) now job (?f xs (db, q)))) =
    Some (jobUpsertArgs (if effectiveRetryCount job \<ge> MAX_RETRIES then given_up now job
                         else requeued now (effectiveRetryCount job) job))"
  proof (cases "effectiveRetryCount job \<ge> MAX_RETRIES")
    case True
    then show ?thesis by (simp add: retrigger_one_def give_up_def Let_def split: prod.split)
  next
    case False
    then show ?thesis using retrigger_sends[OF same] assms(3) by (simp add: retrigger_format)
  qed
  then show ?thesis by (simp add: retriggerPendingJobs_def js retrigger_others[OF out(2)])
qed

lemma archive_format_same:
  "j_versionId job' = j_versionId job \<Longrightarrow> j_assetId job' = j_assetId job \<Longrightarrow> archive_format_of job' db = archive_format_of job db"
  by (simp add: archive_format_of_def)

lemma tick_state_step:
  assumes "tick_state jid ids k t db" and "card ids \<le> MAX_RETRIABLE_PER_TICK" and "t + thr < now"
  shows "tick_state jid ids (k + 1) now (fst (retriggerPendingJobs (recorded port) (\<lambda>_. True) now thr (db, q)))"
proof -
  obtain job where ids: "distinct (map j_id (db_jobs db))" "job_ids db = ids" and job: "job_find jid db = Some job"
    and st: "exhausted job \<or> waiting k t job \<and> archive_format_of job db \<noteq> None"
    using assms(1) by (auto simp: tick_state_def)
  have jid: "j_id job = jid" using job unfolding job_find_def by (rule conjunct2[OF find_row_Some])
  let ?db = "fst (retriggerPendingJobs (recorded port) (\<lambda>_. True) now thr (db, q))"
  have "distinct (map j_id (db_jobs ?db))" by (simp add: retriggerPendingJobs_ids ids(1))
  moreover have "job_ids ?db = ids"
    by (simp add: retriggerPendingJobs_def retrigger_ids[OF listRetriable_ids[of now thr MAX_RETRIES MAX_RETRIABLE_PER_TICK "fst (db, q)"], simplified] ids(2))
  moreover have "\<exists>job'. job_find jid ?db = Some job' \<and> (exhausted job' \<or> waiting (k + 1) now job' \<and> archive_format_of job' ?db \<noteq> None)"
  proof (cases "exhausted job")
    case True
    then have "\<not> retriable MAX_RETRIES (now - thr) job"
      by (auto simp: exhausted_def retriable_def job_progressed_def coalesce0_def)
    then have "job \<notin> set (job_listRetriable now thr MAX_RETRIES MAX_RETRIABLE_PER_TICK db)"
      using listRetriable_rows(2)[OF ids(1)] by blast
    then show ?thesis using True retrigger_job[OF ids(1) job refl, where now = now and thr = thr and port = port and accepts = "\<lambda>_. True" and q = q]
      by auto
  next
    case False
    then have wait: "waiting k t job" and fmt: "archive_format_of job db \<noteq> None" using st by simp_all
    have "retriable MAX_RETRIES (now - thr) job"
      using wait assms(3) by (auto simp: waiting_def retriable_def)
    moreover have "length (db_jobs db) \<le> MAX_RETRIABLE_PER_TICK"
      using assms(2) ids distinct_card[OF ids(1)] by (simp add: job_ids_def)
    ultimately have "job \<in> set (job_listRetriable now thr MAX_RETRIES MAX_RETRIABLE_PER_TICK db)"
      using listed[OF _ job] by blast
    from retrigger_listed[OF ids(1) this fmt, of port q]
    have row: "job_find jid ?db = Some (jobUpsertArgs (if effectiveRetryCount job \<ge> MAX_RETRIES then given_up now job
                         else requeued now (effectiveRetryCount job) job))" (is "_ = Some ?job'")
      by (simp only: jid)
    have "archive_format_of ?job' ?db = archive_format_of job db"
      using archive_format_same[of ?job' job]
      by (simp add: jobUpsertArgs_def given_up_def requeued_def retriggerPendingJobs_def retrigger_format)
    moreover have "exhausted ?job' \<or> waiting (k + 1) now ?job'"
      using wait by (auto simp: exhausted_def waiting_def effectiveRetryCount_def)
        (simp_all add: jobUpsertArgs_def given_up_def requeued_def)
    ultimately show ?thesis using row fmt by auto
  qed
  ultimately show ?thesis by (simp add: tick_state_def)
qed

fun spaced :: "int \<Rightarrow> int \<Rightarrow> int list \<Rightarrow> bool" where
  "spaced thr t [] = True"
| "spaced thr t (now # ts) = (t + thr < now \<and> spaced thr now ts)"

definition cron_ticks ::
  "('q, extraction_message) queue_port \<Rightarrow> int \<Rightarrow> int list \<Rightarrow> database \<times> 'q \<times> extraction_message list
   \<Rightarrow> database \<times> 'q \<times> extraction_message list" where
  "cron_ticks port thr ts st = fold (\<lambda>now. retriggerPendingJobs (recorded port) (\<lambda>_. True) now thr) ts st"

lemma cron_ticks_state:
  assumes "tick_state jid ids k t (fst st)" and "card ids \<le> MAX_RETRIABLE_PER_TICK" and "spaced thr t ts"
  shows "\<exists>t'. tick_state jid ids (k + int (length ts)) t' (fst (cron_ticks port thr ts st))"
  using assms
proof (induction ts arbitrary: k t st)
  case (Cons now ts)
  have "tick_state jid ids (k + 1) now (fst (retriggerPendingJobs (recorded port) (\<lambda>_. True) now thr st))"
    using tick_state_step[of jid ids k t "fst st" thr now port "snd st"] Cons.prems by simp
  then show ?case using Cons.IH[of "k + 1" now] Cons.prems by (simp add: cron_ticks_def algebra_simps)
qed (auto simp: cron_ticks_def)

lemma waiting_exhausted: "tick_state jid ids k t db \<Longrightarrow> MAX_RETRIES < k \<Longrightarrow> \<exists>job. job_find jid db = Some job \<and> exhausted job"
  by (auto simp: tick_state_def waiting_def)


text \<open>
  The cron passes over a job it has no message for and leaves its row as it was, so such rows (of
  deleted versions and assets) stay the oldest ones: once they fill the batch, nothing is
  retried any more.
\<close>

lemma orphans_fill_the_batch:
  assumes "\<forall>job \<in> set (job_listRetriable now thr MAX_RETRIES MAX_RETRIABLE_PER_TICK (fst st)).
    effectiveRetryCount job < MAX_RETRIES \<and> archive_format_of job (fst st) = None"
  shows "retriggerPendingJobs port accepts now thr st = st"
proof -
  have "fold (retrigger_one port accepts now) js st = st"
    if "\<forall>job \<in> set js. effectiveRetryCount job < MAX_RETRIES \<and> archive_format_of job (fst st) = None" for js
    using that
  proof (induction js)
    case (Cons job js)
    have "retrigger_one port accepts now job st = st"
      using Cons.prems message_iff[of job "fst st"] by (cases st) (simp add: retrigger_one_def)
    then show ?case using Cons by simp
  qed simp
  then show ?thesis using assms by (simp add: retriggerPendingJobs_def)
qed

section \<open>The queue and the cron\<close>

lemma retry_delay_bounds: "60 \<le> retryDelaySeconds n \<and> retryDelaySeconds n \<le> 1200"
proof -
  have "1 \<le> (2::nat) ^ (n - 1)" by simp
  then have "60 \<le> 60 * (2::nat) ^ (n - 1)" by linarith
  then show ?thesis by (simp add: retryDelaySeconds_def)
qed

lemma touched_row:
  assumes "job_find jid db = Some job" and "j_status job = JobPending"
  shows "\<exists>job'. job_find jid (touchPendingJob now k db) = Some job' \<and> j_status job' = JobPending \<and>
    (k = jid \<or> j_updatedAt job = now \<longrightarrow> j_updatedAt job' = now)"
proof (cases "k = jid")
  case True
  have "j_id job = jid" using assms(1) unfolding job_find_def by (rule conjunct2[OF find_row_Some])
  then show ?thesis using True assms by (simp add: touchPendingJob_def jobUpsertArgs_def)
next
  case False
  have "j_id j \<noteq> jid" if "job_find k db = Some j" for j
    using that False unfolding job_find_def by (metis find_row_Some)
  then show ?thesis using False assms by (auto simp: touchPendingJob_def split: option.split)
qed

lemma touched_ids: "distinct (map j_id (db_jobs db)) \<Longrightarrow> distinct (map j_id (db_jobs (touchPendingJob now k db)))"
  by (simp add: touchPendingJob_def job_save_distinct split: option.split)

lemma launched_row:
  assumes "distinct (map j_id (db_jobs db))" and "job_find jid db = Some job" and "j_status job = JobPending"
    and "j_updatedAt job = now \<or> (\<exists>m \<in> set ms. em_jobId (dl_body m) = jid \<and> \<not> launch (dl_body m))"
  shows "distinct (map j_id (db_jobs (snd (launch_all launch now ms db)))) \<and>
    (\<exists>job'. job_find jid (snd (launch_all launch now ms db)) = Some job' \<and> j_status job' = JobPending \<and> j_updatedAt job' = now)"
  using assms
proof (induction ms arbitrary: db job)
  case (Cons m ms)
  show ?case
  proof (cases "launch (dl_body m)")
    case True
    then show ?thesis using Cons.IH[OF Cons.prems(1-3)] Cons.prems(4) by (auto split: prod.splits)
  next
    case False
    let ?db = "touchPendingJob now (em_jobId (dl_body m)) db"
    obtain job' where job': "job_find jid ?db = Some job'" "j_status job' = JobPending"
      "em_jobId (dl_body m) = jid \<or> j_updatedAt job = now \<longrightarrow> j_updatedAt job' = now"
      using touched_row[OF Cons.prems(2,3)] by blast
    have "j_updatedAt job' = now \<or> (\<exists>m \<in> set ms. em_jobId (dl_body m) = jid \<and> \<not> launch (dl_body m))"
      using job'(3) Cons.prems(4) by auto
    from Cons.IH[OF touched_ids[OF Cons.prems(1)] job'(1,2) this]
    show ?thesis using False by (auto split: prod.splits)
  qed
qed auto

text \<open>
  While the queue keeps redelivering a job whose container cannot be launched, the cron leaves the
  job alone: until the message is due again it is not listed as retriable.
\<close>

theorem queue_keeps_cron_away:
  assumes "database_ok db" and "job_find jid db = Some job" and "j_status job = JobPending"
    and "m \<in> set ms" and "em_jobId (dl_body m) = jid" and "\<not> launch (dl_body m)"
    and "1200 * 1000 < thr" and "later \<le> now + 1000 * int (retryDelaySeconds (dl_attempts m))"
  shows "jid \<notin> j_id ` set (job_listRetriable later thr n limit (snd (handleQueue True launch now ms db)))"
proof
  let ?db = "snd (handleQueue True launch now ms db)"
  assume "jid \<in> j_id ` set (job_listRetriable later thr n limit ?db)"
  then obtain j where j: "j \<in> set (job_listRetriable later thr n limit ?db)" "j_id j = jid" by auto
  have "distinct (map j_id (db_jobs db))" using assms(1) by (simp add: database_ok_def)
  then obtain job' where ids: "distinct (map j_id (db_jobs ?db))" and job': "job_find jid ?db = Some job'"
    "j_status job' = JobPending" "j_updatedAt job' = now"
    using launched_row[of db jid job now ms launch] assms(2-6) by (auto simp: handleQueue_def)
  have "j = job'" using listRetriable_rows(1)[OF ids j(1)] j(2) job'(1) by simp
  then have "now < later - thr"
    using listRetriable_rows(2)[OF ids j(1)] job'(2,3) by (auto simp: retriable_def)
  moreover have "retryDelaySeconds (dl_attempts m) \<le> 1200" using retry_delay_bounds by blast
  ultimately show False using assms(7,8) by linarith
qed

section \<open>What a status report writes\<close>

definition mirrored :: "job_status \<Rightarrow> asset_status option \<Rightarrow> asset_status option" where
  "mirrored st old = (case st of JobPending \<Rightarrow> old | JobRunning \<Rightarrow> Some AssetExtracting
     | JobCompleted \<Rightarrow> Some AssetReady | JobFailed \<Rightarrow> Some AssetFailed)"

lemma asset_find_row: "asset_find i db = map_option parseAssetRow (asset_row_of i db)"
  by (simp add: asset_find_def asset_row_of_def)

lemma asset_find_saved:
  "map_option a_status (asset_find i (asset_save a db)) =
     (if i = a_id a then Some (a_status a) else map_option a_status (asset_find i db))"
  "map_option a_expiresAt (asset_find i (asset_save a db)) =
     (if i = a_id a then Some (a_expiresAt a) else map_option a_expiresAt (asset_find i db))"
  "i \<noteq> a_id a \<Longrightarrow> asset_find i (asset_save a db) = asset_find i db"
  by (simp_all add: asset_find_row asset_row_of_save parseAssetRow_def assetUpsertArgs_def)

lemma asset_find_version_update:
  "asset_find i (version_extraction_update v db) = asset_find i db"
  "asset_find i (version_update k p db) = asset_find i db"
  "asset_find i (job_save j db) = asset_find i db"
  by (simp_all add: asset_find_def version_extraction_update_def version_update_def job_save_def)

lemma asset_find_saveJob:
  "asset_find i (saveJob job a v db) = asset_find i (case a of None \<Rightarrow> db | Some b \<Rightarrow> asset_save b (job_save job db))"
  by (simp add: saveJob_def Let_def asset_find_version_update split: option.split)

lemma asset_find_placed:
  "asset_find i (case placed of Some (OnVersion k h) \<Rightarrow> version_update k (hosting_patch h) db | _ \<Rightarrow> db) = asset_find i db"
  by (simp add: asset_find_version_update split: option.split placement.split)

lemma extend_expiry: "a_expiresAt a \<le> a_expiresAt (extendDemoExpiry now ttl a)"
  "0 < a_expiresAt a \<Longrightarrow> now + ttl * 1000 \<le> a_expiresAt (extendDemoExpiry now ttl a)"
  "a_id (extendDemoExpiry now ttl a) = a_id a" "a_status (extendDemoExpiry now ttl a) = a_status a"
  by (auto simp: extendDemoExpiry_def)

lemma mirror_asset_fields: "a_id (mirror_asset job a) = a_id a" "a_expiresAt (mirror_asset job a) = a_expiresAt a"
  "a_status (mirror_asset job a) = mirrored (j_status job) (a_status a)"
  by (simp_all add: mirror_asset_def mirrored_def split: job_status.split)

text \<open>
  A container's status report lands: the job row is the reported one, the status is mirrored onto
  the asset when the job is the asset's own, no other asset row moves, and the asset's expiry never
  comes closer; unless the report is a failure, a demo asset lives at least one more TTL.
\<close>

theorem status_report_recorded:
  assumes "job_find jid db = Some job"
  shows "let db' = snd (job_status_handler fs td now ttl jid r db s); aid = j_assetId job in
    job_find jid db' = Some (jobUpsertArgs (reported_job now r job)) \<and>
    (\<forall>i. i = aid \<or> asset_find i db' = asset_find i db) \<and>
    map_option a_status (asset_find aid db') =
      map_option (\<lambda>a. if truthy (j_versionId job) then a_status a else mirrored (sp_status r) (a_status a)) (asset_find aid db) \<and>
    (case (asset_find aid db, asset_find aid db') of
       (Some a, Some a') \<Rightarrow> a_expiresAt a \<le> a_expiresAt a' \<and>
         (a_expiresAt a \<le> 0 \<or> sp_status r = JobFailed \<or> now + ttl * 1000 \<le> a_expiresAt a')
     | (None, None) \<Rightarrow> True
     | _ \<Rightarrow> False)"
proof -
  let ?db = "snd (job_status_handler fs td now ttl jid r db s)"
  define job' where "job' = reported_job now r job"
  have fields: "j_assetId job' = j_assetId job" "j_versionId job' = j_versionId job" "j_status job' = sp_status r"
    by (simp_all add: job'_def reported_job_def Let_def)
  define a1 where "a1 = (if truthy (j_versionId job) then asset_find (j_assetId job) db
    else map_option (mirror_asset job') (asset_find (j_assetId job) db))"
  define a2 where "a2 = (if sp_status r = JobFailed then a1 else map_option (extendDemoExpiry now ttl) a1)"
  define placed where "placed = (if sp_status r = JobCompleted then hostingOnExtractionComplete fs td job' a2 s else None)"
  define a3 where "a3 = (case placed of Some (OnAsset h) \<Rightarrow> map_option (\<lambda>a. a\<lparr>a_hosting := Some h\<rparr>) a2 | _ \<Rightarrow> a2)"
  define v where "v = map_option (mirror_version job') (if truthy (j_versionId job) then version_find (the (j_versionId job)) db else None)"
  have "?db = (case placed of Some (OnVersion i h) \<Rightarrow> version_update i (hosting_patch h) (saveJob job' a3 v db) | _ \<Rightarrow> saveJob job' a3 v db)"
    by (simp only: job_status_handler_def assms option.case Let_def snd_conv flip: job'_def)
      (simp only: fields a1_def a2_def placed_def a3_def v_def)
  then have find: "asset_find i ?db = asset_find i (case a3 of None \<Rightarrow> db | Some b \<Rightarrow> asset_save b (job_save job' db))" for i
    by (simp only: asset_find_placed asset_find_saveJob)
  show ?thesis
  proof (cases "asset_find (j_assetId job) db")
    case None
    then have "a3 = None" by (simp add: a3_def a2_def a1_def split: option.split placement.split)
    then show ?thesis using find None job_status_row(1)[OF assms] by (simp add: Let_def)
  next
    case (Some a)
    obtain b where b: "a3 = Some b" "a_id b = a_id a" "a_expiresAt a \<le> a_expiresAt b"
      "a_status b = (if truthy (j_versionId job) then a_status a else mirrored (sp_status r) (a_status a))"
      "a_expiresAt a \<le> 0 \<or> sp_status r = JobFailed \<or> now + ttl * 1000 \<le> a_expiresAt b"
    proof -
      define b1 where "b1 = (if truthy (j_versionId job) then a else mirror_asset job' a)"
      define b2 where "b2 = (if sp_status r = JobFailed then b1 else extendDemoExpiry now ttl b1)"
      have b1: "a_id b1 = a_id a" "a_expiresAt b1 = a_expiresAt a"
        "a_status b1 = (if truthy (j_versionId job) then a_status a else mirrored (sp_status r) (a_status a))"
        by (simp_all add: b1_def mirror_asset_fields fields)
      have b2: "a_id b2 = a_id b1" "a_expiresAt b1 \<le> a_expiresAt b2" "a_status b2 = a_status b1"
        "a_expiresAt b1 \<le> 0 \<or> sp_status r = JobFailed \<or> now + ttl * 1000 \<le> a_expiresAt b2"
        by (simp_all add: b2_def extend_expiry(1,3,4)) (simp add: extendDemoExpiry_def)
      define b where "b = (case placed of Some (OnAsset h) \<Rightarrow> b2\<lparr>a_hosting := Some h\<rparr> | _ \<Rightarrow> b2)"
      have "a2 = Some b2" by (simp add: a2_def a1_def b2_def b1_def Some)
      then have "a3 = Some b" "a_id b = a_id b2" "a_expiresAt b = a_expiresAt b2" "a_status b = a_status b2"
        by (simp_all add: a3_def b_def split: option.split placement.split)
      then show thesis using b1 b2 by (intro that[of b]) simp_all
    qed
    have aid: "a_id b = j_assetId job" using b(2) asset_find_id[OF Some] by simp
    have saved: "asset_find i ?db = asset_find i (asset_save b (job_save job' db))" for i using find b(1) by simp
    then obtain a' where a': "asset_find (j_assetId job) ?db = Some a'" "a_status a' = a_status b" "a_expiresAt a' = a_expiresAt b"
      using asset_find_saved(1,2)[of "j_assetId job" b "job_save job' db"] aid
      by (auto simp: map_option_case split: option.splits)
    have "i = j_assetId job \<or> asset_find i ?db = asset_find i db" for i
      using saved asset_find_saved(3)[of i b "job_save job' db"] aid by (cases "i = j_assetId job") (simp_all add: asset_find_version_update)
    then show ?thesis using a' b Some job_status_row(1)[OF assms] by (simp add: Let_def)
  qed
qed

section \<open>A concrete stuck job\<close>

definition zip_asset :: asset where
  "zip_asset = (blank_asset ''a1'')\<lparr>a_expiresAt := 5, a_type := Some TypeArchive, a_archiveFormat := Some Zip\<rparr>"

definition pending_job :: job where
  "pending_job = finished_job\<lparr>j_status := JobPending\<rparr>"

definition stuck_database :: database where
  "stuck_database = job_save pending_job (asset_save zip_asset empty_database)"

definition launch_message :: extraction_message where
  "launch_message = \<lparr>em_jobId = ''a1'', em_assetId = ''a1'', em_versionId = None, em_archiveKey = ''assets/a1/f'',
     em_archiveFilename = ''f'', em_archiveFormat = Zip\<rparr>"

definition stuck_row :: job where
  "stuck_row = pending_job\<lparr>j_retryCount := Some 0\<rparr>"

lemma stuck_database_ok: "database_ok stuck_database"
  by code_simp

lemma stuck_database_row: "job_find ''a1'' stuck_database = Some stuck_row"
  by code_simp

lemma stuck_row_waits: "waiting 0 1 stuck_row" "\<not> job_progressed stuck_row" "coalesce0 (j_retryCount stuck_row) = 0"
  by code_simp+

lemma stuck_row_message: "extractionMessageForJob stuck_row stuck_database \<noteq> None"
  by code_simp

definition running_report :: status_report where
  "running_report = \<lparr>sp_status = JobRunning, sp_totalFiles = None, sp_fileCount = None, sp_extractedSize = None, sp_error = None\<rparr>"

lemma stuck_job_sends_bounded_witness:
  "int (sends_of ''a1'' (snd (fold (recovery_step (memory_queue_port 5) (\<lambda>_. True) (memory_storage_port id)
      \<lparr>td_gunzip = id, td_text = concat\<rparr> 60 100 expired_objects ''a1'')
      (map CronTick [200, 400, 600, 800] @ [Reported 900 running_report] @ map CronTick [1100, 1300, 1500, 1700])
      (stuck_database, mq_empty, []))))
    \<le> 5"
proof -
  have "0 \<le> coalesce0 (j_retryCount stuck_row)" "coalesce0 (j_retryCount stuck_row) \<le> MAX_RETRIES"
    by (simp_all add: stuck_row_waits MAX_RETRIES_def)
  from stuck_job_sends_bounded[OF stuck_database_ok stuck_database_row stuck_row_waits(2) this]
  have "int (sends_of ''a1'' (snd (fold (recovery_step (memory_queue_port 5) (\<lambda>_. True) (memory_storage_port id)
      \<lparr>td_gunzip = id, td_text = concat\<rparr> 60 100 expired_objects ''a1'') evs (stuck_database, mq_empty, [])))) \<le> 5" for evs
    by (simp add: stuck_row_waits MAX_RETRIES_def)
  then show ?thesis by blast
qed


lemma queue_keeps_cron_away_witness:
  "''a1'' \<notin> j_id ` set (job_listRetriable 120010 1200001 MAX_RETRIES 50
     (snd (handleQueue True (\<lambda>_. False) 10 [\<lparr>dl_body = launch_message, dl_attempts = 2\<rparr>] stuck_database)))"
  by (rule queue_keeps_cron_away[OF stuck_database_ok stuck_database_row, where m = "\<lparr>dl_body = launch_message, dl_attempts = 2\<rparr>"])
    (simp_all add: stuck_row_def pending_job_def launch_message_def retryDelaySeconds_def)

lemma status_report_recorded_witness:
  "let db' = snd (job_status_handler (memory_storage_port id) \<lparr>td_gunzip = id, td_text = concat\<rparr> 1000 60 ''a1'' running_report
       stuck_database expired_objects); aid = j_assetId stuck_row in
    job_find ''a1'' db' = Some (jobUpsertArgs (reported_job 1000 running_report stuck_row)) \<and>
    (\<forall>i. i = aid \<or> asset_find i db' = asset_find i stuck_database) \<and>
    map_option a_status (asset_find aid db') =
      map_option (\<lambda>a. if truthy (j_versionId stuck_row) then a_status a else mirrored (sp_status running_report) (a_status a))
        (asset_find aid stuck_database) \<and>
    (case (asset_find aid stuck_database, asset_find aid db') of
       (Some a, Some a') \<Rightarrow> a_expiresAt a \<le> a_expiresAt a' \<and>
         (a_expiresAt a \<le> 0 \<or> sp_status running_report = JobFailed \<or> 1000 + 60 * 1000 \<le> a_expiresAt a')
     | (None, None) \<Rightarrow> True
     | _ \<Rightarrow> False)"
  by (rule status_report_recorded[OF stuck_database_row])

end
