(* ===== verification/Asset_Uploads.thy ===== *)
theory Asset_Uploads
  imports Extraction_Jobs Site_Middleware
begin

text \<open>
  How assets and versions come to be and go (\<open>core/asset/usecase/\<close>): direct uploads, presigned
  upload sessions (kept in the key-value store, \<open>core/kv/stores.ts\<close>), deletions, and the
  changes of a PATCH. The environment \<open>asset_env\<close> holds what the code gets injected; the
  state \<open>asset_state\<close> the tables, the objects, the cache, the sessions and the two queues. The
  one batch of database statements a call writes has a fate: committed, rejected as a whole, or
  committed with the answer lost. Presigned URLs, \<open>isCompressiblePath\<close> and fresh identifiers
  are arguments.
\<close>

section \<open>Storage keys\<close>

definition versionFilesPrefix :: "string \<Rightarrow> string \<Rightarrow> string" where
  "versionFilesPrefix assetId versionId = ''assets/'' @ assetId @ ''/v/'' @ versionId @ ''/files/''"

definition versionArchivePrefix :: "string \<Rightarrow> string \<Rightarrow> string" where
  "versionArchivePrefix assetId versionId = ''assets/'' @ assetId @ ''/v/'' @ versionId @ ''/_archive/''"

definition versionThumbsPrefix :: "string \<Rightarrow> string \<Rightarrow> string" where
  "versionThumbsPrefix assetId versionId = ''assets/'' @ assetId @ ''/v/'' @ versionId @ ''/_thumbs/''"

definition legacyThumbsPrefix :: "string \<Rightarrow> string" where
  "legacyThumbsPrefix assetId = ''assets/'' @ assetId @ ''/_thumbs/''"

section \<open>The environment and the state\<close>

record thumbnail_message =
  tm_assetId :: string
  tm_versionId :: "string option"
  tm_sourceKey :: string
  tm_contentType :: string
  tm_size :: int

record presigned_port =
  ps_putUrl :: "string \<Rightarrow> string \<Rightarrow> int \<Rightarrow> string option \<Rightarrow> string"
    \<comment> \<open>key, content type, expiry in seconds, content encoding\<close>
  ps_createMultipart :: "string \<Rightarrow> string \<Rightarrow> string option \<Rightarrow> string"
  ps_partUrl :: "string \<Rightarrow> string \<Rightarrow> int \<Rightarrow> int \<Rightarrow> string"

datatype commit_fate = Committed | Rejected string | Unreported string

type_synonym ('q, 'm) outlet = "(('q, 'm) queue_port \<times> ('m \<Rightarrow> bool)) option"
  \<comment> \<open>a queue, and whether it takes a message or its \<open>send\<close> throws\<close>

record ('s, 'k, 'u, 'q, 't) asset_env =
  ae_storage :: "'s file_storage"
  ae_cache :: "('k, blob) kv_port option"
  ae_sessions :: "('u, blob) kv_port"
  ae_extraction :: "('q, extraction_message) outlet"
  ae_thumbnails :: "('t, thumbnail_message) outlet"
  ae_presigned :: "presigned_port option"
  ae_completeMultipart :: "string \<Rightarrow> string \<Rightarrow> upload_part list \<Rightarrow> 's \<Rightarrow> 's"
    \<comment> \<open>what completing a multipart upload does to the objects\<close>
  ae_compressible :: "string \<Rightarrow> bool"
  ae_platform :: platform
  ae_now :: int
  ae_freshId :: string
  ae_freshJobId :: string
  ae_fate :: commit_fate
  ae_deletes :: bool
    \<comment> \<open>does a deletion that makes up for a failed write go through\<close>
  ae_ttlSeconds :: int
  ae_baseUrl :: string
  ae_protocol :: "string option"
  ae_siteHostSuffix :: "string option"
  ae_signingSecret :: "string option"
  ae_anonymousUploads :: bool

record ('s, 'k, 'u, 'q, 't) asset_state =
  as_db :: database
  as_objects :: 's
  as_cache :: 'k
  as_sessions :: 'u
  as_extraction :: 'q
  as_thumbnails :: 't

definition try_send :: "('q, 'm) outlet \<Rightarrow> int \<Rightarrow> 'm \<Rightarrow> 'q \<Rightarrow> 'q" where
  \<comment> \<open>a failure to enqueue is logged and swallowed\<close>
  "try_send outlet now m q =
     (case outlet of None \<Rightarrow> q | Some (port, accepts) \<Rightarrow> if accepts m then qp_send port now m 0 q else q)"

definition SUPPORTED_SOURCE_CONTENT_TYPES :: "string list" where
  "SUPPORTED_SOURCE_CONTENT_TYPES = [''image/jpeg'', ''image/png'', ''image/webp'', ''image/gif'']"

definition isThumbnailableContentType :: "string \<Rightarrow> bool" where
  "isThumbnailableContentType contentType \<longleftrightarrow>
     contentType \<noteq> [] \<and>
     js_lower (js_trim (takeWhile (\<lambda>c. c \<noteq> CHR '';'') contentType)) \<in> set SUPPORTED_SOURCE_CONTENT_TYPES"

definition enqueueThumbnail :: "('t, thumbnail_message) outlet \<Rightarrow> int \<Rightarrow> thumbnail_message \<Rightarrow> 't \<Rightarrow> 't" where
  "enqueueThumbnail queue now msg t =
     (if isThumbnailableContentType (tm_contentType msg) then try_send queue now msg t else t)"

definition MIN_SIZE :: int where "MIN_SIZE = 1024"

definition shouldCompress :: "(string \<Rightarrow> bool) \<Rightarrow> string \<Rightarrow> int \<Rightarrow> bool" where
  "shouldCompress isCompressiblePath filename size' = (if size' < MIN_SIZE then False else isCompressiblePath filename)"

section \<open>Direct uploads\<close>

record upload_file =
  uf_name :: string
  uf_type :: string
  uf_body :: upload_body
  uf_size :: int
  uf_contentEncoding :: "string option"
  uf_originalSize :: "int option"
    \<comment> \<open>\<open>None\<close> also for \<open>NaN\<close>\<close>

record upload_options =
  uo_sessionId :: "string option"
  uo_projectId :: "string option"
  uo_skipExtraction :: bool
  uo_usageScopes :: "string list"

record upload_result =
  ur_asset :: asset
  ur_url :: string
  ur_siteUrl :: "string option"

definition truthy_int :: "int option \<Rightarrow> int option" where
  "truthy_int n = (if n = Some 0 then None else n)"

definition truthy_or_none :: "string option \<Rightarrow> string option" where
  "truthy_or_none s = (if truthy s then s else None)"

definition content_type_or_default :: "string \<Rightarrow> string" where
  "content_type_or_default t = (if t = [] then ''application/octet-stream'' else t)"

definition file_url :: "string \<Rightarrow> string \<Rightarrow> string \<Rightarrow> string" where
  "file_url baseUrl id' filename = baseUrl @ ''/files/'' @ id' @ ''/'' @ encodeURIComponent filename"

definition pending_extraction_job ::
  "string \<Rightarrow> string \<Rightarrow> string option \<Rightarrow> int \<Rightarrow> string option \<Rightarrow> string option \<Rightarrow> job" where
  \<comment> \<open>id, asset, version, time, session, project\<close>
  "pending_extraction_job id' assetId versionId now sessionId projectId =
     \<lparr>j_id = id', j_assetId = assetId, j_status = JobPending, j_createdAt = now, j_updatedAt = now,
      j_completedAt = None, j_startedAt = None, j_error = None, j_totalFiles = None, j_fileCount = None,
      j_extractedSize = None, j_retryCount = None, j_retryFileCount = None, j_retryExtractedSize = None,
      j_sessionId = truthy_or_none sessionId, j_projectId = truthy_or_none projectId, j_versionId = versionId\<rparr>"

definition uploaded_asset :: "int \<Rightarrow> int \<Rightarrow> string \<Rightarrow> upload_file \<Rightarrow> upload_options \<Rightarrow> asset" where
  "uploaded_asset now ttl id' file opts =
     (let fmt = detectArchiveFormat (uf_name file)
      in \<lparr>a_id = id', a_filename = uf_name file, a_contentType = content_type_or_default (uf_type file),
          a_size = uf_size file, a_createdAt = now,
          a_expiresAt = (if truthy (uo_projectId opts) then 0 else now + ttl * 1000),
          a_contentEncoding = truthy_or_none (uf_contentEncoding file),
          a_originalSize = (if truthy (uf_contentEncoding file) then truthy_int (uf_originalSize file) else None),
          a_type = map_option (\<lambda>_. TypeArchive) fmt,
          a_status = (if fmt \<noteq> None \<and> \<not> uo_skipExtraction opts then Some AssetPending else None),
          a_archiveFormat = fmt, a_fileCount = None, a_extractedSize = None,
          a_jobId = (if fmt \<noteq> None \<and> \<not> uo_skipExtraction opts then Some id' else None),
          a_sessionId = truthy_or_none (uo_sessionId opts), a_projectId = truthy_or_none (uo_projectId opts),
          a_activeVersionId = None, a_description = None, a_userMeta = None, a_access = None, a_spa = None,
          a_hosting = None\<rparr>)"

definition asset_message :: "string \<Rightarrow> string \<Rightarrow> archive_format \<Rightarrow> extraction_message" where
  "asset_message id' filename fmt = \<lparr>em_jobId = id', em_assetId = id', em_versionId = None,
     em_archiveKey = storageKey id' filename, em_archiveFilename = filename, em_archiveFormat = fmt\<rparr>"

definition after_create ::
  "('s, 'k, 'u, 'q, 't) asset_env \<Rightarrow> extraction_message option \<Rightarrow> thumbnail_message
   \<Rightarrow> ('s, 'k, 'u, 'q, 't) asset_state \<Rightarrow> ('s, 'k, 'u, 'q, 't) asset_state" where
  \<comment> \<open>what is enqueued once the rows are committed\<close>
  "after_create env job_message thumb st =
     st\<lparr>as_extraction := (case job_message of None \<Rightarrow> as_extraction st
           | Some m \<Rightarrow> try_send (ae_extraction env) (ae_now env) m (as_extraction st)),
        as_thumbnails := enqueueThumbnail (ae_thumbnails env) (ae_now env) thumb (as_thumbnails st)\<rparr>"

definition compensated ::
  "('s, 'k, 'u, 'q, 't) asset_env \<Rightarrow> string \<Rightarrow> ('s, 'k, 'u, 'q, 't) asset_state \<Rightarrow> ('s, 'k, 'u, 'q, 't) asset_state" where
  "compensated env key st =
     (if ae_deletes env then st\<lparr>as_objects := fs_delete (ae_storage env) key (as_objects st)\<rparr> else st)"

definition uploadAsset ::
  "('s, 'k, 'u, 'q, 't) asset_env \<Rightarrow> upload_file \<Rightarrow> upload_options \<Rightarrow> ('s, 'k, 'u, 'q, 't) asset_state
   \<Rightarrow> (string + upload_result) \<times> ('s, 'k, 'u, 'q, 't) asset_state" where
  "uploadAsset env file opts st =
     (let id' = ae_freshId env;
          key = storageKey id' (uf_name file);
          contentType = content_type_or_default (uf_type file)
      in case fs_put (ae_storage env) key (uf_body file) contentType (uf_size file)
                (truthy_or_none (uf_contentEncoding file)) (as_objects st) of
           (Inl e, objs) \<Rightarrow> (Inl e, st\<lparr>as_objects := objs\<rparr>)
         | (Inr _, objs) \<Rightarrow>
             (let asset = uploaded_asset (ae_now env) (ae_ttlSeconds env) id' file opts;
                  fmt = detectArchiveFormat (uf_name file);
                  extracts = (fmt \<noteq> None \<and> \<not> uo_skipExtraction opts);
                  job = (if extracts then Some (pending_extraction_job id' id' None (ae_now env) (uo_sessionId opts) (uo_projectId opts)) else None);
                  st1 = st\<lparr>as_objects := objs\<rparr>;
                  written = st1\<lparr>as_db := createAsset (ae_now env) asset job (uo_usageScopes opts) (as_db st)\<rparr>
              in case ae_fate env of
                   Rejected e \<Rightarrow> (Inl e, compensated env key st1)
                 | Unreported e \<Rightarrow> (Inl e, compensated env key written)
                 | Committed \<Rightarrow>
                     (Inr \<lparr>ur_asset = asset, ur_url = file_url (ae_baseUrl env) id' (uf_name file),
                           ur_siteUrl = siteUrlFor (ae_protocol env) (ae_siteHostSuffix env) (fmt \<noteq> None) id'\<rparr>,
                      after_create env (if extracts then Some (asset_message id' (uf_name file) (the fmt)) else None)
                        \<lparr>tm_assetId = id', tm_versionId = None, tm_sourceKey = key, tm_contentType = contentType, tm_size = uf_size file\<rparr>
                        written)))"

section \<open>New versions\<close>

record version_result =
  vr_version :: version
  vr_url :: string
  vr_siteUrl :: "string option"

definition uploaded_version :: "int \<Rightarrow> string \<Rightarrow> string \<Rightarrow> string \<Rightarrow> upload_file \<Rightarrow> bool \<Rightarrow> version" where
  \<comment> \<open>time, asset, version id, job id; the number is assigned by the store\<close>
  "uploaded_version now assetId versionId jobId file skipExtraction =
     (let fmt = detectArchiveFormat (uf_name file); extracts = (fmt \<noteq> None \<and> \<not> skipExtraction)
      in \<lparr>v_id = versionId, v_assetId = assetId, v_version = 0, v_filename = uf_name file,
          v_contentType = content_type_or_default (uf_type file), v_size = uf_size file, v_createdAt = now,
          v_contentEncoding = truthy_or_none (uf_contentEncoding file),
          v_originalSize = (if truthy (uf_contentEncoding file) then truthy_int (uf_originalSize file) else None),
          v_type = map_option (\<lambda>_. TypeArchive) fmt,
          v_status = (if extracts then Some AssetPending else None), v_archiveFormat = fmt, v_fileCount = None,
          v_extractedSize = None, v_jobId = (if extracts then Some jobId else None), v_userMeta = None, v_hosting = None\<rparr>)"

definition uploadVersion ::
  "('s, 'k, 'u, 'q, 't) asset_env \<Rightarrow> string \<Rightarrow> upload_file \<Rightarrow> bool \<Rightarrow> string list \<Rightarrow> ('s, 'k, 'u, 'q, 't) asset_state
   \<Rightarrow> (string + version_result option) \<times> ('s, 'k, 'u, 'q, 't) asset_state" where
  \<comment> \<open>asset id, file, \<open>skipExtraction\<close>, \<open>usageScopes\<close>; \<open>Inr None\<close> is the \<open>null\<close> of an unknown asset\<close>
  "uploadVersion env assetId file skipExtraction usageScopes st =
     (case asset_find assetId (as_db st) of
        None \<Rightarrow> (Inr None, st)
      | Some asset \<Rightarrow>
          (let versionId = ae_freshId env;
               contentType = content_type_or_default (uf_type file);
               key = versionStorageKey assetId versionId (uf_name file)
           in case fs_put (ae_storage env) key (uf_body file) contentType (uf_size file)
                     (truthy_or_none (uf_contentEncoding file)) (as_objects st) of
                (Inl e, objs) \<Rightarrow> (Inl e, st\<lparr>as_objects := objs\<rparr>)
              | (Inr _, objs) \<Rightarrow>
                  (let fmt = detectArchiveFormat (uf_name file);
                       extracts = (fmt \<noteq> None \<and> \<not> skipExtraction);
                       v = uploaded_version (ae_now env) assetId versionId (ae_freshJobId env) file skipExtraction;
                       job = (if extracts then Some (pending_extraction_job (ae_freshJobId env) assetId (Some versionId)
                                 (ae_now env) (a_sessionId asset) (a_projectId asset)) else None);
                       scopes = (if truthy (a_projectId asset) then usageScopes else []);
                       st1 = st\<lparr>as_objects := objs\<rparr>
                   in case createVersion (ae_now env) v job scopes (as_db st) of
                        None \<Rightarrow> (Inl ''UNIQUE constraint failed'', compensated env key st1)
                      | Some (saved, db') \<Rightarrow>
                          (case ae_fate env of
                             Rejected e \<Rightarrow> (Inl e, compensated env key st1)
                           | Unreported e \<Rightarrow> (Inl e, compensated env key (st1\<lparr>as_db := db'\<rparr>))
                           | Committed \<Rightarrow>
                               (Inr (Some \<lparr>vr_version = saved, vr_url = file_url (ae_baseUrl env) assetId (uf_name file),
                                  vr_siteUrl = siteUrlFor (ae_protocol env) (ae_siteHostSuffix env) (fmt \<noteq> None) assetId\<rparr>),
                                after_create env
                                  (if extracts then Some \<lparr>em_jobId = ae_freshJobId env, em_assetId = assetId,
                                     em_versionId = Some versionId, em_archiveKey = key, em_archiveFilename = uf_name file,
                                     em_archiveFormat = the fmt\<rparr> else None)
                                  \<lparr>tm_assetId = assetId, tm_versionId = Some versionId, tm_sourceKey = key,
                                   tm_contentType = contentType, tm_size = uf_size file\<rparr>
                                  (st1\<lparr>as_db := db'\<rparr>))))))"

section \<open>Upload sessions\<close>

definition json_opt :: "string \<Rightarrow> ('a \<Rightarrow> json) \<Rightarrow> 'a option \<Rightarrow> (string \<times> json) list" where
  \<comment> \<open>\<open>JSON.stringify\<close> leaves an absent field out\<close>
  "json_opt name f v = (case v of None \<Rightarrow> [] | Some x \<Rightarrow> [(name, f x)])"

definition encode_session :: "upload_session \<Rightarrow> blob" where
  "encode_session s = Blob (JObj ([(''id'', JStr (us_id s)), (''filename'', JStr (us_filename s)),
     (''contentType'', JStr (us_contentType s)), (''size'', JNum (us_size s)), (''createdAt'', JNum (us_createdAt s)),
     (''expiresAt'', JNum (us_expiresAt s))] @
     json_opt ''s3UploadId'' JStr (us_s3UploadId s) @ json_opt ''partCount'' JNum (us_partCount s) @
     json_opt ''contentEncoding'' JStr (us_contentEncoding s) @ json_opt ''sessionId'' JStr (us_sessionId s) @
     json_opt ''projectId'' JStr (us_projectId s) @ json_opt ''skipExtraction'' JBool (us_skipExtraction s)))"

definition str_field :: "json \<Rightarrow> string \<Rightarrow> string option" where
  "str_field j name = (case json_field j name of Some (JStr s) \<Rightarrow> Some s | _ \<Rightarrow> None)"

definition num_field :: "json \<Rightarrow> string \<Rightarrow> int option" where
  "num_field j name = (case json_field j name of Some (JNum n) \<Rightarrow> Some n | _ \<Rightarrow> None)"

definition bool_field :: "json \<Rightarrow> string \<Rightarrow> bool option" where
  "bool_field j name = (case json_field j name of Some (JBool b) \<Rightarrow> Some b | _ \<Rightarrow> None)"

definition decode_session :: "json \<Rightarrow> upload_session" where
  "decode_session j = (let str = (\<lambda>n. case str_field j n of None \<Rightarrow> [] | Some s \<Rightarrow> s);
       num = (\<lambda>n. case num_field j n of None \<Rightarrow> 0 | Some i \<Rightarrow> i)
     in \<lparr>us_id = str ''id'', us_filename = str ''filename'', us_contentType = str ''contentType'', us_size = num ''size'',
         us_createdAt = num ''createdAt'', us_expiresAt = num ''expiresAt'', us_s3UploadId = str_field j ''s3UploadId'',
         us_partCount = num_field j ''partCount'', us_contentEncoding = str_field j ''contentEncoding'',
         us_sessionId = str_field j ''sessionId'', us_projectId = str_field j ''projectId'',
         us_skipExtraction = bool_field j ''skipExtraction''\<rparr>)"

definition upload_session_key :: "string \<Rightarrow> string" where
  "upload_session_key id' = ''upload:'' @ id'"

definition session_save :: "('u, blob) kv_port \<Rightarrow> int \<Rightarrow> upload_session \<Rightarrow> int \<Rightarrow> 'u \<Rightarrow> 'u" where
  "session_save kv now session ttlSeconds u =
     kv_put kv now (upload_session_key (us_id session)) (encode_session session) (Some ttlSeconds) u"

definition session_find :: "('u, blob) kv_port \<Rightarrow> int \<Rightarrow> string \<Rightarrow> 'u \<Rightarrow> upload_session option \<times> 'u" where
  \<comment> \<open>the store writes only what parses; a text that does not would throw\<close>
  "session_find kv now id' u =
     (case kv_get kv now (upload_session_key id') u of
        (Some (Blob j), u') \<Rightarrow> ((if j = JNull then None else Some (decode_session j)), u')
      | (_, u') \<Rightarrow> (None, u'))"

definition session_delete :: "('u, blob) kv_port \<Rightarrow> string \<Rightarrow> 'u \<Rightarrow> 'u" where
  "session_delete kv id' u = kv_delete kv (upload_session_key id') u"

definition MIN_UPLOAD_EXPIRY_SECONDS :: int where "MIN_UPLOAD_EXPIRY_SECONDS = 3600"
definition MAX_UPLOAD_EXPIRY_SECONDS :: int where "MAX_UPLOAD_EXPIRY_SECONDS = 24 * 3600"
definition ASSUMED_UPLOAD_BYTES_PER_SECOND :: int where "ASSUMED_UPLOAD_BYTES_PER_SECOND = 2 * 1024 * 1024"

definition uploadExpirySeconds :: "int \<Rightarrow> int" where
  \<comment> \<open>\<open>Math.ceil(a / b)\<close> is \<open>- (- a div b)\<close>\<close>
  "uploadExpirySeconds size' =
     min MAX_UPLOAD_EXPIRY_SECONDS (max MIN_UPLOAD_EXPIRY_SECONDS (- (- size' div ASSUMED_UPLOAD_BYTES_PER_SECOND)))"

record session_request =
  sq_filename :: string
  sq_contentType :: string
  sq_size :: int
  sq_partCount :: "int option"

datatype session_reply =
    SinglePut string string "(string \<times> string) list" "string option" int
      \<comment> \<open>upload id, url, headers, content encoding, expiry\<close>
  | Multipart string "(int \<times> string) list" "string option" int

definition createUploadSession ::
  "('s, 'k, 'u, 'q, 't) asset_env \<Rightarrow> presigned_port \<Rightarrow> session_request \<Rightarrow> string option \<Rightarrow> string option \<Rightarrow> bool
   \<Rightarrow> ('s, 'k, 'u, 'q, 't) asset_state \<Rightarrow> session_reply \<times> ('s, 'k, 'u, 'q, 't) asset_state" where
  \<comment> \<open>\<open>sessionId\<close>, \<open>projectId\<close>, \<open>skipExtraction\<close>\<close>
  "createUploadSession env ps params sessionId projectId skipExtraction st =
     (let id' = ae_freshId env; now = ae_now env;
          expiry = uploadExpirySeconds (sq_size params);
          contentType = content_type_or_default (sq_contentType params);
          key = storageKey id' (sq_filename params);
          compress = shouldCompress (ae_compressible env) (sq_filename params) (sq_size params);
          encoding = (if compress then Some ''gzip'' else None);
          session = \<lparr>us_id = id', us_filename = sq_filename params, us_contentType = contentType, us_size = sq_size params,
            us_createdAt = now, us_expiresAt = now + expiry * 1000, us_s3UploadId = None, us_partCount = None,
            us_contentEncoding = encoding, us_sessionId = truthy_or_none sessionId,
            us_projectId = truthy_or_none projectId, us_skipExtraction = None\<rparr>;
          saved = (\<lambda>s. st\<lparr>as_sessions := session_save (ae_sessions env) now s expiry (as_sessions st)\<rparr>)
      in case sq_partCount params of
           Some n \<Rightarrow>
             if n > 1
             then (let upload = ps_createMultipart ps key contentType encoding
                   in (Multipart id' (map (\<lambda>i. (i + 1, ps_partUrl ps key upload (i + 1) expiry)) (map int [0..<nat n])) encoding (now + expiry * 1000),
                       saved (session\<lparr>us_s3UploadId := Some upload, us_partCount := Some n,
                         us_skipExtraction := (if skipExtraction then Some True else None)\<rparr>)))
             else (SinglePut id' (ps_putUrl ps key contentType expiry encoding)
                     ((''Content-Type'', contentType) # (if compress then [(''Content-Encoding'', ''gzip'')] else []))
                     encoding (now + expiry * 1000), saved session)
         | None \<Rightarrow> (SinglePut id' (ps_putUrl ps key contentType expiry encoding)
                     ((''Content-Type'', contentType) # (if compress then [(''Content-Encoding'', ''gzip'')] else []))
                     encoding (now + expiry * 1000), saved session))"

definition completed_asset :: "string \<Rightarrow> int \<Rightarrow> int \<Rightarrow> upload_session \<Rightarrow> object_head \<Rightarrow> string option \<Rightarrow> string option \<Rightarrow> asset" where
  \<comment> \<open>the caller's \<open>sessionId\<close> and the project the session is bound to\<close>
  "completed_asset id' now ttl session head sessionId projectId =
     (let fmt = detectArchiveFormat (us_filename session);
          extracts = (fmt \<noteq> None \<and> us_skipExtraction session \<noteq> Some True)
      in \<lparr>a_id = id', a_filename = us_filename session, a_contentType = us_contentType session,
          a_size = oh_size head, a_createdAt = us_createdAt session,
          a_expiresAt = (if truthy projectId then 0 else now + ttl * 1000),
          a_contentEncoding = truthy_or_none (oh_contentEncoding head),
          a_originalSize = (if truthy (oh_contentEncoding head) then truthy_int (Some (us_size session)) else None),
          a_type = map_option (\<lambda>_. TypeArchive) fmt, a_status = (if extracts then Some AssetPending else None),
          a_archiveFormat = fmt, a_fileCount = None, a_extractedSize = None,
          a_jobId = (if extracts then Some id' else None),
          a_sessionId = truthy_or_none sessionId, a_projectId = truthy_or_none projectId, a_activeVersionId = None,
          a_description = None, a_userMeta = None, a_access = None, a_spa = None, a_hosting = None\<rparr>)"

definition uploaded_head ::
  "('s, 'k, 'u, 'q, 't) asset_env \<Rightarrow> string \<Rightarrow> upload_session \<Rightarrow> upload_part list option \<Rightarrow> 's \<Rightarrow> object_head option \<times> 's" where
  \<comment> \<open>the object's head, after completing a multipart upload that is not complete yet\<close>
  "uploaded_head env key session parts objs =
     (case fs_head (ae_storage env) key objs of
        Some head \<Rightarrow> (Some head, objs)
      | None \<Rightarrow>
          if \<not> truthy (us_s3UploadId session) then (None, objs)
          else (case parts of
                  None \<Rightarrow> (None, objs)
                | Some ps \<Rightarrow>
                    if ps = [] \<or> ae_presigned env = None then (None, objs)
                    else let objs' = ae_completeMultipart env key (the (us_s3UploadId session)) ps objs
                         in (fs_head (ae_storage env) key objs', objs')))"

definition completeUploadSession ::
  "('s, 'k, 'u, 'q, 't) asset_env \<Rightarrow> string \<Rightarrow> upload_part list option \<Rightarrow> upload_options \<Rightarrow> ('s, 'k, 'u, 'q, 't) asset_state
   \<Rightarrow> (string + upload_result option) \<times> ('s, 'k, 'u, 'q, 't) asset_state" where
  \<comment> \<open>\<open>Inr None\<close> is \<open>null\<close>, \<open>Inl\<close> a failed write; \<open>options.skipExtraction\<close> is not read\<close>
  "completeUploadSession env id' parts opts st =
     (case session_find (ae_sessions env) (ae_now env) id' (as_sessions st) of
        (None, u) \<Rightarrow> (Inr None, st\<lparr>as_sessions := u\<rparr>)
      | (Some session, u) \<Rightarrow>
          (let st0 = st\<lparr>as_sessions := u\<rparr>; key = storageKey id' (us_filename session);
               fmt = detectArchiveFormat (us_filename session);
               result = (\<lambda>a. Inr (Some \<lparr>ur_asset = a, ur_url = file_url (ae_baseUrl env) id' (us_filename session),
                  ur_siteUrl = siteUrlFor (ae_protocol env) (ae_siteHostSuffix env) (fmt \<noteq> None) id'\<rparr>));
               ended = (\<lambda>s. s\<lparr>as_sessions := session_delete (ae_sessions env) id' (as_sessions s)\<rparr>)
           in if truthy (us_sessionId session) \<and> truthy (uo_sessionId opts) \<and> us_sessionId session \<noteq> uo_sessionId opts
              then (Inr None, st0)
              else (case asset_find id' (as_db st) of
                      Some existing \<Rightarrow> (result existing, ended st0)
                    | None \<Rightarrow>
                        (case uploaded_head env key session parts (as_objects st) of
                           (None, objs) \<Rightarrow> (Inr None, st0\<lparr>as_objects := objs\<rparr>)
                         | (Some head, objs) \<Rightarrow>
                             (let projectId = (case us_projectId session of Some p \<Rightarrow> Some p | None \<Rightarrow> uo_projectId opts);
                                  asset = completed_asset id' (ae_now env) (ae_ttlSeconds env) session head (uo_sessionId opts) projectId;
                                  extracts = (a_status asset \<noteq> None);
                                  job = (if extracts then Some (pending_extraction_job id' id' None (ae_now env) (uo_sessionId opts) projectId) else None);
                                  st1 = st0\<lparr>as_objects := objs\<rparr>;
                                  written = st1\<lparr>as_db := createAsset (ae_now env) asset job
                                     (if truthy projectId then uo_usageScopes opts else []) (as_db st)\<rparr>
                              in case ae_fate env of
                                   Rejected e \<Rightarrow> (Inl e, st1)
                                 | Unreported e \<Rightarrow> (Inl e, written)
                                 | Committed \<Rightarrow>
                                     (result asset,
                                      ended (after_create env (if extracts then Some (asset_message id' (us_filename session) (the fmt)) else None)
                                        \<lparr>tm_assetId = id', tm_versionId = None, tm_sourceKey = key,
                                         tm_contentType = a_contentType asset, tm_size = a_size asset\<rparr> written)))))))"

section \<open>Deleting\<close>

definition INLINE_DELETE_BUDGET :: int where "INLINE_DELETE_BUDGET = 50"

definition inline_budget :: budget where
  "inline_budget = \<lparr>bg_cap = INLINE_DELETE_BUDGET, bg_used = 0\<rparr>"

definition deleteAssetWithFiles ::
  "('s, 'k, 'u, 'q, 't) asset_env \<Rightarrow> asset \<Rightarrow> string list \<Rightarrow> ('s, 'k, 'u, 'q, 't) asset_state
   \<Rightarrow> ('s, 'k, 'u, 'q, 't) asset_state" where
  \<comment> \<open>\<open>deleteAsset\<close> of \<open>usecase/delete.ts\<close>, with site hosts and the cleanup queue given\<close>
  "deleteAssetWithFiles env asset usageScopes st =
     (case releaseAssetSiteHosts (ae_cache env) (a_id asset) (ae_now env) (as_db st, as_cache st) of
        (_, db1, cache) \<Rightarrow>
          (let prefix' = asset_prefix (a_id asset);
               db2 = deleteAsset (ae_now env) asset usageScopes prefix' db1
           in case deleteAllR2Objects (ae_storage env) prefix' inline_budget (as_objects st) of
                (done', _, objs) \<Rightarrow>
                  st\<lparr>as_db := (if done' then cleanup_remove prefix' db2 else db2), as_cache := cache, as_objects := objs\<rparr>))"

definition version_prefix :: "string \<Rightarrow> string \<Rightarrow> string" where
  "version_prefix assetId versionId = ''assets/'' @ assetId @ ''/v/'' @ versionId @ ''/''"

definition deactivate :: "string \<Rightarrow> string \<Rightarrow> database \<Rightarrow> database" where
  \<comment> \<open>an active version that is deleted makes room for the latest\<close>
  "deactivate assetId versionId db =
     (if Option.bind (asset_find assetId db) a_activeVersionId = Some versionId
      then asset_update assetId \<lparr>ap_activeVersionId = Some None, ap_expiresAt = None, ap_description = None,
             ap_userMeta = None, ap_spa = None\<rparr> db
      else db)"

definition deleteVersionWithFiles ::
  "('s, 'k, 'u, 'q, 't) asset_env \<Rightarrow> string \<Rightarrow> string \<Rightarrow> ('s, 'k, 'u, 'q, 't) asset_state
   \<Rightarrow> version option \<times> ('s, 'k, 'u, 'q, 't) asset_state" where
  "deleteVersionWithFiles env assetId versionId st =
     (case version_find versionId (as_db st) of
        None \<Rightarrow> (None, st)
      | Some v \<Rightarrow>
          if v_assetId v \<noteq> assetId then (None, st)
          else (let db1 = deactivate assetId versionId (version_delete versionId (as_db st));
                    prefix' = version_prefix assetId versionId
                in case deleteAllR2Objects (ae_storage env) prefix' inline_budget (as_objects st) of
                     (done', _, objs) \<Rightarrow>
                       (Some v, st\<lparr>as_db := (if done' then db1 else cleanup_add (ae_now env) prefix' db1), as_objects := objs\<rparr>)))"

section \<open>Changes to an asset\<close>

datatype access_change = ToPublic | ToPassword "string option"

definition setAssetAccess ::
  "platform \<Rightarrow> string \<Rightarrow> string option \<Rightarrow> asset \<Rightarrow> access_change \<Rightarrow> database \<Rightarrow> (nat \<times> string) option \<times> database" where
  \<comment> \<open>the salt and the signing secret; the result is an error, or \<open>None\<close> for \<open>ok\<close>\<close>
  "setAssetAccess pf salt signingSecret asset input db =
     (if \<not> truthy (a_projectId asset) then (Some (400, ''protection requires a project asset''), db)
      else case input of
             ToPublic \<Rightarrow> (None, asset_setProtection (a_id asset) MakePublic db)
           | ToPassword password \<Rightarrow>
               if a_type asset \<noteq> Some TypeArchive
               then (Some (400, ''protection is available for site (archive) assets only''), db)
               else if \<not> truthy signingSecret then (Some (503, ''SIGNING_SECRET not configured''), db)
               else if \<not> truthy password then (Some (400, ''access '' @ [CHR 0x22] @ ''password'' @ [CHR 0x22] @ '' requires a password''), db)
               else (let hashed = hashPassword pf (the password) salt DEFAULT_ITERATIONS
                     in (None, asset_setProtection (a_id asset) (MakePassword (ph_hash hashed) (ph_salt hashed)) db)))"

definition checkSpaChange :: "asset \<Rightarrow> bool \<Rightarrow> (nat \<times> string) option" where
  "checkSpaChange asset spa =
     (if \<not> spa then None
      else if \<not> truthy (a_projectId asset) then Some (400, ''SPA fallback requires a project asset'')
      else if a_type asset \<noteq> Some TypeArchive then Some (400, ''SPA fallback is available for site (archive) assets only'')
      else None)"

definition updateAsset :: "string \<Rightarrow> asset_patch \<Rightarrow> database \<Rightarrow> asset option \<times> database" where
  "updateAsset id' patch db =
     (case asset_find id' db of
        None \<Rightarrow> (None, db)
      | Some _ \<Rightarrow>
          if (case ap_activeVersionId patch of
                Some (Some v) \<Rightarrow> map_option v_assetId (version_find v db) \<noteq> Some id'
              | _ \<Rightarrow> False)
          then (None, db)
          else (let db' = asset_update id' patch db in (asset_find id' db', db')))"

definition updateVersion :: "string \<Rightarrow> string \<Rightarrow> version_patch \<Rightarrow> database \<Rightarrow> version option \<times> database" where
  "updateVersion assetId versionId patch db =
     (case version_find versionId db of
        None \<Rightarrow> (None, db)
      | Some v \<Rightarrow>
          if v_assetId v \<noteq> assetId then (None, db)
          else (let db' = version_update versionId patch db in (version_find versionId db', db')))"

record asset_view =
  vw_asset :: asset
  vw_currentVersion :: "version option"
  vw_versionCount :: nat

definition enrichAssetWithVersion :: "string \<Rightarrow> database \<Rightarrow> asset_view option" where
  "enrichAssetWithVersion id' db =
     map_option (\<lambda>asset.
       (let n = version_count id' db;
            active = (if truthy (a_activeVersionId asset) then version_find (the (a_activeVersionId asset)) db else None)
        in \<lparr>vw_asset = asset,
            vw_currentVersion = (if n = 0 then None
               else case active of None \<Rightarrow> version_findLatest id' db | Some v \<Rightarrow> Some v),
            vw_versionCount = n\<rparr>)) (asset_find id' db)"

definition getAssetFile :: "'s file_storage \<Rightarrow> string \<Rightarrow> (int \<times> int) option \<Rightarrow> database \<Rightarrow> 's \<Rightarrow> (asset \<times> stored_file) option" where
  "getAssetFile fs id' wanted db objs =
     (case asset_find id' db of
        None \<Rightarrow> None
      | Some asset \<Rightarrow> map_option (Pair asset) (fs_get fs (storageKey id' (a_filename asset)) wanted objs))"

end
