(* ===== verification/Upload_Properties.thy ===== *)
theory Upload_Properties
  imports Asset_Uploads
begin

text \<open>
  What the operations of \<open>Asset_Uploads\<close> guarantee: a failed upload leaves nothing behind, the
  message an upload enqueues is the one the scheduled recovery would send, completing an upload
  session is repeatable, and a deleted asset is gone.
\<close>

section \<open>An object that is put and taken back\<close>

lemma memory_put_fails: "mem_put md5 key body ct n enc s = (Inl e, s') \<Longrightarrow> s' = s"
  by (auto simp: mem_put_def mem_reserve_def mem_commit_def Let_def split: if_splits option.splits sum.splits)

lemma own_delete_last: "k \<notin> fst ` set d \<Longrightarrow> own_delete (d @ [(k, v)]) k = d"
  using own_delete_absent[of k d] by (simp add: own_delete_def)

lemma memory_put_stores:
  assumes "key \<notin> fst ` set (ms_objects s)" and "mem_put md5 key body ct n enc s = (Inr u, s')"
  shows "s' = s\<lparr>ms_usedBytes := ms_usedBytes s + n, ms_objects := ms_objects s @
      [(key, \<lparr>so_data = concat (ub_chunks body), so_contentType = ct, so_contentEncoding = enc,
        so_etag = [CHR 0x22] @ md5 (concat (ub_chunks body)) @ [CHR 0x22]\<rparr>)]\<rparr>"
    and "int (length (concat (ub_chunks body))) = n"
proof -
  have res: "mem_reserve n s = Some (s\<lparr>ms_usedBytes := ms_usedBytes s + n\<rparr>)"
    using assms(2) by (auto simp: mem_put_def mem_reserve_def split: if_splits)
  then obtain data where c: "collect body n = Inr data"
    using assms(2) by (auto simp: mem_put_def mem_commit_def split: sum.splits)
  note d = collect_Inr[OF c]
  show "int (length (concat (ub_chunks body))) = n" using d by fast
  have none: "map_of (ms_objects s) key = None" using assms(1) by (simp add: map_of_eq_None_iff)
  show "s' = s\<lparr>ms_usedBytes := ms_usedBytes s + n, ms_objects := ms_objects s @
      [(key, \<lparr>so_data = concat (ub_chunks body), so_contentType = ct, so_contentEncoding = enc,
        so_etag = [CHR 0x22] @ md5 (concat (ub_chunks body)) @ [CHR 0x22]\<rparr>)]\<rparr>"
    using assms(2) c d none
    by (simp add: mem_put_def res mem_commit_def Let_def mem_release_def own_set_absent[OF assms(1)])
qed

lemma memory_put_undone:
  assumes "key \<notin> fst ` set (ms_objects s)" and "mem_put md5 key body ct n enc s = (Inr u, s')"
  shows "mem_release key s' = s"
proof -
  have "map_of (ms_objects s) key = None" using assms(1) by (simp add: map_of_eq_None_iff)
  with memory_put_stores[OF assms] own_delete_last[OF assms(1)] show ?thesis
    by (simp add: mem_release_def map_add_def)
qed

lemma memory_get_stored:
  assumes "key \<notin> fst ` set (ms_objects s)" and "mem_put md5 key body ct n enc s = (Inr u, s')"
  shows "map_option (\<lambda>f. (concat (sf_body f), sf_contentType f, sf_contentEncoding f, sf_size f)) (mem_get key None s') =
    Some (concat (ub_chunks body), ct, enc, n)"
proof -
  have "map_of (ms_objects s) key = None" using assms(1) by (simp add: map_of_eq_None_iff)
  with memory_put_stores[OF assms] show ?thesis by (simp add: mem_get_def Let_def map_add_def)
qed

lemmas memory_port_simps [simp] = memory_storage_port_def[THEN arg_cong[where f = fs_put], simplified]
  memory_storage_port_def[THEN arg_cong[where f = fs_delete], simplified]
  memory_storage_port_def[THEN arg_cong[where f = fs_get], simplified]
  memory_storage_port_def[THEN arg_cong[where f = fs_head], simplified]

definition fate_known :: "commit_fate \<Rightarrow> bool" where
  "fate_known fate = (case fate of Unreported _ \<Rightarrow> False | _ \<Rightarrow> True)"

lemma fate_cases: "fate_known fate \<Longrightarrow> (fate = Committed \<Longrightarrow> P) \<Longrightarrow> (\<And>e. fate = Rejected e \<Longrightarrow> P) \<Longrightarrow> P"
  by (cases fate) (auto simp: fate_known_def)

lemma failed_asset_upload:
  assumes "ae_storage env = memory_storage_port md5" and "ae_deletes env" and "fate_known (ae_fate env)"
    and "storageKey (ae_freshId env) (uf_name file) \<notin> fst ` set (ms_objects (as_objects st))"
    and "uploadAsset env file opts st = (Inl e, st')"
  shows "st' = st"
proof -
  obtain r objs where put: "mem_put md5 (storageKey (ae_freshId env) (uf_name file)) (uf_body file)
      (content_type_or_default (uf_type file)) (uf_size file) (truthy_or_none (uf_contentEncoding file)) (as_objects st) = (r, objs)"
    by fastforce
  show ?thesis
  proof (cases r)
    case (Inl e')
    with memory_put_fails put have "objs = as_objects st" by blast
    with assms(1,5) put Inl show ?thesis by (simp add: uploadAsset_def Let_def)
  next
    case (Inr u)
    with memory_put_undone[OF assms(4)] put have "mem_release (storageKey (ae_freshId env) (uf_name file)) objs = as_objects st" by simp
    with assms(1,2,5) put Inr show ?thesis
      by (auto intro: fate_cases[OF assms(3)] simp: uploadAsset_def Let_def compensated_def)
  qed
qed

lemma failed_version_upload:
  assumes "ae_storage env = memory_storage_port md5" and "ae_deletes env" and "fate_known (ae_fate env)"
    and "versionStorageKey assetId (ae_freshId env) (uf_name file) \<notin> fst ` set (ms_objects (as_objects st))"
    and "uploadVersion env assetId file skip scopes st = (Inl e, st')"
  shows "st' = st"
proof -
  let ?key = "versionStorageKey assetId (ae_freshId env) (uf_name file)"
  obtain asset where a: "asset_find assetId (as_db st) = Some asset"
    using assms(5) by (cases "asset_find assetId (as_db st)") (simp_all add: uploadVersion_def)
  obtain r objs where put: "mem_put md5 ?key (uf_body file)
      (content_type_or_default (uf_type file)) (uf_size file) (truthy_or_none (uf_contentEncoding file)) (as_objects st) = (r, objs)"
    by fastforce
  show ?thesis
  proof (cases r)
    case (Inl e')
    with memory_put_fails put have "objs = as_objects st" by blast
    with assms(1,5) a put Inl show ?thesis by (simp add: uploadVersion_def Let_def)
  next
    case (Inr u)
    with memory_put_undone[OF assms(4)] put have "mem_release ?key objs = as_objects st" by simp
    with assms(1,2,5) a put Inr show ?thesis
      by (auto intro: fate_cases[OF assms(3)] simp: uploadVersion_def Let_def compensated_def split: option.splits)
  qed
qed


text \<open>
  The one case in which something is left: the batch committed but reported an error. The row then
  stands, and the object it names has been deleted.
\<close>

lemma unreported_upload_loses_the_object:
  assumes "ae_storage env = memory_storage_port md5" and "ae_deletes env" and "ae_fate env = Unreported e"
    and "storageKey (ae_freshId env) (uf_name file) \<notin> fst ` set (ms_objects (as_objects st))"
    and "mem_put md5 (storageKey (ae_freshId env) (uf_name file)) (uf_body file) (content_type_or_default (uf_type file))
      (uf_size file) (truthy_or_none (uf_contentEncoding file)) (as_objects st) = (Inr u, objs)"
    and "uploadAsset env file opts st = (r, st')"
  shows "r = Inl e \<and> asset_find (ae_freshId env) (as_db st') \<noteq> None
    \<and> getAssetFile (ae_storage env) (ae_freshId env) None (as_db st') (as_objects st') = None"
proof -
  let ?key = "storageKey (ae_freshId env) (uf_name file)"
  let ?a = "uploaded_asset (ae_now env) (ae_ttlSeconds env) (ae_freshId env) file opts"
  have undone: "mem_release ?key objs = as_objects st" by (rule memory_put_undone[OF assms(4,5)])
  have id: "a_id ?a = ae_freshId env" "a_filename ?a = uf_name file" by (simp_all add: uploaded_asset_def Let_def)
  obtain j where st': "r = Inl e" "as_objects st' = as_objects st"
      "as_db st' = createAsset (ae_now env) ?a j (uo_usageScopes opts) (as_db st)"
    using assms(1-3,5,6) undone by (auto simp: uploadAsset_def Let_def compensated_def)
  obtain b where b: "asset_find (ae_freshId env) (as_db st') = Some b" "a_filename b = uf_name file"
    using id st'(3) by (simp add: asset_find_row createAsset_def Let_def asset_row_of_save parseAssetRow_def assetUpsertArgs_def)
  have "map_of (ms_objects (as_objects st)) ?key = None" using assms(4) by (simp add: map_of_eq_None_iff)
  with b st' assms(1) show ?thesis by (simp add: getAssetFile_def mem_get_def)
qed

section \<open>The message of an upload\<close>

lemma usage_jobs [simp]: "db_jobs (usageStatements now ss n db) = db_jobs db"
proof -
  have "db_jobs (usage_increment now s n db) = db_jobs db" for s db by (simp add: usage_increment_def)
  then show ?thesis unfolding usageStatements_def by (induction ss arbitrary: db) simp_all
qed

lemma usage_finds [simp]:
  "job_find i (usageStatements now ss n db) = job_find i db"
  "asset_find i (usageStatements now ss n db) = asset_find i db"
  "version_find i (usageStatements now ss n db) = version_find i db"
  by (simp_all add: job_find_def asset_find_row version_find_def)

lemma save_job_finds [simp]:
  "job_find i (asset_save a db) = job_find i db" "version_find i (asset_save a db) = version_find i db"
  by (simp_all add: job_find_def version_find_def asset_save_def Let_def)

lemma created_rows:
  assumes "db' = createAsset now a job ss db"
  shows "job_find i db' = (case job of None \<Rightarrow> job_find i db | Some j \<Rightarrow> if i = j_id j then Some (jobUpsertArgs j) else job_find i db)"
    and "\<exists>b. asset_find (a_id a) db' = Some b \<and> a_filename b = a_filename a \<and> a_archiveFormat b = a_archiveFormat a
      \<and> a_size b = a_size a \<and> a_status b = a_status a \<and> a_projectId b = a_projectId a \<and> a_sessionId b = a_sessionId a"
  using assms
  by (simp_all add: createAsset_def Let_def asset_find_row asset_row_of_save parseAssetRow_def assetUpsertArgs_def
      split: option.split)

lemma created_version_rows:
  assumes "createVersion now v job ss db = Some (w, db')"
  shows "job_find i db' = (case job of None \<Rightarrow> job_find i db | Some j \<Rightarrow> if i = j_id j then Some (jobUpsertArgs j) else job_find i db)"
    and "\<exists>u. version_find (v_id v) db' = Some u \<and> v_id u = v_id v \<and> v_filename u = v_filename v \<and> v_archiveFormat u = v_archiveFormat v"
proof -
  define db1 where "db1 = (case job of None \<Rightarrow> db | Some j \<Rightarrow> job_save j db)"
  obtain db2 where s: "version_save v db1 = Some (w, db2)" and db': "db' = usageStatements now ss (v_size v) db2"
    using assms by (auto simp: createVersion_def db1_def Let_def split: option.splits)
  show "job_find i db' = (case job of None \<Rightarrow> job_find i db | Some j \<Rightarrow> if i = j_id j then Some (jobUpsertArgs j) else job_find i db)"
    using s by (auto simp: db' version_save_def Let_def db1_def job_find_def job_save_def jobUpsertArgs_def split: if_splits option.splits)
  have fresh: "v_id v \<notin> v_id ` set (db_versions db1)" using s by (auto simp: version_save_def split: if_splits)
  then have "find_row v_id (v_id v) (db_versions db1) = None" by simp
  moreover have "db_versions db2 = db_versions db1 @ [versionInsertArgs (v\<lparr>v_version := next_version (v_assetId v) db1\<rparr>)]"
    using s fresh by (auto simp: version_save_def Let_def)
  ultimately show "\<exists>u. version_find (v_id v) db' = Some u \<and> v_id u = v_id v \<and> v_filename u = v_filename v \<and> v_archiveFormat u = v_archiveFormat v"
    by (simp add: db' version_find_def find_row_append versionInsertArgs_def del: find_row_None)
qed

definition queued_from_rows ::
  "('s, 'k, 'u, 'q, 't) asset_env \<Rightarrow> string \<Rightarrow> ('s, 'k, 'u, 'q, 't) asset_state \<Rightarrow> ('s, 'k, 'u, 'q, 't) asset_state \<Rightarrow> bool" where
  \<comment> \<open>what was enqueued is what the job row gives; without a job row nothing was\<close>
  "queued_from_rows env jobId st st' \<longleftrightarrow>
     (case job_find jobId (as_db st') of
        None \<Rightarrow> as_extraction st' = as_extraction st
      | Some job \<Rightarrow>
          (case extractionMessageForJob job (as_db st') of
             None \<Rightarrow> False
           | Some m \<Rightarrow> j_status job = JobPending
               \<and> as_extraction st' = try_send (ae_extraction env) (ae_now env) m (as_extraction st)))"

lemma pending_job_simps [simp]:
  "j_id (pending_extraction_job i a v now s p) = i" "j_assetId (pending_extraction_job i a v now s p) = a"
  "j_versionId (pending_extraction_job i a v now s p) = v" "j_status (pending_extraction_job i a v now s p) = JobPending"
  by (simp_all add: pending_extraction_job_def)

lemma upsert_simps [simp]:
  "j_id (jobUpsertArgs j) = j_id j" "j_assetId (jobUpsertArgs j) = j_assetId j"
  "j_versionId (jobUpsertArgs j) = j_versionId j" "j_status (jobUpsertArgs j) = j_status j"
  by (simp_all add: jobUpsertArgs_def)

lemma after_create_simps [simp]:
  "as_db (after_create env m t st) = as_db st" "as_objects (after_create env m t st) = as_objects st"
  "as_sessions (after_create env m t st) = as_sessions st"
  "as_extraction (after_create env m t st) =
     (case m of None \<Rightarrow> as_extraction st | Some m \<Rightarrow> try_send (ae_extraction env) (ae_now env) m (as_extraction st))"
  by (simp_all add: after_create_def)

lemma created_message:
  assumes "as_db st' = createAsset now a (if fmt \<noteq> None \<and> ex then Some (pending_extraction_job i i None t s p) else None) ss db"
    and "a_id a = i" and "a_archiveFormat a = fmt" and "a_filename a = name"
    and "job_find i db = None"
    and "as_extraction st' = (if fmt \<noteq> None \<and> ex
      then try_send (ae_extraction env) (ae_now env) (asset_message i name (the fmt)) (as_extraction st) else as_extraction st)"
  shows "queued_from_rows env i st st'"
proof (cases "fmt \<noteq> None \<and> ex")
  case True
  then obtain f where f: "fmt = Some f" by auto
  obtain b where b: "asset_find i (as_db st') = Some b" "a_filename b = name" "a_archiveFormat b = Some f"
    using created_rows(2)[OF assms(1)] assms(2-4) f by auto
  have j: "job_find i (as_db st') = Some (jobUpsertArgs (pending_extraction_job i i None t s p))"
    using created_rows(1)[OF assms(1), of i] True by simp
  show ?thesis
    unfolding queued_from_rows_def j using b f True assms(6)
    by (simp add: extractionMessageForJob_def truthy_def asset_message_def)
next
  case False
  then have "job_find i (as_db st') = None" using created_rows(1)[OF assms(1), of i] assms(5) by simp
  moreover have "as_extraction st' = as_extraction st" by (subst assms(6)) (rule if_not_P[OF False])
  ultimately show ?thesis by (simp add: queued_from_rows_def)
qed

lemma asset_upload_message:
  assumes "job_find (ae_freshId env) (as_db st) = None" and "uploadAsset env file opts st = (Inr r, st')"
  shows "queued_from_rows env (ae_freshId env) st st'"
proof -
  let ?i = "ae_freshId env"
  let ?a = "uploaded_asset (ae_now env) (ae_ttlSeconds env) ?i file opts"
  let ?fmt = "detectArchiveFormat (uf_name file)" and ?ex = "\<not> uo_skipExtraction opts"
  obtain u objs where put: "fs_put (ae_storage env) (storageKey ?i (uf_name file)) (uf_body file)
      (content_type_or_default (uf_type file)) (uf_size file) (truthy_or_none (uf_contentEncoding file)) (as_objects st) = (u, objs)"
    by fastforce
  obtain v where v: "u = Inr v" using assms(2) put by (cases u) (simp_all add: uploadAsset_def Let_def)
  have fate: "ae_fate env = Committed" using assms(2) put v by (cases "ae_fate env") (simp_all add: uploadAsset_def Let_def)
  have db: "as_db st' = createAsset (ae_now env) ?a (if ?fmt \<noteq> None \<and> ?ex then Some (pending_extraction_job ?i ?i None (ae_now env) (uo_sessionId opts) (uo_projectId opts)) else None) (uo_usageScopes opts) (as_db st)"
    and q: "as_extraction st' = (if ?fmt \<noteq> None \<and> ?ex
      then try_send (ae_extraction env) (ae_now env) (asset_message ?i (uf_name file) (the ?fmt)) (as_extraction st) else as_extraction st)"
    using assms(2) put v fate by (auto simp: uploadAsset_def Let_def)
  show ?thesis
    by (rule created_message[OF db _ _ _ assms(1) q]) (simp_all add: uploaded_asset_def Let_def)
qed

lemma version_upload_message:
  assumes "job_find (ae_freshJobId env) (as_db st) = None" and "ae_freshId env \<noteq> []"
    and "uploadVersion env assetId file skip scopes st = (Inr (Some r), st')"
  shows "queued_from_rows env (ae_freshJobId env) st st'"
proof -
  let ?i = "ae_freshId env" and ?j = "ae_freshJobId env"
  let ?key = "versionStorageKey assetId ?i (uf_name file)"
  let ?v = "uploaded_version (ae_now env) assetId ?i ?j file skip"
  let ?fmt = "detectArchiveFormat (uf_name file)"
  obtain asset where a: "asset_find assetId (as_db st) = Some asset"
    using assms(3) by (cases "asset_find assetId (as_db st)") (simp_all add: uploadVersion_def)
  let ?job = "if ?fmt \<noteq> None \<and> \<not> skip then Some (pending_extraction_job ?j assetId (Some ?i) (ae_now env) (a_sessionId asset) (a_projectId asset)) else None"
  obtain u objs where put: "fs_put (ae_storage env) ?key (uf_body file)
      (content_type_or_default (uf_type file)) (uf_size file) (truthy_or_none (uf_contentEncoding file)) (as_objects st) = (u, objs)"
    by fastforce
  obtain o' where o: "u = Inr o'" using assms(3) a put by (cases u) (simp_all add: uploadVersion_def Let_def)
  let ?ss = "if truthy (a_projectId asset) then scopes else []"
  obtain w db' where c: "createVersion (ae_now env) ?v ?job ?ss (as_db st) = Some (w, db')"
    using assms(3) a put o by (cases "createVersion (ae_now env) ?v ?job ?ss (as_db st)") (auto simp: uploadVersion_def Let_def)
  have fate: "ae_fate env = Committed"
    using assms(3) a put o c by (cases "ae_fate env") (simp_all add: uploadVersion_def Let_def)
  have db: "as_db st' = db'"
    and q: "as_extraction st' = (if ?fmt \<noteq> None \<and> \<not> skip
      then try_send (ae_extraction env) (ae_now env) \<lparr>em_jobId = ?j, em_assetId = assetId, em_versionId = Some ?i,
        em_archiveKey = ?key, em_archiveFilename = uf_name file, em_archiveFormat = the ?fmt\<rparr> (as_extraction st)
      else as_extraction st)"
    using assms(3) a put o c fate by (auto simp: uploadVersion_def Let_def)
  have vid: "v_id ?v = ?i" "v_filename ?v = uf_name file" "v_archiveFormat ?v = ?fmt"
    by (simp_all add: uploaded_version_def Let_def)
  obtain x where x: "version_find ?i db' = Some x" "v_id x = ?i" "v_filename x = uf_name file" "v_archiveFormat x = ?fmt"
    using created_version_rows(2)[OF c] vid by auto
  show ?thesis
  proof (cases "?fmt \<noteq> None \<and> \<not> skip")
    case True
    then obtain f where f: "?fmt = Some f" by auto
    have j: "job_find ?j db' = Some (jobUpsertArgs (pending_extraction_job ?j assetId (Some ?i) (ae_now env) (a_sessionId asset) (a_projectId asset)))"
      using created_version_rows(1)[OF c, of ?j] True by simp
    show ?thesis
      unfolding queued_from_rows_def db j using x f True q assms(2)
      by (simp add: extractionMessageForJob_def truthy_def)
  next
    case False
    then have "job_find ?j db' = None" using created_version_rows(1)[OF c, of ?j] assms(1) by simp
    moreover have "as_extraction st' = as_extraction st" by (subst q) (rule if_not_P[OF False])
    ultimately show ?thesis by (simp add: queued_from_rows_def db)
  qed
qed

lemma completed_fields [simp]:
  "a_id (completed_asset i now ttl s h sid p) = i" "a_filename (completed_asset i now ttl s h sid p) = us_filename s"
  "a_archiveFormat (completed_asset i now ttl s h sid p) = detectArchiveFormat (us_filename s)"
  "(\<exists>y. a_status (completed_asset i now ttl s h sid p) = Some y) \<longleftrightarrow>
     (detectArchiveFormat (us_filename s) \<noteq> None \<and> us_skipExtraction s \<noteq> Some True)"
  by (simp_all add: completed_asset_def Let_def)

lemma session_complete_message:
  assumes "job_find i (as_db st) = None" and "asset_find i (as_db st) = None"
    and "completeUploadSession env i parts opts st = (Inr (Some r), st')"
  shows "queued_from_rows env i st st'"
proof -
  obtain sess u where s: "session_find (ae_sessions env) (ae_now env) i (as_sessions st) = (Some sess, u)"
    using assms(3) by (auto simp: completeUploadSession_def split: prod.splits option.splits)
  obtain h objs where h: "uploaded_head env (storageKey i (us_filename sess)) sess parts (as_objects st) = (Some h, objs)"
    using assms(2,3) s by (auto simp: completeUploadSession_def Let_def split: prod.splits option.splits if_splits)
  have fate: "ae_fate env = Committed"
    using assms(2,3) s h by (cases "ae_fate env") (auto simp: completeUploadSession_def Let_def split: if_splits)
  let ?p = "case us_projectId sess of Some p \<Rightarrow> Some p | None \<Rightarrow> uo_projectId opts"
  let ?a = "completed_asset i (ae_now env) (ae_ttlSeconds env) sess h (uo_sessionId opts) ?p"
  let ?fmt = "detectArchiveFormat (us_filename sess)" and ?ex = "us_skipExtraction sess \<noteq> Some True"
  have db: "as_db st' = createAsset (ae_now env) ?a (if ?fmt \<noteq> None \<and> ?ex
      then Some (pending_extraction_job i i None (ae_now env) (uo_sessionId opts) ?p) else None)
      (if truthy ?p then uo_usageScopes opts else []) (as_db st)"
    and q: "as_extraction st' = (if ?fmt \<noteq> None \<and> ?ex
      then try_send (ae_extraction env) (ae_now env) (asset_message i (us_filename sess) (the ?fmt)) (as_extraction st) else as_extraction st)"
    using assms(2,3) s h fate by (auto simp: completeUploadSession_def Let_def split: if_splits)
  show ?thesis by (rule created_message[OF db _ _ _ assms(1) q]) simp_all
qed

text \<open>
  C23: What an upload enqueues is exactly what the scheduled recovery would enqueue for it. After an
  upload, a new version or a completed session there is either no job row and nothing was
  enqueued, or the job row is pending and the message sent is the one the recovery computes from
  the stored rows: same archive, same format, same identifiers. So a lost message loses nothing.
\<close>

theorem upload_message_recoverable:
  assumes "job_find (ae_freshId env) (as_db st) = None" and "job_find (ae_freshJobId env) (as_db st) = None"
    and "ae_freshId env \<noteq> []" and "job_find i (as_db st) = None" and "asset_find i (as_db st) = None"
  shows "(uploadAsset env file opts st = (Inr ra, st') \<longrightarrow> queued_from_rows env (ae_freshId env) st st')
    \<and> (uploadVersion env assetId file skip scopes st = (Inr (Some rv), st') \<longrightarrow> queued_from_rows env (ae_freshJobId env) st st')
    \<and> (completeUploadSession env i parts opts st = (Inr (Some ra), st') \<longrightarrow> queued_from_rows env i st st')"
  using asset_upload_message[OF assms(1)] version_upload_message[OF assms(2,3)] session_complete_message[OF assms(4,5)]
  by blast

section \<open>Completing a session again\<close>

lemma complete_existing:
  assumes "asset_find i (as_db st) = Some a" and "completeUploadSession env i parts opts st = (r, st')"
  shows "as_db st' = as_db st \<and> as_objects st' = as_objects st \<and> as_extraction st' = as_extraction st
    \<and> (\<forall>x. r = Inr (Some x) \<longrightarrow> ur_asset x = a)"
  using assms by (auto simp: completeUploadSession_def Let_def split: prod.splits option.splits if_splits)

definition created_once :: "string \<Rightarrow> database \<Rightarrow> database \<Rightarrow> bool" where
  \<comment> \<open>the asset's row was written by one \<open>createAsset\<close>\<close>
  "created_once i db db' \<longleftrightarrow>
     (\<exists>now a job ss. a_id a = i \<and> (\<forall>j. job = Some j \<longrightarrow> j_id j = i) \<and> db' = createAsset now a job ss db)"

lemma created_onceI: "a_id a = i \<Longrightarrow> (\<And>j. job = Some j \<Longrightarrow> j_id j = i) \<Longrightarrow> created_once i db (createAsset now a job ss db)"
  unfolding created_once_def by blast

lemma complete_new:
  assumes "asset_find i (as_db st) = None" and "completeUploadSession env i parts opts st = (r, st')"
  shows "as_db st' = as_db st \<and> (\<forall>x. r \<noteq> Inr (Some x)) \<or> created_once i (as_db st) (as_db st')"
proof -
  obtain so u where s: "session_find (ae_sessions env) (ae_now env) i (as_sessions st) = (so, u)" by fastforce
  show ?thesis
  proof (cases "\<exists>sess h objs. so = Some sess \<and>
      uploaded_head env (storageKey i (us_filename sess)) sess parts (as_objects st) = (Some h, objs) \<and>
      \<not> (truthy (us_sessionId sess) \<and> truthy (uo_sessionId opts) \<and> us_sessionId sess \<noteq> uo_sessionId opts)")
    case False
    then show ?thesis
      using assms s by (auto simp: completeUploadSession_def Let_def split: option.splits prod.splits if_splits)
  next
    case True
    then obtain sess h objs where t: "so = Some sess"
      "uploaded_head env (storageKey i (us_filename sess)) sess parts (as_objects st) = (Some h, objs)"
      "\<not> (truthy (us_sessionId sess) \<and> truthy (uo_sessionId opts) \<and> us_sessionId sess \<noteq> uo_sessionId opts)" by blast
    let ?p = "case us_projectId sess of Some p \<Rightarrow> Some p | None \<Rightarrow> uo_projectId opts"
    let ?a = "completed_asset i (ae_now env) (ae_ttlSeconds env) sess h (uo_sessionId opts) ?p"
    let ?job = "if a_status ?a \<noteq> None then Some (pending_extraction_job i i None (ae_now env) (uo_sessionId opts) ?p) else None"
    let ?db = "createAsset (ae_now env) ?a ?job (if truthy ?p then uo_usageScopes opts else []) (as_db st)"
    have once: "created_once i (as_db st) ?db" by (rule created_onceI) (auto split: if_splits)
    have "as_db st' = ?db \<or> (\<exists>e. r = Inl e) \<and> as_db st' = as_db st"
      using assms s t by (auto simp: completeUploadSession_def Let_def split: commit_fate.splits)
    with once show ?thesis by auto
  qed
qed

type_synonym ('s, 'k, 'u, 'q, 't) complete_attempt =
  "('s, 'k, 'u, 'q, 't) asset_env \<times> upload_part list option \<times> upload_options"

fun complete_attempts ::
  "string \<Rightarrow> ('s, 'k, 'u, 'q, 't) complete_attempt list \<Rightarrow> ('s, 'k, 'u, 'q, 't) asset_state
   \<Rightarrow> (string + upload_result option) list \<times> ('s, 'k, 'u, 'q, 't) asset_state" where
  "complete_attempts i [] st = ([], st)"
| "complete_attempts i ((env, parts, opts) # rest) st =
     (case completeUploadSession env i parts opts st of
        (r, st1) \<Rightarrow> (case complete_attempts i rest st1 of (rs, st') \<Rightarrow> (r # rs, st')))"

lemma created_found: "created_once i db db' \<Longrightarrow> \<exists>a. asset_find i db' = Some a"
  unfolding created_once_def using created_rows(2)[OF refl] by metis

lemma attempts_existing:
  assumes "asset_find i (as_db st) = Some a" and "complete_attempts i as st = (rs, st')"
  shows "as_db st' = as_db st \<and> (\<forall>x. Inr (Some x) \<in> set rs \<longrightarrow> ur_asset x = a)"
  using assms
proof (induction "as" arbitrary: st rs)
  case (Cons at as')
  obtain env parts opts where at: "at = (env, parts, opts)" by (rule prod_cases3)
  obtain r st1 where c: "completeUploadSession env i parts opts st = (r, st1)" by fastforce
  obtain rs' where rs: "complete_attempts i as' st1 = (rs', st')" "rs = r # rs'"
    using Cons.prems(2) at c by (auto split: prod.splits)
  from complete_existing[OF Cons.prems(1) c] Cons.IH[of st1 rs'] Cons.prems(1) rs show ?case by auto
qed simp

text \<open>
  C25: Completing an upload session may be repeated. However often a client calls \<open>complete\<close> and
  whatever becomes of the writes (rejected, committed, or committed with the answer lost), the
  tables are either as before or as after one creation of the asset: usage is counted once and
  neither the asset nor its job is reset. An attempt that answers with an asset has its row in
  the table.
\<close>

theorem complete_counts_once:
  assumes "asset_find i (as_db st) = None" and "complete_attempts i as st = (rs, st')"
  shows "as_db st' = as_db st \<and> (\<forall>x. Inr (Some x) \<notin> set rs) \<or> created_once i (as_db st) (as_db st')"
  using assms
proof (induction "as" arbitrary: st rs)
  case (Cons at as')
  obtain env parts opts where at: "at = (env, parts, opts)" by (rule prod_cases3)
  obtain r st1 where c: "completeUploadSession env i parts opts st = (r, st1)" by fastforce
  obtain rs' where rs: "complete_attempts i as' st1 = (rs', st')" "rs = r # rs'"
    using Cons.prems(2) at c by (auto split: prod.splits)
  from complete_new[OF Cons.prems(1) c] show ?case
  proof
    assume same: "as_db st1 = as_db st \<and> (\<forall>x. r \<noteq> Inr (Some x))"
    then have "asset_find i (as_db st1) = None" using Cons.prems(1) by simp
    from Cons.IH[OF this rs(1)] same rs(2) show ?case by auto
  next
    assume once: "created_once i (as_db st) (as_db st1)"
    then obtain a where "asset_find i (as_db st1) = Some a" using created_found by blast
    from attempts_existing[OF this rs(1)] once show ?case by simp
  qed
qed simp

section \<open>Sessions in the key-value store\<close>

lemma str_field_props:
  "str_field (JObj []) k = None"
  "str_field (JObj ((n, JStr v) # props)) k = (if k = n then Some v else str_field (JObj props) k)"
  "str_field (JObj ((n, JNum i) # props)) k = (if k = n then None else str_field (JObj props) k)"
  "str_field (JObj (json_opt n JStr o' @ props)) k = (if k = n \<and> o' \<noteq> None then o' else str_field (JObj props) k)"
  "k \<noteq> n \<Longrightarrow> str_field (JObj (json_opt n f x @ props)) k = str_field (JObj props) k"
  by (auto simp: str_field_def json_opt_def split: option.split)

lemma num_field_props:
  "num_field (JObj []) k = None"
  "num_field (JObj ((n, JStr v) # props)) k = (if k = n then None else num_field (JObj props) k)"
  "num_field (JObj ((n, JNum i) # props)) k = (if k = n then Some i else num_field (JObj props) k)"
  "num_field (JObj (json_opt n JNum o' @ props)) k = (if k = n \<and> o' \<noteq> None then o' else num_field (JObj props) k)"
  "k \<noteq> n \<Longrightarrow> num_field (JObj (json_opt n f x @ props)) k = num_field (JObj props) k"
  by (auto simp: num_field_def json_opt_def split: option.split)

lemma bool_field_props:
  "bool_field (JObj []) k = None"
  "bool_field (JObj ((n, JStr v) # props)) k = (if k = n then None else bool_field (JObj props) k)"
  "bool_field (JObj ((n, JNum i) # props)) k = (if k = n then None else bool_field (JObj props) k)"
  "bool_field (JObj (json_opt n JBool o' @ props)) k = (if k = n \<and> o' \<noteq> None then o' else bool_field (JObj props) k)"
  "k \<noteq> n \<Longrightarrow> bool_field (JObj (json_opt n f x @ props)) k = bool_field (JObj props) k"
  by (auto simp: bool_field_def json_opt_def split: option.split)

lemma if_known: "(if o' \<noteq> None then o' else None) = o'"
  by simp

lemma decode_encode_session:
  assumes "encode_session s = Blob j"
  shows "decode_session j = s \<and> j \<noteq> JNull"
proof -
  have j: "j = JObj ((''id'', JStr (us_id s)) # (''filename'', JStr (us_filename s)) #
     (''contentType'', JStr (us_contentType s)) # (''size'', JNum (us_size s)) # (''createdAt'', JNum (us_createdAt s)) #
     (''expiresAt'', JNum (us_expiresAt s)) # json_opt ''s3UploadId'' JStr (us_s3UploadId s) @
     json_opt ''partCount'' JNum (us_partCount s) @ json_opt ''contentEncoding'' JStr (us_contentEncoding s) @
     json_opt ''sessionId'' JStr (us_sessionId s) @ json_opt ''projectId'' JStr (us_projectId s) @
     json_opt ''skipExtraction'' JBool (us_skipExtraction s) @ [])"
    using assms by (simp add: encode_session_def)
  show ?thesis
    unfolding j decode_session_def Let_def
    by (simp add: str_field_props num_field_props bool_field_props if_known del: append_Nil2)
qed

locale upload_sessions = durable_key_value kv contents invar
  for kv :: "('u, blob) kv_port" and contents :: "'u \<Rightarrow> string \<rightharpoonup> blob \<times> int option" and invar :: "'u \<Rightarrow> bool"
begin

lemma find_read: "fst (session_find kv t i u) = (case fst (kv_get kv t (upload_session_key i) u) of
    Some (Blob j) \<Rightarrow> if j = JNull then None else Some (decode_session j) | _ \<Rightarrow> None)"
  by (auto simp: session_find_def split: prod.splits option.splits blob.splits)

lemma find_saved:
  assumes "invar u"
  shows "fst (session_find kv t i (session_save kv now s ttl u)) =
    (if i = us_id s then (if t < now + ttl * 1000 then Some s else None) else fst (session_find kv t i u))"
proof -
  obtain j where j: "encode_session s = Blob j" by (cases "encode_session s") (simp_all add: encode_session_def)
  then have dec: "decode_session j = s \<and> j \<noteq> JNull" by (rule decode_encode_session)
  have key: "upload_session_key i = upload_session_key (us_id s) \<longleftrightarrow> i = us_id s"
    by (simp add: upload_session_key_def)
  show ?thesis
    unfolding find_read session_save_def get_after_put[OF assms] key
    using j dec by (simp add: expiry_of_def live_def)
qed

lemma find_deleted:
  assumes "invar u"
  shows "fst (session_find kv t i (session_delete kv k u)) = (if i = k then None else fst (session_find kv t i u))"
  using assms
  by (simp add: find_read session_delete_def get_visible delete_invar delete_contents visible_def upload_session_key_def)

end

interpretation memory_sessions: upload_sessions memory_port memory_contents memory_invar
  by unfold_locales

interpretation sql_sessions: upload_sessions sql_port sql_contents sql_invar
  by unfold_locales

text \<open>
  C26: An upload session written to either key-value store is read back unchanged, every optional
  field included, until it expires and not after; other sessions are not affected.
\<close>

theorem session_roundtrip:
  assumes "memory_invar m" and "sql_invar tb"
  shows "fst (session_find memory_port t i (session_save memory_port now s ttl m)) =
      (if i = us_id s then (if t < now + ttl * 1000 then Some s else None) else fst (session_find memory_port t i m))
    \<and> fst (session_find sql_port t i (session_save sql_port now s ttl tb)) =
      (if i = us_id s then (if t < now + ttl * 1000 then Some s else None) else fst (session_find sql_port t i tb))"
  using memory_sessions.find_saved[OF assms(1)] sql_sessions.find_saved[OF assms(2)] by blast

section \<open>Deleting\<close>

text \<open>The prefix of one asset holds no key of another.\<close>

lemma asset_prefix_inj:
  assumes "CHR ''/'' \<notin> set i" and "CHR ''/'' \<notin> set j" and "starts_with (asset_prefix i) (''assets/'' @ j @ ''/'' @ rest)"
  shows "i = j"
proof -
  have "take (length (i @ ''/'')) (j @ ''/'' @ rest) = i @ ''/''"
    using assms(3) by (simp add: starts_with_def asset_prefix_def)
  then obtain rest' where eq: "j @ CHR ''/'' # rest = i @ CHR ''/'' # rest'"
    by (metis append.assoc append_Cons append_Nil append_take_drop_id)
  have "takeWhile (\<lambda>c. c \<noteq> CHR ''/'') (k @ CHR ''/'' # r) = k" if "CHR ''/'' \<notin> set k" for k r
    using that by (induction k) auto
  with eq assms(1,2) show ?thesis by metis
qed

lemma deleteAsset_hosts [simp]: "db_hosts (deleteAsset now a ss p db) = db_hosts db"
proof -
  have "db_hosts (fold (\<lambda>s. usage_decrement_for_asset now s n i) ss db) = db_hosts db" for n i
    by (induction ss arbitrary: db) (simp_all add: usage_decrement_for_asset_def)
  then show ?thesis by (simp add: deleteAsset_def cleanup_add_def asset_delete_def version_deleteByAssetId_def)
qed


text \<open>
  Two calls of \<open>complete\<close> that run at once both find no row and both write: the second write
  replaces the row, but its usage is added again.
\<close>

lemma concurrent_completes_count_twice:
  assumes "distinct ss" and "scope \<in> set ss"
  shows "usage_total scope (createAsset now a job ss (createAsset now a job ss db)) = usage_total scope db + 2 * a_size a"
proof -
  have "usage_total scope (createAsset now a job ss d) = usage_total scope d + a_size a" for d
  proof -
    have "usage_total scope (asset_save a (case job of None \<Rightarrow> d | Some j \<Rightarrow> job_save j d)) = usage_total scope d"
      by (rule usage_total_frame) (simp add: asset_save_def job_save_def Let_def split: option.split)
    with assms show ?thesis by (simp add: createAsset_def Let_def usage_total_statements)
  qed
  then show ?thesis by simp
qed

section \<open>Concrete runs\<close>

definition small_store :: memory_storage where
  "small_store = \<lparr>ms_objects = [], ms_usedBytes = 0, ms_capacityBytes = 9\<rparr>"

definition upload_env :: "commit_fate \<Rightarrow> (memory_storage, blob memory_kv, blob memory_kv,
    extraction_message memory_queue, thumbnail_message memory_queue) asset_env" where
  "upload_env fate = \<lparr>ae_storage = memory_storage_port id, ae_cache = None, ae_sessions = memory_port,
     ae_extraction = Some (memory_queue_port 5, \<lambda>_. True), ae_thumbnails = None, ae_presigned = None,
     ae_completeMultipart = (\<lambda>_ _ _ s. s), ae_compressible = (\<lambda>_. False), ae_platform = toy_platform,
     ae_now = 7, ae_freshId = ''b2'', ae_freshJobId = ''j2'', ae_fate = fate, ae_deletes = True, ae_ttlSeconds = 60,
     ae_baseUrl = ''http://h'', ae_protocol = Some ''http:'', ae_siteHostSuffix = None, ae_signingSecret = None,
     ae_anonymousUploads = True\<rparr>"

definition upload_state :: "database \<Rightarrow> (memory_storage, blob memory_kv, blob memory_kv,
    extraction_message memory_queue, thumbnail_message memory_queue) asset_state" where
  "upload_state db = \<lparr>as_db = db, as_objects = small_store, as_cache = [], as_sessions = [],
     as_extraction = mq_empty, as_thumbnails = mq_empty\<rparr>"

definition zip_file :: upload_file where
  "zip_file = \<lparr>uf_name = ''s.zip'', uf_type = [], uf_body = \<lparr>ub_chunks = [''ab'', ''c''], ub_error = None\<rparr>, uf_size = 3,
     uf_contentEncoding = None, uf_originalSize = None\<rparr>"

definition plain_options :: upload_options where
  "plain_options = \<lparr>uo_sessionId = Some ''s'', uo_projectId = None, uo_skipExtraction = False, uo_usageScopes = []\<rparr>"

definition pending_session :: upload_session where
  "pending_session = \<lparr>us_id = ''b2'', us_filename = ''s.zip'', us_contentType = ''t'', us_size = 3, us_createdAt = 1,
     us_expiresAt = 9000, us_s3UploadId = None, us_partCount = None, us_contentEncoding = None,
     us_sessionId = Some ''s'', us_projectId = None, us_skipExtraction = None\<rparr>"

definition uploaded_state :: "(memory_storage, blob memory_kv, blob memory_kv,
    extraction_message memory_queue, thumbnail_message memory_queue) asset_state" where
  \<comment> \<open>a session whose object has been put\<close>
  "uploaded_state = (upload_state empty_database)
     \<lparr>as_objects := snd (mem_put id (storageKey ''b2'' ''s.zip'') (uf_body zip_file) ''t'' 3 None small_store),
      as_sessions := session_save memory_port 1 pending_session 9 []\<rparr>"


lemma upload_message_recoverable_witness:
  "queued_from_rows (upload_env Committed) ''b2'' (upload_state stuck_database)
     (snd (uploadAsset (upload_env Committed) zip_file plain_options (upload_state stuck_database)))
   \<and> queued_from_rows (upload_env Committed) ''b2'' uploaded_state
     (snd (completeUploadSession (upload_env Committed) ''b2'' None plain_options uploaded_state))"
proof -
  let ?env = "upload_env Committed"
  have fresh: "job_find (ae_freshId ?env) (as_db (upload_state stuck_database)) = None"
      "job_find (ae_freshJobId ?env) (as_db (upload_state stuck_database)) = None" "ae_freshId ?env \<noteq> []"
      "job_find ''b2'' (as_db (upload_state stuck_database)) = None" "asset_find ''b2'' (as_db (upload_state stuck_database)) = None"
      "job_find (ae_freshId ?env) (as_db uploaded_state) = None" "job_find (ae_freshJobId ?env) (as_db uploaded_state) = None"
      "job_find ''b2'' (as_db uploaded_state) = None" "asset_find ''b2'' (as_db uploaded_state) = None"
      "ae_freshId ?env = ''b2''"
    by code_simp+
  obtain r where r: "fst (uploadAsset ?env zip_file plain_options (upload_state stuck_database)) = Inr r"
  proof -
    have "isl (fst (uploadAsset ?env zip_file plain_options (upload_state stuck_database))) = False" by code_simp
    then show ?thesis using that by (cases "fst (uploadAsset ?env zip_file plain_options (upload_state stuck_database))") auto
  qed
  obtain x where x: "fst (completeUploadSession ?env ''b2'' None plain_options uploaded_state) = Inr (Some x)"
  proof -
    have "(case fst (completeUploadSession ?env ''b2'' None plain_options uploaded_state) of Inr (Some _) \<Rightarrow> True | _ \<Rightarrow> False) = True"
      by code_simp
    then show ?thesis using that by (auto split: sum.splits option.splits)
  qed
  have "queued_from_rows ?env (ae_freshId ?env) (upload_state stuck_database)
      (snd (uploadAsset ?env zip_file plain_options (upload_state stuck_database)))"
    using upload_message_recoverable[OF fresh(1-5)] r by (metis prod.collapse)
  moreover have "queued_from_rows ?env ''b2'' uploaded_state (snd (completeUploadSession ?env ''b2'' None plain_options uploaded_state))"
    using upload_message_recoverable[OF fresh(6,7,3,8,9)] x by (metis prod.collapse)
  ultimately show ?thesis using fresh(10) by simp
qed

lemma complete_counts_once_witness:
  "created_once ''b2'' (as_db uploaded_state) (as_db (snd (complete_attempts ''b2''
     [(upload_env (Rejected ''e''), None, plain_options), (upload_env (Unreported ''e''), None, plain_options),
      (upload_env Committed, None, plain_options)] uploaded_state)))"
proof -
  let ?as = "[(upload_env (Rejected ''e''), None, plain_options), (upload_env (Unreported ''e''), None, plain_options),
      (upload_env Committed, None, plain_options)]"
  have none: "asset_find ''b2'' (as_db uploaded_state) = None" by code_simp
  have some: "asset_find ''b2'' (as_db (snd (complete_attempts ''b2'' ?as uploaded_state))) \<noteq> None" by code_simp
  obtain rs st' where run: "complete_attempts ''b2'' ?as uploaded_state = (rs, st')" by fastforce
  from complete_counts_once[OF none run] some none run show ?thesis by auto
qed

lemma session_roundtrip_witness:
  "fst (session_find memory_port 5 ''b2'' (session_save memory_port 1 pending_session 9 [])) = Some pending_session"
proof -
  have "memory_invar ([] :: blob memory_kv)" "sql_invar ([] :: blob kv_table)" by (simp_all add: memory_invar_def sql_invar_def)
  from session_roundtrip[OF this, of 5 "''b2''" 1 pending_session 9] show ?thesis by (simp add: pending_session_def)
qed


end
