(* ===== verification/Asset_Api.thy ===== *)
theory Asset_Api
  imports Upload_Properties
begin

text \<open>
  The asset and version routes (\<open>core/asset/handler/\<close>): each handler with its guards in order,
  its answer and the new state, and \<open>run_asset_call\<close> that dispatches a call to its handler. An
  error that a handler does not catch is answered by \<open>onError\<close> of \<open>core/app.ts\<close>. A body
  or query has passed its schema; a page limit is the number its text stands for, and a negative
  one is not covered. The text decoder and \<open>JSON.parse\<close> are arguments of the file listing.
\<close>

section \<open>Answers\<close>

record file_entry =
  fe_path :: string
  fe_size :: int
  fe_contentType :: string
  fe_hash :: "string option"

datatype api_body =
    ApiError string
  | InternalError
  | Uploaded upload_result
  | NewVersion version_result
  | NewSession session_reply
  | AssetPage "asset list" "string option"
  | OneAsset asset_view
  | PlainAsset asset
  | VersionPage "version list" "string option"
  | OneVersion version
  | JobAnswer job
  | FileEntries "file_entry list"
  | ManifestLines "string list"
  | EmptyBody

type_synonym api_reply = "nat \<times> api_body"

definition internal_error :: api_reply where
  "internal_error = (500, InternalError)"

definition unavailable_reply :: api_reply where
  "unavailable_reply = (503, ApiError ''Authorization service unavailable'')"

definition denied_body :: "bool \<Rightarrow> string \<Rightarrow> api_reply" where
  "denied_body is_forbidden notFound =
     (case deniedResponse is_forbidden False of
        Forbidden403 \<Rightarrow> (403, ApiError ''Forbidden'')
      | NotFound404 \<Rightarrow> (404, ApiError notFound))"

definition on_access :: "'a decision \<Rightarrow> string \<Rightarrow> 'st \<Rightarrow> ('a \<Rightarrow> api_reply \<times> 'st) \<Rightarrow> api_reply \<times> 'st" where
  \<comment> \<open>\<open>if (!access.ok) return deniedResponse(\<dots>)\<close>, and the answer to a \<open>TenancyUnavailableError\<close>\<close>
  "on_access access notFound st continue =
     (case access of
        Granted v \<Rightarrow> continue v
      | NotFound \<Rightarrow> (denied_body False notFound, st)
      | Forbidden \<Rightarrow> (denied_body True notFound, st)
      | Unavailable \<Rightarrow> (unavailable_reply, st))"

definition on_asset ::
  "request \<Rightarrow> project_action \<Rightarrow> string \<Rightarrow> ('s, 'k, 'u, 'q, 't) asset_state
   \<Rightarrow> (asset \<Rightarrow> api_reply \<times> ('s, 'k, 'u, 'q, 't) asset_state) \<Rightarrow> api_reply \<times> ('s, 'k, 'u, 'q, 't) asset_state" where
  "on_asset rq action id' st continue =
     on_access (authorizeAsset (accessCtx rq (as_db st)) (asset_find id' (as_db st)) action) ''Asset not found'' st continue"

section \<open>Shared steps\<close>

definition denyAnonymousUpload :: "('s, 'k, 'u, 'q, 't) asset_env \<Rightarrow> request \<Rightarrow> api_reply option" where
  "denyAnonymousUpload env rq =
     (if rq_user rq \<noteq> None then None
      else if ae_anonymousUploads env then None
      else Some (401, ApiError (''Anonymous upload is disabled on this server. '' @
        ''Please log in with `reearth-serve auth login` and try again.'')))"

definition resolveUploadProject :: "request \<Rightarrow> string option \<Rightarrow> database \<Rightarrow> api_reply + string option" where
  \<comment> \<open>the header \<open>X-Project-Id\<close>\<close>
  "resolveUploadProject rq header' db =
     (let h = map_option js_trim header'
      in if rq_user rq = None then Inr None
         else if \<not> truthy h then Inl (400, ApiError ''Authenticated uploads require the X-Project-Id header'')
         else case authorizeProject (accessCtx rq db) (the h) CreateAsset of
                Granted _ \<Rightarrow> Inr h
              | Unavailable \<Rightarrow> Inl unavailable_reply
              | _ \<Rightarrow> Inl (404, ApiError ''Project not found''))"

definition usageScopes :: "string option \<Rightarrow> database \<Rightarrow> string list" where
  "usageScopes projectId db =
     (if \<not> truthy projectId then []
      else (''project:'' @ the projectId) #
        (case project_find (the projectId) db of
           None \<Rightarrow> []
         | Some project \<Rightarrow> if truthy (p_workspaceId project) then [''workspace:'' @ the (p_workspaceId project)] else []))"

record upload_request =
  ul_header :: "string \<Rightarrow> string option"
  ul_body :: "upload_body option"

definition read_upload :: "upload_request \<Rightarrow> api_reply + upload_file \<times> bool" where
  \<comment> \<open>the checks of the upload headers, common to both upload routes; the file and \<open>skipExtraction\<close>\<close>
  "read_upload ul =
     (let filename = ul_header ul ''X-Filename''; contentLength = ul_header ul ''Content-Length''
      in if \<not> truthy filename \<or> \<not> truthy contentLength
         then Inl (400, ApiError ''Missing required headers: X-Filename, Content-Length'')
         else if \<not> isSafeFilename (the filename) then Inl (400, ApiError ''Invalid X-Filename'')
         else case parse_int (the contentLength) of
                None \<Rightarrow> Inl (400, ApiError ''Invalid Content-Length'')
              | Some size' \<Rightarrow>
                  if size' \<le> 0 then Inl (400, ApiError ''Invalid Content-Length'')
                  else (case ul_body ul of
                          None \<Rightarrow> Inl (400, ApiError ''Missing request body'')
                        | Some body \<Rightarrow>
                            Inr (\<lparr>uf_name = the filename,
                              uf_type = content_type_or_default (case ul_header ul ''Content-Type'' of None \<Rightarrow> [] | Some t \<Rightarrow> t),
                              uf_body = body, uf_size = size', uf_contentEncoding = truthy_or_none (ul_header ul ''Content-Encoding''),
                              uf_originalSize = (if truthy (ul_header ul ''X-Original-Size'')
                                then parse_int (the (ul_header ul ''X-Original-Size'')) else None)\<rparr>,
                              ul_header ul ''X-Skip-Extraction'' = Some ''true'')))"

definition upload_error :: "string \<Rightarrow> api_reply" where
  "upload_error msg =
     (if contains_text ''exceeds storage capacity'' msg then (413, ApiError ''Upload exceeds storage capacity'')
      else if contains_text ''declared Content-Length'' msg \<or> contains_text ''exceeds'' msg \<or> contains_text ''FixedLengthStream'' msg
      then (400, ApiError ''Request body exceeds declared Content-Length'')
      else internal_error)"

section \<open>Uploads\<close>

definition upload_handler ::
  "('s, 'k, 'u, 'q, 't) asset_env \<Rightarrow> request \<Rightarrow> upload_request \<Rightarrow> ('s, 'k, 'u, 'q, 't) asset_state
   \<Rightarrow> api_reply \<times> ('s, 'k, 'u, 'q, 't) asset_state" where
  "upload_handler env rq ul st =
     (case denyAnonymousUpload env rq of
        Some denied \<Rightarrow> (denied, st)
      | None \<Rightarrow>
          (case read_upload ul of
             Inl bad \<Rightarrow> (bad, st)
           | Inr (file, skipExtraction) \<Rightarrow>
               (case resolveUploadProject rq (ul_header ul ''X-Project-Id'') (as_db st) of
                  Inl bad \<Rightarrow> (bad, st)
                | Inr projectId \<Rightarrow>
                    (case uploadAsset env file \<lparr>uo_sessionId = rq_sessionId rq, uo_projectId = projectId,
                            uo_skipExtraction = skipExtraction, uo_usageScopes = usageScopes projectId (as_db st)\<rparr> st of
                       (Inr result, st') \<Rightarrow> ((201, Uploaded result), st')
                     | (Inl msg, st') \<Rightarrow> (upload_error msg, st')))))"

definition upload_version_handler ::
  "('s, 'k, 'u, 'q, 't) asset_env \<Rightarrow> request \<Rightarrow> string \<Rightarrow> upload_request \<Rightarrow> ('s, 'k, 'u, 'q, 't) asset_state
   \<Rightarrow> api_reply \<times> ('s, 'k, 'u, 'q, 't) asset_state" where
  "upload_version_handler env rq id' ul st =
     (case denyAnonymousUpload env rq of
        Some denied \<Rightarrow> (denied, st)
      | None \<Rightarrow> on_asset rq CreateAsset id' st (\<lambda>asset.
          (case read_upload ul of
             Inl bad \<Rightarrow> (bad, st)
           | Inr (file, skipExtraction) \<Rightarrow>
               (case uploadVersion env id' file skipExtraction (usageScopes (a_projectId asset) (as_db st)) st of
                  (Inr (Some result), st') \<Rightarrow> ((201, NewVersion result), st')
                | (Inr None, st') \<Rightarrow> ((404, ApiError ''Asset not found''), st')
                | (Inl msg, st') \<Rightarrow>
                    (if contains_text ''exceeds storage capacity'' msg then (413, ApiError ''Upload exceeds storage capacity'')
                     else internal_error, st')))))"

definition create_session_handler ::
  "('s, 'k, 'u, 'q, 't) asset_env \<Rightarrow> request \<Rightarrow> string option \<Rightarrow> session_request \<Rightarrow> ('s, 'k, 'u, 'q, 't) asset_state
   \<Rightarrow> api_reply \<times> ('s, 'k, 'u, 'q, 't) asset_state" where
  \<comment> \<open>the header \<open>X-Project-Id\<close> and the body\<close>
  "create_session_handler env rq projectHeader body st =
     (case denyAnonymousUpload env rq of
        Some denied \<Rightarrow> (denied, st)
      | None \<Rightarrow>
          (case ae_presigned env of
             None \<Rightarrow> ((501, ApiError ''Presigned URL uploads not available. Use POST /api/v1/assets for direct upload.''), st)
           | Some ps \<Rightarrow>
               (case resolveUploadProject rq projectHeader (as_db st) of
                  Inl bad \<Rightarrow> (bad, st)
                | Inr projectId \<Rightarrow>
                    (case createUploadSession env ps (body\<lparr>sq_contentType := content_type_or_default (sq_contentType body)\<rparr>)
                            (rq_sessionId rq) projectId False st of
                       (result, st') \<Rightarrow> ((201, NewSession result), st')))))"

definition no_session :: api_reply where
  "no_session = (404, ApiError ''Upload session not found or file not yet uploaded'')"

definition complete_session_handler ::
  "('s, 'k, 'u, 'q, 't) asset_env \<Rightarrow> request \<Rightarrow> string \<Rightarrow> upload_part list option \<Rightarrow> ('s, 'k, 'u, 'q, 't) asset_state
   \<Rightarrow> api_reply \<times> ('s, 'k, 'u, 'q, 't) asset_state" where
  \<comment> \<open>the parts of the body, when it is JSON\<close>
  "complete_session_handler env rq id' parts st =
     (case session_find (ae_sessions env) (ae_now env) id' (as_sessions st) of
        (None, u) \<Rightarrow> (no_session, st\<lparr>as_sessions := u\<rparr>)
      | (Some session, u) \<Rightarrow>
          (let st1 = st\<lparr>as_sessions := u\<rparr>;
               finish = (case completeUploadSession env id' parts \<lparr>uo_sessionId = rq_sessionId rq, uo_projectId = None,
                      uo_skipExtraction = False, uo_usageScopes = usageScopes (us_projectId session) (as_db st)\<rparr> st1 of
                   (Inr (Some result), st') \<Rightarrow> ((201, Uploaded result), st')
                 | (Inr None, st') \<Rightarrow> (no_session, st')
                 | (Inl msg, st') \<Rightarrow> (internal_error, st'))
           in if truthy (us_projectId session)
              then (case authorizeProject (accessCtx rq (as_db st)) (the (us_projectId session)) CreateAsset of
                      Granted _ \<Rightarrow> finish
                    | Unavailable \<Rightarrow> (unavailable_reply, st1)
                    | _ \<Rightarrow> (no_session, st1))
              else finish))"

section \<open>Reading\<close>

definition list_assets_handler ::
  "request \<Rightarrow> string list \<Rightarrow> nat option \<Rightarrow> string option \<Rightarrow> string option \<Rightarrow> string option \<Rightarrow> database \<Rightarrow> api_reply" where
  \<comment> \<open>\<open>workspaceIds\<close>: \<open>members.listForCaller()\<close>; then \<open>limit\<close>, \<open>cursor\<close>, \<open>workspaceId\<close>, \<open>projectId\<close>\<close>
  "list_assets_handler rq workspaceIds limit0 cursor workspaceId projectId db =
     (let limit = Some (min (case limit0 of None \<Rightarrow> 20 | Some l \<Rightarrow> l) 100);
          page = (\<lambda>scope. case asset_list scope limit cursor db of (items, next') \<Rightarrow> (200, AssetPage items next'))
      in case rq_user rq of
           None \<Rightarrow> if truthy (rq_sessionId rq) then page (SessionScope (the (rq_sessionId rq))) else (200, AssetPage [] None)
         | Some user \<Rightarrow>
             if truthy projectId then
               fst (on_access (authorizeProject (accessCtx rq db) (the projectId) ReadAsset) ''Project not found'' ()
                 (\<lambda>_. (page (ProjectScope (the projectId)), ())))
             else if truthy workspaceId then
               fst (on_access (authorizeWorkspace (accessCtx rq db) (the workspaceId) ReadWorkspace) ''Workspace not found'' ()
                 (\<lambda>_. (page (WorkspaceScope (the workspaceId)), ())))
             else page (VisibleScope workspaceIds (u_id user)))"

definition get_asset_handler :: "request \<Rightarrow> string \<Rightarrow> database \<Rightarrow> api_reply" where
  \<comment> \<open>the view is authorized by its asset\<close>
  "get_asset_handler rq id' db =
     fst (on_access (authorizeAsset (accessCtx rq db) (map_option vw_asset (enrichAssetWithVersion id' db)) ReadAsset)
       ''Asset not found'' () (\<lambda>_. ((200, OneAsset (the (enrichAssetWithVersion id' db))), ())))"

definition list_versions_handler :: "request \<Rightarrow> string \<Rightarrow> nat option \<Rightarrow> string option \<Rightarrow> database \<Rightarrow> api_reply" where
  "list_versions_handler rq id' limit0 cursor db =
     fst (on_access (authorizeAsset (accessCtx rq db) (asset_find id' db) ReadAsset) ''Asset not found'' ()
       (\<lambda>_. (case version_findByAssetId id' (Some (min (case limit0 of None \<Rightarrow> 20 | Some l \<Rightarrow> l) 100)) cursor db of
               (items, next') \<Rightarrow> (200, VersionPage items next'), ())))"

definition get_version_handler :: "request \<Rightarrow> string \<Rightarrow> string \<Rightarrow> database \<Rightarrow> api_reply" where
  "get_version_handler rq id' versionId db =
     fst (on_access (authorizeAsset (accessCtx rq db) (asset_find id' db) ReadAsset) ''Asset not found'' ()
       (\<lambda>_. (case version_find versionId db of
               None \<Rightarrow> (404, ApiError ''Version not found'')
             | Some v \<Rightarrow> if v_assetId v \<noteq> id' then (404, ApiError ''Version not found'') else (200, OneVersion v), ())))"

section \<open>The file listing\<close>

definition newline :: char where "newline = CHR 0x0A"

definition keep_line :: "(string \<Rightarrow> blob) \<Rightarrow> string \<Rightarrow> string \<Rightarrow> bool" where
  \<comment> \<open>an entry without a text as its path throws, and is skipped like a line that does not parse\<close>
  "keep_line parse prefix' line \<longleftrightarrow>
     line \<noteq> [] \<and> (prefix' = [] \<or>
       (case parse line of
          Garbage \<Rightarrow> False
        | Blob entry \<Rightarrow> (case json_field entry ''path'' of Some (JStr p) \<Rightarrow> starts_with prefix' p | _ \<Rightarrow> False)))"

definition emit_lines :: "(string \<Rightarrow> blob) \<Rightarrow> string \<Rightarrow> string list \<Rightarrow> string list" where
  "emit_lines parse prefix' lines = map (\<lambda>line. line @ [newline]) (filter (keep_line parse prefix') lines)"

fun filterNdjsonByPrefix :: "(string \<Rightarrow> blob) \<Rightarrow> string \<Rightarrow> string \<Rightarrow> string list \<Rightarrow> string list" where
  \<comment> \<open>the buffer and the chunks still to come; the last equation is \<open>flush\<close>\<close>
  "filterNdjsonByPrefix parse prefix' buffer (c # cs) =
     (let lines = split_on newline (buffer @ c)
      in emit_lines parse prefix' (butlast lines) @ filterNdjsonByPrefix parse prefix' (last lines) cs)"
| "filterNdjsonByPrefix parse prefix' buffer [] = emit_lines parse prefix' [buffer]"

definition list_files_handler ::
  "'s file_storage \<Rightarrow> (string list \<Rightarrow> string list) \<Rightarrow> (string \<Rightarrow> blob) \<Rightarrow> request \<Rightarrow> string \<Rightarrow> string option \<Rightarrow> database \<Rightarrow> 's
   \<Rightarrow> api_reply" where
  \<comment> \<open>the stream of \<open>TextDecoderStream\<close> and \<open>JSON.parse\<close>\<close>
  "list_files_handler fs decode parse rq id' prefixParam db objs =
     (let prefix' = (case prefixParam of None \<Rightarrow> [] | Some p \<Rightarrow> p)
      in fst (on_access (authorizeAsset (accessCtx rq db) (asset_find id' db) ReadAsset) ''Asset not found'' ()
        (\<lambda>asset.
          (if a_type asset \<noteq> Some TypeArchive
           then (if prefix' = [] \<or> starts_with prefix' (a_filename asset)
                 then (200, FileEntries [\<lparr>fe_path = a_filename asset, fe_size = a_size asset, fe_contentType = a_contentType asset,
                        fe_hash = (case fs_head fs (storageKey id' (a_filename asset)) objs of
                           None \<Rightarrow> None
                         | Some head \<Rightarrow> if truthy (oh_etag head)
                             then Some (''md5:'' @ filter (\<lambda>c. c \<noteq> CHR 0x22) (the (oh_etag head))) else None)\<rparr>])
                 else (200, FileEntries []))
           else (case fs_get fs (''assets/'' @ id' @ ''/_archive/_manifest.jsonl'') None objs of
                   None \<Rightarrow> (200, FileEntries [])
                 | Some file \<Rightarrow> (200, ManifestLines (filterNdjsonByPrefix parse prefix' [] (decode (sf_body file))))), ()))))"

section \<open>Changes\<close>

definition start_extraction ::
  "('s, 'k, 'u, 'q, 't) asset_env \<Rightarrow> request \<Rightarrow> asset \<Rightarrow> ('s, 'k, 'u, 'q, 't) asset_state
   \<Rightarrow> api_reply \<times> ('s, 'k, 'u, 'q, 't) asset_state" where
  \<comment> \<open>here a queue that does not take the message fails the call, after the rows are written\<close>
  "start_extraction env rq asset st =
     (let id' = a_id asset;
          job = pending_extraction_job id' id' None (ae_now env) (rq_sessionId rq) (a_projectId asset);
          asset' = asset\<lparr>a_status := Some AssetPending, a_jobId := Some id'\<rparr>;
          st' = st\<lparr>as_db := saveJob job (Some asset') None (as_db st)\<rparr>
      in case ae_extraction env of
           None \<Rightarrow> ((201, JobAnswer job), st')
         | Some (port, accepts) \<Rightarrow>
             (let m = asset_message id' (a_filename asset) (the (a_archiveFormat asset))
              in if accepts m
                 then ((201, JobAnswer job), st'\<lparr>as_extraction := qp_send port (ae_now env) m 0 (as_extraction st)\<rparr>)
                 else (internal_error, st')))"

definition extract_handler ::
  "('s, 'k, 'u, 'q, 't) asset_env \<Rightarrow> request \<Rightarrow> string \<Rightarrow> ('s, 'k, 'u, 'q, 't) asset_state
   \<Rightarrow> api_reply \<times> ('s, 'k, 'u, 'q, 't) asset_state" where
  "extract_handler env rq id' st =
     (case denyAnonymousUpload env rq of
        Some denied \<Rightarrow> (denied, st)
      | None \<Rightarrow> on_asset rq ExtractAsset id' st (\<lambda>asset.
          (if a_type asset \<noteq> Some TypeArchive \<or> a_archiveFormat asset = None
           then ((400, ApiError ''Asset is not an archive''), st)
           else if a_status asset = Some AssetReady then ((400, ApiError ''Archive already extracted''), st)
           else case (if truthy (a_jobId asset) then job_find (the (a_jobId asset)) (as_db st) else None) of
                  Some existing \<Rightarrow>
                    if j_status existing = JobPending \<or> j_status existing = JobRunning then ((200, JobAnswer existing), st)
                    else start_extraction env rq asset st
                | None \<Rightarrow> start_extraction env rq asset st)))"

definition delete_asset_handler ::
  "('s, 'k, 'u, 'q, 't) asset_env \<Rightarrow> request \<Rightarrow> string \<Rightarrow> ('s, 'k, 'u, 'q, 't) asset_state
   \<Rightarrow> api_reply \<times> ('s, 'k, 'u, 'q, 't) asset_state" where
  "delete_asset_handler env rq id' st =
     on_asset rq DeleteAsset id' st (\<lambda>asset.
       ((204, EmptyBody), deleteAssetWithFiles env asset (usageScopes (a_projectId asset) (as_db st)) st))"

definition delete_version_handler ::
  "('s, 'k, 'u, 'q, 't) asset_env \<Rightarrow> request \<Rightarrow> string \<Rightarrow> string \<Rightarrow> ('s, 'k, 'u, 'q, 't) asset_state
   \<Rightarrow> api_reply \<times> ('s, 'k, 'u, 'q, 't) asset_state" where
  "delete_version_handler env rq id' versionId st =
     on_asset rq DeleteAsset id' st (\<lambda>asset.
       (case deleteVersionWithFiles env id' versionId st of
          (None, st') \<Rightarrow> ((404, ApiError ''Version not found''), st')
        | (Some deleted, st') \<Rightarrow>
            ((204, EmptyBody), st'\<lparr>as_db := fold (\<lambda>scope. usage_decrement (ae_now env) scope (v_size deleted))
               (usageScopes (a_projectId asset) (as_db st')) (as_db st')\<rparr>)))"

definition updated_view :: "string \<Rightarrow> asset \<Rightarrow> database \<Rightarrow> api_reply" where
  "updated_view id' updated db =
     (200, case enrichAssetWithVersion id' db of None \<Rightarrow> PlainAsset updated | Some view \<Rightarrow> OneAsset view)"

definition only_active_version :: "string option \<Rightarrow> asset_patch" where
  "only_active_version versionId =
     \<lparr>ap_activeVersionId = Some versionId, ap_expiresAt = None, ap_description = None, ap_userMeta = None, ap_spa = None\<rparr>"

definition set_active_version_handler ::
  "request \<Rightarrow> string \<Rightarrow> string option \<Rightarrow> ('s, 'k, 'u, 'q, 't) asset_state \<Rightarrow> api_reply \<times> ('s, 'k, 'u, 'q, 't) asset_state" where
  "set_active_version_handler rq id' versionId st =
     on_asset rq UpdateAsset id' st (\<lambda>asset.
       (case updateAsset id' (only_active_version versionId) (as_db st) of
          (None, db) \<Rightarrow> ((404, ApiError ''Asset or version not found''), st\<lparr>as_db := db\<rparr>)
        | (Some updated, db) \<Rightarrow> (updated_view id' updated db, st\<lparr>as_db := db\<rparr>)))"

record update_body =
  pb_patch :: asset_patch
  pb_access :: "asset_access option"
  pb_password :: "string option"

definition changed_access ::
  "('s, 'k, 'u, 'q, 't) asset_env \<Rightarrow> string \<Rightarrow> asset \<Rightarrow> update_body \<Rightarrow> database \<Rightarrow> (nat \<times> string) option \<times> database" where
  "changed_access env salt asset body db =
     (case pb_access body of
        None \<Rightarrow> (None, db)
      | Some PublicAccess \<Rightarrow> setAssetAccess (ae_platform env) salt (ae_signingSecret env) asset ToPublic db
      | Some PasswordAccess \<Rightarrow>
          setAssetAccess (ae_platform env) salt (ae_signingSecret env) asset (ToPassword (pb_password body)) db)"

definition update_asset_handler ::
  "('s, 'k, 'u, 'q, 't) asset_env \<Rightarrow> string \<Rightarrow> request \<Rightarrow> string \<Rightarrow> update_body \<Rightarrow> ('s, 'k, 'u, 'q, 't) asset_state
   \<Rightarrow> api_reply \<times> ('s, 'k, 'u, 'q, 't) asset_state" where
  "update_asset_handler env salt rq id' body st =
     on_asset rq UpdateAsset id' st (\<lambda>existing.
       (case Option.bind (ap_spa (pb_patch body)) (checkSpaChange existing) of
          Some (status, e) \<Rightarrow> ((status, ApiError e), st)
        | None \<Rightarrow>
            (case changed_access env salt existing body (as_db st) of
               (Some (status, e), db) \<Rightarrow> ((status, ApiError e), st\<lparr>as_db := db\<rparr>)
             | (None, db) \<Rightarrow>
                 (case updateAsset id' (pb_patch body) db of
                    (None, db') \<Rightarrow> ((404, ApiError ''Asset not found or invalid activeVersionId''), st\<lparr>as_db := db'\<rparr>)
                  | (Some updated, db') \<Rightarrow> (updated_view id' updated db', st\<lparr>as_db := db'\<rparr>)))))"

definition update_version_handler ::
  "request \<Rightarrow> string \<Rightarrow> string \<Rightarrow> version_patch \<Rightarrow> ('s, 'k, 'u, 'q, 't) asset_state \<Rightarrow> api_reply \<times> ('s, 'k, 'u, 'q, 't) asset_state" where
  "update_version_handler rq id' versionId patch st =
     on_asset rq UpdateAsset id' st (\<lambda>asset.
       (case updateVersion id' versionId patch (as_db st) of
          (None, db) \<Rightarrow> ((404, ApiError ''Version not found''), st\<lparr>as_db := db\<rparr>)
        | (Some updated, db) \<Rightarrow> ((200, OneVersion updated), st\<lparr>as_db := db\<rparr>)))"

section \<open>The routes together\<close>

datatype asset_call =
    UploadCall upload_request
  | UploadVersionCall string upload_request
  | CreateSessionCall "string option" session_request
  | CompleteSessionCall string "upload_part list option"
  | ListAssetsCall "string list" "nat option" "string option" "string option" "string option"
  | GetAssetCall string
  | ListVersionsCall string "nat option" "string option"
  | GetVersionCall string string
  | ListFilesCall string "string option"
  | ExtractCall string
  | DeleteAssetCall string
  | DeleteVersionCall string string
  | SetActiveVersionCall string "string option"
  | UpdateAssetCall string update_body
  | UpdateVersionCall string string version_patch

record api_extras =
  ax_salt :: string
  ax_decode :: "string list \<Rightarrow> string list"
  ax_parse :: "string \<Rightarrow> blob"

fun run_asset_call ::
  "('s, 'k, 'u, 'q, 't) asset_env \<Rightarrow> api_extras \<Rightarrow> request \<Rightarrow> asset_call \<Rightarrow> ('s, 'k, 'u, 'q, 't) asset_state
   \<Rightarrow> api_reply \<times> ('s, 'k, 'u, 'q, 't) asset_state" where
  "run_asset_call env ext rq (UploadCall ul) st = upload_handler env rq ul st"
| "run_asset_call env ext rq (UploadVersionCall i ul) st = upload_version_handler env rq i ul st"
| "run_asset_call env ext rq (CreateSessionCall h body) st = create_session_handler env rq h body st"
| "run_asset_call env ext rq (CompleteSessionCall i parts) st = complete_session_handler env rq i parts st"
| "run_asset_call env ext rq (ListAssetsCall ws limit cursor w p) st = (list_assets_handler rq ws limit cursor w p (as_db st), st)"
| "run_asset_call env ext rq (GetAssetCall i) st = (get_asset_handler rq i (as_db st), st)"
| "run_asset_call env ext rq (ListVersionsCall i limit cursor) st = (list_versions_handler rq i limit cursor (as_db st), st)"
| "run_asset_call env ext rq (GetVersionCall i v) st = (get_version_handler rq i v (as_db st), st)"
| "run_asset_call env ext rq (ListFilesCall i p) st =
     (list_files_handler (ae_storage env) (ax_decode ext) (ax_parse ext) rq i p (as_db st) (as_objects st), st)"
| "run_asset_call env ext rq (ExtractCall i) st = extract_handler env rq i st"
| "run_asset_call env ext rq (DeleteAssetCall i) st = delete_asset_handler env rq i st"
| "run_asset_call env ext rq (DeleteVersionCall i v) st = delete_version_handler env rq i v st"
| "run_asset_call env ext rq (SetActiveVersionCall i v) st = set_active_version_handler rq i v st"
| "run_asset_call env ext rq (UpdateAssetCall i body) st = update_asset_handler env (ax_salt ext) rq i body st"
| "run_asset_call env ext rq (UpdateVersionCall i v patch) st = update_version_handler rq i v patch st"

end
