(* ===== verification/Api_Properties.thy ===== *)
theory Api_Properties
  imports Asset_Api
begin

text \<open>
  What the routes of \<open>Asset_Api\<close> guarantee together: the tables keep their keys, a call changes
  only assets its caller is authorized for, what it creates belongs to its caller, and the file
  listing does not depend on how its source is chunked.
\<close>

section \<open>The streamed listing\<close>

lemma emit_lines_append: "emit_lines parse p (a @ b) = emit_lines parse p a @ emit_lines parse p b"
  by (simp add: emit_lines_def)

lemma last_line_free: "newline \<notin> set (last (split_on newline s))"
  using split_on_sep_free[of _ newline s] split_on_not_Nil[of newline s] by (meson last_in_set)

lemma filter_chunks:
  "newline \<notin> set b \<Longrightarrow>
     filterNdjsonByPrefix parse p b cs = emit_lines parse p (split_on newline (b @ concat cs))"
proof (induction cs arbitrary: b)
  case Nil
  then show ?case by (simp add: split_on_id)
next
  case (Cons c cs)
  have "split_on newline (b @ c @ concat cs) =
      butlast (split_on newline (b @ c)) @ split_on newline (last (split_on newline (b @ c)) @ concat cs)"
    using split_on_append[of newline "b @ c" "concat cs"] by simp
  then show ?case using Cons.IH[OF last_line_free] by (simp add: Let_def emit_lines_append)
qed

text \<open>
  The streamed file listing equals the listing of the whole manifest, wherever the source is
  cut into chunks: exactly the lines under the prefix, each once and in order.
\<close>

theorem ndjson_filter_chunking:
  "filterNdjsonByPrefix parse prefix' [] chunks' = emit_lines parse prefix' (split_on newline (concat chunks'))"
  by (rule filter_chunks[where b = "[]", simplified])

section \<open>The keys of the tables\<close>

lemma keys_kept_writes:
  assumes "database_ok db"
  shows "database_ok (job_save j db)" and "database_ok (asset_save a db)" and "database_ok (asset_update i p db)"
    and "database_ok (asset_setProtection i v db)" and "database_ok (asset_delete i db)"
    and "database_ok (version_update k vp db)" and "database_ok (version_delete k db)"
    and "database_ok (snd (version_deleteByAssetId i db))" and "database_ok (cleanup_add now pre db)"
    and "database_ok (cleanup_remove pre db)" and "database_ok (usage_decrement now s n db)"
    and "database_ok (usage_decrement_for_asset now s n i db)" and "database_ok (snd (host_releaseByAsset i now db))"
proof -
  note defs = database_ok_def job_save_def asset_save_def asset_update_def asset_setProtection_def asset_delete_def
    version_update_def version_delete_def version_deleteByAssetId_def cleanup_add_def cleanup_remove_def
    usage_decrement_def usage_decrement_for_asset_def host_releaseByAsset_def Let_def
  show "database_ok (job_save j db)" "database_ok (asset_save a db)" "database_ok (asset_delete i db)"
    "database_ok (version_delete k db)" "database_ok (snd (version_deleteByAssetId i db))"
    "database_ok (cleanup_add now pre db)" "database_ok (cleanup_remove pre db)"
    using assms by (simp_all add: defs distinct_replace_row distinct_delete_rows)
  show "database_ok (asset_update i p db)" "database_ok (asset_setProtection i v db)" "database_ok (version_update k vp db)"
    "database_ok (usage_decrement now s n db)" "database_ok (usage_decrement_for_asset now s n i db)"
    "database_ok (snd (host_releaseByAsset i now db))"
    using assms by (simp_all add: defs map_update_rows)
qed

lemma usage_increment_ok: "database_ok db \<Longrightarrow> database_ok (usage_increment now s n db)"
  by (auto simp: database_ok_def usage_increment_def map_update_rows)

lemma usageStatements_ok: "database_ok db \<Longrightarrow> database_ok (usageStatements now ss n db)"
  unfolding usageStatements_def by (induction ss arbitrary: db) (simp_all add: usage_increment_ok)

lemma fold_decrement_ok:
  "database_ok db \<Longrightarrow> database_ok (fold (\<lambda>s. usage_decrement now s n) ss db)"
  "database_ok db \<Longrightarrow> database_ok (fold (\<lambda>s. usage_decrement_for_asset now s n i) ss db)"
  by (induction ss arbitrary: db) (simp_all add: keys_kept_writes)

lemma createAsset_ok: "database_ok db \<Longrightarrow> database_ok (createAsset now a job ss db)"
  by (simp add: createAsset_def Let_def usageStatements_ok keys_kept_writes split: option.split)

lemma createVersion_ok:
  assumes "database_ok db" and "createVersion now v job ss db = Some (w, db')"
  shows "database_ok db'"
proof -
  define db1 where "db1 = (case job of None \<Rightarrow> db | Some j \<Rightarrow> job_save j db)"
  have ok: "database_ok db1" using assms(1) by (simp add: db1_def keys_kept_writes split: option.split)
  obtain db2 where s: "version_save v db1 = Some (w, db2)" and db': "db' = usageStatements now ss (v_size v) db2"
    using assms(2) by (auto simp: createVersion_def db1_def Let_def split: option.splits)
  from version_save_numbers[OF ok s] have "database_ok db2" by blast
  then show ?thesis by (simp add: db' usageStatements_ok)
qed

lemma deleteAsset_ok: "database_ok db \<Longrightarrow> database_ok (deleteAsset now a ss p db)"
  unfolding deleteAsset_def by (intro keys_kept_writes fold_decrement_ok)

lemma saveJob_ok: "database_ok db \<Longrightarrow> database_ok (saveJob job a None db)"
  by (simp add: saveJob_def Let_def keys_kept_writes split: option.split)

lemma updateAsset_ok: "database_ok db \<Longrightarrow> database_ok (snd (updateAsset i p db))"
  by (simp add: updateAsset_def Let_def keys_kept_writes split: option.split)

lemma updateVersion_ok: "database_ok db \<Longrightarrow> database_ok (snd (updateVersion i v p db))"
  by (simp add: updateVersion_def Let_def keys_kept_writes split: option.split)

lemma setAssetAccess_ok: "database_ok db \<Longrightarrow> database_ok (snd (setAssetAccess pf salt secret a c db))"
  by (simp add: setAssetAccess_def Let_def keys_kept_writes split: access_change.split)

lemma changed_access_ok: "database_ok db \<Longrightarrow> database_ok (snd (changed_access env salt a body db))"
  by (simp add: changed_access_def setAssetAccess_ok split: option.split asset_access.split)

lemma compensated_db [simp]: "as_db (compensated env key st) = as_db st"
  by (simp add: compensated_def)

text \<open>What an upload writes: nothing, or one creation.\<close>

lemma uploadAsset_db:
  assumes "asset = uploaded_asset (ae_now env) (ae_ttlSeconds env) (ae_freshId env) file opts"
  shows "as_db (snd (uploadAsset env file opts st)) = as_db st
   \<or> (\<exists>job. (\<forall>j. job = Some j \<longrightarrow> j_id j = ae_freshId env) \<and>
        as_db (snd (uploadAsset env file opts st)) = createAsset (ae_now env) asset job (uo_usageScopes opts) (as_db st))"
proof -
  let ?i = "ae_freshId env"
  obtain r objs where put: "fs_put (ae_storage env) (storageKey ?i (uf_name file)) (uf_body file)
      (content_type_or_default (uf_type file)) (uf_size file) (truthy_or_none (uf_contentEncoding file)) (as_objects st) = (r, objs)"
    by fastforce
  let ?job = "if detectArchiveFormat (uf_name file) \<noteq> None \<and> \<not> uo_skipExtraction opts
    then Some (pending_extraction_job ?i ?i None (ae_now env) (uo_sessionId opts) (uo_projectId opts)) else None"
  have "as_db (snd (uploadAsset env file opts st)) = as_db st
      \<or> as_db (snd (uploadAsset env file opts st)) = createAsset (ae_now env) asset ?job (uo_usageScopes opts) (as_db st)"
    using put assms by (cases r; cases "ae_fate env") (simp_all add: uploadAsset_def Let_def)
  moreover have "\<forall>j. ?job = Some j \<longrightarrow> j_id j = ?i" by simp
  ultimately show ?thesis by blast
qed

lemma uploaded_asset_simps [simp]:
  "a_id (uploaded_asset now ttl i file opts) = i"
  "a_projectId (uploaded_asset now ttl i file opts) = truthy_or_none (uo_projectId opts)"
  "a_sessionId (uploaded_asset now ttl i file opts) = truthy_or_none (uo_sessionId opts)"
  "a_expiresAt (uploaded_asset now ttl i file opts) = (if truthy (uo_projectId opts) then 0 else now + ttl * 1000)"
  by (simp_all add: uploaded_asset_def Let_def)

lemma uploadAsset_writes:
  "as_db (snd (uploadAsset env file opts st)) = as_db st
   \<or> created_once (ae_freshId env) (as_db st) (as_db (snd (uploadAsset env file opts st)))"
  using uploadAsset_db[OF refl, of env "file" opts st] unfolding created_once_def by (metis uploaded_asset_simps(1))

definition version_created :: "string \<Rightarrow> database \<Rightarrow> database \<Rightarrow> bool" where
  \<comment> \<open>one version of the asset was written\<close>
  "version_created i db db' \<longleftrightarrow>
     (\<exists>now v job ss w. v_assetId v = i \<and> createVersion now v job ss db = Some (w, db'))"

lemma uploadVersion_writes:
  "as_db (snd (uploadVersion env i file skip scopes st)) = as_db st
   \<or> version_created i (as_db st) (as_db (snd (uploadVersion env i file skip scopes st)))"
proof (cases "asset_find i (as_db st)")
  case (Some asset)
  obtain r objs where put: "fs_put (ae_storage env) (versionStorageKey i (ae_freshId env) (uf_name file)) (uf_body file)
      (content_type_or_default (uf_type file)) (uf_size file) (truthy_or_none (uf_contentEncoding file)) (as_objects st) = (r, objs)"
    by fastforce
  let ?v = "uploaded_version (ae_now env) i (ae_freshId env) (ae_freshJobId env) file skip"
  let ?job = "if detectArchiveFormat (uf_name file) \<noteq> None \<and> \<not> skip
    then Some (pending_extraction_job (ae_freshJobId env) i (Some (ae_freshId env)) (ae_now env) (a_sessionId asset) (a_projectId asset)) else None"
  let ?ss = "if truthy (a_projectId asset) then scopes else []"
  have v: "v_assetId ?v = i" by (simp add: uploaded_version_def Let_def)
  show ?thesis
  proof (cases "createVersion (ae_now env) ?v ?job ?ss (as_db st)")
    case None
    then show ?thesis using Some put by (cases r) (simp_all add: uploadVersion_def Let_def)
  next
    case created: (Some out)
    obtain w db' where o: "out = (w, db')" by fastforce
    have "version_created i (as_db st) db'" unfolding version_created_def using v created o by blast
    moreover have "as_db (snd (uploadVersion env i file skip scopes st)) = as_db st
        \<or> as_db (snd (uploadVersion env i file skip scopes st)) = db'"
      using Some put created o by (cases r; cases "ae_fate env") (simp_all add: uploadVersion_def Let_def)
    ultimately show ?thesis by auto
  qed
qed (simp add: uploadVersion_def)

lemma created_once_ok: "created_once i db db' \<Longrightarrow> database_ok db \<Longrightarrow> database_ok db'"
  by (auto simp: created_once_def createAsset_ok)

lemma version_created_ok: "version_created i db db' \<Longrightarrow> database_ok db \<Longrightarrow> database_ok db'"
  by (auto simp: version_created_def dest: createVersion_ok)

lemma uploadAsset_ok: "database_ok (as_db st) \<Longrightarrow> database_ok (as_db (snd (uploadAsset env file opts st)))"
  using uploadAsset_writes[of env "file" opts st] created_once_ok by metis

lemma uploadVersion_ok: "database_ok (as_db st) \<Longrightarrow> database_ok (as_db (snd (uploadVersion env i file skip ss st)))"
  using uploadVersion_writes[of env i "file" skip ss st] version_created_ok by metis

lemma createUploadSession_db [simp]: "as_db (snd (createUploadSession env ps body sid pid skip st)) = as_db st"
  by (simp add: createUploadSession_def Let_def split: option.split)

lemma completeUploadSession_writes:
  "as_db (snd (completeUploadSession env i parts opts st)) = as_db st
   \<or> asset_find i (as_db st) = None \<and> created_once i (as_db st) (as_db (snd (completeUploadSession env i parts opts st)))"
proof (cases "asset_find i (as_db st)")
  case (Some a)
  then show ?thesis
    using complete_existing[of i st a env parts opts] by (cases "completeUploadSession env i parts opts st") auto
next
  case None
  then show ?thesis
    using complete_new[of i st env parts opts] by (cases "completeUploadSession env i parts opts st") auto
qed

lemma completeUploadSession_ok:
  assumes "database_ok (as_db st)"
  shows "database_ok (as_db (snd (completeUploadSession env i parts opts st)))"
proof -
  from completeUploadSession_writes[of env i parts opts st] assms created_once_ok show ?thesis by metis
qed

lemma deleteAssetWithFiles_ok:
  assumes "database_ok (as_db st)"
  shows "database_ok (as_db (deleteAssetWithFiles env asset ss st))"
proof -
  obtain names db1 where rel: "host_releaseByAsset (a_id asset) (ae_now env) (as_db st) = (names, db1)" by fastforce
  with keys_kept_writes(13)[OF assms, of "a_id asset" "ae_now env"] have ok: "database_ok db1" by simp
  obtain d b objs where del: "deleteAllR2Objects (ae_storage env) (asset_prefix (a_id asset)) inline_budget (as_objects st) = (d, b, objs)"
    by (rule prod_cases3)
  show ?thesis using rel del deleteAsset_ok[OF ok] keys_kept_writes(10)
    by (simp add: deleteAssetWithFiles_def releaseAssetSiteHosts_def Let_def)
qed

lemma deleteVersionWithFiles_ok:
  assumes "database_ok (as_db st)"
  shows "database_ok (as_db (snd (deleteVersionWithFiles env i v st)))"
  using assms
  by (simp add: deleteVersionWithFiles_def deactivate_def Let_def keys_kept_writes split: option.split prod.split)

lemma on_access_cases:
  "snd (on_access access nf st k) = (case access of Granted v \<Rightarrow> snd (k v) | _ \<Rightarrow> st)"
  by (simp add: on_access_def split: decision.split)

definition ok_after :: "('a \<times> ('s, 'k, 'u, 'q, 't) asset_state) \<Rightarrow> bool" where
  "ok_after out = database_ok (as_db (snd out))"

lemma ok_after_simps:
  "ok_after (r, st) = database_ok (as_db st)"
  "ok_after (case s of Inl e \<Rightarrow> f e | Inr v \<Rightarrow> g v) = (case s of Inl e \<Rightarrow> ok_after (f e) | Inr v \<Rightarrow> ok_after (g v))"
  "ok_after (case p of (x, y) \<Rightarrow> h x y) = (case p of (x, y) \<Rightarrow> ok_after (h x y))"
  "ok_after (case o' of None \<Rightarrow> d | Some z \<Rightarrow> k z) = (case o' of None \<Rightarrow> ok_after d | Some z \<Rightarrow> ok_after (k z))"
  "ok_after (if b then t else u) = (if b then ok_after t else ok_after u)"
  by (simp_all add: ok_after_def split: sum.split prod.split option.split)

lemma ok_on_asset:
  "ok_after (on_asset rq action i st k) = (case authorizeAsset (accessCtx rq (as_db st)) (asset_find i (as_db st)) action of
     Granted v \<Rightarrow> ok_after (k v) | _ \<Rightarrow> database_ok (as_db st))"
  by (simp add: on_asset_def on_access_def ok_after_simps split: decision.split)

lemma usecase_ok:
  assumes "database_ok (as_db st)"
  shows "uploadAsset env file opts st = (ra, st') \<Longrightarrow> database_ok (as_db st')"
    and "uploadVersion env i file skip ss st = (rv, st') \<Longrightarrow> database_ok (as_db st')"
    and "createUploadSession env ps body sid pid skip st = (rs, st') \<Longrightarrow> database_ok (as_db st')"
    and "completeUploadSession env i parts opts st = (rc, st') \<Longrightarrow> database_ok (as_db st')"
    and "deleteVersionWithFiles env i v st = (rd, st') \<Longrightarrow> database_ok (as_db st')"
  using assms uploadAsset_ok[of st env "file" opts] uploadVersion_ok[of st env i "file" skip ss]
    createUploadSession_db[of env ps body sid pid skip st] completeUploadSession_ok[of st env i parts opts]
    deleteVersionWithFiles_ok[of st env i v]
  by simp_all

lemma table_ok:
  assumes "database_ok db"
  shows "updateAsset i p db = (ra, db') \<Longrightarrow> database_ok db'" and "updateVersion i v vp db = (rv, db') \<Longrightarrow> database_ok db'"
    and "changed_access env salt a body db = (rc, db') \<Longrightarrow> database_ok db'"
  using assms updateAsset_ok[of db i p] updateVersion_ok[of db i v vp] changed_access_ok[of db env salt a body]
  by simp_all

lemma upload_handler_ok: "database_ok (as_db st) \<Longrightarrow> ok_after (upload_handler env rq ul st)"
  by (auto simp: upload_handler_def ok_after_simps split: option.split sum.split prod.split dest: usecase_ok)

lemma upload_version_handler_ok: "database_ok (as_db st) \<Longrightarrow> ok_after (upload_version_handler env rq i ul st)"
  by (auto simp: upload_version_handler_def ok_on_asset ok_after_simps
      split: option.split sum.split prod.split decision.split dest: usecase_ok)

lemma create_session_handler_ok: "database_ok (as_db st) \<Longrightarrow> ok_after (create_session_handler env rq h body st)"
  by (auto simp: create_session_handler_def ok_after_simps split: option.split sum.split prod.split dest: usecase_ok)

lemma complete_session_handler_ok:
  assumes "database_ok (as_db st)"
  shows "ok_after (complete_session_handler env rq i parts st)"
proof -
  obtain so u where s: "session_find (ae_sessions env) (ae_now env) i (as_sessions st) = (so, u)" by fastforce
  have "database_ok (as_db (st\<lparr>as_sessions := u\<rparr>))" using assms by simp
  from usecase_ok(4)[OF this] s assms show ?thesis
    by (auto simp: complete_session_handler_def Let_def ok_after_simps split: option.split sum.split prod.split decision.split)
qed

lemma extract_handler_ok: "database_ok (as_db st) \<Longrightarrow> ok_after (extract_handler env rq i st)"
  by (auto simp: extract_handler_def ok_on_asset ok_after_simps start_extraction_def Let_def saveJob_ok
      split: option.split prod.split decision.split)

lemma delete_handlers_ok:
  assumes "database_ok (as_db st)"
  shows "ok_after (delete_asset_handler env rq i st)" and "ok_after (delete_version_handler env rq i v st)"
  using assms deleteAssetWithFiles_ok[OF assms]
  by (auto simp: delete_asset_handler_def delete_version_handler_def ok_on_asset ok_after_simps
      split: option.split prod.split decision.split intro!: fold_decrement_ok dest: usecase_ok)

lemma update_handlers_ok:
  assumes "database_ok (as_db st)"
  shows "ok_after (set_active_version_handler rq i v st)" and "ok_after (update_asset_handler env salt rq i body st)"
    and "ok_after (update_version_handler rq i k vp st)"
  using assms
  by (auto simp: set_active_version_handler_def update_asset_handler_def update_version_handler_def ok_on_asset ok_after_simps
      split: option.split prod.split decision.split dest: table_ok)

lemma run_asset_call_ok: "database_ok (as_db st) \<Longrightarrow> ok_after (run_asset_call env ext rq call st)"
  by (cases call)
    (simp_all add: upload_handler_ok upload_version_handler_ok create_session_handler_ok complete_session_handler_ok
      extract_handler_ok delete_handlers_ok update_handlers_ok ok_after_simps)

fun run_asset_calls ::
  "(('s, 'k, 'u, 'q, 't) asset_env \<times> api_extras \<times> request \<times> asset_call) list \<Rightarrow> ('s, 'k, 'u, 'q, 't) asset_state
   \<Rightarrow> ('s, 'k, 'u, 'q, 't) asset_state" where
  "run_asset_calls [] st = st"
| "run_asset_calls ((env, ext, rq, call) # calls) st = run_asset_calls calls (snd (run_asset_call env ext rq call st))"

text \<open>
  C28: The tables stay well-formed. After any sequence of calls to the asset and version routes,
  by any callers, with any fates of the writes and any identifiers drawn, every primary key of the
  schema is unique and no asset has two versions with one number.
\<close>

theorem asset_calls_keep_tables:
  assumes "database_ok (as_db st)"
  shows "database_ok (as_db (run_asset_calls calls st))"
  using assms
proof (induction calls arbitrary: st)
  case (Cons c calls)
  obtain env ext rq call where c: "c = (env, ext, rq, call)" by (rule prod_cases4)
  have "database_ok (as_db (snd (run_asset_call env ext rq call st)))"
    using run_asset_call_ok[OF Cons.prems, of env ext rq call] by (simp add: ok_after_def)
  from Cons.IH[OF this] show ?case by (simp add: c)
qed simp

section \<open>Assets of others\<close>

definition same_asset :: "string \<Rightarrow> database \<Rightarrow> database \<Rightarrow> bool" where
  \<comment> \<open>the asset's row, versions and site names are as they were\<close>
  "same_asset i db db' \<longleftrightarrow> asset_row_of i db' = asset_row_of i db
     \<and> filter (\<lambda>v. v_assetId v = i) (db_versions db') = filter (\<lambda>v. v_assetId v = i) (db_versions db)
     \<and> filter (\<lambda>h. sh_assetId h = Some i) (db_hosts db') = filter (\<lambda>h. sh_assetId h = Some i) (db_hosts db)"

lemma same_refl [simp]: "same_asset i db db"
  by (simp add: same_asset_def)

lemma same_trans: "same_asset i db db1 \<Longrightarrow> same_asset i db1 db2 \<Longrightarrow> same_asset i db db2"
  by (simp add: same_asset_def)

lemma same_tables:
  "db_assets db' = db_assets db \<Longrightarrow> db_versions db' = db_versions db \<Longrightarrow> db_hosts db' = db_hosts db \<Longrightarrow> same_asset i db db'"
  by (simp add: same_asset_def asset_row_of_def)

lemma filter_update_rows:
  "(\<And>r. r \<in> set t \<Longrightarrow> P r \<Longrightarrow> \<not> Q r \<and> \<not> Q (f r)) \<Longrightarrow> filter Q (update_rows P f t) = filter Q t"
  by (induction t) (auto simp: update_rows_def)

lemma filter_delete_rows: "(\<And>r. r \<in> set t \<Longrightarrow> P r \<Longrightarrow> \<not> Q r) \<Longrightarrow> filter Q (delete_rows P t) = filter Q t"
  by (induction t) (auto simp: delete_rows_def)

lemma usage_tables [simp]:
  "db_hosts (usageStatements now ss n db) = db_hosts db"
  "db_assets (fold (\<lambda>s. usage_decrement now s n) ss db) = db_assets db"
  "db_versions (fold (\<lambda>s. usage_decrement now s n) ss db) = db_versions db"
  "db_hosts (fold (\<lambda>s. usage_decrement now s n) ss db) = db_hosts db"
proof -
  have "db_hosts (usage_increment now s n db) = db_hosts db" for s db by (simp add: usage_increment_def)
  then show "db_hosts (usageStatements now ss n db) = db_hosts db"
    unfolding usageStatements_def by (induction ss arbitrary: db) simp_all
qed (induction ss arbitrary: db, simp_all add: usage_decrement_def)+

lemma same_writes:
  shows "same_asset i db (job_save j db)" and "a_id a \<noteq> i \<Longrightarrow> same_asset i db (asset_save a db)"
    and "k \<noteq> i \<Longrightarrow> same_asset i db (asset_update k p db)" and "k \<noteq> i \<Longrightarrow> same_asset i db (asset_setProtection k pv db)"
    and "same_asset i db (usageStatements now ss n db)" and "same_asset i db (cleanup_add now pre db)"
    and "same_asset i db (cleanup_remove pre db)" and "same_asset i db (fold (\<lambda>s. usage_decrement now s n) ss db)"
    and "k \<noteq> i \<Longrightarrow> same_asset i db (snd (host_releaseByAsset k now db))"
proof -
  show "a_id a \<noteq> i \<Longrightarrow> same_asset i db (asset_save a db)"
    by (simp add: same_asset_def asset_row_of_save) (simp add: asset_save_def Let_def)
  show "k \<noteq> i \<Longrightarrow> same_asset i db (asset_update k p db)"
    by (simp add: same_asset_def asset_row_of_update) (simp add: asset_update_def)
  show "k \<noteq> i \<Longrightarrow> same_asset i db (asset_setProtection k pv db)"
    by (simp add: same_asset_def asset_row_of_protect) (simp add: asset_setProtection_def)
  show "k \<noteq> i \<Longrightarrow> same_asset i db (snd (host_releaseByAsset k now db))"
    by (auto simp: same_asset_def asset_row_of_def host_releaseByAsset_def intro!: filter_update_rows)
qed (rule same_tables, simp_all add: job_save_def cleanup_add_def cleanup_remove_def)+

lemma same_created: "created_once k db db' \<Longrightarrow> k \<noteq> i \<Longrightarrow> same_asset i db db'"
  by (auto simp: created_once_def createAsset_def Let_def intro!: same_trans[OF _ same_writes(5)] same_trans[OF _ same_writes(2)]
      same_writes(1) split: option.split)

lemma same_version_created:
  assumes "version_created k db db'" and "k \<noteq> i"
  shows "same_asset i db db'"
proof -
  obtain now v job ss w where c: "v_assetId v = k" "createVersion now v job ss db = Some (w, db')"
    using assms(1) by (auto simp: version_created_def)
  define db1 where "db1 = (case job of None \<Rightarrow> db | Some j \<Rightarrow> job_save j db)"
  obtain db2 where s: "version_save v db1 = Some (w, db2)" and db': "db' = usageStatements now ss (v_size v) db2"
    using c(2) by (auto simp: createVersion_def db1_def Let_def split: option.splits)
  have "same_asset i db db1" by (simp add: db1_def same_writes split: option.split)
  moreover have "same_asset i db1 db2"
    using s c(1) assms(2)
    by (auto simp: same_asset_def asset_row_of_def version_save_def Let_def versionInsertArgs_def split: if_splits)
  ultimately show ?thesis unfolding db' using same_trans same_writes(5) by blast
qed

lemma same_deleteAsset: "a_id a \<noteq> i \<Longrightarrow> same_asset i db (deleteAsset now a ss p db)"
  by (simp add: same_asset_def asset_row_of_def find_delete_rows filter_delete_rows del: find_row_None)

lemma version_owner:
  assumes "database_ok db" and "version_find k db = Some v" and "r \<in> set (db_versions db)" and "v_id r = k"
  shows "v_assetId r = v_assetId v"
proof -
  have "find_row v_id k (db_versions db) = Some v" using assms(2) by (simp add: version_find_def)
  with assms(1,3,4) show ?thesis by (auto simp: database_ok_def find_row_Some_iff distinct_map inj_on_def)
qed

lemma same_version_writes:
  assumes "database_ok db" and "version_find k db = Some v" and "v_assetId v \<noteq> i"
  shows "same_asset i db (version_delete k db)" and "same_asset i db (version_update k p db)"
  using version_owner[OF assms(1,2)] assms(3)
  by (auto simp: same_asset_def asset_row_of_def version_delete_def version_update_def filter_delete_rows filter_update_rows)

definition same_objects :: "string \<Rightarrow> memory_storage \<Rightarrow> memory_storage \<Rightarrow> bool" where
  "same_objects i s s' \<longleftrightarrow> (\<forall>k. starts_with (asset_prefix i) k \<longrightarrow> map_of (ms_objects s') k = map_of (ms_objects s) k)"

lemma same_objects_refl [simp]: "same_objects i s s"
  by (simp add: same_objects_def)

lemma same_objects_trans: "same_objects i s s1 \<Longrightarrow> same_objects i s1 s2 \<Longrightarrow> same_objects i s s2"
  by (simp add: same_objects_def)

lemma release_other: "k \<noteq> key \<Longrightarrow> map_of (ms_objects (mem_release key s)) k = map_of (ms_objects s) k"
  by (simp add: mem_release_def map_of_own_delete split: option.split)

lemma put_other:
  assumes "mem_put md5 key body ct n enc s = (r, s')" and "k \<noteq> key"
  shows "map_of (ms_objects s') k = map_of (ms_objects s) k"
  using assms
  by (auto simp: mem_put_def mem_reserve_def mem_commit_def Let_def map_of_own_set release_other
      split: if_splits option.splits sum.splits)

lemma deleteMany_other: "k \<notin> set ks \<Longrightarrow> map_of (ms_objects (mem_deleteMany ks s)) k = map_of (ms_objects s) k"
  unfolding mem_deleteMany_def by (induction ks arbitrary: s) (simp_all add: release_other)

lemma delete_pages_other:
  "fs = memory_storage_port md5 \<Longrightarrow> \<not> starts_with p k \<Longrightarrow>
     map_of (ms_objects (snd (snd (delete_pages fs p c b s)))) k = map_of (ms_objects s) k"
proof (induction fs p c b s rule: delete_pages.induct)
  case (1 fs p c b s)
  obtain ks next' where l: "fs_list fs p (Some 1000) c s = (ks, next')" by fastforce
  have ks: "k \<notin> set ks"
    using mem_list_matching[of p 1000 c s ks next'] l 1 by (auto simp: memory_storage_port_def dest: in_set_takeD)
  show ?case
  proof (cases "\<not> canAfford b 2")
    case True
    then show ?thesis by (simp add: delete_pages.simps[of fs p c b s])
  next
    case afford: False
    obtain b1 s1 where pg: "delete_page fs ks (charge 1 b) s = Some (b1, s1)"
      using 1(2) by (cases "ks = []") (auto simp: delete_page_def memory_storage_port_def)
    have s1: "map_of (ms_objects s1) k = map_of (ms_objects s) k"
      using pg 1(2) deleteMany_other[OF ks] by (auto simp: delete_page_def memory_storage_port_def split: if_splits)
    show ?thesis
    proof (cases "next' = None \<or> next' = Some []")
      case True
      then show ?thesis using afford l pg s1 by (simp add: delete_pages.simps[of fs p c b s])
    next
      case False
      then obtain d where "next' = Some d" "d \<noteq> []" by auto
      then have "delete_pages fs p c b s = delete_pages fs p next' b1 s1"
        using afford l pg by (simp add: delete_pages.simps[of fs p c b s])
      with 1(1)[OF afford l[symmetric] pg refl False 1(2,3)] s1 show ?thesis by simp
    qed
  qed
qed

lemma starts_with_iff: "starts_with p k \<longleftrightarrow> (\<exists>rest. k = p @ rest)"
  by (auto simp: starts_with_def) (metis append_take_drop_id)

lemma other_prefix:
  assumes "CHR ''/'' \<notin> set i" and "CHR ''/'' \<notin> set j" and "i \<noteq> j" and "starts_with (asset_prefix i) k"
  shows "\<not> starts_with (asset_prefix j) k"
  using asset_prefix_inj[OF assms(2,1)] assms(3,4) by (auto simp: starts_with_iff asset_prefix_def)

lemma keys_prefixed [simp]:
  "starts_with (asset_prefix j) (storageKey j f)" "starts_with (asset_prefix j) (versionStorageKey j v f)"
  "starts_with (version_prefix j v) k \<Longrightarrow> starts_with (asset_prefix j) k"
  by (auto simp: starts_with_iff asset_prefix_def storageKey_def versionStorageKey_def version_prefix_def)

lemma same_objects_other:
  assumes "CHR ''/'' \<notin> set i" and "CHR ''/'' \<notin> set j" and "i \<noteq> j"
  shows "starts_with (asset_prefix j) key \<Longrightarrow> mem_put md5 key body ct n enc s = (r, s') \<Longrightarrow> same_objects i s s'"
    and "starts_with (asset_prefix j) key \<Longrightarrow> same_objects i s (mem_release key s)"
    and "\<forall>k. starts_with p k \<longrightarrow> starts_with (asset_prefix j) k \<Longrightarrow>
      deleteAllR2Objects (memory_storage_port md5) p b s = (d, b', s') \<Longrightarrow> same_objects i s s'"
proof -
  note other = other_prefix[OF assms]
  show "starts_with (asset_prefix j) key \<Longrightarrow> mem_put md5 key body ct n enc s = (r, s') \<Longrightarrow> same_objects i s s'"
    using other put_other unfolding same_objects_def by metis
  show "starts_with (asset_prefix j) key \<Longrightarrow> same_objects i s (mem_release key s)"
    using other release_other unfolding same_objects_def by metis
  assume "\<forall>k. starts_with p k \<longrightarrow> starts_with (asset_prefix j) k"
    and del: "deleteAllR2Objects (memory_storage_port md5) p b s = (d, b', s')"
  then have "\<not> starts_with p k" if "starts_with (asset_prefix i) k" for k using other[OF that] by blast
  from delete_pages_other[where fs = "memory_storage_port md5", OF refl this, where c = None and b = b and s = s] del
  show "same_objects i s s'" unfolding same_objects_def deleteAllR2Objects_def by (metis snd_conv)
qed

definition others_same ::
  "string \<Rightarrow> (memory_storage, 'k, 'u, 'q, 't) asset_state \<Rightarrow> (memory_storage, 'k, 'u, 'q, 't) asset_state \<Rightarrow> bool" where
  "others_same i st st' \<longleftrightarrow> same_asset i (as_db st) (as_db st') \<and> same_objects i (as_objects st) (as_objects st')"

lemma others_refl [simp]: "others_same i st st"
  by (simp add: others_same_def)

lemma others_db: "same_asset i (as_db st) db \<Longrightarrow> others_same i st (st\<lparr>as_db := db\<rparr>)"
  by (simp add: others_same_def)

lemma uploadAsset_others:
  assumes "CHR ''/'' \<notin> set i" and "CHR ''/'' \<notin> set (ae_freshId env)" and "i \<noteq> ae_freshId env"
    and "ae_storage env = memory_storage_port md5"
  shows "others_same i st (snd (uploadAsset env file opts st))"
proof -
  let ?key = "storageKey (ae_freshId env) (uf_name file)"
  note other = same_objects_other[OF assms(1-3)]
  obtain r objs where put: "mem_put md5 ?key (uf_body file) (content_type_or_default (uf_type file)) (uf_size file)
      (truthy_or_none (uf_contentEncoding file)) (as_objects st) = (r, objs)" by fastforce
  have o: "same_objects i (as_objects st) objs" by (rule other(1)[OF _ put]) simp
  have "same_objects i (as_objects st) (mem_release ?key objs)" by (rule same_objects_trans[OF o other(2)]) simp
  with o have "same_objects i (as_objects st) (as_objects (snd (uploadAsset env file opts st)))"
    using put assms(4) by (cases r; cases "ae_fate env") (simp_all add: uploadAsset_def Let_def compensated_def)
  moreover have "same_asset i (as_db st) (as_db (snd (uploadAsset env file opts st)))"
    using uploadAsset_writes[of env "file" opts st] same_created assms(3) by (metis same_refl)
  ultimately show ?thesis by (simp add: others_same_def)
qed

lemma uploadVersion_others:
  assumes "CHR ''/'' \<notin> set i" and "CHR ''/'' \<notin> set j" and "i \<noteq> j" and "ae_storage env = memory_storage_port md5"
  shows "others_same i st (snd (uploadVersion env j file skip scopes st))"
proof -
  let ?key = "versionStorageKey j (ae_freshId env) (uf_name file)"
  note other = same_objects_other[OF assms(1-3)]
  obtain r objs where put: "mem_put md5 ?key (uf_body file) (content_type_or_default (uf_type file)) (uf_size file)
      (truthy_or_none (uf_contentEncoding file)) (as_objects st) = (r, objs)" by fastforce
  have o: "same_objects i (as_objects st) objs" by (rule other(1)[OF _ put]) simp
  have c: "same_objects i (as_objects st) (mem_release ?key objs)" by (rule same_objects_trans[OF o other(2)]) simp
  have "as_objects (snd (uploadVersion env j file skip scopes st)) \<in> {as_objects st, objs, mem_release ?key objs}"
  proof (cases "asset_find j (as_db st)")
    case (Some asset)
    let ?created = "createVersion (ae_now env) (uploaded_version (ae_now env) j (ae_freshId env) (ae_freshJobId env) file skip)
      (if detectArchiveFormat (uf_name file) \<noteq> None \<and> \<not> skip
       then Some (pending_extraction_job (ae_freshJobId env) j (Some (ae_freshId env)) (ae_now env) (a_sessionId asset) (a_projectId asset)) else None)
      (if truthy (a_projectId asset) then scopes else []) (as_db st)"
    obtain out where out: "?created = out" by blast
    show ?thesis
      using Some put assms(4) out
      by (cases r; cases out; cases "ae_fate env") (simp_all add: uploadVersion_def Let_def compensated_def split: prod.split)
  qed (simp add: uploadVersion_def)
  with o c have "same_objects i (as_objects st) (as_objects (snd (uploadVersion env j file skip scopes st)))" by auto
  moreover have "same_asset i (as_db st) (as_db (snd (uploadVersion env j file skip scopes st)))"
    using uploadVersion_writes[of env j "file" skip scopes st] same_version_created assms(3) by (metis same_refl)
  ultimately show ?thesis by (simp add: others_same_def)
qed

lemma createUploadSession_frame [simp]: "as_objects (snd (createUploadSession env ps body sid pid skip st)) = as_objects st"
  by (simp add: createUploadSession_def Let_def split: option.split)

lemma completeUploadSession_objects:
  "as_objects (snd (completeUploadSession env j parts opts st)) = as_objects st
   \<or> (\<exists>sess h. uploaded_head env (storageKey j (us_filename sess)) sess parts (as_objects st) =
        (h, as_objects (snd (completeUploadSession env j parts opts st))))"
proof -
  obtain so u where s: "session_find (ae_sessions env) (ae_now env) j (as_sessions st) = (so, u)" by fastforce
  show ?thesis
  proof (cases so)
    case (Some sess)
    obtain h objs where h: "uploaded_head env (storageKey j (us_filename sess)) sess parts (as_objects st) = (h, objs)" by fastforce
    have "as_objects (snd (completeUploadSession env j parts opts st)) \<in> {as_objects st, objs}"
      using s Some h
      by (cases "asset_find j (as_db st)"; cases h; cases "ae_fate env") (simp_all add: completeUploadSession_def Let_def)
    with h show ?thesis by auto
  qed (simp add: completeUploadSession_def s)
qed

lemma completeUploadSession_others:
  assumes "CHR ''/'' \<notin> set i" and "CHR ''/'' \<notin> set j" and "ae_storage env = memory_storage_port md5"
    and "\<forall>key u ps s k. k \<noteq> key \<longrightarrow> map_of (ms_objects (ae_completeMultipart env key u ps s)) k = map_of (ms_objects s) k"
    and "asset_find i (as_db st) = Some a"
  shows "others_same i st (snd (completeUploadSession env j parts opts st))"
proof (cases "i = j")
  case True
  then show ?thesis
    using complete_existing[OF assms(5), of env parts opts]
    by (cases "completeUploadSession env j parts opts st") (simp add: others_same_def)
next
  case False
  note other = other_prefix[OF assms(1,2) False]
  have head: "same_objects i s s'" if "uploaded_head env (storageKey j f) sess parts s = (h, s')" for f sess s h s'
  proof -
    have "s' = s \<or> (\<exists>u ps. s' = ae_completeMultipart env (storageKey j f) u ps s)"
      using that by (auto simp: uploaded_head_def Let_def split: option.splits if_splits)
    moreover have "k \<noteq> storageKey j f" if "starts_with (asset_prefix i) k" for k using other[OF that] by auto
    ultimately show ?thesis using assms(4) unfolding same_objects_def by metis
  qed
  have "same_objects i (as_objects st) (as_objects (snd (completeUploadSession env j parts opts st)))"
    using completeUploadSession_objects[of env j parts opts st] head by (metis same_objects_refl)
  moreover have "same_asset i (as_db st) (as_db (snd (completeUploadSession env j parts opts st)))"
    using completeUploadSession_writes[of env j parts opts st] same_created False by (metis same_refl)
  ultimately show ?thesis by (simp add: others_same_def)
qed

lemma deleteAsset_others:
  assumes "CHR ''/'' \<notin> set i" and "CHR ''/'' \<notin> set (a_id asset)" and "i \<noteq> a_id asset"
    and "ae_storage env = memory_storage_port md5"
  shows "others_same i st (deleteAssetWithFiles env asset ss st)"
proof -
  obtain d b objs where del: "deleteAllR2Objects (memory_storage_port md5) (asset_prefix (a_id asset)) inline_budget (as_objects st) = (d, b, objs)"
    by (rule prod_cases3)
  obtain names db1 where rel: "host_releaseByAsset (a_id asset) (ae_now env) (as_db st) = (names, db1)" by fastforce
  have "same_asset i (as_db st) db1" using same_writes(9)[of "a_id asset" i "as_db st" "ae_now env"] rel assms(3) by simp
  then have "same_asset i (as_db st) (deleteAsset (ae_now env) asset ss (asset_prefix (a_id asset)) db1)"
    using same_deleteAsset[of asset i] assms(3) same_trans by metis
  moreover have "same_objects i (as_objects st) objs"
    by (rule same_objects_other(3)[OF assms(1-3) _ del]) simp
  ultimately show ?thesis
    using del rel assms(4) same_trans[OF _ same_writes(7)]
    by (simp add: others_same_def deleteAssetWithFiles_def releaseAssetSiteHosts_def Let_def)
qed

lemma deleteVersion_others:
  assumes "CHR ''/'' \<notin> set i" and "CHR ''/'' \<notin> set j" and "i \<noteq> j"
    and "ae_storage env = memory_storage_port md5" and "database_ok (as_db st)"
  shows "others_same i st (snd (deleteVersionWithFiles env j k st))"
proof (cases "version_find k (as_db st)")
  case (Some v)
  show ?thesis
  proof (cases "v_assetId v = j")
    case True
    obtain d b objs where del: "deleteAllR2Objects (memory_storage_port md5) (version_prefix j k) inline_budget (as_objects st) = (d, b, objs)"
      by (rule prod_cases3)
    have "same_asset i (as_db st) (version_delete k (as_db st))"
      using same_version_writes(1)[OF assms(5) Some] True assms(3) by simp
    then have "same_asset i (as_db st) (deactivate j k (version_delete k (as_db st)))"
      using same_writes(3)[of j i] assms(3) same_trans by (simp add: deactivate_def)
    moreover have "same_objects i (as_objects st) objs"
      by (rule same_objects_other(3)[OF assms(1-3) _ del]) simp
    ultimately show ?thesis
      using Some True del assms(4) same_trans[OF _ same_writes(6)]
      by (simp add: deleteVersionWithFiles_def Let_def others_same_def)
  qed (simp add: deleteVersionWithFiles_def Some)
qed (simp add: deleteVersionWithFiles_def)

lemma updates_others:
  assumes "i \<noteq> j" and "database_ok db"
  shows "same_asset i db (snd (updateAsset j p db))" and "same_asset i db (snd (updateVersion j k vp db))"
    and "a_id a = j \<Longrightarrow> same_asset i db (snd (changed_access env salt a body db))"
proof -
  show "same_asset i db (snd (updateAsset j p db))"
    using assms by (simp add: updateAsset_def Let_def same_writes split: option.split)
  show "same_asset i db (snd (updateVersion j k vp db))"
    using assms same_version_writes(2)[OF assms(2), of k] by (simp add: updateVersion_def Let_def split: option.split)
  show "a_id a = j \<Longrightarrow> same_asset i db (snd (changed_access env salt a body db))"
    using assms by (simp add: changed_access_def setAssetAccess_def Let_def same_writes split: option.split asset_access.split)
qed

lemma granted_found: "authorizeAsset ctx t action = Granted v \<Longrightarrow> t = Some v"
  by (auto simp: authorizeAsset_def authorizeOwned_def split: option.splits if_splits decision.splits)

lemma on_asset_others:
  assumes "\<forall>action v. authorizeAsset (accessCtx rq (as_db st)) (asset_find i (as_db st)) action \<noteq> Granted v"
    and "\<And>v. i \<noteq> j \<Longrightarrow> asset_find j (as_db st) = Some v \<Longrightarrow> a_id v = j \<Longrightarrow> others_same i st (snd (k v))"
  shows "others_same i st (snd (on_asset rq action j st k))"
proof (cases "authorizeAsset (accessCtx rq (as_db st)) (asset_find j (as_db st)) action")
  case (Granted v)
  from granted_found[OF this] have f: "asset_find j (as_db st) = Some v" .
  have "i \<noteq> j" using assms(1) Granted by metis
  from assms(2)[OF this f asset_find_id[OF f]] Granted show ?thesis by (simp add: on_asset_def on_access_def)
qed (simp_all add: on_asset_def on_access_def)

lemma others_sessions: "others_same i st (st\<lparr>as_sessions := u\<rparr>)"
  by (simp add: others_same_def)

lemma others_after_sessions: "others_same i (st\<lparr>as_sessions := u\<rparr>) st' \<Longrightarrow> others_same i st st'"
  by (simp add: others_same_def)

lemma start_extraction_others:
  assumes "i \<noteq> a_id asset"
  shows "others_same i st (snd (start_extraction env rq asset st))"
proof -
  have "same_asset i (as_db st) (saveJob j (Some (asset\<lparr>a_status := s, a_jobId := jid\<rparr>)) None (as_db st))" for j s jid
    using assms same_trans[OF same_writes(1) same_writes(2)[of "asset\<lparr>a_status := s, a_jobId := jid\<rparr>" i]]
    by (simp add: saveJob_def Let_def)
  then show ?thesis by (simp add: start_extraction_def Let_def others_same_def split: option.split prod.split)
qed

definition stranger :: "request \<Rightarrow> string \<Rightarrow> database \<Rightarrow> bool" where
  \<comment> \<open>the asset exists, and the caller is granted no action on it\<close>
  "stranger rq i db \<longleftrightarrow> asset_find i db \<noteq> None \<and>
     (\<forall>action v. authorizeAsset (accessCtx rq db) (asset_find i db) action \<noteq> Granted v)"

definition completes_own_key :: "(memory_storage, 'k, 'u, 'q, 't) asset_env \<Rightarrow> bool" where
  \<comment> \<open>completing a multipart upload touches the object it is about\<close>
  "completes_own_key env \<longleftrightarrow>
     (\<forall>key u ps s k. k \<noteq> key \<longrightarrow> map_of (ms_objects (ae_completeMultipart env key u ps s)) k = map_of (ms_objects s) k)"

lemma stranger_denied: "stranger rq i (as_db st) \<Longrightarrow>
    \<forall>action v. authorizeAsset (accessCtx rq (as_db st)) (asset_find i (as_db st)) action \<noteq> Granted v"
  by (simp add: stranger_def)

lemmas on_asset_stranger = on_asset_others[OF stranger_denied]

lemma upload_handler_others:
  assumes "CHR ''/'' \<notin> set i" and "CHR ''/'' \<notin> set (ae_freshId env)" and "i \<noteq> ae_freshId env"
    and "ae_storage env = memory_storage_port md5"
  shows "others_same i st (snd (upload_handler env rq ul st))"
  using uploadAsset_others[OF assms]
  by (auto simp: upload_handler_def split: option.split sum.split prod.split) (metis snd_conv)+

lemma upload_version_handler_others:
  assumes "stranger rq i (as_db st)" and "CHR ''/'' \<notin> set i" and "CHR ''/'' \<notin> set j"
    and "ae_storage env = memory_storage_port md5"
  shows "others_same i st (snd (upload_version_handler env rq j ul st))"
  using uploadVersion_others[OF assms(2,3) _ assms(4)]
  by (auto simp: upload_version_handler_def intro!: on_asset_stranger[OF assms(1)] split: option.split sum.split prod.split)
    (metis snd_conv)+

lemma create_session_handler_others: "others_same i st (snd (create_session_handler env rq h body st))"
  by (auto simp: create_session_handler_def others_same_def split: option.split sum.split prod.split)
    (metis createUploadSession_db createUploadSession_frame same_refl same_objects_refl snd_conv)+

lemma complete_session_handler_others:
  assumes "stranger rq i (as_db st)" and "CHR ''/'' \<notin> set i" and "CHR ''/'' \<notin> set j"
    and "ae_storage env = memory_storage_port md5" and "completes_own_key env"
  shows "others_same i st (snd (complete_session_handler env rq j parts st))"
proof -
  obtain a where "asset_find i (as_db st) = Some a" using assms(1) by (auto simp: stranger_def)
  then have "others_same i st (snd (completeUploadSession env j parts opts (st\<lparr>as_sessions := u\<rparr>)))" for opts u
    using completeUploadSession_others[OF assms(2-4) assms(5)[unfolded completes_own_key_def], of "st\<lparr>as_sessions := u\<rparr>"]
    by (intro others_after_sessions[where u = u and st = st]) simp
  then show ?thesis
    by (auto simp: complete_session_handler_def Let_def others_sessions split: option.split sum.split prod.split decision.split)
      (metis snd_conv)+
qed

lemma extract_handler_others:
  "stranger rq i (as_db st) \<Longrightarrow> others_same i st (snd (extract_handler env rq j st))"
  using start_extraction_others[of i]
  by (auto simp: extract_handler_def intro!: on_asset_stranger split: option.split)

lemma delete_asset_handler_others:
  assumes "stranger rq i (as_db st)" and "CHR ''/'' \<notin> set i" and "CHR ''/'' \<notin> set j"
    and "ae_storage env = memory_storage_port md5"
  shows "others_same i st (snd (delete_asset_handler env rq j st))"
  using deleteAsset_others[OF assms(2) _ _ assms(4)] assms(3)
  by (auto simp: delete_asset_handler_def intro!: on_asset_stranger[OF assms(1)])

lemma delete_version_handler_others:
  assumes "stranger rq i (as_db st)" and "CHR ''/'' \<notin> set i" and "CHR ''/'' \<notin> set j"
    and "ae_storage env = memory_storage_port md5" and "database_ok (as_db st)"
  shows "others_same i st (snd (delete_version_handler env rq j k st))"
proof -
  have one: "others_same i st st'" if "i \<noteq> j" "deleteVersionWithFiles env j k st = (r, st')" for r st'
    using deleteVersion_others[OF assms(2,3) that(1) assms(4,5), of k] that(2) by simp
  have "others_same i st (st'\<lparr>as_db := fold (\<lambda>s. usage_decrement now s n) ss (as_db st')\<rparr>)"
    if "others_same i st st'" for st' now n ss
    using that same_trans[OF _ same_writes(8)] by (simp add: others_same_def)
  with one show ?thesis
    by (auto simp: delete_version_handler_def intro!: on_asset_stranger[OF assms(1)] split: option.split prod.split)
qed

lemma update_handlers_others:
  assumes "stranger rq i (as_db st)" and "database_ok (as_db st)"
  shows "others_same i st (snd (set_active_version_handler rq j v st))"
    and "others_same i st (snd (update_asset_handler env salt rq j body st))"
    and "others_same i st (snd (update_version_handler rq j k vp st))"
proof -
  note stranger = on_asset_stranger[OF assms(1)]
  have asset: "same_asset i db db'" if "i \<noteq> j" "database_ok db" "updateAsset j p db = (r, db')" for p r db db'
    using updates_others(1)[OF that(1,2), of p] that(3) by simp
  have "same_asset i (as_db st) db'" if "i \<noteq> j" "updateVersion j k vp (as_db st) = (r, db')" for r db'
    using updates_others(2)[OF that(1) assms(2), of k vp] that(2) by simp
  then show "others_same i st (snd (update_version_handler rq j k vp st))"
    by (auto simp: update_version_handler_def intro!: stranger others_db split: option.split prod.split)
  show "others_same i st (snd (set_active_version_handler rq j v st))"
    using asset assms(2)
    by (auto simp: set_active_version_handler_def intro!: stranger others_db split: option.split prod.split)
  have access: "same_asset i (as_db st) db \<and> database_ok db"
    if "i \<noteq> a_id a" "changed_access env salt a body (as_db st) = (e, db)" for a e db
    using updates_others(3)[OF that(1) assms(2) refl, of env salt body] table_ok(3)[OF assms(2) that(2)] that(2) by simp
  have both: "same_asset i (as_db st) db'"
    if "i \<noteq> j" "a_id a = j" "changed_access env salt a body (as_db st) = (e, db)" "updateAsset j p db = (r, db')" for a e db p r db'
    using access[of a e db] asset[OF that(1) _ that(4)] that(1-3) same_trans by blast
  show "others_same i st (snd (update_asset_handler env salt rq j body st))"
    using access both
    by (auto simp: update_asset_handler_def intro!: stranger others_db split: option.split prod.split)
qed

fun called_asset :: "asset_call \<Rightarrow> string" where
  \<comment> \<open>the \<open>:id\<close> of the path\<close>
  "called_asset (UploadVersionCall i _) = i"
| "called_asset (CompleteSessionCall i _) = i"
| "called_asset (GetAssetCall i) = i"
| "called_asset (ListVersionsCall i _ _) = i"
| "called_asset (GetVersionCall i _) = i"
| "called_asset (ListFilesCall i _) = i"
| "called_asset (ExtractCall i) = i"
| "called_asset (DeleteAssetCall i) = i"
| "called_asset (DeleteVersionCall i _) = i"
| "called_asset (SetActiveVersionCall i _) = i"
| "called_asset (UpdateAssetCall i _) = i"
| "called_asset (UpdateVersionCall i _ _) = i"
| "called_asset _ = []"

text \<open>
  C7: A call changes only what its caller is authorized for. For an asset on which the caller is
  granted no action, no call to the asset and version routes changes its row, its protection, its
  versions, its site names or any of its stored objects, whichever asset, version or upload the
  call names.
\<close>

theorem strangers_change_nothing:
  assumes "stranger rq i (as_db st)" and "database_ok (as_db st)"
    and "ae_storage env = memory_storage_port md5" and "completes_own_key env"
    and "i \<noteq> ae_freshId env" and "CHR ''/'' \<notin> set i" and "CHR ''/'' \<notin> set (ae_freshId env)"
    and "CHR ''/'' \<notin> set (called_asset call)"
  shows "others_same i st (snd (run_asset_call env ext rq call st))"
  using assms(8)
  by (cases call)
    (simp_all add: upload_handler_others[OF assms(6,7,5,3)] upload_version_handler_others[OF assms(1,6) _ assms(3)]
      create_session_handler_others complete_session_handler_others[OF assms(1,6) _ assms(3,4)]
      extract_handler_others[OF assms(1)] delete_asset_handler_others[OF assms(1,6) _ assms(3)]
      delete_version_handler_others[OF assms(1,6) _ assms(3,2)] update_handlers_others[OF assms(1,2)])

section \<open>What an upload creates\<close>

lemma upload_handler_steps:
  assumes "upload_handler env rq ul st = (r, st')"
  shows "st' = st \<or> (\<exists>file skip p. denyAnonymousUpload env rq = None
    \<and> resolveUploadProject rq (ul_header ul ''X-Project-Id'') (as_db st) = Inr p
    \<and> st' = snd (uploadAsset env file \<lparr>uo_sessionId = rq_sessionId rq, uo_projectId = p, uo_skipExtraction = skip,
        uo_usageScopes = usageScopes p (as_db st)\<rparr> st))"
  using assms by (auto simp: upload_handler_def split: option.splits sum.splits prod.splits) (metis snd_conv)+

lemma resolved_project:
  assumes "resolveUploadProject rq h db = Inr p"
  shows "if rq_user rq = None then p = None
    else truthy p \<and> (\<exists>pr. authorizeProject (accessCtx rq db) (the p) CreateAsset = Granted pr)"
  using assms by (auto simp: resolveUploadProject_def Let_def split: if_splits decision.splits)

lemma created_asset_row:
  assumes "db' = createAsset now a job ss db" and "asset_find (a_id a) db' = Some b"
  shows "a_projectId b = a_projectId a \<and> a_sessionId b = a_sessionId a \<and> a_expiresAt b = a_expiresAt a"
  using assms by (auto simp: createAsset_def Let_def asset_find_row asset_row_of_save parseAssetRow_def assetUpsertArgs_def)

text \<open>
  C27: What an upload creates belongs to its caller. A signed-in caller's asset is bound to a project
  in which the role policy lets the caller create assets, and is kept; an anonymous caller's asset,
  possible only where the operator allows it, has no project, carries the caller's session and
  expires.
\<close>

theorem uploads_belong_to_caller:
  assumes "asset_find (ae_freshId env) (as_db st) = None" and "upload_handler env rq ul st = (r, st')"
    and "asset_find (ae_freshId env) (as_db st') = Some a"
  shows "a_sessionId a = truthy_or_none (rq_sessionId rq) \<and>
    (case rq_user rq of
       None \<Rightarrow> ae_anonymousUploads env \<and> a_projectId a = None \<and> a_expiresAt a = ae_now env + ae_ttlSeconds env * 1000
     | Some u \<Rightarrow> a_expiresAt a = 0 \<and> (\<exists>p pr. a_projectId a = Some p \<and> project_find p (as_db st) = Some pr
         \<and> may_act (accessCtx rq (as_db st)) (u_id u) pr CreateAsset))"
proof -
  let ?i = "ae_freshId env"
  obtain fl skip p where u: "denyAnonymousUpload env rq = None"
      "resolveUploadProject rq (ul_header ul ''X-Project-Id'') (as_db st) = Inr p"
      "st' = snd (uploadAsset env fl \<lparr>uo_sessionId = rq_sessionId rq, uo_projectId = p, uo_skipExtraction = skip,
        uo_usageScopes = usageScopes p (as_db st)\<rparr> st)"
    using upload_handler_steps[OF assms(2)] assms(1,3) by auto
  let ?opts = "\<lparr>uo_sessionId = rq_sessionId rq, uo_projectId = p, uo_skipExtraction = skip, uo_usageScopes = usageScopes p (as_db st)\<rparr>"
  let ?a = "uploaded_asset (ae_now env) (ae_ttlSeconds env) ?i fl ?opts"
  have "as_db st' \<noteq> as_db st" using assms(1,3) by auto
  then obtain job where db: "as_db st' = createAsset (ae_now env) ?a job (usageScopes p (as_db st)) (as_db st)"
    using uploadAsset_db[OF refl, of env fl ?opts st] u(3) by auto
  have row: "a_projectId a = truthy_or_none p" "a_sessionId a = truthy_or_none (rq_sessionId rq)"
      "a_expiresAt a = (if truthy p then 0 else ae_now env + ae_ttlSeconds env * 1000)"
    using created_asset_row[OF db] assms(3) by simp_all
  show ?thesis
  proof (cases "rq_user rq")
    case None
    then show ?thesis using resolved_project[OF u(2)] u(1) row
      by (auto simp: truthy_or_none_def truthy_def denyAnonymousUpload_def split: if_splits)
  next
    case (Some v)
    obtain pr where pr: "truthy p" "authorizeProject (accessCtx rq (as_db st)) (the p) CreateAsset = Granted pr"
      using resolved_project[OF u(2)] Some by auto
    have "project_find (the p) (as_db st) = Some pr \<and> may_act (accessCtx rq (as_db st)) (u_id v) pr CreateAsset"
      using pr(2) Some
      by (auto simp: authorizeProject_def accessCtx_def may_act_def decide_Granted permitted_Allow Let_def allows_def
          less_eq_role_def split: option.splits if_splits)
    moreover obtain q where "p = Some q" using pr(1) by (cases p) (simp_all add: truthy_def)
    ultimately show ?thesis using pr(1) Some row by (simp add: truthy_or_none_def)
  qed
qed

section \<open>Where the routes surprise\<close>

text \<open>
  A body that does not match its declared length is answered 400 by the upload route and 500 by the
  version route.
\<close>

lemma version_body_mismatch_is_500:
  assumes "denyAnonymousUpload env rq = None"
    and "authorizeAsset (accessCtx rq (as_db st)) (asset_find i (as_db st)) CreateAsset = Granted asset"
    and "read_upload ul = Inr (file, skip)"
    and "uploadVersion env i file skip (usageScopes (a_projectId asset) (as_db st)) st = (Inl msg, st')"
    and "contains_text ''declared Content-Length'' msg" and "\<not> contains_text ''exceeds storage capacity'' msg"
  shows "fst (upload_version_handler env rq i ul st) = internal_error \<and> fst (upload_error msg) = 400"
  using assms by (simp add: upload_version_handler_def on_asset_def on_access_def upload_error_def)

text \<open>A PATCH that changes the access mode and names an unknown version is refused after the access change.\<close>

lemma refused_patch_changes_access:
  assumes "authorizeAsset (accessCtx rq (as_db st)) (asset_find i (as_db st)) UpdateAsset = Granted asset"
    and "truthy (a_projectId asset)" and "pb_access body = Some PublicAccess" and "ap_spa (pb_patch body) = None"
    and "ap_activeVersionId (pb_patch body) = Some (Some k)" and "version_find k (as_db st) = None"
  shows "fst (fst (update_asset_handler env salt rq i body st)) = 404
    \<and> as_db (snd (update_asset_handler env salt rq i body st)) = asset_setProtection i MakePublic (as_db st)"
proof -
  have id: "a_id asset = i" using granted_found[OF assms(1)] asset_find_id by blast
  have none: "version_find k (asset_setProtection i MakePublic (as_db st)) = None"
    using assms(6) by (simp add: version_find_def asset_setProtection_def del: find_row_None)
  have "updateAsset i (pb_patch body) (asset_setProtection i MakePublic (as_db st)) = (None, asset_setProtection i MakePublic (as_db st))"
    using assms(5) none by (simp add: updateAsset_def split: option.split)
  then show ?thesis
    using assms(1-4) id
    by (simp add: update_asset_handler_def on_asset_def on_access_def changed_access_def setAssetAccess_def)
qed

section \<open>Concrete calls\<close>

definition anonymous_request :: "string \<Rightarrow> request" where
  "anonymous_request session = \<lparr>rq_user = None, rq_sessionId = Some session, rq_authorizer = (\<lambda>_. Allow), rq_admin = False\<rparr>"

definition plain_extras :: api_extras where
  "plain_extras = \<lparr>ax_salt = ''s'', ax_decode = id, ax_parse = (\<lambda>_. Garbage)\<rparr>"

definition zip_request :: upload_request where
  "zip_request = \<lparr>ul_header = (\<lambda>name. if name = ''X-Filename'' then Some ''s.zip'' else if name = ''Content-Length'' then Some ''3'' else None),
     ul_body = Some (uf_body zip_file)\<rparr>"

lemma stuck_state_stranger: "stranger (anonymous_request ''x'') ''a1'' (as_db (upload_state stuck_database))"
proof -
  have a: "map_option a_sessionId (asset_find ''a1'' (as_db (upload_state stuck_database))) = Some (Some ''s'')" by code_simp
  then obtain a where f: "asset_find ''a1'' (as_db (upload_state stuck_database)) = Some a" "a_sessionId a = Some ''s''" by auto
  show ?thesis unfolding stranger_def f(1)
    by (simp add: authorizeAsset_def authorizeOwned_def accessCtx_def anonymous_request_def f(2) truthy_def)
qed

lemma strangers_change_nothing_witness:
  "others_same ''a1'' (upload_state stuck_database)
     (snd (run_asset_call (upload_env Committed) plain_extras (anonymous_request ''x'') (DeleteAssetCall ''a1'') (upload_state stuck_database)))
   \<and> others_same ''a1'' (upload_state stuck_database)
     (snd (run_asset_call (upload_env Committed) plain_extras (anonymous_request ''x'') (UploadCall zip_request) (upload_state stuck_database)))"
proof -
  have ok: "database_ok (as_db (upload_state stuck_database))" by (simp add: upload_state_def stuck_database_ok)
  have env: "ae_storage (upload_env Committed) = memory_storage_port id" "completes_own_key (upload_env Committed)"
      "''a1'' \<noteq> ae_freshId (upload_env Committed)" "CHR ''/'' \<notin> set ''a1''" "CHR ''/'' \<notin> set (ae_freshId (upload_env Committed))"
    by (simp_all add: upload_env_def completes_own_key_def)
  note run = strangers_change_nothing[OF stuck_state_stranger ok env]
  show ?thesis by (intro conjI run) simp_all
qed

lemma asset_calls_keep_tables_witness:
  "database_ok (as_db (run_asset_calls
     [(upload_env Committed, plain_extras, anonymous_request ''s'', UploadCall zip_request),
      (upload_env (Rejected ''e''), plain_extras, anonymous_request ''s'', UploadVersionCall ''b2'' zip_request),
      (upload_env Committed, plain_extras, anonymous_request ''s'', DeleteAssetCall ''b2'')] (upload_state stuck_database)))"
  by (rule asset_calls_keep_tables) (simp add: upload_state_def stuck_database_ok)

lemma uploads_belong_to_caller_witness:
  "map_option (\<lambda>a. (a_sessionId a, a_projectId a, a_expiresAt a)) (asset_find ''b2'' (as_db (snd
     (upload_handler (upload_env Committed) (anonymous_request ''s'') zip_request (upload_state stuck_database))))) =
   Some (Some ''s'', None, 60007)"
proof -
  let ?out = "upload_handler (upload_env Committed) (anonymous_request ''s'') zip_request (upload_state stuck_database)"
  have fresh: "asset_find (ae_freshId (upload_env Committed)) (as_db (upload_state stuck_database)) = None" by code_simp
  have "asset_find (ae_freshId (upload_env Committed)) (as_db (snd ?out)) \<noteq> None" by code_simp
  then obtain a where a: "asset_find (ae_freshId (upload_env Committed)) (as_db (snd ?out)) = Some a" by blast
  from uploads_belong_to_caller[OF fresh prod.collapse[symmetric] a] a show ?thesis
    by (simp add: anonymous_request_def upload_env_def truthy_or_none_def truthy_def)
qed

end
