(* ===== verification/Image_Headers.thy ===== *)
theory Image_Headers
  imports Serve_Prelude "HOL-Library.Word"
begin

text \<open>
  The size of an encoded image read from its header, without decoding a pixel
  (\<open>core/thumbnail/dimensions.ts\<close>). A buffer is a list of 8-bit words. A \<open>DataView\<close> read
  past the end throws, so \<open>getUint16\<close> and \<open>getUint32\<close> have an error outcome; an array index past
  the end is \<open>undefined\<close>, which the bit operators read as 0. The lemmas: no read ever leaves the
  buffer, whatever the bytes, and the walk over the JPEG segments ends; a header written by the
  format's own layout is read back, after any number of JPEG segments.
\<close>

unbundle bit_operations_syntax

section \<open>Reading bytes\<close>

type_synonym bytes = "8 word list"

definition byte_at :: "bytes \<Rightarrow> nat \<Rightarrow> 8 word option" where
  "byte_at b i = (if i < length b then Some (b ! i) else None)"

definition js_bits :: "8 word option \<Rightarrow> 32 word" where
  \<comment> \<open>\<open>ToInt32\<close>: \<open>undefined\<close> is 0\<close>
  "js_bits w = (case w of None \<Rightarrow> 0 | Some v \<Rightarrow> ucast v)"

definition getUint16 :: "bool \<Rightarrow> bytes \<Rightarrow> nat \<Rightarrow> string + nat" where
  "getUint16 littleEndian b i =
     (if length b < i + 2 then Inl ''Offset is outside the bounds of the DataView''
      else Inr (if littleEndian then unat (b ! i) + 256 * unat (b ! (i + 1))
                else 256 * unat (b ! i) + unat (b ! (i + 1))))"

definition getUint32 :: "bytes \<Rightarrow> nat \<Rightarrow> string + nat" where
  "getUint32 b i =
     (if length b < i + 4 then Inl ''Offset is outside the bounds of the DataView''
      else Inr (2 ^ 24 * unat (b ! i) + 2 ^ 16 * unat (b ! (i + 1)) + 2 ^ 8 * unat (b ! (i + 2)) + unat (b ! (i + 3))))"

definition ascii :: "bytes \<Rightarrow> nat \<Rightarrow> string \<Rightarrow> bool" where
  "ascii b at s \<longleftrightarrow> length b \<ge> at + length s
     \<and> list_all (\<lambda>i. map_option unat (byte_at b (at + i)) = Some (of_char (s ! i))) [0..<length s]"

definition read_pair :: "string + nat \<Rightarrow> string + nat \<Rightarrow> string + (nat \<times> nat) option" where
  \<comment> \<open>\<open>{ width: \<dots>, height: \<dots> }\<close>, the width read first\<close>
  "read_pair w h = (case w of Inl e \<Rightarrow> Inl e | Inr width \<Rightarrow> (case h of Inl e \<Rightarrow> Inl e | Inr height \<Rightarrow> Inr (Some (width, height))))"

definition read_masked :: "32 word \<Rightarrow> string + nat \<Rightarrow> string + nat" where
  "read_masked m r = map_sum id (\<lambda>n. unat (of_nat n AND m)) r"

section \<open>The formats\<close>

definition u24 :: "bytes \<Rightarrow> nat \<Rightarrow> 32 word" where
  "u24 b at = js_bits (byte_at b at) OR push_bit 8 (js_bits (byte_at b (at + 1))) OR push_bit 16 (js_bits (byte_at b (at + 2)))"

definition vp8l_width :: "bytes \<Rightarrow> 32 word" where
  "vp8l_width b = push_bit 8 (js_bits (byte_at b 22) AND 0x3f) OR js_bits (byte_at b 21)"

definition vp8l_height :: "bytes \<Rightarrow> 32 word" where
  "vp8l_height b = push_bit 10 (js_bits (byte_at b 24) AND 0x0f) OR push_bit 2 (js_bits (byte_at b 23))
     OR drop_bit 6 (js_bits (byte_at b 22) AND 0xc0)"

definition webp_dimensions :: "bytes \<Rightarrow> string + (nat \<times> nat) option" where
  "webp_dimensions b =
     (if ascii b 12 ''VP8X'' \<and> length b \<ge> 30 then Inr (Some (unat (u24 b 24) + 1, unat (u24 b 27) + 1))
      else if ascii b 12 ''VP8L'' \<and> length b \<ge> 25 then Inr (Some (1 + unat (vp8l_width b), 1 + unat (vp8l_height b)))
      else if ascii b 12 ''VP8 '' \<and> length b \<ge> 30
        then read_pair (read_masked 0x3fff (getUint16 True b 26)) (read_masked 0x3fff (getUint16 True b 28))
      else Inr None)"

definition isSof :: "8 word option \<Rightarrow> bool" where
  "isSof marker = (case marker of None \<Rightarrow> False
     | Some m \<Rightarrow> m \<ge> 0xc0 \<and> m \<le> 0xcf \<and> m \<noteq> 0xc4 \<and> m \<noteq> 0xc8 \<and> m \<noteq> 0xcc)"

function jpeg_walk :: "bytes \<Rightarrow> nat \<Rightarrow> string + (nat \<times> nat) option" where
  "jpeg_walk b i =
     (if i + 9 \<le> length b then
        if byte_at b i \<noteq> Some 0xff then Inr None
        else if byte_at b (i + 1) = Some 0xff then jpeg_walk b (i + 1)
        else if isSof (byte_at b (i + 1)) then read_pair (getUint16 False b (i + 7)) (getUint16 False b (i + 5))
        else (case getUint16 False b (i + 2) of Inl e \<Rightarrow> Inl e | Inr n \<Rightarrow> jpeg_walk b (i + (2 + n)))
      else Inr None)"
  by pat_completeness auto
termination by (relation "measure (\<lambda>(b, i). length b - i)") auto

declare jpeg_walk.simps [simp del]

definition imageDimensions :: "bytes \<Rightarrow> string + (nat \<times> nat) option" where
  "imageDimensions b =
     (if ascii b 1 ''PNG'' \<and> length b \<ge> 24 then read_pair (getUint32 b 16) (getUint32 b 20)
      else if ascii b 0 ''GIF8'' \<and> length b \<ge> 10 then read_pair (getUint16 True b 6) (getUint16 True b 8)
      else if ascii b 0 ''RIFF'' \<and> ascii b 8 ''WEBP'' then webp_dimensions b
      else if byte_at b 0 = Some 0xff \<and> byte_at b 1 = Some 0xd8 then jpeg_walk b 2
      else Inr None)"

section \<open>No read leaves the buffer\<close>

lemma map_sum_Inr [simp]: "map_sum id f r = Inr y \<longleftrightarrow> (\<exists>x. r = Inr x \<and> y = f x)"
  by (cases r) auto

lemma getUint16_inside [simp]: "i + 2 \<le> length b \<Longrightarrow> isl (getUint16 le b i) = False"
  by (simp add: getUint16_def)

lemma getUint32_inside [simp]: "i + 4 \<le> length b \<Longrightarrow> isl (getUint32 b i) = False"
  by (simp add: getUint32_def)

lemma read_pair_isl [simp]: "isl (read_pair w h) \<longleftrightarrow> isl w \<or> isl h"
  by (auto simp: read_pair_def split: sum.splits)

lemma read_masked_isl [simp]: "isl (read_masked m r) \<longleftrightarrow> isl r"
  by (cases r) (auto simp: read_masked_def)

lemma jpeg_walk_inside: "\<not> isl (jpeg_walk b i)"
proof (induction b i rule: jpeg_walk.induct)
  case (1 b i)
  then show ?case by (subst jpeg_walk.simps) (auto simp: getUint16_def)
qed

text \<open>Whatever bytes a client uploads, reading the image's dimensions never throws:
  every offset the parser computes lies inside the buffer, and the JPEG walk ends.\<close>

theorem image_header_never_throws: "\<not> isl (imageDimensions b)"
  unfolding imageDimensions_def webp_dimensions_def by (simp add: jpeg_walk_inside)

section \<open>The headers as the formats lay them out\<close>

definition be16 :: "nat \<Rightarrow> bytes" where "be16 n = [of_nat (n div 256), of_nat n]"
definition le16 :: "nat \<Rightarrow> bytes" where "le16 n = [of_nat n, of_nat (n div 256)]"
definition le24 :: "nat \<Rightarrow> bytes" where "le24 n = [of_nat n, of_nat (n div 2 ^ 8), of_nat (n div 2 ^ 16)]"
definition be32 :: "nat \<Rightarrow> bytes" where
  "be32 n = [of_nat (n div 2 ^ 24), of_nat (n div 2 ^ 16), of_nat (n div 2 ^ 8), of_nat n]"
definition le32 :: "nat \<Rightarrow> bytes" where "le32 n = rev (be32 n)"

definition chars :: "string \<Rightarrow> bytes" where "chars s = map (\<lambda>c. of_nat (of_char c)) s"

record jpeg_segment =
  sg_fill :: nat
    \<comment> \<open>how many fill bytes precede the marker\<close>
  sg_marker :: "8 word"
  sg_payload :: bytes

definition encode_segment :: "jpeg_segment \<Rightarrow> bytes" where
  "encode_segment s = replicate (sg_fill s) 0xff @ [0xff, sg_marker s] @ be16 (length (sg_payload s) + 2) @ sg_payload s"

definition segment_ok :: "jpeg_segment \<Rightarrow> bool" where
  "segment_ok s \<longleftrightarrow> sg_marker s \<noteq> 0xff \<and> \<not> isSof (Some (sg_marker s)) \<and> length (sg_payload s) < 2 ^ 16 - 2"

datatype image_header =
    PngHeader bytes bytes      \<comment> \<open>the signature's other bytes, the length and type of the first chunk\<close>
  | GifHeader string
  | Vp8xHeader bytes bytes     \<comment> \<open>the RIFF size; the chunk size and the flags\<close>
  | Vp8lHeader bytes bytes nat \<comment> \<open>the RIFF size; the chunk size and the signature; the bits above the height\<close>
  | Vp8Header bytes bytes nat nat \<comment> \<open>the RIFF size; chunk size, frame tag and start code; the two scales\<close>
  | JpegHeader "jpeg_segment list" nat "8 word" bytes \<comment> \<open>segments, fill bytes, frame marker, frame length and precision\<close>

fun encode_header :: "nat \<Rightarrow> nat \<Rightarrow> image_header \<Rightarrow> bytes" where
  "encode_header w h (PngHeader sig ihdr) = [hd sig] @ chars ''PNG'' @ tl sig @ ihdr @ be32 w @ be32 h"
| "encode_header w h (GifHeader ver) = chars ''GIF8'' @ chars ver @ le16 w @ le16 h"
| "encode_header w h (Vp8xHeader riff chunk) =
     chars ''RIFF'' @ riff @ chars ''WEBP'' @ chars ''VP8X'' @ chunk @ le24 (w - 1) @ le24 (h - 1)"
| "encode_header w h (Vp8lHeader riff chunk hi) =
     chars ''RIFF'' @ riff @ chars ''WEBP'' @ chars ''VP8L'' @ chunk @ le32 ((w - 1) + 2 ^ 14 * (h - 1) + 2 ^ 28 * hi)"
| "encode_header w h (Vp8Header riff chunk xs ys) =
     chars ''RIFF'' @ riff @ chars ''WEBP'' @ chars ''VP8 '' @ chunk @ le16 (w + 2 ^ 14 * xs) @ le16 (h + 2 ^ 14 * ys)"
| "encode_header w h (JpegHeader segments fill marker frame) =
     [0xff, 0xd8] @ concat (map encode_segment segments) @ replicate fill 0xff @ [0xff, marker] @ frame @ be16 h @ be16 w"

fun header_ok :: "nat \<Rightarrow> nat \<Rightarrow> image_header \<Rightarrow> bool" where
  "header_ok w h (PngHeader sig ihdr) \<longleftrightarrow> length sig = 5 \<and> length ihdr = 8 \<and> w < 2 ^ 32 \<and> h < 2 ^ 32"
| "header_ok w h (GifHeader ver) \<longleftrightarrow> length ver = 2 \<and> w < 2 ^ 16 \<and> h < 2 ^ 16"
| "header_ok w h (Vp8xHeader riff chunk) \<longleftrightarrow>
     length riff = 4 \<and> length chunk = 8 \<and> 0 < w \<and> 0 < h \<and> w \<le> 2 ^ 24 \<and> h \<le> 2 ^ 24"
| "header_ok w h (Vp8lHeader riff chunk hi) \<longleftrightarrow>
     length riff = 4 \<and> length chunk = 5 \<and> 0 < w \<and> 0 < h \<and> w \<le> 2 ^ 14 \<and> h \<le> 2 ^ 14 \<and> hi < 16"
| "header_ok w h (Vp8Header riff chunk xs ys) \<longleftrightarrow>
     length riff = 4 \<and> length chunk = 10 \<and> w < 2 ^ 14 \<and> h < 2 ^ 14 \<and> xs < 4 \<and> ys < 4"
| "header_ok w h (JpegHeader segments fill marker frame) \<longleftrightarrow>
     list_all segment_ok segments \<and> isSof (Some marker) \<and> length frame = 3 \<and> w < 2 ^ 16 \<and> h < 2 ^ 16"

lemma unat_of_nat8: "unat (of_nat n :: 8 word) = n mod 256"
  by (simp add: unat_of_nat)

lemma length_chars [simp]: "length (chars s) = length s" by (simp add: chars_def)

lemma length_ints [simp]: "length (be16 n) = 2" "length (le16 n) = 2" "length (le24 n) = 3" "length (be32 n) = 4" "length (le32 n) = 4"
  by (simp_all add: be16_def le16_def le24_def be32_def le32_def)

lemma ascii_iff: "s \<noteq> [] \<Longrightarrow> ascii b at s \<longleftrightarrow> take (length s) (drop at b) = chars s"
proof
  assume "s \<noteq> []" and *: "ascii b at s"
  then have len: "at + length s \<le> length b" by (simp add: ascii_def)
  have at: "b ! (at + i) = of_nat (of_char (s ! i))" if "i < length s" for i
  proof -
    have "map_option unat (byte_at b (at + i)) = Some (of_char (s ! i))"
      using * that by (auto simp: ascii_def list_all_iff)
    then show ?thesis using len that by (simp add: byte_at_def word_unat_eq_iff unat_of_nat8)
  qed
  show "take (length s) (drop at b) = chars s"
    by (rule nth_equalityI) (use len at in \<open>auto simp: chars_def\<close>)
next
  assume "s \<noteq> []" and eq: "take (length s) (drop at b) = chars s"
  have "length (take (length s) (drop at b)) = length s" unfolding eq by simp
  with \<open>s \<noteq> []\<close> have len: "at + length s \<le> length b" by (cases s) auto
  have "b ! (at + i) = of_nat (of_char (s ! i))" if "i < length s" for i
    using arg_cong [OF eq, of "\<lambda>l. l ! i"] that len by (simp add: chars_def)
  then show "ascii b at s"
    using len by (auto simp: ascii_def list_all_iff byte_at_def unat_of_nat8)
qed

lemma vp8l_reads_bits:
  assumes "length b \<ge> 25"
  defines "bits \<equiv> js_bits (byte_at b 21) OR push_bit 8 (js_bits (byte_at b 22))
     OR push_bit 16 (js_bits (byte_at b 23)) OR push_bit 24 (js_bits (byte_at b 24))"
  shows "vp8l_width b = bits AND mask 14" and "vp8l_height b = drop_bit 14 bits AND mask 14"
proof -
  obtain w x y z where [simp]: "byte_at b 21 = Some w" "byte_at b 22 = Some x" "byte_at b 23 = Some y" "byte_at b 24 = Some z"
    using assms(1) by (auto simp: byte_at_def)
  have m: "(0x3f :: 32 word) = mask 6" "(0x0f :: 32 word) = mask 4" "(0xc0 :: 32 word) = push_bit 6 (mask 2)"
    by (simp_all add: mask_eq_exp_minus_1)
  show "vp8l_width b = bits AND mask 14"
    unfolding vp8l_width_def bits_def js_bits_def m
    by (rule bit_word_eqI) (auto simp: bit_simps dest: bit_imp_le_length)
  show "vp8l_height b = drop_bit 14 bits AND mask 14"
    unfolding vp8l_height_def bits_def js_bits_def m
    by (rule bit_word_eqI) (auto simp: bit_simps dest: bit_imp_le_length)
qed

lemma le32_bits:
  "N < 2 ^ 32 \<Longrightarrow> js_bits (Some (of_nat N)) OR push_bit 8 (js_bits (Some (of_nat (N div 2 ^ 8))))
     OR push_bit 16 (js_bits (Some (of_nat (N div 2 ^ 16)))) OR push_bit 24 (js_bits (Some (of_nat (N div 2 ^ 24)))) = of_nat N"
  unfolding js_bits_def option.case drop_bit_eq_div [symmetric]
proof (rule bit_word_eqI)
  fix n :: nat
  assume "n < LENGTH(32)"
  then show "bit (ucast (of_nat N :: 8 word) OR push_bit 8 (ucast (of_nat (drop_bit 8 N) :: 8 word)) OR
      push_bit 16 (ucast (of_nat (drop_bit 16 N) :: 8 word)) OR
      push_bit 24 (ucast (of_nat (drop_bit 24 N) :: 8 word)) :: 32 word) n \<longleftrightarrow> bit (of_nat N :: 32 word) n"
    by (cases "n < 8"; cases "n < 16"; cases "n < 24") (auto simp: bit_simps)
qed

lemma u24_le24:
  assumes "N < 2 ^ 24" and "byte_at b at = Some (of_nat N)" "byte_at b (at + 1) = Some (of_nat (N div 2 ^ 8))"
    "byte_at b (at + 2) = Some (of_nat (N div 2 ^ 16))"
  shows "unat (u24 b at) = N"
proof -
  have "N div 2 ^ 24 = 0" using assms(1) by simp
  then have "u24 b at = of_nat N"
    using le32_bits [of N] assms by (simp add: u24_def js_bits_def or.assoc)
  then show ?thesis using assms(1) by (simp add: unat_of_nat)
qed

lemma vp8l_le32:
  assumes "length b \<ge> 25" and "w < 2 ^ 14" "h < 2 ^ 14" "hi < 16"
    and "byte_at b 21 = Some (of_nat N)" "byte_at b 22 = Some (of_nat (N div 2 ^ 8))"
    "byte_at b 23 = Some (of_nat (N div 2 ^ 16))" "byte_at b 24 = Some (of_nat (N div 2 ^ 24))"
    and N: "N = w + 2 ^ 14 * h + 2 ^ 28 * hi"
  shows "unat (vp8l_width b) = w" and "unat (vp8l_height b) = h"
proof -
  have "N < 2 ^ 32" using assms(2-4) N by simp
  note bits = vp8l_reads_bits [OF assms(1), unfolded assms(5-8) le32_bits [OF this]]
  have "N = w + 2 ^ 14 * (h + 2 ^ 14 * hi)" using N by simp
  then have "w = N mod 2 ^ 14" "h = N div 2 ^ 14 mod 2 ^ 14"
    using assms(2-4) by (simp_all only: mod_mult_self2 div_mult_self2 mod_less div_less) simp_all
  then show "unat (vp8l_width b) = w" "unat (vp8l_height b) = h"
    using \<open>N < 2 ^ 32\<close>
    by (simp_all add: bits unat_of_nat unsigned_drop_bit_eq unsigned_take_bit_eq take_bit_eq_mod drop_bit_eq_div unat_div unat_mod
        flip: take_bit_eq_mask)
qed

lemma getUint16_be: "n < 2 ^ 16 \<Longrightarrow> length p = i \<Longrightarrow> getUint16 False (p @ be16 n @ s) i = Inr n"
  by (auto simp: getUint16_def be16_def nth_append unat_of_nat8)

lemma getUint16_le: "n < 2 ^ 16 \<Longrightarrow> length p = i \<Longrightarrow> getUint16 True (p @ le16 n @ s) i = Inr n"
  by (auto simp: getUint16_def le16_def nth_append unat_of_nat8)

lemma getUint32_be: "n < 2 ^ 32 \<Longrightarrow> length p = i \<Longrightarrow> getUint32 (p @ be32 n @ s) i = Inr n"
proof -
  define a b c ra rb rn where r: "a = n div 256" "b = a div 256" "c = b div 256" "ra = a mod 256" "rb = b mod 256" "rn = n mod 256"
  have "n = 256 * a + rn" "a = 256 * b + ra" "b = 256 * c + rb" by (simp_all add: r)
  then have "16777216 * c + 65536 * rb + 256 * ra + rn = n" by simp
  moreover have "n div 65536 = b" "n div 16777216 = c" by (simp_all add: r flip: div_mult2_eq)
  ultimately have "16777216 * (n div 16777216) + 65536 * (n div 65536 mod 256) + 256 * (n div 256 mod 256) + n mod 256 = n"
    by (simp only: r)
  then show "n < 2 ^ 32 \<Longrightarrow> length p = i \<Longrightarrow> getUint32 (p @ be32 n @ s) i = Inr n"
    by (auto simp: getUint32_def be32_def nth_append unat_of_nat8)
qed

lemma byte_at_append [simp]: "byte_at (p @ s) (length p + k) = byte_at s k"
  by (auto simp: byte_at_def nth_append)

lemma byte_at_append0 [simp]: "byte_at (p @ s) (length p) = byte_at s 0"
  using byte_at_append [of p s 0] by simp

lemma byte_at_append_Suc [simp]: "byte_at (p @ s) (Suc (length p)) = byte_at s 1"
  using byte_at_append [of p s 1] by simp

lemma byte_at_Cons [simp]: "byte_at (x # s) 0 = Some x" "byte_at (x # s) (Suc k) = byte_at s k"
  by (simp_all add: byte_at_def)

lemma byte_at_numeral [simp]: "byte_at (x # s) (numeral k) = byte_at s (numeral k - 1)"
  by (simp add: byte_at_def nth_Cons')

lemma chars_simps [simp]: "chars [] = []" "chars (c # s) = of_nat (of_char c) # chars s"
  by (simp_all add: chars_def)

subsection \<open>JPEG segments\<close>

lemma jpeg_walk_fill:
  "8 \<le> length s \<Longrightarrow> jpeg_walk (p @ replicate n 0xff @ 0xff # s) (length p) = jpeg_walk (p @ replicate n 0xff @ 0xff # s) (length p + n)"
proof (induction n arbitrary: p)
  case (Suc n)
  let ?b = "p @ replicate (Suc n) 0xff @ 0xff # s"
  have "byte_at ?b (length p) = Some 0xff" "byte_at ?b (length p + 1) = Some 0xff"
    by (cases n; simp)+
  then have "jpeg_walk ?b (length p) = jpeg_walk ?b (length p + 1)"
    using Suc.prems by (subst jpeg_walk.simps) simp
  with Suc.IH [of "p @ [0xff]"] Suc.prems show ?case by simp
qed simp

lemma jpeg_walk_segment:
  assumes "segment_ok sg" and "9 \<le> length s"
  shows "jpeg_walk (p @ encode_segment sg @ s) (length p) = jpeg_walk (p @ encode_segment sg @ s) (length p + length (encode_segment sg))"
proof -
  let ?q = "p @ replicate (sg_fill sg) 0xff" and ?n = "length (sg_payload sg) + 2"
  let ?t = "sg_marker sg # be16 ?n @ sg_payload sg @ s"
  let ?b = "p @ encode_segment sg @ s"
  have b: "?b = ?q @ 0xff # ?t" by (simp add: encode_segment_def)
  have "jpeg_walk ?b (length p) = jpeg_walk ?b (length ?q)"
    using jpeg_walk_fill [of ?t p "sg_fill sg"] assms(2) by (simp add: encode_segment_def)
  also have "\<dots> = jpeg_walk ?b (length ?q + (2 + ?n))"
  proof -
    have "getUint16 False ((?q @ [0xff, sg_marker sg]) @ be16 ?n @ sg_payload sg @ s) (length ?q + 2) = Inr ?n"
      using assms(1) by (intro getUint16_be) (simp_all add: segment_ok_def)
    then have "getUint16 False ?b (length ?q + 2) = Inr ?n" by (simp add: encode_segment_def)
    moreover have "byte_at ?b (length ?q) = Some 0xff" "byte_at ?b (length ?q + 1) = Some (sg_marker sg)"
      unfolding b by (simp_all del: length_append append_assoc)
    ultimately show ?thesis
      using assms by (subst jpeg_walk.simps) (simp add: segment_ok_def encode_segment_def)
  qed
  also have "length ?q + (2 + ?n) = length p + length (encode_segment sg)"
    by (simp add: encode_segment_def)
  finally show ?thesis .
qed

lemma jpeg_walk_segments:
  "list_all segment_ok sgs \<Longrightarrow> 9 \<le> length s \<Longrightarrow>
     jpeg_walk (p @ concat (map encode_segment sgs) @ s) (length p) =
     jpeg_walk (p @ concat (map encode_segment sgs) @ s) (length p + length (concat (map encode_segment sgs)))"
proof (induction sgs arbitrary: p)
  case (Cons sg sgs)
  have "jpeg_walk (p @ encode_segment sg @ concat (map encode_segment sgs) @ s) (length p) =
      jpeg_walk (p @ encode_segment sg @ concat (map encode_segment sgs) @ s) (length p + length (encode_segment sg))"
    using Cons.prems by (intro jpeg_walk_segment) auto
  with Cons.IH [of "p @ encode_segment sg"] Cons.prems show ?case by (simp add: add.assoc)
qed simp

lemma jpeg_walk_frame:
  assumes "isSof (Some m)" and "length frame = 3" and "w < 2 ^ 16" "h < 2 ^ 16"
  shows "jpeg_walk (p @ 0xff # m # frame @ be16 h @ be16 w @ s) (length p) = Inr (Some (w, h))"
proof -
  let ?b = "p @ 0xff # m # frame @ be16 h @ be16 w @ s"
  have "getUint16 False ((p @ 0xff # m # frame @ be16 h) @ be16 w @ s) (length p + 7) = Inr w"
    "getUint16 False ((p @ 0xff # m # frame) @ be16 h @ be16 w @ s) (length p + 5) = Inr h"
    using assms by (intro getUint16_be; simp)+
  moreover have "byte_at ?b (length p) = Some 0xff" "byte_at ?b (length p + 1) = Some m" by simp_all
  moreover have "m \<noteq> 0xff" using assms(1) by (auto simp: isSof_def)
  ultimately show ?thesis using assms(1,2) by (subst jpeg_walk.simps) (simp add: read_pair_def)
qed

lemma jpeg_header_read:
  assumes "header_ok w h (JpegHeader segments fill m frame)"
  shows "imageDimensions (encode_header w h (JpegHeader segments fill m frame) @ rest) = Inr (Some (w, h))"
proof -
  let ?segs = "concat (map encode_segment segments)"
  let ?t = "0xff # m # frame @ be16 h @ be16 w @ rest"
  let ?b = "[0xff, 0xd8] @ ?segs @ replicate fill 0xff @ ?t"
  have *: "list_all segment_ok segments" "isSof (Some m)" "length frame = 3" "w < 2 ^ 16" "h < 2 ^ 16"
    using assms by simp_all
  have "jpeg_walk ?b 2 = jpeg_walk ?b (2 + length ?segs)"
    using jpeg_walk_segments [OF *(1), of "replicate fill 0xff @ ?t" "[0xff, 0xd8]"] *(3) by (simp add: numeral_2_eq_2)
  also have "\<dots> = jpeg_walk ?b (2 + length ?segs + fill)"
    using jpeg_walk_fill [of "m # frame @ be16 h @ be16 w @ rest" "[0xff, 0xd8] @ ?segs" fill] *(3) by simp
  also have "\<dots> = Inr (Some (w, h))"
    using jpeg_walk_frame [OF *(2-5), of "[0xff, 0xd8] @ ?segs @ replicate fill 0xff" rest] by (simp add: add.assoc)
  finally show ?thesis
    by (simp add: imageDimensions_def ascii_iff)
qed

subsection \<open>The other formats\<close>

lemma png_header_read:
  assumes "header_ok w h (PngHeader sig ihdr)"
  shows "imageDimensions (encode_header w h (PngHeader sig ihdr) @ rest) = Inr (Some (w, h))"
proof -
  let ?p = "[hd sig] @ chars ''PNG'' @ tl sig @ ihdr"
  have "getUint32 (?p @ be32 w @ be32 h @ rest) 16 = Inr w" "getUint32 ((?p @ be32 w) @ be32 h @ rest) 20 = Inr h"
    using assms by (intro getUint32_be; simp)+
  then show ?thesis using assms by (simp add: imageDimensions_def ascii_iff read_pair_def)
qed

lemma gif_header_read:
  assumes "header_ok w h (GifHeader ver)"
  shows "imageDimensions (encode_header w h (GifHeader ver) @ rest) = Inr (Some (w, h))"
proof -
  let ?p = "chars ''GIF8'' @ chars ver"
  have "getUint16 True (?p @ le16 w @ le16 h @ rest) 6 = Inr w" "getUint16 True ((?p @ le16 w) @ le16 h @ rest) 8 = Inr h"
    using assms by (intro getUint16_le; simp)+
  then show ?thesis using assms by (simp add: imageDimensions_def ascii_iff read_pair_def)
qed

lemma u24_at: "N < 2 ^ 24 \<Longrightarrow> length p = i \<Longrightarrow> unat (u24 (p @ le24 N @ s) i) = N"
  by (rule u24_le24) (auto simp: le24_def byte_at_def nth_append)

lemma vp8x_header_read:
  assumes "header_ok w h (Vp8xHeader riff chunk)"
  shows "imageDimensions (encode_header w h (Vp8xHeader riff chunk) @ rest) = Inr (Some (w, h))"
proof -
  let ?p = "chars ''RIFF'' @ riff @ chars ''WEBP'' @ chars ''VP8X'' @ chunk"
  have "unat (u24 (?p @ le24 (w - 1) @ le24 (h - 1) @ rest) 24) = w - 1"
    "unat (u24 ((?p @ le24 (w - 1)) @ le24 (h - 1) @ rest) 27) = h - 1"
    using assms by (intro u24_at; simp; linarith?)+
  then show ?thesis using assms by (simp add: imageDimensions_def webp_dimensions_def ascii_iff)
qed

lemma vp8l_header_read:
  assumes "header_ok w h (Vp8lHeader riff chunk hi)"
  shows "imageDimensions (encode_header w h (Vp8lHeader riff chunk hi) @ rest) = Inr (Some (w, h))"
proof -
  define N where "N = (w - 1) + 2 ^ 14 * (h - 1) + 2 ^ 28 * hi"
  let ?b = "chars ''RIFF'' @ riff @ chars ''WEBP'' @ chars ''VP8L'' @ chunk @ le32 N @ rest"
  have len: "length riff = 4" "length chunk = 5" using assms by simp_all
  have "unat (vp8l_width ?b) = w - 1 \<and> unat (vp8l_height ?b) = h - 1"
    by (intro conjI; rule vp8l_le32 [OF _ _ _ _ _ _ _ _ N_def])
      (use assms len in \<open>auto simp: le32_def be32_def byte_at_def nth_append nth_Cons'\<close>)
  then show ?thesis
    using assms by (simp add: imageDimensions_def webp_dimensions_def ascii_iff N_def)
qed

lemma vp8_header_read:
  assumes "header_ok w h (Vp8Header riff chunk xs ys)"
  shows "imageDimensions (encode_header w h (Vp8Header riff chunk xs ys) @ rest) = Inr (Some (w, h))"
proof -
  let ?p = "chars ''RIFF'' @ riff @ chars ''WEBP'' @ chars ''VP8 '' @ chunk"
  let ?w = "w + 2 ^ 14 * xs" and ?h = "h + 2 ^ 14 * ys"
  have b: "w < 2 ^ 14" "h < 2 ^ 14" "xs < 4" "ys < 4" using assms by simp_all
  then have "?w < 2 ^ 16" "?h < 2 ^ 16" by simp_all
  then have "getUint16 True (?p @ le16 ?w @ le16 ?h @ rest) 26 = Inr ?w"
    "getUint16 True ((?p @ le16 ?w) @ le16 ?h @ rest) 28 = Inr ?h"
    using assms by (intro getUint16_le; simp)+
  moreover have "read_masked 0x3fff (Inr n) = Inr (n mod 2 ^ 14)" if "n < 2 ^ 32" for n
  proof -
    have "unat (of_nat n AND mask 14 :: 32 word) = n mod 2 ^ 14"
      using that by (simp add: unat_of_nat unsigned_take_bit_eq take_bit_eq_mod unat_mod flip: take_bit_eq_mask)
    then show ?thesis by (simp add: read_masked_def mask_eq_exp_minus_1)
  qed
  ultimately show ?thesis
    using assms b by (simp add: imageDimensions_def webp_dimensions_def ascii_iff read_pair_def)
qed

text \<open>A header written by the format's own layout (PNG, GIF, the three kinds of WebP, or a JPEG
  whose frame follows any number of other segments) is read back with the width and height
  it was written with, whatever pixel data follows.\<close>

theorem image_header_roundtrip:
  "header_ok w h format \<Longrightarrow> imageDimensions (encode_header w h format @ pixels) = Inr (Some (w, h))"
  by (cases format) (simp_all only: png_header_read gif_header_read vp8x_header_read vp8l_header_read vp8_header_read jpeg_header_read)

lemma image_header_roundtrip_witness:
  "imageDimensions (encode_header 4000 3000
     (JpegHeader [\<lparr>sg_fill = 0, sg_marker = 0xe1, sg_payload = [0xaa, 0xbb]\<rparr>] 1 0xc0 [0, 0x11, 8]) @ [3]) = Inr (Some (4000, 3000))"
  by (rule image_header_roundtrip) (simp add: segment_ok_def isSof_def)

end
