(* ===== verification/Thumbnails.thy ===== *)
theory Thumbnails
  imports Image_Headers Upload_Properties
begin

text \<open>
  Thumbnail generation: the queue consumer (\<open>core/thumbnail/handler.ts\<close>), the generator
  (\<open>core/thumbnail/generator.ts\<close>) and the size catalogue (\<open>core/thumbnail/sizes.ts\<close>). The image
  library is the record \<open>codec\<close>; decoded images are values of its own type, of which only the
  width and the height are read. \<open>computeDims\<close> divides and multiplies binary floating point
  numbers: they are modelled at their 53 bits, with rounding to the nearest, ties to even. The
  lemmas: every thumbnail has the catalogue's long edge and fits into its source, and what a
  consumed message stored is what file delivery serves.
\<close>

section \<open>The sizes\<close>

definition THUMBNAIL_LONG_EDGE :: "string \<Rightarrow> nat" where
  "THUMBNAIL_LONG_EDGE s = the (map_of [(''xs'', 64), (''sm'', 128), (''md'', 512), (''lg'', 1280)] s)"

definition THUMBNAIL_QUALITY :: "string \<Rightarrow> nat" where
  "THUMBNAIL_QUALITY s = the (map_of [(''xs'', 80), (''sm'', 80), (''md'', 85), (''lg'', 85)] s)"

section \<open>Floating point\<close>

text \<open>
  A non-negative double \<open>(m, k)\<close> is \<open>m / 2 ^ k\<close>. \<open>nearest p q\<close> is the double nearest to
  \<open>p / q\<close>, for quotients below \<open>2 ^ 53\<close>: the quotient is scaled until it has 53 bits before
  the point, then rounded to an integer.
\<close>

definition half_even :: "nat \<Rightarrow> nat \<Rightarrow> nat" where
  "half_even p q = (if 2 * (p mod q) > q \<or> (2 * (p mod q) = q \<and> odd (p div q)) then p div q + 1 else p div q)"

function scaling :: "nat \<Rightarrow> nat \<Rightarrow> nat \<Rightarrow> nat" where
  "scaling p q k = (if p = 0 \<or> 2 ^ 52 * q \<le> p then k else scaling (2 * p) q (k + 1))"
  by pat_completeness auto
termination by (relation "measure (\<lambda>(p, q, k). 2 ^ 52 * q - p)") auto

declare scaling.simps [simp del]

type_synonym double = "nat \<times> nat"

definition nearest :: "nat \<Rightarrow> nat \<Rightarrow> double" where
  "nearest p q = (let k = scaling p q 0 in (half_even (p * 2 ^ k) q, k))"

definition times_int :: "double \<Rightarrow> nat \<Rightarrow> double" where
  "times_int x n = nearest (fst x * n) (2 ^ snd x)"

definition math_round :: "double \<Rightarrow> nat" where
  \<comment> \<open>\<open>Math.round\<close>: the nearest integer, halves upwards\<close>
  "math_round x = (2 * fst x + 2 ^ snd x) div 2 ^ (snd x + 1)"

definition computeDims :: "nat \<Rightarrow> nat \<Rightarrow> nat \<Rightarrow> nat \<times> nat" where
  "computeDims srcWidth srcHeight longEdge =
     (if srcWidth \<ge> srcHeight
      then (let width = min srcWidth longEdge
            in (width, max 1 (math_round (times_int (nearest width srcWidth) srcHeight))))
      else (let height = min srcHeight longEdge
            in (max 1 (math_round (times_int (nearest height srcHeight) srcWidth)), height)))"

section \<open>The generator\<close>

record 'i codec =
  cd_decodeJpeg :: "string \<Rightarrow> string + 'i"
  cd_decodePng :: "string \<Rightarrow> string + 'i"
  cd_decodeWebp :: "string \<Rightarrow> string + 'i"
  cd_resize :: "'i \<Rightarrow> nat \<times> nat \<Rightarrow> string + 'i"
  cd_encodeWebp :: "'i \<Rightarrow> nat \<Rightarrow> string + string"
  cd_width :: "'i \<Rightarrow> nat"
  cd_height :: "'i \<Rightarrow> nat"

record thumbnail =
  gt_size :: string
  gt_data :: string
  gt_width :: nat
  gt_height :: nat

definition decode :: "'i codec \<Rightarrow> string \<Rightarrow> string \<Rightarrow> string + 'i" where
  "decode cd buffer contentType =
     (let base = js_lower (js_trim (hd (split_on CHR '';'' contentType)))
      in if base = ''image/jpeg'' then cd_decodeJpeg cd buffer
         else if base = ''image/png'' then cd_decodePng cd buffer
         else if base = ''image/webp'' then cd_decodeWebp cd buffer
         else if base = ''image/gif'' then Inl ''GIF decoding requires the container path''
         else Inl (''Unsupported source content type: '' @ contentType))"

fun pyramid :: "'i codec \<Rightarrow> 'i \<Rightarrow> string list \<Rightarrow> string + thumbnail list" where
  \<comment> \<open>each step resizes the result of the step before it\<close>
  "pyramid cd current [] = Inr []"
| "pyramid cd current (sz # rest) =
     (case cd_resize cd current (computeDims (cd_width cd current) (cd_height cd current) (THUMBNAIL_LONG_EDGE sz)) of
        Inl e \<Rightarrow> Inl e
      | Inr resized \<Rightarrow>
          (case cd_encodeWebp cd resized (THUMBNAIL_QUALITY sz) of
             Inl e \<Rightarrow> Inl e
           | Inr encoded \<Rightarrow>
               map_sum id ((#) \<lparr>gt_size = sz, gt_data = encoded, gt_width = cd_width cd resized, gt_height = cd_height cd resized\<rparr>)
                 (pyramid cd resized rest)))"

definition targets :: "nat \<Rightarrow> string list" where
  "targets longEdge = filter (\<lambda>s. THUMBNAIL_LONG_EDGE s < longEdge) THUMBNAIL_SIZES"

definition generateThumbnails :: "'i codec \<Rightarrow> string \<Rightarrow> string \<Rightarrow> string + thumbnail list" where
  "generateThumbnails cd source contentType =
     (case decode cd source contentType of
        Inl e \<Rightarrow> Inl e
      | Inr original \<Rightarrow>
          (let longEdge = max (cd_width cd original) (cd_height cd original)
           in if targets longEdge = []
              then map_sum id (\<lambda>encoded. [\<lparr>gt_size = ''xs'', gt_data = encoded,
                     gt_width = cd_width cd original, gt_height = cd_height cd original\<rparr>])
                     (cd_encodeWebp cd original (THUMBNAIL_QUALITY ''xs''))
              else map_sum id rev (pyramid cd original (rev (targets longEdge)))))"

section \<open>The queue consumer\<close>

record thumbnail_job =
  tj_assetId :: string
  tj_versionId :: "string option"
  tj_sourceKey :: string
  tj_contentType :: string

record 'c thumbnail_containers =
  tc_available :: bool
  tc_generate :: "thumbnail_job \<Rightarrow> 'c \<Rightarrow> (string + unit) \<times> 'c"

definition WORKER_INLINE_MAX_BYTES :: int where "WORKER_INLINE_MAX_BYTES = 20 * 1024 * 1024"
definition WORKER_INLINE_MAX_PIXELS :: nat where "WORKER_INLINE_MAX_PIXELS = 6000000"

definition thumb_key :: "thumbnail_message \<Rightarrow> string \<Rightarrow> string" where
  "thumb_key msg sz = (case tm_versionId msg of
     Some v \<Rightarrow> if v = [] then legacyThumbKey (tm_assetId msg) (thumbnailFilename sz)
               else versionThumbKey (tm_assetId msg) v (thumbnailFilename sz)
   | None \<Rightarrow> legacyThumbKey (tm_assetId msg) (thumbnailFilename sz))"

fun put_thumbs :: "'s file_storage \<Rightarrow> thumbnail_message \<Rightarrow> thumbnail list \<Rightarrow> 's \<Rightarrow> (string + unit) \<times> 's" where
  \<comment> \<open>\<open>Promise.all\<close>: every upload is started, and the first failure is the outcome\<close>
  "put_thumbs fs msg [] s = (Inr (), s)"
| "put_thumbs fs msg (t # ts) s =
     (case fs_put fs (thumb_key msg (gt_size t)) \<lparr>ub_chunks = [gt_data t], ub_error = None\<rparr> THUMBNAIL_CONTENT_TYPE
             (int (length (gt_data t))) None s of
        (r, s') \<Rightarrow> (case put_thumbs fs msg ts s' of (r', s'') \<Rightarrow> ((case r of Inl e \<Rightarrow> Inl e | Inr _ \<Rightarrow> r'), s'')))"

definition generateInWorker ::
  "'i codec \<Rightarrow> 's file_storage \<Rightarrow> thumbnail_message \<Rightarrow> string \<Rightarrow> 's \<Rightarrow> (string + unit) \<times> 's" where
  "generateInWorker cd fs msg buffer s =
     (case generateThumbnails cd buffer (tm_contentType msg) of
        Inl e \<Rightarrow> (Inl e, s)
      | Inr thumbs \<Rightarrow> put_thumbs fs msg thumbs s)"

definition pixels :: "(nat \<times> nat) option \<Rightarrow> nat" where
  "pixels dims = (case dims of None \<Rightarrow> 0 | Some (width, height) \<Rightarrow> width * height)"

definition fitsInline :: "(nat \<times> nat) option \<Rightarrow> bool" where
  "fitsInline dims \<longleftrightarrow> 0 < pixels dims \<and> pixels dims \<le> WORKER_INLINE_MAX_PIXELS"

definition hand_off ::
  "'c thumbnail_containers \<Rightarrow> thumbnail_message \<Rightarrow> 's \<times> 'c \<Rightarrow> (string + unit) \<times> 's \<times> 'c" where
  "hand_off tc msg st =
     (case tc_generate tc \<lparr>tj_assetId = tm_assetId msg, tj_versionId = tm_versionId msg, tj_sourceKey = tm_sourceKey msg,
             tj_contentType = tm_contentType msg\<rparr> (snd st) of (r, c) \<Rightarrow> (r, fst st, c))"

definition processMessage ::
  "'i codec \<Rightarrow> 's file_storage \<Rightarrow> 'c thumbnail_containers \<Rightarrow> thumbnail_message \<Rightarrow> 's \<times> 'c \<Rightarrow> (string + unit) \<times> 's \<times> 'c" where
  "processMessage cd fs tc msg st =
     (if tm_size msg \<le> WORKER_INLINE_MAX_BYTES then
        (case fs_get fs (tm_sourceKey msg) None (fst st) of
           None \<Rightarrow> (Inl (''Source object not found: '' @ tm_sourceKey msg), st)
         | Some source \<Rightarrow>
             (let buffer = concat (sf_body source)
              in case imageDimensions (chars buffer) of
                   Inl e \<Rightarrow> (Inl e, st)
                 | Inr dims \<Rightarrow>
                     if fitsInline dims \<or> \<not> tc_available tc
                     then (case generateInWorker cd fs msg buffer (fst st) of (r, s) \<Rightarrow> (r, s, snd st))
                     else hand_off tc msg st))
      else hand_off tc msg st)"

fun handleThumbnailQueue ::
  "'i codec \<Rightarrow> 's file_storage \<Rightarrow> 'c thumbnail_containers \<Rightarrow> thumbnail_message delivery list \<Rightarrow> 's \<times> 'c
   \<Rightarrow> settlement list \<times> 's \<times> 'c" where
  "handleThumbnailQueue cd fs tc [] st = ([], st)"
| "handleThumbnailQueue cd fs tc (m # ms) st =
     (case processMessage cd fs tc (dl_body m) st of
        (r, st') \<Rightarrow> (case handleThumbnailQueue cd fs tc ms st' of
           (settled, st'') \<Rightarrow> ((case r of Inl _ \<Rightarrow> Retried 0 | Inr _ \<Rightarrow> Acked) # settled, st'')))"

section \<open>Rounding\<close>

lemma half_even_le: "0 < q \<Longrightarrow> p \<le> n * q \<Longrightarrow> half_even p q \<le> n"
proof -
  assume q: "0 < q" and le: "p \<le> n * q"
  show ?thesis
  proof (cases "p mod q = 0")
    case True
    then have "half_even p q = p div q" using q by (auto simp: half_even_def)
    then show ?thesis using le q by (metis div_le_mono nonzero_mult_div_cancel_right less_numeral_extra(3))
  next
    case False
    then have "p div q * q < n * q" using le div_mult_mod_eq [of p q] by linarith
    then have "p div q < n" by simp
    then show ?thesis by (simp add: half_even_def)
  qed
qed

lemma half_even_ge: "0 < q \<Longrightarrow> n * q \<le> p \<Longrightarrow> n \<le> half_even p q"
  by (simp add: half_even_def less_eq_div_iff_mult_less_eq le_SucI)

lemma half_even_near: "0 < q \<Longrightarrow> 2 * q * half_even p q \<le> 2 * p + q" "0 < q \<Longrightarrow> 2 * p \<le> 2 * q * half_even p q + q"
proof -
  assume q: "0 < q"
  define d r where dr: "d = p div q" "r = p mod q"
  then have p: "p = q * d + r" and "r < q" using q by simp_all
  have "half_even p q = d \<and> 2 * r \<le> q \<or> half_even p q = d + 1 \<and> q \<le> 2 * r"
    by (auto simp: half_even_def dr)
  then show "2 * q * half_even p q \<le> 2 * p + q" "2 * p \<le> 2 * q * half_even p q + q"
    using \<open>r < q\<close> unfolding p by (auto simp: algebra_simps)
qed

lemma scaling_enough: "0 < p \<Longrightarrow> k \<le> scaling p q k \<and> 2 ^ 52 * q \<le> p * 2 ^ (scaling p q k - k)"
proof (induction p q k rule: scaling.induct)
  case (1 p q k)
  show ?case
  proof (cases "2 ^ 52 * q \<le> p")
    case True
    then show ?thesis by (subst (1 2) scaling.simps) simp
  next
    case False
    then have eq: "scaling p q k = scaling (2 * p) q (k + 1)" using 1(2) by (subst scaling.simps) simp
    from 1 False have IH: "k + 1 \<le> scaling (2 * p) q (k + 1)" "2 ^ 52 * q \<le> 2 * p * 2 ^ (scaling (2 * p) q (k + 1) - (k + 1))" by auto
    have "scaling (2 * p) q (k + 1) - k = Suc (scaling (2 * p) q (k + 1) - (k + 1))" using IH(1) by simp
    with IH eq show ?thesis by (simp add: mult.assoc mult.left_commute)
  qed
qed

lemma nearest_parts:
  assumes "nearest p q = (m, k)" and "0 < p" "0 < q"
  shows "2 ^ 52 \<le> m" and "p \<le> c * q \<Longrightarrow> m \<le> c * 2 ^ k"
    and "2 * q * m \<le> 2 * (p * 2 ^ k) + q" and "p < 2 ^ 52 * q \<Longrightarrow> 0 < k"
proof -
  have k: "k = scaling p q 0" and m: "m = half_even (p * 2 ^ k) q"
    using assms(1) by (auto simp: nearest_def Let_def)
  have "2 ^ 52 * q \<le> p * 2 ^ k" using scaling_enough [OF assms(2), of 0 q] k by simp
  then show "2 ^ 52 \<le> m" unfolding m by (rule half_even_ge [OF assms(3)])
  show "m \<le> c * 2 ^ k" if "p \<le> c * q"
    unfolding m by (rule half_even_le [OF assms(3)]) (use that in \<open>simp add: mult.commute mult.left_commute\<close>)
  show "2 * q * m \<le> 2 * (p * 2 ^ k) + q" unfolding m by (rule half_even_near [OF assms(3)])
  show "0 < k" if "p < 2 ^ 52 * q"
    using that assms(2) scaling_enough [of "2 * p" 1 q] unfolding k by (subst scaling.simps) auto
qed

lemma math_round_le: "2 * m < (2 * n + 1) * 2 ^ k \<Longrightarrow> math_round (m, k) \<le> n"
  by (simp add: math_round_def less_Suc_eq_le [symmetric] less_mult_imp_div_less algebra_simps)

lemma scaled_bounds:
  assumes "0 < a" "a \<le> b" "0 < c" "c \<le> b" "b < 2 ^ 50"
  shows "math_round (times_int (nearest a b) c) \<le> c" and "math_round (times_int (nearest a b) c) \<le> a"
proof -
  obtain m k m' k' where x: "nearest a b = (m, k)" "times_int (nearest a b) c = (m', k')" by (metis prod.exhaust)
  then have y: "nearest (m * c) (2 ^ k) = (m', k')" by (simp add: times_int_def)
  have "0 < b" using assms(1,2) by simp
  note m = nearest_parts [OF x(1) assms(1) this]
  have pos: "0 < m * c" using m(1) assms(3) by simp
  have k2: "0 < (2::nat) ^ k" by simp
  note m' = nearest_parts [OF y pos k2]
  define K K' where K: "K = (2::nat) ^ k" "K' = (2::nat) ^ k'"
  have "m \<le> K" using m(2) [of 1] assms(2) K by simp
  then have mc: "m' \<le> c * K'" using m'(2) [of c] K by simp
  have "0 < K'" "0 < K" by (simp_all add: K)
  then have "2 * m' < (2 * c + 1) * K'" using mc by (simp add: add_mult_distrib)
  then show "math_round (times_int (nearest a b) c) \<le> c" unfolding x(2) K by (rule math_round_le)
  have big: "4 * b < K" using \<open>m \<le> K\<close> m(1) assms(5) by simp
  have "4 \<le> K'"
  proof (rule ccontr)
    assume "\<not> 4 \<le> K'"
    then have "c * K' \<le> c * 3" by (intro mult_le_mono2) simp
    with mc m'(1) assms(4,5) show False by simp
  qed
  have "2 * (m * c) \<le> 2 * b * m" using assms(4) by simp
  also have "\<dots> \<le> 2 * (a * K) + b" using m(3) K by simp
  finally have "2 * (m * c) * K' \<le> (2 * (a * K) + b) * K'" by (rule mult_le_mono1)
  moreover have "2 * K * m' \<le> 2 * (m * c) * K' + K" using m'(3) K by simp
  moreover have "4 * (b * K') \<le> K * K'" using mult_le_mono1 [of "4 * b" K K'] big by simp
  moreover have "4 * K \<le> K * K'" using mult_le_mono2 [OF \<open>4 \<le> K'\<close>, of K] by (simp add: mult.commute)
  moreover have "0 < K" "0 < K'" by (simp_all add: K)
  ultimately have "2 * K * m' < 2 * (a * K) * K' + K * K'"
    by (simp only: add_mult_distrib)
  then have "K * (2 * m') < K * ((2 * a + 1) * K')" by (simp only: algebra_simps)
  then have "2 * m' < (2 * a + 1) * K'" by (simp only: mult_less_cancel1)
  then show "math_round (times_int (nearest a b) c) \<le> a" unfolding x(2) K by (rule math_round_le)
qed

section \<open>Every thumbnail has its size\<close>

definition extent_ok :: "nat \<Rightarrow> nat \<Rightarrow> bool" where
  "extent_ok w h \<longleftrightarrow> 0 < w \<and> 0 < h \<and> w < 2 ^ 50 \<and> h < 2 ^ 50"

lemma computeDims_fits:
  assumes "extent_ok w h" and "0 < n" and "n < max w h" and "computeDims w h n = (w', h')"
  shows "0 < w' \<and> 0 < h' \<and> w' \<le> w \<and> h' \<le> h \<and> max w' h' = n"
proof (cases "h \<le> w")
  case True
  then have "math_round (times_int (nearest n w) h) \<le> h" "math_round (times_int (nearest n w) h) \<le> n"
    using scaled_bounds [of n w h] assms by (simp_all add: extent_ok_def)
  then show ?thesis using assms True by (auto simp: computeDims_def extent_ok_def Let_def min_def)
next
  case False
  then have "math_round (times_int (nearest n h) w) \<le> w" "math_round (times_int (nearest n h) w) \<le> n"
    using scaled_bounds [of n h w] assms by (simp_all add: extent_ok_def)
  then show ?thesis using assms False by (auto simp: computeDims_def extent_ok_def Let_def min_def)
qed

definition codec_ok :: "'i codec \<Rightarrow> bool" where
  \<comment> \<open>what the code relies on: an image has an extent, and a resized one the extent asked for\<close>
  "codec_ok cd \<longleftrightarrow> (\<forall>i. extent_ok (cd_width cd i) (cd_height cd i))
     \<and> (\<forall>i d i'. cd_resize cd i d = Inr i' \<longrightarrow> (cd_width cd i', cd_height cd i') = d)"

definition fits_in :: "'i codec \<Rightarrow> 'i \<Rightarrow> thumbnail \<Rightarrow> bool" where
  "fits_in cd i t \<longleftrightarrow> 0 < gt_width t \<and> 0 < gt_height t \<and> gt_width t \<le> cd_width cd i \<and> gt_height t \<le> cd_height cd i"

lemma pyramid_fits:
  assumes "codec_ok cd"
  shows "pyramid cd i szs = Inr ts \<Longrightarrow> sorted_wrt (>) (map THUMBNAIL_LONG_EDGE szs) \<Longrightarrow>
    (\<And>s. s \<in> set szs \<Longrightarrow> 0 < THUMBNAIL_LONG_EDGE s \<and> THUMBNAIL_LONG_EDGE s < max (cd_width cd i) (cd_height cd i)) \<Longrightarrow>
    map gt_size ts = szs
    \<and> (\<forall>t \<in> set ts. fits_in cd i t \<and> max (gt_width t) (gt_height t) = THUMBNAIL_LONG_EDGE (gt_size t))"
proof (induction szs arbitrary: i ts)
  case (Cons sz rest)
  let ?n = "THUMBNAIL_LONG_EDGE sz"
  from Cons.prems(1) obtain j enc us where j: "cd_resize cd i (computeDims (cd_width cd i) (cd_height cd i) ?n) = Inr j"
      and us: "pyramid cd j rest = Inr us"
      and ts: "ts = \<lparr>gt_size = sz, gt_data = enc, gt_width = cd_width cd j, gt_height = cd_height cd j\<rparr> # us"
    by (auto split: sum.splits)
  have "computeDims (cd_width cd i) (cd_height cd i) ?n = (cd_width cd j, cd_height cd j)"
    using assms j unfolding codec_ok_def by metis
  then have dims: "0 < cd_width cd j \<and> 0 < cd_height cd j \<and> cd_width cd j \<le> cd_width cd i \<and> cd_height cd j \<le> cd_height cd i
      \<and> max (cd_width cd j) (cd_height cd j) = ?n"
    using assms Cons.prems(3) [of sz] by (intro computeDims_fits) (auto simp: codec_ok_def)
  have "map gt_size us = rest \<and> (\<forall>t \<in> set us. fits_in cd j t \<and> max (gt_width t) (gt_height t) = THUMBNAIL_LONG_EDGE (gt_size t))"
    using Cons.prems(2,3) dims by (intro Cons.IH [OF us]) auto
  with dims ts show ?case by (fastforce simp: fits_in_def)
qed simp

lemma long_edges [simp]: "THUMBNAIL_LONG_EDGE ''xs'' = 64" "THUMBNAIL_LONG_EDGE ''sm'' = 128"
    "THUMBNAIL_LONG_EDGE ''md'' = 512" "THUMBNAIL_LONG_EDGE ''lg'' = 1280"
  by (simp_all add: THUMBNAIL_LONG_EDGE_def)

lemma targets_sizes:
  "sorted_wrt (>) (map THUMBNAIL_LONG_EDGE (rev (targets n)))"
  "s \<in> set (targets n) \<Longrightarrow> 0 < THUMBNAIL_LONG_EDGE s \<and> THUMBNAIL_LONG_EDGE s < n"
  "targets n = [] \<longleftrightarrow> n \<le> 64"
  unfolding targets_def THUMBNAIL_SIZES_def by (auto split: if_splits)

text \<open>Whatever the image, the thumbnails generated for it are those of the catalogue whose
  long edge is shorter than the image's, in ascending order; each has exactly the catalogue's long
  edge (so the rounding of the floating point arithmetic never makes one too large, not even
  through the whole pyramid) and is nowhere larger than the image. An image that no size is
  shorter than yields one \<open>xs\<close> of its own size.\<close>

theorem thumbnails_have_catalogue_sizes:
  assumes "codec_ok cd" and "decode cd source contentType = Inr original"
    and "generateThumbnails cd source contentType = Inr thumbs"
  shows "if max (cd_width cd original) (cd_height cd original) \<le> 64
    then map (\<lambda>t. (gt_size t, gt_width t, gt_height t)) thumbs = [(''xs'', cd_width cd original, cd_height cd original)]
    else map gt_size thumbs = targets (max (cd_width cd original) (cd_height cd original))
      \<and> (\<forall>t \<in> set thumbs. fits_in cd original t \<and> max (gt_width t) (gt_height t) = THUMBNAIL_LONG_EDGE (gt_size t))"
proof (cases "targets (max (cd_width cd original) (cd_height cd original)) = []")
  case True
  with assms(2,3) show ?thesis by (auto simp: generateThumbnails_def Let_def targets_sizes split: sum.splits)
next
  case False
  with assms(2,3) obtain ts where "pyramid cd original (rev (targets (max (cd_width cd original) (cd_height cd original)))) = Inr ts"
      and "thumbs = rev ts"
    by (auto simp: generateThumbnails_def Let_def split: sum.splits)
  moreover from pyramid_fits [OF assms(1) this(1) targets_sizes(1)]
  have "map gt_size ts = rev (targets (max (cd_width cd original) (cd_height cd original)))"
    "\<forall>t \<in> set ts. fits_in cd original t \<and> max (gt_width t) (gt_height t) = THUMBNAIL_LONG_EDGE (gt_size t)"
    using targets_sizes(2) by auto
  ultimately show ?thesis using False by (auto simp: targets_sizes(3) rev_map [symmetric])
qed

section \<open>Where the pixels are decoded\<close>

lemma not_inline_ignores_codec:
  "processMessage cd fs tc msg st \<noteq> processMessage cd' fs tc msg st \<Longrightarrow> tc_available tc \<Longrightarrow>
     tm_size msg \<le> WORKER_INLINE_MAX_BYTES
     \<and> (\<exists>source dims. fs_get fs (tm_sourceKey msg) None (fst st) = Some source
          \<and> imageDimensions (chars (concat (sf_body source))) = Inr dims \<and> fitsInline dims)"
  by (auto simp: processMessage_def Let_def split: option.splits sum.splits if_splits)

text \<open>Where a thumbnail container exists, the worker decodes an image itself only when the
  message says at most 20 MiB and the image's own header says between one and six million pixels:
  the image library has an influence on the outcome in no other case, so a small file that claims
  a huge canvas is never decoded in the worker's memory.\<close>

theorem worker_decodes_only_small_images:
  assumes "tc_available tc" and "processMessage cd fs tc msg st \<noteq> processMessage cd' fs tc msg st"
  shows "tm_size msg \<le> 20971520 \<and> (\<exists>source w h. fs_get fs (tm_sourceKey msg) None (fst st) = Some source
    \<and> imageDimensions (chars (concat (sf_body source))) = Inr (Some (w, h)) \<and> 1 \<le> w * h \<and> w * h \<le> 6000000)"
  using not_inline_ignores_codec [OF assms(2,1)]
  by (auto simp: fitsInline_def pixels_def WORKER_INLINE_MAX_BYTES_def WORKER_INLINE_MAX_PIXELS_def split: option.splits)

section \<open>What is stored is what is served\<close>

lemma mem_put_objects:
  "mem_put md5 key \<lparr>ub_chunks = [d], ub_error = None\<rparr> ct (int (length d)) None s = (Inr u, s') \<Longrightarrow>
     map_of (ms_objects s') = (map_of (ms_objects s))(key \<mapsto> \<lparr>so_data = d, so_contentType = ct, so_contentEncoding = None,
       so_etag = [CHR 0x22] @ md5 d @ [CHR 0x22]\<rparr>)"
  by (auto simp: mem_put_def mem_reserve_def mem_commit_def mem_release_def collect_def Let_def
      split: if_splits option.splits)

lemma thumb_key_inj: "thumb_key msg s = thumb_key msg t \<longleftrightarrow> s = t"
  by (auto simp: thumb_key_def versionThumbKey_def legacyThumbKey_def thumbnailFilename_def split: option.splits)

lemma put_thumbs_stored:
  "put_thumbs (memory_storage_port md5) msg ts s = (Inr u, s') \<Longrightarrow> distinct (map gt_size ts) \<Longrightarrow>
     (\<forall>k. k \<notin> thumb_key msg ` gt_size ` set ts \<longrightarrow> map_of (ms_objects s') k = map_of (ms_objects s) k)
     \<and> (\<forall>t \<in> set ts. map_option so_data (map_of (ms_objects s') (thumb_key msg (gt_size t))) = Some (gt_data t))"
proof (induction ts arbitrary: s)
  case (Cons t ts)
  from Cons.prems(1) obtain s1 u1 where put: "mem_put md5 (thumb_key msg (gt_size t)) \<lparr>ub_chunks = [gt_data t], ub_error = None\<rparr>
        THUMBNAIL_CONTENT_TYPE (int (length (gt_data t))) None s = (Inr u1, s1)"
      and rest: "put_thumbs (memory_storage_port md5) msg ts s1 = (Inr u, s')"
    by (auto split: prod.splits sum.splits)
  note IH = Cons.IH [OF rest] 
  have "thumb_key msg (gt_size t) \<notin> thumb_key msg ` gt_size ` set ts"
    using Cons.prems(2) by (auto simp: thumb_key_inj)
  with IH Cons.prems(2) mem_put_objects [OF put] show ?case by (auto simp: thumb_key_inj)
qed simp

lemma pyramid_sizes: "pyramid cd i szs = Inr ts \<Longrightarrow> map gt_size ts = szs"
  by (induction szs arbitrary: i ts) (auto split: sum.splits)

lemma generated_sizes_distinct: "generateThumbnails cd source ct = Inr ts \<Longrightarrow> distinct (map gt_size ts)"
proof -
  assume *: "generateThumbnails cd source ct = Inr ts"
  have "distinct (targets n)" for n by (simp add: targets_def THUMBNAIL_SIZES_def)
  with * show ?thesis
    by (auto simp: generateThumbnails_def Let_def rev_map [symmetric] dest!: pyramid_sizes split: sum.splits if_splits)
qed

text \<open>Where the worker generates the thumbnails itself, an acknowledged message means that every
  generated thumbnail is stored under the key file delivery looks under: each is served with
  status 200 and the bytes the encoder produced.\<close>

theorem acked_thumbnails_are_served:
  assumes "handleThumbnailQueue cd (memory_storage_port md5) tc [m] (s, c) = ([Acked], s', c')"
    and "\<not> tc_available tc" and "tm_size (dl_body m) \<le> 20971520" and "tm_versionId (dl_body m) \<noteq> Some []"
  shows "\<exists>source thumbs. mem_get (tm_sourceKey (dl_body m)) None s = Some source
    \<and> generateThumbnails cd (concat (sf_body source)) (tm_contentType (dl_body m)) = Inr thumbs
    \<and> (\<forall>t \<in> set thumbs.
         dv_status (serveThumbnail (memory_storage_port md5) s' (tm_assetId (dl_body m)) (tm_versionId (dl_body m)) (gt_size t) p) = 200
         \<and> dv_body (serveThumbnail (memory_storage_port md5) s' (tm_assetId (dl_body m)) (tm_versionId (dl_body m)) (gt_size t) p)
             = Ends [gt_data t])"
proof -
  obtain r where "processMessage cd (memory_storage_port md5) tc (dl_body m) (s, c) = (Inr r, s', c')"
    using assms(1) by (auto split: prod.splits sum.splits)
  then obtain source thumbs where got: "mem_get (tm_sourceKey (dl_body m)) None s = Some source"
      and gen: "generateThumbnails cd (concat (sf_body source)) (tm_contentType (dl_body m)) = Inr thumbs"
      and put: "put_thumbs (memory_storage_port md5) (dl_body m) thumbs s = (Inr r, s')"
    using assms(2,3)
    by (auto simp: processMessage_def WORKER_INLINE_MAX_BYTES_def Let_def generateInWorker_def split: option.splits sum.splits prod.splits)
  have "map_option so_data (map_of (ms_objects s') (thumb_key (dl_body m) (gt_size t))) = Some (gt_data t)" if "t \<in> set thumbs" for t
    using put_thumbs_stored [OF put generated_sizes_distinct [OF gen]] that by simp
  then show ?thesis using got gen assms(4)
    by (fastforce simp: serveThumbnail_def thumb_key_def mem_get_def Let_def split: option.splits)
qed

section \<open>Instances\<close>

text \<open>A codec whose images are their extents.\<close>

definition plain_codec :: "string \<Rightarrow> (nat \<times> nat) codec" where
  "plain_codec encoded = (let clip = (\<lambda>d. if extent_ok (fst d) (snd d) then d else (1, 1)); load = (\<lambda>_. Inr (100, 60))
     in \<lparr>cd_decodeJpeg = load, cd_decodePng = load, cd_decodeWebp = load,
         cd_resize = (\<lambda>_ d. if extent_ok (fst d) (snd d) then Inr d else Inl ''bad extent''),
         cd_encodeWebp = (\<lambda>_ _. Inr encoded), cd_width = (\<lambda>d. fst (clip d)), cd_height = (\<lambda>d. snd (clip d))\<rparr>)"

lemma plain_codec_ok: "codec_ok (plain_codec e)"
  by (auto simp: codec_ok_def plain_codec_def Let_def extent_ok_def split: if_splits)

lemma plain_dims: "computeDims 100 60 64 = (64, 38)"
proof -
  have "scaling 64 100 0 = 53" by (simp add: scaling.simps)
  then have a: "nearest 64 100 = (5764607523034235, 53)" by (simp add: nearest_def half_even_def)
  have "scaling 345876451382054100 9007199254740992 0 = 47" by (simp add: scaling.simps)
  then have "nearest 345876451382054100 9007199254740992 = (5404319552844595, 47)" by (simp add: nearest_def half_even_def)
  with a show ?thesis by (simp add: computeDims_def times_int_def math_round_def)
qed

lemma plain_generated:
  "generateThumbnails (plain_codec e) b ''image/png'' = Inr [\<lparr>gt_size = ''xs'', gt_data = e, gt_width = 64, gt_height = 38\<rparr>]"
proof -
  have "decode (plain_codec e) b ''image/png'' = Inr (100, 60)"
    by (simp add: decode_def plain_codec_def Let_def js_lower_def js_trim_def is_space_def lower_char_def is_upper_def code_unit_def)
  moreover have "targets 100 = [''xs'']" by (simp add: targets_def THUMBNAIL_SIZES_def)
  ultimately show ?thesis
    by (simp add: generateThumbnails_def plain_dims plain_codec_def Let_def extent_ok_def)
qed

lemma thumbnails_have_catalogue_sizes_witness:
  "\<exists>thumbs. generateThumbnails (plain_codec ''w'') ''bytes'' ''image/png'' = Inr thumbs \<and> map gt_size thumbs = targets 100
     \<and> (\<forall>t \<in> set thumbs. max (gt_width t) (gt_height t) = THUMBNAIL_LONG_EDGE (gt_size t))"
proof -
  have "decode (plain_codec ''w'') ''bytes'' ''image/png'' = Inr (100, 60)"
    by (simp add: decode_def plain_codec_def Let_def js_lower_def js_trim_def is_space_def lower_char_def is_upper_def code_unit_def)
  note * = thumbnails_have_catalogue_sizes [OF plain_codec_ok this plain_generated]
  then show ?thesis using plain_generated [of "''w''" "''bytes''"] by (auto simp: plain_codec_def Let_def extent_ok_def)
qed

definition gif_store :: memory_storage where
  "gif_store = \<lparr>ms_objects = [(''k'', \<lparr>so_data = ''GIF89a'' @ [CHR 0x40, CHR 0x00, CHR 0x3C, CHR 0x00], so_contentType = ''image/gif'',
     so_contentEncoding = None, so_etag = ''e''\<rparr>)], ms_usedBytes = 10, ms_capacityBytes = 100\<rparr>"

definition gif_message :: thumbnail_message where
  "gif_message = \<lparr>tm_assetId = ''a'', tm_versionId = Some ''v'', tm_sourceKey = ''k'', tm_contentType = ''image/png'', tm_size = 10\<rparr>"

definition no_containers :: "bool \<Rightarrow> unit thumbnail_containers" where
  "no_containers available = \<lparr>tc_available = available, tc_generate = (\<lambda>_ c. (Inl ''none'', c))\<rparr>"

lemma gif_dimensions: "imageDimensions (chars (''GIF89a'' @ [CHR 0x40, CHR 0x00, CHR 0x3C, CHR 0x00])) = Inr (Some (64, 60))"
  using gif_header_read [of 64 60 "''9a''" "[]"] by (simp add: le16_def)

lemma gif_processed:
  "processMessage (plain_codec e) (memory_storage_port (\<lambda>_. [])) (no_containers available) gif_message (gif_store, ()) =
     (case mem_put (\<lambda>_. []) ''assets/a/v/v/_thumbs/xs.webp'' \<lparr>ub_chunks = [e], ub_error = None\<rparr> ''image/webp'' (int (length e)) None gif_store
      of (r, s) \<Rightarrow> (case r of Inl x \<Rightarrow> Inl x | Inr _ \<Rightarrow> Inr (), s, ()))"
  using gif_dimensions plain_generated
  by (simp add: processMessage_def gif_message_def gif_store_def mem_get_def Let_def WORKER_INLINE_MAX_BYTES_def fitsInline_def
      pixels_def WORKER_INLINE_MAX_PIXELS_def generateInWorker_def thumb_key_def versionThumbKey_def thumbnailFilename_def
      THUMBNAIL_CONTENT_TYPE_def split: prod.splits sum.splits)

lemma gif_stored:
  "mem_put (\<lambda>_. []) key \<lparr>ub_chunks = [[c]], ub_error = None\<rparr> ct 1 None gif_store =
     (Inr (), gif_store\<lparr>ms_usedBytes := 11, ms_objects := own_set (ms_objects (mem_release key (gif_store\<lparr>ms_usedBytes := 11\<rparr>))) key
        \<lparr>so_data = [c], so_contentType = ct, so_contentEncoding = None, so_etag = [CHR 0x22, CHR 0x22]\<rparr>\<rparr>)" if "key \<noteq> ''k''"
  using that by (simp add: mem_put_def mem_reserve_def mem_commit_def collect_def mem_release_def gif_store_def Let_def)

lemma worker_decodes_only_small_images_witness:
  "tm_size gif_message \<le> 20971520 \<and> (\<exists>source w h. mem_get ''k'' None gif_store = Some source
    \<and> imageDimensions (chars (concat (sf_body source))) = Inr (Some (w, h)) \<and> 1 \<le> w * h \<and> w * h \<le> 6000000)"
proof -
  have "processMessage (plain_codec ''x'') (memory_storage_port (\<lambda>_. [])) (no_containers True) gif_message (gif_store, ())
      \<noteq> processMessage (plain_codec ''y'') (memory_storage_port (\<lambda>_. [])) (no_containers True) gif_message (gif_store, ())"
    by (simp add: gif_processed gif_stored) (simp add: gif_store_def mem_release_def)
  from worker_decodes_only_small_images [OF _ this] show ?thesis
    by (simp add: no_containers_def gif_message_def)
qed

lemma acked_thumbnails_are_served_witness:
  "\<exists>s source thumbs. mem_get ''k'' None gif_store = Some source
    \<and> generateThumbnails (plain_codec ''x'') (concat (sf_body source)) ''image/png'' = Inr thumbs
    \<and> (\<forall>t \<in> set thumbs. dv_status (serveThumbnail (memory_storage_port (\<lambda>_. [])) s ''a'' (Some ''v'') (gt_size t) False) = 200)"
proof -
  obtain s where "handleThumbnailQueue (plain_codec ''x'') (memory_storage_port (\<lambda>_. [])) (no_containers False)
      [\<lparr>dl_body = gif_message, dl_attempts = 1\<rparr>] (gif_store, ()) = ([Acked], s, ())"
    by (simp add: gif_processed gif_stored)
  from acked_thumbnails_are_served [OF this, of False] show ?thesis
    by (fastforce simp: no_containers_def gif_message_def)
qed

section \<open>Two divergences\<close>

text \<open>\<open>core/container/port.ts\<close> says that without the container, images the worker would hand off
  are still thumbnailed in-process; one above 20 MiB is not, and its message is retried.\<close>

lemma large_image_without_container:
  assumes "20971520 < tm_size (dl_body m)" and "tc_generate tc = (\<lambda>_ c. (Inl e, c))"
  shows "handleThumbnailQueue cd fs tc [m] st = ([Retried 0], st)"
  using assms by (simp add: processMessage_def hand_off_def WORKER_INLINE_MAX_BYTES_def)

text \<open>The comment on \<open>generateThumbnails\<close> promises the sizes not larger than the source; a size equal
  to the source's long edge is left out.\<close>

lemma equal_size_left_out: "targets 512 = [''xs'', ''sm'']"
  by (simp add: targets_def THUMBNAIL_SIZES_def)

end
