(* ===== verification/Request_Pipeline.thy ===== *)
theory Request_Pipeline
  imports Extraction_Jobs Password_Proof
begin

text \<open>
  What runs between the host middleware and a handler: the middlewares of \<open>core/app.ts\<close> in
  order, that is token verification with the cached signing keys (\<open>core/auth/middleware.ts\<close>,
  \<open>core/auth/jwks.ts\<close>), the directory lookup (\<open>core/tenancy/middleware.ts\<close>, in \<open>Tenancy\<close>), the
  anonymous session (\<open>core/session/middleware.ts\<close>) and the shared secret of the internal API.
  The isolates of a deployment each keep keys in memory; they share one key-value store.
  Parameters (\<open>key_source\<close>): the remote fetch at a time, \<open>createLocalJWKSet\<close>, \<open>jwtVerify\<close>
  and URL resolution. A key document is stored as JSON and read back as the same document.
  The locales \<open>issued_sessions\<close> and \<open>key_cache\<close> carry the two invariants over runs of requests.
\<close>

section \<open>Reading the headers\<close>

definition line_terminator :: "char \<Rightarrow> bool" where
  "line_terminator c \<longleftrightarrow> code_unit c = 10 \<or> code_unit c = 13"

definition bearer_token :: "(string \<Rightarrow> string) \<Rightarrow> string \<Rightarrow> string option" where
  \<comment> \<open>the group of \<open>/^Bearer\s+(.+)$/\<close>; \<open>fold_case\<close> is the identity, or lower-casing for the flag \<open>i\<close>.
    \<open>\s+\<close> takes all the white space, or all but the last character where nothing follows.\<close>
  "bearer_token fold_case h =
     (let ws = takeWhile is_space (drop 6 h); rest = dropWhile is_space (drop 6 h)
      in if fold_case (take 6 h) \<noteq> fold_case ''Bearer'' \<or> ws = [] then None
         else if rest \<noteq> [] then (if list_all (\<lambda>c. \<not> line_terminator c) rest then Some rest else None)
         else if length ws \<ge> 2 \<and> \<not> line_terminator (last ws) then Some [last ws] else None)"

definition session_id_ok :: "string \<Rightarrow> bool" where
  \<comment> \<open>\<open>/^[0-9a-f]{16}$/\<close>\<close>
  "session_id_ok s \<longleftrightarrow> length s = 16 \<and> list_all (\<lambda>c. is_digit c \<or> (97 \<le> code_unit c \<and> code_unit c \<le> 102)) s"

section \<open>The signing keys\<close>

record 'j jwks_entry =
  je_issuer :: string
  je_jwks :: 'j
  je_fetchedAt :: int

record claims =
  cl_sub :: "json option"
  cl_email :: "string option"
  cl_name :: "string option"

record ('d, 'j) key_source =
  ks_url :: "string \<Rightarrow> string \<Rightarrow> string"
    \<comment> \<open>\<open>new URL(relative, base)\<close>\<close>
  ks_fetch :: "int \<Rightarrow> string \<Rightarrow> string + nat \<times> (string + 'd)"
    \<comment> \<open>a failed request, or a status and the parsed body\<close>
  ks_localSet :: "'d \<Rightarrow> string + 'j"
  ks_verify :: "int \<Rightarrow> string \<Rightarrow> 'j \<Rightarrow> string \<Rightarrow> string option \<Rightarrow> string + claims"
    \<comment> \<open>clock, token, keys, issuer, audience\<close>

definition DEFAULT_JWKS_CACHE_TTL :: int where "DEFAULT_JWKS_CACHE_TTL = 3600"

definition jwksUrl :: "('d, 'j) key_source \<Rightarrow> string \<Rightarrow> string" where
  "jwksUrl ks issuer = ks_url ks ''.well-known/jwks.json'' (if ends_with ''/'' issuer then issuer else issuer @ ''/'')"

definition jwksCacheKey :: "string \<Rightarrow> string" where "jwksCacheKey issuer = ''jwks:'' @ issuer"

definition fetchJWKS ::
  "('d, 'j) key_source \<Rightarrow> ('k, 'd) kv_port option \<Rightarrow> int \<Rightarrow> int \<Rightarrow> string \<Rightarrow> 'j jwks_entry option \<times> 'k
   \<Rightarrow> (string + 'j) \<times> 'j jwks_entry option \<times> 'k" where
  \<comment> \<open>the third tier: the document goes to the shared cache before \<open>createLocalJWKSet\<close> reads it\<close>
  "fetchJWKS ks cache ttl now issuer st =
     (case ks_fetch ks now (jwksUrl ks issuer) of
        Inl e \<Rightarrow> (Inl e, st)
      | Inr (status, body) \<Rightarrow>
          if \<not> (200 \<le> status \<and> status \<le> 299) then (Inl (''Failed to fetch JWKS: '' @ show_nat status), st)
          else (case body of
             Inl e \<Rightarrow> (Inl e, st)
           | Inr doc \<Rightarrow>
               (let shared = (case cache of None \<Rightarrow> snd st | Some kv \<Rightarrow> kv_put kv now (jwksCacheKey issuer) doc (Some ttl) (snd st))
                in case ks_localSet ks doc of
                     Inl e \<Rightarrow> (Inl e, fst st, shared)
                   | Inr jwks \<Rightarrow> (Inr jwks, Some \<lparr>je_issuer = issuer, je_jwks = jwks, je_fetchedAt = now\<rparr>, shared))))"

definition memory_hit :: "'j jwks_entry option \<Rightarrow> int \<Rightarrow> int \<Rightarrow> string \<Rightarrow> 'j option" where
  "memory_hit entry ttl now issuer =
     (case entry of None \<Rightarrow> None
      | Some e \<Rightarrow> if je_issuer e = issuer \<and> now - je_fetchedAt e < ttl * 1000 then Some (je_jwks e) else None)"

definition resolveJWKS ::
  "('d, 'j) key_source \<Rightarrow> ('k, 'd) kv_port option \<Rightarrow> int option \<Rightarrow> bool \<Rightarrow> int \<Rightarrow> string \<Rightarrow> 'j jwks_entry option \<times> 'k
   \<Rightarrow> (string + 'j) \<times> 'j jwks_entry option \<times> 'k" where
  "resolveJWKS ks cache ttlSeconds forceFresh now issuer st =
     (let ttl = (case ttlSeconds of None \<Rightarrow> DEFAULT_JWKS_CACHE_TTL | Some t \<Rightarrow> t)
      in case (if forceFresh then None else memory_hit (fst st) ttl now issuer) of
           Some jwks \<Rightarrow> (Inr jwks, st)
         | None \<Rightarrow>
             (case (if forceFresh then None else cache) of
                None \<Rightarrow> fetchJWKS ks cache ttl now issuer st
              | Some kv \<Rightarrow>
                  (case kv_get kv now (jwksCacheKey issuer) (snd st) of
                     (None, shared) \<Rightarrow> fetchJWKS ks cache ttl now issuer (fst st, shared)
                   | (Some doc, shared) \<Rightarrow>
                       (case ks_localSet ks doc of
                          Inl e \<Rightarrow> (Inl e, fst st, shared)
                        | Inr jwks \<Rightarrow> (Inr jwks, Some \<lparr>je_issuer = issuer, je_jwks = jwks, je_fetchedAt = now\<rparr>, shared)))))"

section \<open>Token verification\<close>

record ('k, 'd, 'j) auth_config =
  au_issuer :: "string option"
  au_audience :: "string option"
  au_cache :: "('k, 'd) kv_port option"
  au_ttl :: "int option"
  au_jwks :: "'j option"
    \<comment> \<open>the override\<close>

datatype auth_outcome = Proceed "verified_caller option" | Refused string

definition verify_token ::
  "('d, 'j) key_source \<Rightarrow> ('k, 'd, 'j) auth_config \<Rightarrow> int \<Rightarrow> string \<Rightarrow> string \<Rightarrow> 'j \<Rightarrow> auth_outcome" where
  "verify_token ks cfg now issuer token jwks =
     (case ks_verify ks now token jwks issuer (if truthy (au_audience cfg) then au_audience cfg else None) of
        Inl _ \<Rightarrow> Refused ''Invalid or expired token''
      | Inr payload \<Rightarrow>
          (case cl_sub payload of
             Some (JStr sub) \<Rightarrow>
               if sub = [] then Refused ''Token has no subject''
               else Proceed (Some \<lparr>vc_sub = sub, vc_email = cl_email payload, vc_name = cl_name payload\<rparr>)
           | _ \<Rightarrow> Refused ''Token has no subject''))"

definition authMiddleware ::
  "('d, 'j) key_source \<Rightarrow> ('k, 'd, 'j) auth_config \<Rightarrow> int \<Rightarrow> string option \<Rightarrow> 'j jwks_entry option \<times> 'k
   \<Rightarrow> auth_outcome \<times> 'j jwks_entry option \<times> 'k" where
  "authMiddleware ks cfg now authHeader st =
     (if \<not> truthy (au_issuer cfg) \<or> \<not> truthy authHeader then (Proceed None, st)
      else (case bearer_token js_lower (the authHeader) of
         None \<Rightarrow> (Refused ''Invalid Authorization header format. Expected: Bearer <token>'', st)
       | Some token \<Rightarrow>
           (case au_jwks cfg of
              Some jwks \<Rightarrow> (verify_token ks cfg now (the (au_issuer cfg)) token jwks, st)
            | None \<Rightarrow>
                (case resolveJWKS ks (au_cache cfg) (au_ttl cfg) False now (the (au_issuer cfg)) st of
                   (Inl _, st') \<Rightarrow> (Refused ''Invalid or expired token'', st')
                 | (Inr jwks, st') \<Rightarrow> (verify_token ks cfg now (the (au_issuer cfg)) token jwks, st')))))"

section \<open>Anonymous sessions\<close>

record session =
  ss_id :: string
  ss_createdAt :: int
  ss_expiresAt :: int

definition anon_session_save :: "('q, session) kv_port \<Rightarrow> int \<Rightarrow> session \<Rightarrow> int \<Rightarrow> 'q \<Rightarrow> 'q" where
  "anon_session_save kv now session ttlSeconds q = kv_put kv now (''session:'' @ ss_id session) session (Some ttlSeconds) q"

definition anon_session_find :: "('q, session) kv_port \<Rightarrow> int \<Rightarrow> string \<Rightarrow> 'q \<Rightarrow> session option \<times> 'q" where
  "anon_session_find kv now id' q = kv_get kv now (''session:'' @ id') q"

datatype session_outcome =
    WithSession "string option" "string option"
    \<comment> \<open>the \<open>sessionId\<close> of the context, and the \<open>X-Session-Id\<close> header of the reply\<close>
  | BadSessionId

definition mint_session :: "('q, session) kv_port \<Rightarrow> int \<Rightarrow> string \<Rightarrow> int \<Rightarrow> 'q \<Rightarrow> session_outcome \<times> 'q" where
  "mint_session kv ttlSeconds uuid now q =
     (let id' = take 16 (filter (\<lambda>c. c \<noteq> CHR ''-'') uuid)
      in (WithSession (Some id') (Some id'),
          anon_session_save kv now \<lparr>ss_id = id', ss_createdAt = now, ss_expiresAt = now + ttlSeconds * 1000\<rparr> ttlSeconds q))"

definition sessionMiddleware ::
  "('q, session) kv_port \<Rightarrow> int \<Rightarrow> string \<Rightarrow> int \<Rightarrow> verified_caller option \<Rightarrow> string option \<Rightarrow> 'q \<Rightarrow> session_outcome \<times> 'q" where
  "sessionMiddleware kv ttlSeconds uuid now caller headerSessionId q =
     (if caller \<noteq> None then (WithSession None None, q)
      else if truthy headerSessionId then
        (if \<not> session_id_ok (the headerSessionId) then (BadSessionId, q)
         else (case anon_session_find kv now (the headerSessionId) q of
                 (Some _, q') \<Rightarrow> (WithSession headerSessionId None, q')
               | (None, q') \<Rightarrow> mint_session kv ttlSeconds uuid now q'))
      else mint_session kv ttlSeconds uuid now q)"

section \<open>The middlewares in order\<close>

definition INTERNAL_API_PREFIX :: string where "INTERNAL_API_PREFIX = ''/api/internal/''"
definition FILES_PREFIX :: string where "FILES_PREFIX = ''/files''"

definition exempt :: "string list \<Rightarrow> string \<Rightarrow> bool" where
  \<comment> \<open>\<open>exceptPrefixes\<close>: a prefix ends at a segment boundary\<close>
  "exempt exempted path = list_ex (\<lambda>p. path = p \<or> starts_with (if ends_with ''/'' p then p else p @ ''/'') path) exempted"

definition session_exempt :: "string \<Rightarrow> bool" where
  \<comment> \<open>\<open>exceptInternalApi(exceptFileDelivery(\<dots>))\<close>\<close>
  "session_exempt path \<longleftrightarrow> exempt [INTERNAL_API_PREFIX] path \<or> path = ''/files'' \<or> starts_with ''/files/'' path"

record incoming =
  in_isolate :: nat
  in_now :: int
  in_uuid :: string
  in_path :: string
  in_authorization :: "string option"
  in_session :: "string option"

record ('k, 'q, 'd, 'j) gate_env =
  ge_keys :: "('d, 'j) key_source"
  ge_auth :: "('k, 'd, 'j) auth_config"
  ge_sessions :: "('q, session) kv_port"
  ge_sessionTtl :: int
  ge_check :: authorizer

record ('k, 'q, 'j) gate_state =
  gs_memory :: "nat \<Rightarrow> 'j jwks_entry option"
    \<comment> \<open>the module variable of each isolate\<close>
  gs_cache :: 'k
  gs_sessions :: 'q

datatype gate_outcome =
    Entered request "string option"
    \<comment> \<open>what the handlers read, and the \<open>X-Session-Id\<close> header of the reply\<close>
  | Turned_away nat string

definition auth_step ::
  "('k, 'q, 'd, 'j) gate_env \<Rightarrow> incoming \<Rightarrow> ('k, 'q, 'j) gate_state \<Rightarrow> auth_outcome \<times> ('k, 'q, 'j) gate_state" where
  \<comment> \<open>\<open>exceptAuthless(authMiddleware(deps.auth))\<close>\<close>
  "auth_step env r st =
     (if exempt [INTERNAL_API_PREFIX, FILES_PREFIX] (in_path r) then (Proceed None, st)
      else (case authMiddleware (ge_keys env) (ge_auth env) (in_now r) (in_authorization r) (gs_memory st (in_isolate r), gs_cache st) of
              (out, entry, shared) \<Rightarrow> (out, st\<lparr>gs_memory := (gs_memory st)(in_isolate r := entry), gs_cache := shared\<rparr>)))"

definition session_step ::
  "('k, 'q, 'd, 'j) gate_env \<Rightarrow> incoming \<Rightarrow> verified_caller option \<Rightarrow> ('k, 'q, 'j) gate_state
   \<Rightarrow> session_outcome \<times> ('k, 'q, 'j) gate_state" where
  "session_step env r caller st =
     (if session_exempt (in_path r) then (WithSession None None, st)
      else (case sessionMiddleware (ge_sessions env) (ge_sessionTtl env) (in_uuid r) (in_now r) caller (in_session r) (gs_sessions st) of
              (out, q) \<Rightarrow> (out, st\<lparr>gs_sessions := q\<rparr>)))"

definition enter ::
  "('k, 'q, 'd, 'j) gate_env \<Rightarrow> incoming \<Rightarrow> ('k, 'q, 'j) gate_state \<Rightarrow> gate_outcome \<times> ('k, 'q, 'j) gate_state" where
  \<comment> \<open>authentication, the directory, the session: then the handler\<close>
  "enter env r st =
     (case auth_step env r st of
        (Refused e, st') \<Rightarrow> (Turned_away 401 e, st')
      | (Proceed caller, st') \<Rightarrow>
          (case session_step env r caller st' of
             (BadSessionId, st'') \<Rightarrow> (Turned_away 401 ''Invalid session ID format'', st'')
           | (WithSession sid hdr, st'') \<Rightarrow> (Entered (tenancyMiddleware (ge_check env) (in_path r) caller sid) hdr, st'')))"

section \<open>The internal API\<close>

definition timingSafeEqual_app :: "string \<Rightarrow> string \<Rightarrow> bool" where
  \<comment> \<open>the loop is the one of \<open>constantTimeEqual\<close>\<close>
  "timingSafeEqual_app a b = (if length a \<noteq> length b then False else mismatch a b = 0)"

definition internalApiAuth :: "string option \<Rightarrow> string option \<Rightarrow> (nat \<times> string) option" where
  \<comment> \<open>the refusal, if any\<close>
  "internalApiAuth expected authHeader =
     (if \<not> truthy expected then Some (503, ''Internal API not configured'')
      else (case bearer_token id (case authHeader of None \<Rightarrow> [] | Some h \<Rightarrow> h) of
              None \<Rightarrow> Some (401, ''Unauthorized'')
            | Some token \<Rightarrow> if timingSafeEqual_app token (the expected) then None else Some (401, ''Unauthorized'')))"

definition asset_exists_handler :: "string \<Rightarrow> database \<Rightarrow> nat \<times> bool" where
  \<comment> \<open>\<open>GET /api/internal/assets/:id/exists\<close>: the status and \<open>exists\<close>\<close>
  "asset_exists_handler id' db = (if asset_find id' db \<noteq> None then (200, True) else (404, False))"

datatype internal_call = ReportStatus string status_report | AssetExists string

definition internal_api ::
  "string option \<Rightarrow> string option \<Rightarrow> 's file_storage \<Rightarrow> text_decoding \<Rightarrow> int \<Rightarrow> int \<Rightarrow> internal_call \<Rightarrow> database \<Rightarrow> 's \<Rightarrow> nat \<times> database" where
  "internal_api secret authHeader fs td now ttl call db s =
     (case internalApiAuth secret authHeader of
        Some (status, _) \<Rightarrow> (status, db)
      | None \<Rightarrow>
          (case call of
             ReportStatus id' report \<Rightarrow> job_status_handler fs td now ttl id' report db s
           | AssetExists id' \<Rightarrow> (fst (asset_exists_handler id' db), db)))"

section \<open>The current user\<close>

datatype me_reply = MeError string | Me auth_user "(workspace \<times> role) list"

definition me_handler :: "request \<Rightarrow> database \<Rightarrow> nat \<times> me_reply" where
  "me_handler rq db =
     (case rq_user rq of
        None \<Rightarrow> (401, MeError ''Authentication required'')
      | Some user \<Rightarrow>
          (200, Me user (List.map_filter (\<lambda>m. map_option (\<lambda>ws. (ws, m_role m)) (workspace_find (m_workspaceId m) db))
                   (member_listForCaller (Some (u_id user)) db))))"

section \<open>Runs of requests\<close>

fun run_gate ::
  "('k, 'q, 'd, 'j) gate_env \<Rightarrow> incoming list \<Rightarrow> ('k, 'q, 'j) gate_state \<Rightarrow> gate_outcome list \<times> ('k, 'q, 'j) gate_state" where
  "run_gate env [] st = ([], st)"
| "run_gate env (r # rs) st =
     (case enter env r st of (out, st') \<Rightarrow> (case run_gate env rs st' of (outs, st'') \<Rightarrow> (out # outs, st'')))"

definition issued :: "(incoming \<times> gate_outcome) list \<Rightarrow> (string \<times> int) set" where
  \<comment> \<open>the session identifiers handed out, with their times\<close>
  "issued history = {(s, in_now r) | s r rq. (r, Entered rq (Some s)) \<in> set history}"

definition published :: "('d, 'j) key_source \<Rightarrow> int \<Rightarrow> string \<Rightarrow> 'd \<Rightarrow> bool" where
  \<comment> \<open>a request to the issuer at that time is answered with that document\<close>
  "published ks t issuer doc \<longleftrightarrow> (\<exists>status \<in> {200..299}. ks_fetch ks t (jwksUrl ks issuer) = Inr (status, Inr doc))"

definition ttl_of :: "('k, 'd, 'j) auth_config \<Rightarrow> int" where
  "ttl_of cfg = (case au_ttl cfg of None \<Rightarrow> DEFAULT_JWKS_CACHE_TTL | Some t \<Rightarrow> t)"

definition recent_keys :: "('d, 'j) key_source \<Rightarrow> int \<Rightarrow> int \<Rightarrow> string \<Rightarrow> 'j \<Rightarrow> bool" where
  \<comment> \<open>the issuer published these keys less than two lifetimes of the cache ago\<close>
  "recent_keys ks ttl now issuer jwks \<longleftrightarrow> (\<exists>t doc. t \<le> now \<and> (t = now \<or> now < t + 2 * ttl * 1000)
     \<and> published ks t issuer doc \<and> ks_localSet ks doc = Inr jwks)"

definition verified_token :: "('d, 'j) key_source \<Rightarrow> ('k, 'd, 'j) auth_config \<Rightarrow> int \<Rightarrow> string option \<Rightarrow> verified_caller \<Rightarrow> bool" where
  \<comment> \<open>the header carries a token of this subject that recently published keys of the issuer verify\<close>
  "verified_token ks cfg now authHeader who \<longleftrightarrow> (\<exists>issuer token jwks payload. au_issuer cfg = Some issuer
     \<and> bearer_token js_lower (the authHeader) = Some token \<and> recent_keys ks (ttl_of cfg) now issuer jwks
     \<and> ks_verify ks now token jwks issuer (if truthy (au_audience cfg) then au_audience cfg else None) = Inr payload
     \<and> cl_sub payload = Some (JStr (vc_sub who)) \<and> vc_sub who \<noteq> [])"

lemma verify_token_Proceed:
  "verify_token ks cfg now issuer token jwks = Proceed caller \<Longrightarrow>
     \<exists>payload who. caller = Some who
       \<and> ks_verify ks now token jwks issuer (if truthy (au_audience cfg) then au_audience cfg else None) = Inr payload
       \<and> cl_sub payload = Some (JStr (vc_sub who)) \<and> vc_sub who \<noteq> []"
  by (auto simp: verify_token_def split: sum.splits option.splits json.splits if_splits)

locale request_gate =
  keys: key_value_port key_kv key_contents key_invar + sessions: key_value_port session_kv session_contents session_invar
  for key_kv :: "('k, 'd) kv_port" and key_contents :: "'k \<Rightarrow> string \<rightharpoonup> 'd \<times> int option" and key_invar :: "'k \<Rightarrow> bool"
    and session_kv :: "('q, session) kv_port" and session_contents :: "'q \<Rightarrow> string \<rightharpoonup> session \<times> int option"
    and session_invar :: "'q \<Rightarrow> bool"
begin

definition sessions_ok :: "int \<Rightarrow> (string \<times> int) set \<Rightarrow> int \<Rightarrow> 'q \<Rightarrow> bool" where
  "sessions_ok ttl H now q \<longleftrightarrow> session_invar q \<and> (\<forall>t k s. now \<le> t \<longrightarrow> visible t (session_contents q) k = Some s \<longrightarrow>
     (\<exists>i t0. k = ''session:'' @ i \<and> (i, t0) \<in> H \<and> t < t0 + ttl * 1000))"

lemma sessions_ok_mono: "sessions_ok ttl H now q \<Longrightarrow> H \<subseteq> H' \<Longrightarrow> now \<le> now' \<Longrightarrow> sessions_ok ttl H' now' q"
  unfolding sessions_ok_def by (meson order_trans subsetD)

lemma anon_session_found:
  assumes "sessions_ok ttl H now q" and "anon_session_find session_kv now i q = (found, q')"
  shows "sessions_ok ttl H now q'" and "found = Some s \<Longrightarrow> \<exists>t0. (i, t0) \<in> H \<and> now < t0 + ttl * 1000"
proof -
  have q': "q' = snd (kv_get session_kv now (''session:'' @ i) q)" and found: "found = fst (kv_get session_kv now (''session:'' @ i) q)"
    using assms(2) by (simp_all add: anon_session_find_def)
  show "sessions_ok ttl H now q'"
    using assms(1) unfolding sessions_ok_def q' by (simp add: sessions.get_frame sessions.get_invar)
  show "\<exists>t0. (i, t0) \<in> H \<and> now < t0 + ttl * 1000" if "found = Some s"
    using assms(1) sessions.get_sound [of q now "''session:'' @ i" s] that unfolding sessions_ok_def found by fastforce
qed

lemma session_minted:
  assumes "sessions_ok ttl H now q" and "mint_session session_kv ttl uuid now q = (out, q')"
  shows "\<exists>i. out = WithSession (Some i) (Some i) \<and> sessions_ok ttl (insert (i, now) H) now q'"
proof -
  let ?i = "take 16 (filter (\<lambda>c. c \<noteq> CHR ''-'') uuid)"
  have q': "q' = kv_put session_kv now (''session:'' @ ?i) \<lparr>ss_id = ?i, ss_createdAt = now, ss_expiresAt = now + ttl * 1000\<rparr> (Some ttl) q"
    and out: "out = WithSession (Some ?i) (Some ?i)"
    using assms(2) by (simp_all add: mint_session_def anon_session_save_def Let_def)
  have q: "session_invar q" using assms(1) by (simp add: sessions_ok_def)
  have "sessions_ok ttl (insert (?i, now) H) now q'"
    unfolding sessions_ok_def
  proof (intro conjI allI impI)
    show "session_invar q'" using q by (simp add: q' sessions.put_invar)
    fix t k s
    assume t: "now \<le> t" and v: "visible t (session_contents q') k = Some s"
    show "\<exists>i t0. k = ''session:'' @ i \<and> (i, t0) \<in> insert (?i, now) H \<and> t < t0 + ttl * 1000"
    proof (cases "k = ''session:'' @ ?i")
      case True
      then have "t < now + ttl * 1000"
        using v q by (simp add: q' sessions.put_contents visible_def expiry_of_def live_def split: if_splits)
      then show ?thesis using True by blast
    next
      case False
      then have "visible t (session_contents q) k = Some s"
        using v q by (simp add: q' sessions.put_contents visible_def)
      then show ?thesis using assms(1) t unfolding sessions_ok_def by blast
    qed
  qed
  then show ?thesis using out by blast
qed

lemma session_middleware_ok:
  assumes "sessions_ok ttl H now q" and "sessionMiddleware session_kv ttl uuid now caller hdr q = (out, q')"
  shows "case out of BadSessionId \<Rightarrow> sessions_ok ttl H now q'
    | WithSession sid reply \<Rightarrow> sessions_ok ttl (case reply of None \<Rightarrow> H | Some i \<Rightarrow> insert (i, now) H) now q'
        \<and> (\<forall>s. sid = Some s \<longrightarrow> caller = None \<and> (reply = Some s \<or> (\<exists>t0. (s, t0) \<in> H \<and> now < t0 + ttl * 1000)))"
proof (cases "caller = None \<and> truthy hdr \<and> session_id_ok (the hdr)")
  case True
  obtain found q1 where f: "anon_session_find session_kv now (the hdr) q = (found, q1)" by fastforce
  note * = anon_session_found [OF assms(1) f]
  show ?thesis
  proof (cases found)
    case None
    then have "mint_session session_kv ttl uuid now q1 = (out, q')" using assms(2) True f by (simp add: sessionMiddleware_def)
    from session_minted [OF *(1) this]
    obtain i where "out = WithSession (Some i) (Some i)" "sessions_ok ttl (insert (i, now) H) now q'" by blast
    then show ?thesis using True by simp
  next
    case (Some s)
    then have "out = WithSession hdr None" "q' = q1" using assms(2) True f by (auto simp: sessionMiddleware_def)
    then show ?thesis using * Some True by (auto simp: truthy_def split: option.splits)
  qed
next
  case False
  then consider "out = WithSession None None" "q' = q" | "out = BadSessionId" "q' = q"
    | "caller = None" "mint_session session_kv ttl uuid now q = (out, q')"
    using assms(2) by (auto simp: sessionMiddleware_def split: if_splits)
  then show ?thesis
  proof cases
    case 3
    then show ?thesis using session_minted [OF assms(1)] by fastforce
  qed (use assms(1) in auto)
qed

definition keys_ok :: "('d, 'j) key_source \<Rightarrow> int \<Rightarrow> int \<Rightarrow> 'k \<Rightarrow> bool" where
  "keys_ok ks ttl now c \<longleftrightarrow> key_invar c \<and> (\<forall>t k doc. now \<le> t \<longrightarrow> visible t (key_contents c) k = Some doc \<longrightarrow>
     (\<exists>issuer t0. k = jwksCacheKey issuer \<and> t0 \<le> now \<and> t < t0 + ttl * 1000 \<and> published ks t0 issuer doc))"

definition entry_ok :: "('d, 'j) key_source \<Rightarrow> int \<Rightarrow> int \<Rightarrow> 'j jwks_entry option \<Rightarrow> bool" where
  "entry_ok ks ttl now entry \<longleftrightarrow> (\<forall>e. entry = Some e \<longrightarrow> (\<exists>t0 doc. t0 \<le> je_fetchedAt e \<and> je_fetchedAt e \<le> now
     \<and> (je_fetchedAt e = t0 \<or> je_fetchedAt e < t0 + ttl * 1000) \<and> published ks t0 (je_issuer e) doc \<and> ks_localSet ks doc = Inr (je_jwks e)))"

lemma keys_ok_mono: "keys_ok ks ttl now c \<Longrightarrow> now \<le> now' \<Longrightarrow> keys_ok ks ttl now' c"
  unfolding keys_ok_def by (meson order_trans)

lemma entry_ok_mono: "entry_ok ks ttl now e \<Longrightarrow> now \<le> now' \<Longrightarrow> entry_ok ks ttl now' e"
  unfolding entry_ok_def by (metis order_trans)

lemma fetch_ok:
  assumes "cache = None \<or> cache = Some key_kv" and "keys_ok ks ttl now c" and "entry_ok ks ttl now e"
    and "fetchJWKS ks cache ttl now issuer (e, c) = (res, e', c')"
  shows "keys_ok ks ttl now c' \<and> entry_ok ks ttl now e' \<and> (\<forall>jwks. res = Inr jwks \<longrightarrow> recent_keys ks ttl now issuer jwks)"
proof (cases "\<exists>doc. published ks now issuer doc")
  case False
  then have "e' = e" "c' = c" "\<forall>jwks. res \<noteq> Inr jwks"
    using assms(4) by (auto simp: fetchJWKS_def published_def split: sum.splits if_splits prod.splits)
  then show ?thesis using assms(2,3) by simp
next
  case True
  then obtain doc where doc: "published ks now issuer doc" by blast
  define shared where "shared = (case cache of None \<Rightarrow> c | Some kv \<Rightarrow> kv_put kv now (jwksCacheKey issuer) doc (Some ttl) c)"
  have shared: "keys_ok ks ttl now shared"
  proof (cases cache)
    case (Some kv)
    then have kv: "kv = key_kv" using assms(1) by simp
    show ?thesis unfolding keys_ok_def
    proof (intro conjI allI impI)
      show "key_invar shared" using assms(2) Some kv by (simp add: shared_def keys_ok_def keys.put_invar)
      fix t k d
      assume t: "now \<le> t" and v: "visible t (key_contents shared) k = Some d"
      show "\<exists>issuer t0. k = jwksCacheKey issuer \<and> t0 \<le> now \<and> t < t0 + ttl * 1000 \<and> published ks t0 issuer d"
      proof (cases "k = jwksCacheKey issuer")
        case True
        then have "d = doc" "t < now + ttl * 1000"
          using v assms(2) Some kv by (auto simp: shared_def keys.put_contents keys_ok_def visible_def expiry_of_def live_def split: if_splits)
        then show ?thesis using doc True by auto
      next
        case False
        then have "visible t (key_contents c) k = Some d"
          using v assms(2) Some kv by (simp add: shared_def keys.put_contents keys_ok_def visible_def)
        then show ?thesis using assms(2) t unfolding keys_ok_def by blast
      qed
    qed
  qed (use assms(2) in \<open>simp add: shared_def\<close>)
  have "(res, e', c') = (case ks_localSet ks doc of Inl x \<Rightarrow> (Inl x, e, shared)
      | Inr jwks \<Rightarrow> (Inr jwks, Some \<lparr>je_issuer = issuer, je_jwks = jwks, je_fetchedAt = now\<rparr>, shared))"
    using assms(4) doc by (auto simp: fetchJWKS_def published_def shared_def Let_def split: sum.splits cong: option.case_cong)
  then show ?thesis using shared assms(3) doc
    by (auto simp: entry_ok_def recent_keys_def split: sum.splits)
qed

lemma resolve_ok:
  assumes "cache = None \<or> cache = Some key_kv" and "keys_ok ks (ttl_of cfg) now c" and "entry_ok ks (ttl_of cfg) now e"
    and "resolveJWKS ks cache (au_ttl cfg) fresh now issuer (e, c) = (res, e', c')"
  shows "keys_ok ks (ttl_of cfg) now c' \<and> entry_ok ks (ttl_of cfg) now e'
    \<and> (\<forall>jwks. res = Inr jwks \<longrightarrow> recent_keys ks (ttl_of cfg) now issuer jwks)"
proof -
  let ?ttl = "ttl_of cfg"
  have ttl: "(case au_ttl cfg of None \<Rightarrow> DEFAULT_JWKS_CACHE_TTL | Some t \<Rightarrow> t) = ?ttl" by (simp add: ttl_of_def)
  note fetched = fetch_ok [OF assms(1)]
  show ?thesis
  proof (cases "if fresh then None else memory_hit e ?ttl now issuer")
    case (Some jwks)
    then obtain x where x: "e = Some x" "je_issuer x = issuer" "now - je_fetchedAt x < ?ttl * 1000" "je_jwks x = jwks"
      by (auto simp: memory_hit_def split: if_splits option.splits)
    with assms(3) have "recent_keys ks ?ttl now issuer jwks"
      unfolding entry_ok_def recent_keys_def by (smt (verit, best))
    then show ?thesis using assms(2-4) Some by (auto simp: resolveJWKS_def ttl Let_def cong: if_cong)
  next
    case None
    show ?thesis
    proof (cases "if fresh then None else cache")
      case None': None
      then show ?thesis using assms(2-4) None fetched by (simp add: resolveJWKS_def ttl Let_def cong: if_cong)
    next
      case (Some kv)
      then have kv: "kv = key_kv" using assms(1) by (auto split: if_splits)
      define c1 where "c1 = snd (kv_get key_kv now (jwksCacheKey issuer) c)"
      have c1: "keys_ok ks ?ttl now c1"
        using assms(2) unfolding keys_ok_def c1_def by (simp add: keys.get_frame keys.get_invar)
      show ?thesis
      proof (cases "fst (kv_get key_kv now (jwksCacheKey issuer) c)")
        case None'': None
        then have "kv_get key_kv now (jwksCacheKey issuer) c = (None, c1)" by (simp add: c1_def prod_eq_iff)
        then have "fetchJWKS ks cache ?ttl now issuer (e, c1) = (res, e', c')"
          using assms(4) None Some by (simp add: resolveJWKS_def ttl Let_def kv cong: if_cong)
        then show ?thesis using fetched [OF c1 assms(3)] by blast
      next
        case found: (Some doc)
        then have get: "kv_get key_kv now (jwksCacheKey issuer) c = (Some doc, c1)" by (simp add: c1_def prod_eq_iff)
        have "visible now (key_contents c) (jwksCacheKey issuer) = Some doc"
          using keys.get_sound found assms(2) by (simp add: keys_ok_def)
        then obtain t0 where t0: "t0 \<le> now" "now < t0 + ?ttl * 1000" "published ks t0 issuer doc"
          using assms(2) unfolding keys_ok_def by (fastforce simp: jwksCacheKey_def)
        then have "recent_keys ks ?ttl now issuer jwks" if "ks_localSet ks doc = Inr jwks" for jwks
          using that unfolding recent_keys_def by (intro exI [of _ t0] exI [of _ doc]) auto
        moreover have "entry_ok ks ?ttl now (Some \<lparr>je_issuer = issuer, je_jwks = jwks, je_fetchedAt = now\<rparr>)"
          if "ks_localSet ks doc = Inr jwks" for jwks
          using that t0 unfolding entry_ok_def by auto
        moreover have "(res, e', c') = (case ks_localSet ks doc of Inl x \<Rightarrow> (Inl x, e, c1)
            | Inr jwks \<Rightarrow> (Inr jwks, Some \<lparr>je_issuer = issuer, je_jwks = jwks, je_fetchedAt = now\<rparr>, c1))"
          using assms(4) None Some get by (auto simp: resolveJWKS_def ttl Let_def kv split: sum.splits cong: if_cong)
        ultimately show ?thesis using c1 assms(3) by (auto split: sum.splits)
      qed
    qed
  qed
qed

lemma auth_ok:
  assumes "au_jwks cfg = None" and "au_cache cfg = None \<or> au_cache cfg = Some key_kv"
    and "keys_ok ks (ttl_of cfg) now c" and "entry_ok ks (ttl_of cfg) now e"
    and "authMiddleware ks cfg now authHeader (e, c) = (out, e', c')"
  shows "keys_ok ks (ttl_of cfg) now c' \<and> entry_ok ks (ttl_of cfg) now e'
    \<and> (\<forall>who. out = Proceed (Some who) \<longrightarrow> verified_token ks cfg now authHeader who)"
proof (cases "truthy (au_issuer cfg) \<and> truthy authHeader")
  case False
  then show ?thesis using assms by (auto simp: authMiddleware_def)
next
  case True
  then obtain issuer where issuer: "au_issuer cfg = Some issuer" by (auto simp: truthy_def split: option.splits)
  show ?thesis
  proof (cases "bearer_token js_lower (the authHeader)")
    case None
    then show ?thesis using assms True by (auto simp: authMiddleware_def)
  next
    case (Some token)
    obtain res e1 c1 where r: "resolveJWKS ks (au_cache cfg) (au_ttl cfg) False now issuer (e, c) = (res, e1, c1)"
      by (metis prod.exhaust)
    note * = resolve_ok [OF assms(2-4) r]
    have "(out, e', c') = (case res of Inl _ \<Rightarrow> (Refused ''Invalid or expired token'', e1, c1)
        | Inr jwks \<Rightarrow> (verify_token ks cfg now issuer token jwks, e1, c1))"
      using assms(1,5) True Some issuer r by (auto simp: authMiddleware_def split: sum.splits)
    then have "e' = e1" "c' = c1" and out: "out = (case res of Inl _ \<Rightarrow> Refused ''Invalid or expired token''
        | Inr jwks \<Rightarrow> verify_token ks cfg now issuer token jwks)"
      by (simp_all split: sum.splits)
    moreover have "verified_token ks cfg now authHeader who" if "out = Proceed (Some who)" for who
    proof -
      from that out obtain jwks where jwks: "res = Inr jwks" "verify_token ks cfg now issuer token jwks = Proceed (Some who)"
        by (cases res) auto
      with * verify_token_Proceed [OF jwks(2)] show ?thesis
        unfolding verified_token_def using issuer Some by blast
    qed
    ultimately show ?thesis using * by blast
  qed
qed

definition gate_ok :: "('k, 'q, 'd, 'j) gate_env \<Rightarrow> (string \<times> int) set \<Rightarrow> int \<Rightarrow> ('k, 'q, 'j) gate_state \<Rightarrow> bool" where
  "gate_ok env H now st \<longleftrightarrow> sessions_ok (ge_sessionTtl env) H now (gs_sessions st)
     \<and> keys_ok (ge_keys env) (ttl_of (ge_auth env)) now (gs_cache st)
     \<and> (\<forall>i. entry_ok (ge_keys env) (ttl_of (ge_auth env)) now (gs_memory st i))"

definition gate_env_ok :: "('k, 'q, 'd, 'j) gate_env \<Rightarrow> bool" where
  "gate_env_ok env \<longleftrightarrow> ge_sessions env = session_kv \<and> au_jwks (ge_auth env) = None
     \<and> (au_cache (ge_auth env) = None \<or> au_cache (ge_auth env) = Some key_kv)"

lemma gate_ok_mono: "gate_ok env H now st \<Longrightarrow> now \<le> now' \<Longrightarrow> gate_ok env H now' st"
  unfolding gate_ok_def using sessions_ok_mono [OF _ order_refl] keys_ok_mono entry_ok_mono by (metis (no_types, lifting))

lemma auth_step_ok:
  assumes "gate_env_ok env" and "gate_ok env H (in_now r) st" and "auth_step env r st = (out, st')"
  shows "gate_ok env H (in_now r) st'
    \<and> (\<forall>who. out = Proceed (Some who) \<longrightarrow> verified_token (ge_keys env) (ge_auth env) (in_now r) (in_authorization r) who)"
proof (cases "exempt [INTERNAL_API_PREFIX, FILES_PREFIX] (in_path r)")
  case True
  then show ?thesis using assms by (auto simp: auth_step_def)
next
  case False
  obtain out1 e c where auth: "authMiddleware (ge_keys env) (ge_auth env) (in_now r) (in_authorization r)
      (gs_memory st (in_isolate r), gs_cache st) = (out1, e, c)" by (metis prod.exhaust)
  have "out = out1" "st' = st\<lparr>gs_memory := (gs_memory st)(in_isolate r := e), gs_cache := c\<rparr>"
    using assms(3) False auth by (auto simp: auth_step_def)
  moreover from assms(1,2) have "au_jwks (ge_auth env) = None"
    "au_cache (ge_auth env) = None \<or> au_cache (ge_auth env) = Some key_kv"
    "keys_ok (ge_keys env) (ttl_of (ge_auth env)) (in_now r) (gs_cache st)"
    "entry_ok (ge_keys env) (ttl_of (ge_auth env)) (in_now r) (gs_memory st (in_isolate r))"
    by (auto simp: gate_ok_def gate_env_ok_def)
  note auth_ok [OF this auth]
  ultimately show ?thesis using assms(2) by (auto simp: gate_ok_def)
qed

lemma session_step_ok:
  assumes "gate_env_ok env" and "gate_ok env H (in_now r) st" and "session_step env r caller st = (out, st')"
  shows "case out of BadSessionId \<Rightarrow> gate_ok env H (in_now r) st'
    | WithSession sid reply \<Rightarrow> gate_ok env (case reply of None \<Rightarrow> H | Some i \<Rightarrow> insert (i, in_now r) H) (in_now r) st'
        \<and> (\<forall>s. sid = Some s \<longrightarrow> caller = None
             \<and> (reply = Some s \<or> (\<exists>t0. (s, t0) \<in> H \<and> in_now r < t0 + ge_sessionTtl env * 1000)))"
proof (cases "session_exempt (in_path r)")
  case True
  then show ?thesis using assms by (auto simp: session_step_def)
next
  case False
  obtain out1 q where mw: "sessionMiddleware session_kv (ge_sessionTtl env) (in_uuid r) (in_now r) caller (in_session r)
      (gs_sessions st) = (out1, q)" by fastforce
  have "out = out1" "st' = st\<lparr>gs_sessions := q\<rparr>"
    using assms(1,3) False mw by (auto simp: session_step_def gate_env_ok_def)
  with session_middleware_ok [OF _ mw] assms(2) show ?thesis
    by (cases out) (auto simp: gate_ok_def)
qed

lemma enter_ok:
  assumes "gate_env_ok env" and "gate_ok env H now st" and "now \<le> in_now r" and "enter env r st = (out, st')"
  shows "gate_ok env (H \<union> issued [(r, out)]) (in_now r) st'"
    and "out = Entered rq hdr \<Longrightarrow> rq_sessionId rq = Some s \<Longrightarrow> rq_user rq = None
      \<and> (hdr = Some s \<or> (\<exists>t0. (s, t0) \<in> H \<and> in_now r < t0 + ge_sessionTtl env * 1000))"
    and "out = Entered rq hdr \<Longrightarrow> rq_user rq = Some u \<Longrightarrow>
      \<exists>who. verified_token (ge_keys env) (ge_auth env) (in_now r) (in_authorization r) who \<and> u_id u = vc_sub who \<and> u_sub u = vc_sub who"
proof -
  obtain a st1 where a: "auth_step env r st = (a, st1)" by fastforce
  note auth = auth_step_ok [OF assms(1) gate_ok_mono [OF assms(2,3)] a]
  have "gate_ok env (H \<union> issued [(r, out)]) (in_now r) st'
    \<and> (\<forall>rq hdr s. out = Entered rq hdr \<longrightarrow> rq_sessionId rq = Some s \<longrightarrow> rq_user rq = None
         \<and> (hdr = Some s \<or> (\<exists>t0. (s, t0) \<in> H \<and> in_now r < t0 + ge_sessionTtl env * 1000)))
    \<and> (\<forall>rq hdr u. out = Entered rq hdr \<longrightarrow> rq_user rq = Some u \<longrightarrow>
         (\<exists>who. verified_token (ge_keys env) (ge_auth env) (in_now r) (in_authorization r) who \<and> u_id u = vc_sub who \<and> u_sub u = vc_sub who))"
  proof (cases a)
    case (Refused e)
    then show ?thesis using assms(4) a auth by (auto simp: enter_def issued_def)
  next
    case (Proceed caller)
    obtain sout st2 where sess: "session_step env r caller st1 = (sout, st2)" by fastforce
    note step = session_step_ok [OF assms(1) conjunct1 [OF auth] sess]
    show ?thesis
    proof (cases sout)
      case BadSessionId
      then show ?thesis using assms(4) a Proceed sess step by (auto simp: enter_def issued_def)
    next
      case (WithSession sid reply)
      then have out: "out = Entered (tenancyMiddleware (ge_check env) (in_path r) caller sid) reply" "st' = st2"
        using assms(4) a Proceed sess by (auto simp: enter_def)
      have "H \<union> issued [(r, out)] = (case reply of None \<Rightarrow> H | Some i \<Rightarrow> insert (i, in_now r) H)"
        unfolding out by (auto simp: issued_def split: option.splits)
      then show ?thesis using step auth Proceed out WithSession
        by (auto simp: tenancyMiddleware_def local_tenancy_enter_def split: if_splits)
    qed
  qed
  then show "gate_ok env (H \<union> issued [(r, out)]) (in_now r) st'"
    and "out = Entered rq hdr \<Longrightarrow> rq_sessionId rq = Some s \<Longrightarrow> rq_user rq = None
      \<and> (hdr = Some s \<or> (\<exists>t0. (s, t0) \<in> H \<and> in_now r < t0 + ge_sessionTtl env * 1000))"
    and "out = Entered rq hdr \<Longrightarrow> rq_user rq = Some u \<Longrightarrow>
      \<exists>who. verified_token (ge_keys env) (ge_auth env) (in_now r) (in_authorization r) who \<and> u_id u = vc_sub who \<and> u_sub u = vc_sub who"
    by blast+
qed

lemma issued_Cons: "issued ((r, out) # h) = issued [(r, out)] \<union> issued h"
  by (auto simp: issued_def)

lemma run_gate_ok:
  "gate_env_ok env \<Longrightarrow> gate_ok env H now st \<Longrightarrow> sorted (now # map in_now (rs @ [r])) \<Longrightarrow> run_gate env rs st = (outs, st') \<Longrightarrow>
     gate_ok env (H \<union> issued (zip rs outs)) (in_now r) st'"
proof (induction rs arbitrary: H now st outs)
  case Nil
  then show ?case by (auto simp: issued_def intro: gate_ok_mono)
next
  case (Cons x rs)
  obtain out st1 where e: "enter env x st = (out, st1)" by fastforce
  obtain outs' where outs: "outs = out # outs'" "run_gate env rs st1 = (outs', st')"
    using Cons.prems(4) e by (auto split: prod.splits)
  have "gate_ok env (H \<union> issued [(x, out)]) (in_now x) st1"
    using enter_ok(1) [OF Cons.prems(1,2) _ e] Cons.prems(3) by auto
  from Cons.IH [OF Cons.prems(1) this _ outs(2)] Cons.prems(3) show ?case
    by (simp add: outs(1) issued_Cons [of x out "zip rs outs'"] Un_assoc)
qed

end

interpretation memory_gate: request_gate memory_port memory_contents memory_invar memory_port memory_contents memory_invar ..
interpretation sql_gate: request_gate sql_port sql_contents sql_invar sql_port sql_contents sql_invar ..

definition cold_start :: "('d memory_kv, session memory_kv, 'j) gate_state" where
  "cold_start = \<lparr>gs_memory = (\<lambda>_. None), gs_cache = [], gs_sessions = []\<rparr>"

lemma cold_start_ok: "memory_gate.gate_ok env {} now cold_start"
  by (simp add: memory_gate.gate_ok_def memory_gate.sessions_ok_def memory_gate.keys_ok_def memory_gate.entry_ok_def
      cold_start_def visible_def memory_contents_def memory_invar_def)

text \<open>C9: Session identifiers are the server's: whatever identifiers the clients of a deployment send, in
  any sequence of requests, a request that reaches a handler with a session was given that
  identifier in its own reply, or in the reply to an earlier request less than the session's
  lifetime ago; and it carries no user.\<close>

theorem sessions_were_issued:
  assumes "ge_sessions env = memory_port" and "au_jwks (ge_auth env) = None"
    and "au_cache (ge_auth env) \<in> {None, Some memory_port}"
    and "sorted (map in_now (rs @ [r]))" and "run_gate env rs cold_start = (outs, st)"
    and "enter env r st = (Entered rq hdr, st')" and "rq_sessionId rq = Some s"
  shows "rq_user rq = None \<and> (hdr = Some s \<or>
    (\<exists>r' rq'. (r', Entered rq' (Some s)) \<in> set (zip rs outs) \<and> in_now r < in_now r' + ge_sessionTtl env * 1000))"
proof -
  have env: "memory_gate.gate_env_ok env" using assms(1-3) by (auto simp: memory_gate.gate_env_ok_def)
  obtain now where "sorted (now # map in_now (rs @ [r]))"
    using assms(4) by (cases "map in_now (rs @ [r])") (auto intro!: that)
  from memory_gate.run_gate_ok [OF env cold_start_ok this assms(5)]
  have "memory_gate.gate_ok env (issued (zip rs outs)) (in_now r) st" by simp
  from memory_gate.enter_ok(2) [OF env this order_refl assms(6) refl assms(7)] show ?thesis
    by (auto simp: issued_def)
qed

text \<open>C8: Who a handler takes a signed-in user to be has been proved: in any sequence of requests, to any
  number of isolates sharing the cache, the request's own Authorization header carries a token whose
  subject is that user, verified for the configured issuer and audience under keys the issuer
  published less than two cache lifetimes ago.\<close>

theorem users_are_verified:
  assumes "ge_sessions env = memory_port" and "au_jwks (ge_auth env) = None"
    and "au_cache (ge_auth env) \<in> {None, Some memory_port}"
    and "sorted (map in_now (rs @ [r]))" and "run_gate env rs cold_start = (outs, st)"
    and "enter env r st = (Entered rq hdr, st')" and "rq_user rq = Some u"
  shows "\<exists>who. verified_token (ge_keys env) (ge_auth env) (in_now r) (in_authorization r) who \<and> u_id u = vc_sub who \<and> u_sub u = vc_sub who"
proof -
  have env: "memory_gate.gate_env_ok env" using assms(1-3) by (auto simp: memory_gate.gate_env_ok_def)
  obtain now where "sorted (now # map in_now (rs @ [r]))"
    using assms(4) by (cases "map in_now (rs @ [r])") (auto intro!: that)
  from memory_gate.run_gate_ok [OF env cold_start_ok this assms(5)]
  have "memory_gate.gate_ok env (issued (zip rs outs)) (in_now r) st" by simp
  from memory_gate.enter_ok(3) [OF env this order_refl assms(6) refl assms(7)] show ?thesis .
qed


section \<open>The shared secret\<close>

lemma timingSafeEqual_app_eq: "timingSafeEqual_app a b \<longleftrightarrow> a = b"
  unfolding timingSafeEqual_app_def by (rule constantTimeEqual_iff [unfolded constantTimeEqual_def])

lemma bearer_token_Some:
  assumes "bearer_token id h = Some token"
  shows "\<exists>ws. h = ''Bearer'' @ ws @ token \<and> ws \<noteq> [] \<and> list_all is_space ws"
proof -
  define ws rest where r: "ws = takeWhile is_space (drop 6 h)" "rest = dropWhile is_space (drop 6 h)"
  have h: "h = ''Bearer'' @ ws @ rest" if "take 6 h = ''Bearer''"
    using that append_take_drop_id [of 6 h] by (simp add: r)
  have sp: "list_all is_space ws" unfolding list_all_iff by (auto simp: r dest: set_takeWhileD)
  show ?thesis
  proof (cases "rest = []")
    case True
    then have b: "take 6 h = ''Bearer''" "2 \<le> length ws" "token = [last ws]"
      using assms by (auto simp: bearer_token_def Let_def r split: if_splits)
    then have "ws = butlast ws @ token" "butlast ws \<noteq> []" by (cases ws; auto)+
    then show ?thesis using h [OF b(1)] True sp by (metis append_Nil2 list_all_append)
  next
    case False
    then have b: "take 6 h = ''Bearer''" "ws \<noteq> []" "token = rest"
      using assms by (auto simp: bearer_token_def Let_def r split: if_splits)
    then show ?thesis using h [OF b(1)] sp by blast
  qed
qed

text \<open>C10: Without the shared secret the internal API does nothing: unless one is configured and the
  Authorization header is \<open>Bearer\<close>, white space and exactly that secret, the reply is 401 (503 where
  none is configured) and no row changes.\<close>

theorem internal_api_needs_secret:
  assumes "\<nexists>secret ws. expected = Some secret \<and> secret \<noteq> [] \<and> authHeader = Some (''Bearer'' @ ws @ secret)
    \<and> ws \<noteq> [] \<and> list_all is_space ws"
  shows "internal_api expected authHeader fs td now ttl call db s = (if truthy expected then 401 else 503, db)"
proof (cases "truthy expected")
  case True
  then obtain secret where secret: "expected = Some secret" "secret \<noteq> []" by (auto simp: truthy_def split: option.splits)
  have "internalApiAuth expected authHeader = Some (401, ''Unauthorized'')"
  proof (rule ccontr)
    assume "internalApiAuth expected authHeader \<noteq> Some (401, ''Unauthorized'')"
    then have tok: "bearer_token id (case authHeader of None \<Rightarrow> [] | Some h \<Rightarrow> h) = Some secret"
      using True secret by (auto simp: internalApiAuth_def timingSafeEqual_app_eq split: option.splits if_splits)
    have "bearer_token id [] = None" by (simp add: bearer_token_def)
    with tok have "authHeader \<noteq> None" by (cases authHeader) auto
    then show False using bearer_token_Some [OF tok] assms secret by auto
  qed
  then show ?thesis using True by (simp add: internal_api_def)
qed (simp add: internal_api_def internalApiAuth_def)

section \<open>A key document that is no key set\<close>

text \<open>\<open>resolveJWKS\<close> writes the fetched document to the shared cache before \<open>createLocalJWKSet\<close> has
  accepted it. One malformed answer is then read back for the whole lifetime of the entry: every
  token is refused, whatever the issuer publishes meanwhile.\<close>

lemma malformed_keys_stick:
  assumes "published ks t0 issuer doc" and "ks_localSet ks doc = Inl e"
    and "fetchJWKS ks (Some memory_port) ttl t0 issuer (None, []) = (res, entry, c)"
    and "t0 \<le> t" and "t < t0 + ttl * 1000"
  shows "fst (resolveJWKS ks (Some memory_port) (Some ttl) False t issuer (entry, c)) = Inl e"
proof -
  have "entry = None" "c = memory_put t0 (jwksCacheKey issuer) doc (Some ttl) []"
    using assms(1-3) by (auto simp: published_def fetchJWKS_def memory_port_def)
  moreover have "fst (memory_get t (jwksCacheKey issuer) c) = Some doc"
    using calculation(2) assms(5) by (simp add: memory_get_visible memory_put_def memory_contents_def visible_def expiry_of_def live_def)
  ultimately show ?thesis using assms(2)
    by (cases "memory_get t (jwksCacheKey issuer) c") (auto simp: resolveJWKS_def memory_hit_def memory_port_def split: if_splits)
qed

section \<open>Instances\<close>

definition sample_keys :: "(unit, unit) key_source" where
  "sample_keys = \<lparr>ks_url = (\<lambda>rel base. base @ rel), ks_fetch = (\<lambda>_ _. Inr (200, Inr ())), ks_localSet = (\<lambda>_. Inr ()),
     ks_verify = (\<lambda>_ token _ _ _. if token = ''good'' then Inr \<lparr>cl_sub = Some (JStr ''u1''), cl_email = None, cl_name = None\<rparr>
                   else Inl ''signature'')\<rparr>"

definition sample_gate :: "(unit memory_kv, session memory_kv, unit, unit) gate_env" where
  "sample_gate = \<lparr>ge_keys = sample_keys, ge_auth = \<lparr>au_issuer = Some ''https://i'', au_audience = None, au_cache = Some memory_port,
     au_ttl = None, au_jwks = None\<rparr>, ge_sessions = memory_port, ge_sessionTtl = 3600, ge_check = SimpleAuthorizer\<rparr>"

definition sample_request :: "int \<Rightarrow> string option \<Rightarrow> string option \<Rightarrow> incoming" where
  "sample_request now auth sid = \<lparr>in_isolate = 0, in_now = now, in_uuid = ''01234567-89ab-cdef-0123-456789abcdef'',
     in_path = ''/api/v1/assets'', in_authorization = auth, in_session = sid\<rparr>"

lemmas gate_eval = enter_def auth_step_def session_step_def sessionMiddleware_def anon_session_find_def mint_session_def anon_session_save_def
  authMiddleware_def resolveJWKS_def fetchJWKS_def memory_hit_def verify_token_def bearer_token_def exempt_def session_exempt_def
  sample_gate_def sample_keys_def sample_request_def cold_start_def truthy_def session_id_ok_def INTERNAL_API_PREFIX_def FILES_PREFIX_def
  tenancyMiddleware_def local_tenancy_enter_def bindsCaller_def UNBOUND_API_PATHS_def memory_port_def memory_get_def memory_put_def
  starts_with_def ends_with_def Let_def

definition sample_session :: "(unit memory_kv, session memory_kv, unit) gate_state" where
  "sample_session = cold_start\<lparr>gs_sessions := [(''session:0123456789abcdef'', \<lparr>entry_value = \<lparr>ss_id = ''0123456789abcdef'',
     ss_createdAt = 1000, ss_expiresAt = 3601000\<rparr>, entry_expires = Some 3601000\<rparr>)]\<rparr>"

lemma sample_first:
  "enter sample_gate (sample_request 1000 None None) cold_start =
     (Entered (local_tenancy_enter SimpleAuthorizer None (Some ''0123456789abcdef'')) (Some ''0123456789abcdef''), sample_session)"
  by (simp add: gate_eval sample_session_def expiry_of_def)

lemma sample_second:
  "enter sample_gate (sample_request 2000 None (Some ''0123456789abcdef'')) sample_session =
     (Entered (local_tenancy_enter SimpleAuthorizer None (Some ''0123456789abcdef'')) None, sample_session)"
  by (simp add: gate_eval sample_session_def is_digit_def code_unit_def)

lemma sessions_were_issued_witness:
  "\<exists>r' rq'. (r', Entered rq' (Some ''0123456789abcdef''))
       \<in> set (zip [sample_request 1000 None None] (fst (run_gate sample_gate [sample_request 1000 None None] cold_start)))
     \<and> 2000 < in_now r' + 3600000"
proof -
  have "run_gate sample_gate [sample_request 1000 None None] cold_start =
      ([Entered (local_tenancy_enter SimpleAuthorizer None (Some ''0123456789abcdef'')) (Some ''0123456789abcdef'')], sample_session)"
    by (simp add: sample_first)
  from sessions_were_issued [OF _ _ _ _ this sample_second, of "''0123456789abcdef''"] this show ?thesis
    by (auto simp: sample_gate_def sample_request_def local_tenancy_enter_def)
qed

definition signed_in_state :: "(unit memory_kv, session memory_kv, unit) gate_state" where
  "signed_in_state = cold_start\<lparr>gs_memory := (\<lambda>_. None)(0 := Some \<lparr>je_issuer = ''https://i'', je_jwks = (), je_fetchedAt = 1000\<rparr>),
     gs_cache := [(''jwks:https://i'', \<lparr>entry_value = (), entry_expires = Some 3601000\<rparr>)]\<rparr>"

lemma sample_signed_in:
  "enter sample_gate (sample_request 1000 (Some ''Bearer good'') None) cold_start =
     (Entered (local_tenancy_enter SimpleAuthorizer (Some \<lparr>vc_sub = ''u1'', vc_email = None, vc_name = None\<rparr>) None) None, signed_in_state)"
  by (simp add: gate_eval signed_in_state_def is_space_def js_lower_def lower_char_def is_upper_def code_unit_def
      DEFAULT_JWKS_CACHE_TTL_def jwksUrl_def jwksCacheKey_def expiry_of_def line_terminator_def)

lemma users_are_verified_witness:
  "\<exists>who. verified_token sample_keys (ge_auth sample_gate) 1000 (Some ''Bearer good'') who \<and> vc_sub who = ''u1''"
proof -
  have "run_gate sample_gate [] cold_start = ([], cold_start)" by simp
  from users_are_verified [OF _ _ _ _ this sample_signed_in] show ?thesis
    by (auto simp: sample_gate_def sample_request_def local_tenancy_enter_def)
qed


lemma internal_api_needs_secret_witness:
  "\<forall>fs td db s. internal_api (Some ''s3cret'') (Some ''Bearer guess'') fs td 0 0 (AssetExists ''a'') db s = (401, db)"
proof (intro allI)
  fix fs :: "'s file_storage" and td db s
  have "\<not> (\<exists>ws. ''Bearer guess'' = ''Bearer'' @ ws @ ''s3cret'' \<and> ws \<noteq> [] \<and> list_all is_space ws)"
    by (auto simp: append_eq_Cons_conv Cons_eq_append_conv)
  then have "\<nexists>secret ws. Some ''s3cret'' = Some secret \<and> secret \<noteq> [] \<and> Some ''Bearer guess'' = Some (''Bearer'' @ ws @ secret)
      \<and> ws \<noteq> [] \<and> list_all is_space ws" by auto
  from internal_api_needs_secret [OF this, of fs td 0 0 "AssetExists ''a''" db s]
  show "internal_api (Some ''s3cret'') (Some ''Bearer guess'') fs td 0 0 (AssetExists ''a'') db s = (401, db)"
    by (simp add: truthy_def)
qed

text \<open>The current user sees exactly the workspaces of the memberships found for them.\<close>

lemma me_lists_memberships:
  "rq_user rq = Some u \<Longrightarrow> me_handler rq db = (200, Me u wss) \<Longrightarrow> (ws, role) \<in> set wss \<longleftrightarrow>
     (\<exists>m \<in> set (member_listForCaller (Some (u_id u)) db). workspace_find (m_workspaceId m) db = Some ws \<and> role = m_role m)"
  by (force simp: me_handler_def List.map_filter_def image_iff)

end
