(* ===== verification/Zip_Archive.thy ===== *)
theory Zip_Archive
  imports Image_Headers Http "HOL-Library.List_Lexorder" "HOL-Library.Char_ord"
begin

text \<open>
  The archive the command line client builds of a directory (\<open>cli/zip.ts\<close>): the walk over the
  directory, the CRC, the headers and the guard against what 32-bit records cannot describe. A
  directory is a tree; a file has the bytes the first pass (for the CRC) reads and those the second
  pass (for the data) reads, which differ when it changes meanwhile. \<open>Buffer\<close>'s writers throw on a
  value out of range, so every header has an error outcome. \<open>unzip\<close> is the reading side, after the
  format: the end record, the central directory, then each local header and its data with its CRC.
\<close>

unbundle bit_operations_syntax

section \<open>CRC-32\<close>

definition crc_step :: "32 word \<Rightarrow> 32 word" where
  "crc_step c = (if c AND 1 \<noteq> 0 then 0xedb88320 XOR drop_bit 1 c else drop_bit 1 c)"

definition CRC_TABLE :: "32 word list" where
  "CRC_TABLE = map (\<lambda>i. (crc_step ^^ 8) (of_nat i)) [0..<256]"

definition crc_update :: "32 word \<Rightarrow> 8 word \<Rightarrow> 32 word" where
  "crc_update crc d = drop_bit 8 crc XOR CRC_TABLE ! unat ((crc XOR ucast d) AND 0xff)"

definition crc32 :: "bytes \<Rightarrow> 32 word \<Rightarrow> 32 word" where
  "crc32 data seed = NOT (foldl crc_update (NOT seed) data)"

definition crcOfFile :: "bytes list \<Rightarrow> 32 word" where
  \<comment> \<open>the file as the chunks it is read in\<close>
  "crcOfFile reads = foldl (\<lambda>crc buf. crc32 buf crc) 0 reads"

section \<open>Walking\<close>

definition SKIPPED_NAMES :: "string list" where
  "SKIPPED_NAMES = [''.DS_Store'', ''Thumbs.db'', ''.git'', ''node_modules'']"

datatype dirent =
    File nat "bytes list" "bytes list"
    \<comment> \<open>the size \<open>stat\<close> reports, and the chunks the two passes over the file read\<close>
  | Directory "(string \<times> dirent) list"
  | SymbolicLink
  | Special

record zip_input =
  zi_name :: string
  zi_size :: nat
  zi_first :: "bytes list"
  zi_second :: "bytes list"

record collected =
  co_entries :: "zip_input list"
  co_skippedSymlinks :: "string list"
  co_totalSize :: nat

definition by_name :: "(string \<times> dirent) list \<Rightarrow> (string \<times> dirent) list" where
  "by_name dirents = sort_key fst dirents"

lemma size_in_directory: "(n, d) \<in> set ds \<Longrightarrow> size d < size (Directory ds)"
  by (induction ds) auto

function visit :: "string \<Rightarrow> string \<Rightarrow> dirent \<Rightarrow> collected \<Rightarrow> collected" where
  \<comment> \<open>one turn of the loop of \<open>walk\<close>\<close>
  "visit pre n d c =
     (if n \<in> set SKIPPED_NAMES then c
      else (case d of
          SymbolicLink \<Rightarrow> c\<lparr>co_skippedSymlinks := co_skippedSymlinks c @ [pre @ n]\<rparr>
        | Directory ds \<Rightarrow> fold (\<lambda>(m, e). visit (pre @ n @ ''/'') m e) (by_name ds) c
        | File sz first second \<Rightarrow>
            c\<lparr>co_entries := co_entries c @ [\<lparr>zi_name = pre @ n, zi_size = sz, zi_first = first, zi_second = second\<rparr>],
              co_totalSize := co_totalSize c + sz\<rparr>
        | Special \<Rightarrow> c))"
  by pat_completeness auto
termination
  by (relation "measure (\<lambda>(pre, n, d, c). size d)") (auto simp: by_name_def dest: size_in_directory)

declare visit.simps [simp del]

definition collectDirectory :: "(string \<times> dirent) list \<Rightarrow> collected" where
  "collectDirectory root = fold (\<lambda>(n, d). visit [] n d) (by_name root) \<lparr>co_entries = [], co_skippedSymlinks = [], co_totalSize = 0\<rparr>"

section \<open>Headers\<close>

definition ZIP32_MAX_BYTES :: nat where "ZIP32_MAX_BYTES = 0xffffffff"
definition ZIP32_MAX_ENTRIES :: nat where "ZIP32_MAX_ENTRIES = 0xffff"
definition LOCAL_HEADER_SIZE :: nat where "LOCAL_HEADER_SIZE = 30"
definition CENTRAL_HEADER_SIZE :: nat where "CENTRAL_HEADER_SIZE = 46"
definition EOCD_SIZE :: nat where "EOCD_SIZE = 22"
definition FLAG_UTF8 :: nat where "FLAG_UTF8 = 0x800"
definition DOS_TIME :: nat where "DOS_TIME = 0"
definition DOS_DATE :: nat where "DOS_DATE = 33"

fun le_bytes :: "nat \<Rightarrow> nat \<Rightarrow> bytes" where
  "le_bytes 0 n = []"
| "le_bytes (Suc w) n = of_nat n # le_bytes w (n div 256)"

fun header_fields :: "(nat \<times> nat) list \<Rightarrow> string + bytes" where
  \<comment> \<open>consecutive \<open>writeUInt16LE\<close> and \<open>writeUInt32LE\<close>: widths and values\<close>
  "header_fields [] = Inr []"
| "header_fields ((w, v) # fs) =
     (if 256 ^ w \<le> v then Inl ''The value is out of range''
      else map_sum id ((@) (le_bytes w v)) (header_fields fs))"

definition localHeader :: "bytes \<Rightarrow> nat \<Rightarrow> 32 word \<Rightarrow> string + bytes" where
  "localHeader name sz crc = map_sum id (\<lambda>head. head @ name)
     (header_fields [(4, 0x04034b50), (2, 20), (2, FLAG_UTF8), (2, 0), (2, DOS_TIME), (2, DOS_DATE), (4, unat crc),
        (4, sz), (4, sz), (2, length name), (2, 0)])"

definition centralHeader :: "bytes \<Rightarrow> nat \<Rightarrow> 32 word \<Rightarrow> nat \<Rightarrow> string + bytes" where
  "centralHeader name sz crc offset = map_sum id (\<lambda>head. head @ name)
     (header_fields [(4, 0x02014b50), (2, 20), (2, 20), (2, FLAG_UTF8), (2, 0), (2, DOS_TIME), (2, DOS_DATE), (4, unat crc),
        (4, sz), (4, sz), (2, length name), (2, 0), (2, 0), (2, 0), (2, 0), (4, 0), (4, offset)])"

definition endOfCentralDirectory :: "nat \<Rightarrow> nat \<Rightarrow> nat \<Rightarrow> string + bytes" where
  "endOfCentralDirectory count sz offset =
     header_fields [(4, 0x06054b50), (2, 0), (2, 0), (2, count), (2, count), (4, sz), (4, offset), (2, 0)]"

section \<open>Writing\<close>

definition name_bytes :: "string \<Rightarrow> bytes" where "name_bytes name = chars (utf8_bytes name)"

definition guardZip32 :: "zip_input list \<Rightarrow> nat \<Rightarrow> string option" where
  "guardZip32 entries totalSize =
     (if length entries > ZIP32_MAX_ENTRIES
      then Some (''This directory has '' @ show_nat (length entries) @ '' files, more than the '' @ show_nat ZIP32_MAX_ENTRIES @
        '' this command can pack. Zip it yourself and upload the zip.'')
      else if totalSize + foldl (\<lambda>n e. n + LOCAL_HEADER_SIZE + CENTRAL_HEADER_SIZE + 2 * length (name_bytes (zi_name e))) EOCD_SIZE entries
                > ZIP32_MAX_BYTES
      then Some ''This directory is larger than 4 GiB, which needs a ZIP64 archive. Zip it yourself (any zip tool writes ZIP64) and upload the zip.''
      else None)"

record zip_writer =
  zw_out :: bytes
  zw_central :: "bytes list"
  zw_offset :: nat

fun write_entries :: "zip_input list \<Rightarrow> zip_writer \<Rightarrow> string + zip_writer" where
  "write_entries [] z = Inr z"
| "write_entries (e # es) z =
     (let name = name_bytes (zi_name e); crc = crcOfFile (zi_first e)
      in case localHeader name (zi_size e) crc of
           Inl x \<Rightarrow> Inl x
         | Inr head \<Rightarrow>
             if length (concat (zi_second e)) \<noteq> zi_size e then Inl (zi_name e @ '' changed while it was being packed'')
             else (case centralHeader name (zi_size e) crc (zw_offset z) of
                 Inl x \<Rightarrow> Inl x
               | Inr entry \<Rightarrow> write_entries es \<lparr>zw_out = zw_out z @ head @ concat (zi_second e), zw_central = zw_central z @ [entry],
                     zw_offset = zw_offset z + length head + zi_size e\<rparr>))"

definition writeStoredZip :: "zip_input list \<Rightarrow> string + bytes \<times> nat" where
  \<comment> \<open>the archive, and \<open>bytes\<close> of the summary\<close>
  "writeStoredZip entries =
     (let totalSize = foldl (\<lambda>n e. n + zi_size e) 0 entries
      in case guardZip32 entries totalSize of
           Some e \<Rightarrow> Inl e
         | None \<Rightarrow>
             (case write_entries entries \<lparr>zw_out = [], zw_central = [], zw_offset = 0\<rparr> of
                Inl e \<Rightarrow> Inl e
              | Inr z \<Rightarrow>
                  (let centralSize = foldl (\<lambda>n b. n + length b) 0 (zw_central z)
                   in map_sum id (\<lambda>eocd. (zw_out z @ concat (zw_central z) @ eocd, zw_offset z + centralSize + EOCD_SIZE))
                        (endOfCentralDirectory (length (zw_central z)) centralSize (zw_offset z)))))"

definition zipDirectory :: "string \<Rightarrow> (string \<times> dirent) list \<Rightarrow> string + bytes \<times> nat \<times> string list" where
  "zipDirectory root dirents =
     (let c = collectDirectory dirents
      in if co_entries c = [] then Inl (root @ '' has no files to upload'')
         else map_sum id (\<lambda>(archive, n). (archive, n, co_skippedSymlinks c)) (writeStoredZip (co_entries c)))"

section \<open>The reading side\<close>

fun le_value :: "bytes \<Rightarrow> nat" where
  "le_value [] = 0"
| "le_value (x # xs) = unat x + 256 * le_value xs"

definition field :: "nat \<Rightarrow> nat \<Rightarrow> bytes \<Rightarrow> nat" where
  "field at w b = le_value (take w (drop at b))"

definition slice :: "nat \<Rightarrow> nat \<Rightarrow> bytes \<Rightarrow> bytes" where "slice at n b = take n (drop at b)"

definition read_file :: "bytes \<Rightarrow> nat \<Rightarrow> nat \<Rightarrow> 32 word \<Rightarrow> bytes option" where
  \<comment> \<open>the stored data behind a local header, if it has the length and the CRC the directory says\<close>
  "read_file b at sz crc =
     (let data = slice (at + 30 + field (at + 26) 2 b + field (at + 28) 2 b) sz b
      in if field at 4 b = 0x04034b50 \<and> length data = sz \<and> crc32 data 0 = crc then Some data else None)"

fun read_directory :: "nat \<Rightarrow> bytes \<Rightarrow> nat \<Rightarrow> (bytes \<times> bytes) list option" where
  "read_directory 0 b at = Some []"
| "read_directory (Suc n) b at =
     (if field at 4 b = 0x02014b50 \<and> field (at + 10) 2 b = 0 then
        (case read_file b (field (at + 42) 4 b) (field (at + 20) 4 b) (of_nat (field (at + 16) 4 b)) of
           None \<Rightarrow> None
         | Some data \<Rightarrow>
             map_option ((#) (slice (at + 46) (field (at + 28) 2 b) b, data))
               (read_directory n b (at + 46 + field (at + 28) 2 b + field (at + 30) 2 b + field (at + 32) 2 b)))
      else None)"

definition unzip :: "bytes \<Rightarrow> (bytes \<times> bytes) list option" where
  "unzip b =
     (let eocd = length b - 22
      in if length b < 22 \<or> field eocd 4 b \<noteq> 0x06054b50 then None
         else read_directory (field (eocd + 10) 2 b) b (field (eocd + 16) 4 b))"

section \<open>The table computes the bitwise CRC\<close>

definition crc_reference :: "bytes \<Rightarrow> 32 word" where
  \<comment> \<open>the shift register, one bit at a time\<close>
  "crc_reference data = NOT (foldl (\<lambda>crc d. (crc_step ^^ 8) (crc XOR ucast d)) (NOT 0) data)"

lemma crc_step_bit: "crc_step c = (if bit c 0 then 0xedb88320 else 0) XOR drop_bit 1 c"
proof -
  have "c AND 1 \<noteq> 0 \<longleftrightarrow> bit c 0" by (simp add: and_one_eq mod_2_eq_odd bit_0)
  then show ?thesis by (simp add: crc_step_def)
qed

lemma crc_step_xor: "crc_step (a XOR b) = crc_step a XOR crc_step b"
  by (rule bit_word_eqI) (auto simp: crc_step_bit bit_simps)

lemma crc_steps_xor: "(crc_step ^^ n) (a XOR b) = (crc_step ^^ n) a XOR (crc_step ^^ n) b"
  by (induction n) (simp_all add: crc_step_xor)

lemma crc_steps_shift: "(\<And>k. k < n \<Longrightarrow> \<not> bit c k) \<Longrightarrow> (crc_step ^^ n) c = drop_bit n c"
proof (induction n)
  case (Suc n)
  then have "(crc_step ^^ n) c = drop_bit n c" by simp
  moreover have "\<not> bit (drop_bit n c) 0" using Suc.prems [of n] by (simp add: bit_drop_bit_eq)
  ultimately show ?case using crc_step_bit [of "drop_bit n c"] by (simp add: drop_bit_drop_bit)
qed simp

lemma crc_update_steps: "crc_update crc d = (crc_step ^^ 8) (crc XOR ucast d)"
proof -
  let ?x = "crc XOR ucast d :: 32 word"
  have split: "?x = (?x AND 0xff) XOR push_bit 8 (drop_bit 8 ?x)"
  proof -
    have m: "(0xff :: 32 word) = mask 8" by (simp add: mask_eq_exp_minus_1)
    show ?thesis unfolding m by (rule bit_word_eqI) (auto simp: bit_simps)
  qed
  have "(crc_step ^^ 8) (push_bit 8 (drop_bit 8 ?x)) = drop_bit 8 (push_bit 8 (drop_bit 8 ?x))"
    by (rule crc_steps_shift) (simp add: bit_simps)
  also have "\<dots> = drop_bit 8 crc"
    by (rule bit_word_eqI) (auto simp: bit_simps dest: bit_imp_le_length)
  finally have high: "(crc_step ^^ 8) (push_bit 8 (drop_bit 8 ?x)) = drop_bit 8 crc" .
  have "unat (?x AND 0xff) < 256"
    by (rule le_less_trans [OF word_and_le1 [THEN word_le_nat_alt [THEN iffD1]]]) simp
  then have "CRC_TABLE ! unat (?x AND 0xff) = (crc_step ^^ 8) (?x AND 0xff)"
    by (simp add: CRC_TABLE_def)
  with high show ?thesis
    unfolding crc_update_def by (subst split) (simp only: crc_steps_xor xor.commute)
qed

lemma crc32_reference: "crc32 data 0 = crc_reference data"
proof -
  have "crc_update = (\<lambda>crc d. (crc_step ^^ 8) (crc XOR ucast d))" by (intro ext) (rule crc_update_steps)
  then show ?thesis by (simp add: crc32_def crc_reference_def)
qed

lemma crc32_append: "crc32 (xs @ ys) seed = crc32 ys (crc32 xs seed)"
  by (simp add: crc32_def)

lemma crcOfFile_concat: "crcOfFile reads = crc32 (concat reads) 0"
proof -
  have "foldl (\<lambda>crc buf. crc32 buf crc) seed reads = crc32 (concat reads) seed" for seed
    by (induction reads arbitrary: seed) (simp_all add: crc32_append, simp add: crc32_def)
  then show ?thesis by (simp add: crcOfFile_def)
qed

section \<open>The bytes of the headers\<close>

lemma length_le_bytes [simp]: "length (le_bytes w n) = w"
  by (induction w arbitrary: n) auto

lemma le_value_le_bytes [simp]: "le_value (le_bytes w n) = n mod 256 ^ w"
  by (induction w arbitrary: n) (simp_all add: unat_of_nat8 mod_mult2_eq)

lemma field_append [simp]: "field (length p + k) w (p @ x) = field k w x"
  by (simp add: field_def)

definition local_block :: "zip_input \<Rightarrow> bytes" where
  "local_block e = le_bytes 4 0x04034b50 @ le_bytes 2 20 @ le_bytes 2 FLAG_UTF8 @ le_bytes 2 0 @ le_bytes 2 DOS_TIME @ le_bytes 2 DOS_DATE
     @ le_bytes 4 (unat (crcOfFile (zi_first e))) @ le_bytes 4 (zi_size e) @ le_bytes 4 (zi_size e)
     @ le_bytes 2 (length (name_bytes (zi_name e))) @ le_bytes 2 0 @ name_bytes (zi_name e)"

definition central_block :: "nat \<Rightarrow> zip_input \<Rightarrow> bytes" where
  "central_block off e = le_bytes 4 0x02014b50 @ le_bytes 2 20 @ le_bytes 2 20 @ le_bytes 2 FLAG_UTF8 @ le_bytes 2 0 @ le_bytes 2 DOS_TIME
     @ le_bytes 2 DOS_DATE @ le_bytes 4 (unat (crcOfFile (zi_first e))) @ le_bytes 4 (zi_size e) @ le_bytes 4 (zi_size e)
     @ le_bytes 2 (length (name_bytes (zi_name e))) @ le_bytes 2 0 @ le_bytes 2 0 @ le_bytes 2 0 @ le_bytes 2 0 @ le_bytes 4 0
     @ le_bytes 4 off @ name_bytes (zi_name e)"

definition fits_32 :: "nat \<Rightarrow> zip_input \<Rightarrow> bool" where
  "fits_32 off e \<longleftrightarrow> zi_size e < 2 ^ 32 \<and> off < 2 ^ 32 \<and> length (name_bytes (zi_name e)) < 2 ^ 16"

lemma localHeader_eq:
  "localHeader (name_bytes (zi_name e)) (zi_size e) (crcOfFile (zi_first e)) =
     (if fits_32 0 e then Inr (local_block e) else Inl ''The value is out of range'')"
  using unsigned_less [of "crcOfFile (zi_first e)", where 'a = nat]
  by (auto simp: localHeader_def local_block_def fits_32_def FLAG_UTF8_def DOS_TIME_def DOS_DATE_def)

lemma centralHeader_eq:
  "centralHeader (name_bytes (zi_name e)) (zi_size e) (crcOfFile (zi_first e)) off =
     (if fits_32 off e then Inr (central_block off e) else Inl ''The value is out of range'')"
  using unsigned_less [of "crcOfFile (zi_first e)", where 'a = nat]
  by (auto simp: centralHeader_def central_block_def fits_32_def FLAG_UTF8_def DOS_TIME_def DOS_DATE_def)

lemma length_blocks: "length (local_block e) = 30 + length (name_bytes (zi_name e))"
    "length (central_block off e) = 46 + length (name_bytes (zi_name e))"
  by (simp_all add: local_block_def central_block_def)

text \<open>What the reading side finds at a block.\<close>

lemma field_at_block:
  "length p = at \<Longrightarrow> field (at + k) w (p @ x) = field k w x" "length p = at \<Longrightarrow> field at w (p @ x) = field 0 w x"
  using field_append [of p 0 w x] by auto

lemma local_block_fields:
  assumes "length p = at" and "fits_32 off e"
  shows "field at 4 (p @ local_block e @ s) = 0x04034b50" "field (at + 26) 2 (p @ local_block e @ s) = length (name_bytes (zi_name e))"
    "field (at + 28) 2 (p @ local_block e @ s) = 0"
  using assms by (simp_all add: field_at_block field_def local_block_def fits_32_def)

lemma central_block_fields:
  assumes "length p = at" and "fits_32 off e"
  shows "field at 4 (p @ central_block off e @ s) = 0x02014b50" "field (at + 10) 2 (p @ central_block off e @ s) = 0"
    "field (at + 16) 4 (p @ central_block off e @ s) = unat (crcOfFile (zi_first e))"
    "field (at + 20) 4 (p @ central_block off e @ s) = zi_size e"
    "field (at + 28) 2 (p @ central_block off e @ s) = length (name_bytes (zi_name e))"
    "field (at + 30) 2 (p @ central_block off e @ s) = 0" "field (at + 32) 2 (p @ central_block off e @ s) = 0"
    "field (at + 42) 4 (p @ central_block off e @ s) = off"
    "slice (at + 46) (length (name_bytes (zi_name e))) (p @ central_block off e @ s) = name_bytes (zi_name e)"
  using assms unsigned_less [of "crcOfFile (zi_first e)", where 'a = nat]
  by (simp_all add: field_at_block field_def slice_def central_block_def fits_32_def)

definition unchanged :: "zip_input \<Rightarrow> bool" where
  "unchanged e \<longleftrightarrow> concat (zi_second e) = concat (zi_first e) \<and> length (concat (zi_first e)) = zi_size e"

lemma read_file_block:
  assumes "length p = off" and "fits_32 off e" and "length (concat (zi_second e)) = zi_size e"
  shows "read_file (p @ local_block e @ concat (zi_second e) @ s) off (zi_size e) (crcOfFile (zi_first e)) =
    (if crc32 (concat (zi_second e)) 0 = crcOfFile (zi_first e) then Some (concat (zi_second e)) else None)"
proof -
  let ?b = "p @ local_block e @ concat (zi_second e) @ s"
  note fields = local_block_fields [OF assms(1,2), of "concat (zi_second e) @ s"]
  have "slice (off + 30 + field (off + 26) 2 ?b + field (off + 28) 2 ?b) (zi_size e) ?b = concat (zi_second e)"
    unfolding fields using assms(1,3) by (simp add: slice_def length_blocks)
  then show ?thesis
    using assms(3) fields(1) by (simp add: read_file_def Let_def)
qed

section \<open>The whole archive\<close>

definition stored :: "zip_input \<Rightarrow> bytes" where "stored e = local_block e @ concat (zi_second e)"

fun central_blocks :: "nat \<Rightarrow> zip_input list \<Rightarrow> bytes list" where
  "central_blocks off [] = []"
| "central_blocks off (e # es) = central_block off e # central_blocks (off + length (local_block e) + zi_size e) es"

fun all_fit :: "nat \<Rightarrow> zip_input list \<Rightarrow> bool" where
  "all_fit off [] \<longleftrightarrow> True"
| "all_fit off (e # es) \<longleftrightarrow> fits_32 off e \<and> length (concat (zi_second e)) = zi_size e
     \<and> all_fit (off + length (local_block e) + zi_size e) es"

fun offset_after :: "nat \<Rightarrow> zip_input list \<Rightarrow> nat" where
  "offset_after off [] = off"
| "offset_after off (e # es) = offset_after (off + length (local_block e) + zi_size e) es"

lemma write_entries_Inr:
  "write_entries es z = Inr z' \<longleftrightarrow> all_fit (zw_offset z) es
     \<and> z' = \<lparr>zw_out = zw_out z @ concat (map stored es), zw_central = zw_central z @ central_blocks (zw_offset z) es,
            zw_offset = offset_after (zw_offset z) es\<rparr>"
proof (induction es arbitrary: z)
  case (Cons e es)
  have fits: "fits_32 0 e" if "fits_32 off e" for off using that by (simp add: fits_32_def)
  show ?case
    by (auto simp: Let_def localHeader_eq centralHeader_eq Cons.IH stored_def dest: fits)
qed auto

lemma offset_after_stored: "all_fit off es \<Longrightarrow> offset_after off es = off + length (concat (map stored es))"
  by (induction es arbitrary: off) (auto simp: stored_def)

lemma read_directory_blocks:
  "all_fit (length out) es \<Longrightarrow> list_all unchanged es \<Longrightarrow>
     read_directory (length es) (out @ concat (map stored es) @ done' @ concat (central_blocks (length out) es) @ tail)
       (length out + length (concat (map stored es)) + length done') =
     Some (map (\<lambda>e. (name_bytes (zi_name e), concat (zi_first e))) es)"
proof (induction es arbitrary: out done')
  case (Cons e es)
  let ?off = "length out" and ?rest = "concat (map stored es)"
  let ?next = "?off + length (local_block e) + zi_size e"
  let ?p = "out @ stored e @ ?rest @ done'"
  let ?s = "concat (central_blocks ?next es) @ tail"
  let ?b = "?p @ central_block ?off e @ ?s" and ?at = "length ?p"
  have fits: "fits_32 ?off e" and un: "unchanged e" and size: "length (concat (zi_second e)) = zi_size e"
    using Cons.prems by simp_all
  note fields = central_block_fields [of ?p ?at, OF refl fits, of ?s]
  have data: "read_file ?b ?off (zi_size e) (crcOfFile (zi_first e)) = Some (concat (zi_first e))"
    using read_file_block [of out ?off, OF refl fits size, of "?rest @ done' @ central_block ?off e @ ?s"] un
    by (simp add: stored_def crcOfFile_concat unchanged_def)
  have off': "length (out @ stored e) = ?next" using size by (simp add: stored_def)
  have "read_directory (length es) ((out @ stored e) @ ?rest @ (done' @ central_block ?off e) @ concat (central_blocks (length (out @ stored e)) es) @ tail)
      (length (out @ stored e) + length ?rest + length (done' @ central_block ?off e))
      = Some (map (\<lambda>e. (name_bytes (zi_name e), concat (zi_first e))) es)"
    by (rule Cons.IH) (use Cons.prems off' in \<open>simp_all add: add.assoc\<close>)
  then have "read_directory (length es) ?b (?at + 46 + length (name_bytes (zi_name e)) + 0 + 0)
      = Some (map (\<lambda>e. (name_bytes (zi_name e), concat (zi_first e))) es)"
    unfolding off' using size by (simp add: length_blocks stored_def ac_simps)
  then have "read_directory (Suc (length es)) ?b ?at =
      Some ((name_bytes (zi_name e), concat (zi_first e)) # map (\<lambda>e. (name_bytes (zi_name e), concat (zi_first e))) es)"
    by (simp only: read_directory.simps fields of_nat_unat ucast_id data) simp
  then show ?case by (simp add: add.assoc)
qed simp

lemma sum_sizes: "foldl (\<lambda>n b. n + length b) m bs = m + length (concat bs)"
  by (induction bs arbitrary: m) auto

lemma length_central_blocks: "length (central_blocks off es) = length es"
  by (induction es arbitrary: off) auto

lemma endOfCentralDirectory_eq:
  "count < 2 ^ 16 \<Longrightarrow> sz < 2 ^ 32 \<Longrightarrow> off < 2 ^ 32 \<Longrightarrow>
     endOfCentralDirectory count sz off = Inr (le_bytes 4 0x06054b50 @ le_bytes 2 0 @ le_bytes 2 0 @ le_bytes 2 count @ le_bytes 2 count
       @ le_bytes 4 sz @ le_bytes 4 off @ le_bytes 2 0)"
  by (simp add: endOfCentralDirectory_def)

text \<open>The guard keeps every value within its field.\<close>

definition overhead :: "zip_input list \<Rightarrow> nat" where
  "overhead es = sum_list (map (\<lambda>e. 76 + 2 * length (name_bytes (zi_name e))) es)"

lemma guard_passes:
  "guardZip32 es (foldl (\<lambda>n e. n + zi_size e) 0 es) = None \<Longrightarrow>
     length es < 2 ^ 16 \<and> sum_list (map zi_size es) + overhead es + 22 < 2 ^ 32"
proof -
  have "foldl (\<lambda>n e. n + zi_size e) m es = m + sum_list (map zi_size es)" for m
    by (induction es arbitrary: m) auto
  moreover have "foldl (\<lambda>n e. n + LOCAL_HEADER_SIZE + CENTRAL_HEADER_SIZE + 2 * length (name_bytes (zi_name e))) m es = m + overhead es" for m
    by (induction es arbitrary: m) (auto simp: overhead_def LOCAL_HEADER_SIZE_def CENTRAL_HEADER_SIZE_def)
  ultimately show "guardZip32 es (foldl (\<lambda>n e. n + zi_size e) 0 es) = None \<Longrightarrow>
     length es < 2 ^ 16 \<and> sum_list (map zi_size es) + overhead es + 22 < 2 ^ 32"
    by (simp add: guardZip32_def ZIP32_MAX_BYTES_def ZIP32_MAX_ENTRIES_def EOCD_SIZE_def split: if_splits)
qed

lemma guarded_fit:
  "off + sum_list (map zi_size es) + overhead es < 2 ^ 32 \<Longrightarrow> list_all unchanged es \<Longrightarrow>
     (\<forall>e \<in> set es. length (name_bytes (zi_name e)) < 2 ^ 16) \<Longrightarrow> all_fit off es"
  by (induction es arbitrary: off) (auto simp: fits_32_def overhead_def unchanged_def length_blocks)

lemma sizes_of_blocks:
  "all_fit off' es \<Longrightarrow> length (concat (map stored es)) + length (concat (central_blocks off es)) = sum_list (map zi_size es) + overhead es"
  by (induction es arbitrary: off off') (auto simp: stored_def length_blocks overhead_def)

lemma archive_layout:
  assumes "guardZip32 es (foldl (\<lambda>n e. n + zi_size e) 0 es) = None" and fit: "all_fit 0 es"
  shows "\<exists>eocd. writeStoredZip es = Inr (concat (map stored es) @ concat (central_blocks 0 es) @ eocd,
        length (concat (map stored es) @ concat (central_blocks 0 es) @ eocd))
    \<and> unzip (concat (map stored es) @ concat (central_blocks 0 es) @ eocd) =
        read_directory (length es) (concat (map stored es) @ concat (central_blocks 0 es) @ eocd) (length (concat (map stored es)))"
proof -
  note guard = guard_passes [OF assms(1)]
  let ?out = "concat (map stored es)" and ?cen = "concat (central_blocks 0 es)"
  have sizes: "length ?out + length ?cen + 22 < 2 ^ 32" using sizes_of_blocks [OF fit, of 0] guard by simp
  define eocd where "eocd = le_bytes 4 0x06054b50 @ le_bytes 2 0 @ le_bytes 2 0 @ le_bytes 2 (length es) @ le_bytes 2 (length es)
       @ le_bytes 4 (length ?cen) @ le_bytes 4 (length ?out) @ le_bytes 2 0"
  have end': "endOfCentralDirectory (length es) (length ?cen) (length ?out) = Inr eocd"
    unfolding eocd_def by (rule endOfCentralDirectory_eq) (use guard sizes in auto)
  have "write_entries es \<lparr>zw_out = [], zw_central = [], zw_offset = 0\<rparr> =
      Inr \<lparr>zw_out = ?out, zw_central = central_blocks 0 es, zw_offset = length ?out\<rparr>"
    using fit offset_after_stored [OF fit] by (simp add: write_entries_Inr)
  then have written: "writeStoredZip es = Inr (?out @ ?cen @ eocd, length (?out @ ?cen @ eocd))"
    using assms(1) end' by (simp add: writeStoredZip_def Let_def sum_sizes length_central_blocks EOCD_SIZE_def eocd_def)
  define p where "p = ?out @ ?cen"
  have "length eocd = 22" "field 0 4 eocd = 0x06054b50" "field 10 2 eocd = length es" "field 16 4 eocd = length ?out"
    using guard sizes by (simp_all add: field_def eocd_def)
  then have "unzip (p @ eocd) = read_directory (length es) (p @ eocd) (length ?out)"
    by (simp add: unzip_def Let_def field_at_block)
  with written show ?thesis by (auto simp: p_def)
qed

text \<open>A list of files that passes the guard and whose files do not change is packed: no header field overflows,
  the reported number of bytes is the archive's length, and a reader that follows the format (the
  end record, the directory, the local headers, the CRC of every file) gets back exactly the files,
  in order.\<close>

lemma zip_roundtrip:
  assumes "guardZip32 entries (foldl (\<lambda>n e. n + zi_size e) 0 entries) = None"
    and "list_all unchanged entries" and "\<forall>e \<in> set entries. length (name_bytes (zi_name e)) < 65536"
  shows "\<exists>archive. writeStoredZip entries = Inr (archive, length archive)
    \<and> unzip archive = Some (map (\<lambda>e. (name_bytes (zi_name e), concat (zi_first e))) entries)"
proof -
  have fit: "all_fit 0 entries" by (rule guarded_fit) (use guard_passes [OF assms(1)] assms(2,3) in auto)
  obtain eocd where "writeStoredZip entries = Inr (concat (map stored entries) @ concat (central_blocks 0 entries) @ eocd,
        length (concat (map stored entries) @ concat (central_blocks 0 entries) @ eocd))"
    and "unzip (concat (map stored entries) @ concat (central_blocks 0 entries) @ eocd) = read_directory (length entries)
        (concat (map stored entries) @ concat (central_blocks 0 entries) @ eocd) (length (concat (map stored entries)))"
    using archive_layout [OF assms(1) fit] by blast
  moreover have "read_directory (length entries) (concat (map stored entries) @ concat (central_blocks 0 entries) @ eocd)
        (length (concat (map stored entries))) = Some (map (\<lambda>e. (name_bytes (zi_name e), concat (zi_first e))) entries)"
    using read_directory_blocks [of "[]" entries "[]" eocd] fit assms(2) by simp
  ultimately show ?thesis by (intro exI conjI) simp_all
qed

section \<open>What is packed\<close>

inductive at_path :: "(string \<times> dirent) list \<Rightarrow> string list \<Rightarrow> dirent \<Rightarrow> bool" where
  here: "(n, d) \<in> set ds \<Longrightarrow> at_path ds [n] d"
| below: "(n, Directory es) \<in> set ds \<Longrightarrow> at_path es p d \<Longrightarrow> at_path ds (n # p) d"

inductive_simps at_path_simps: "at_path ds p d"

definition packable :: "string list \<Rightarrow> bool" where "packable p \<longleftrightarrow> set p \<inter> set SKIPPED_NAMES = {}"

definition input_at :: "string \<Rightarrow> (string \<times> dirent) list \<Rightarrow> zip_input \<Rightarrow> bool" where
  "input_at pre ds e \<longleftrightarrow> (\<exists>p sz first second. at_path ds p (File sz first second) \<and> packable p
     \<and> e = \<lparr>zi_name = pre @ join_with ''/'' p, zi_size = sz, zi_first = first, zi_second = second\<rparr>)"

definition link_at :: "string \<Rightarrow> (string \<times> dirent) list \<Rightarrow> string \<Rightarrow> bool" where
  "link_at pre ds l \<longleftrightarrow> (\<exists>p. at_path ds p SymbolicLink \<and> packable p \<and> l = pre @ join_with ''/'' p)"

lemma at_path_nonempty: "at_path ds p d \<Longrightarrow> p \<noteq> []"
  by (induction rule: at_path.induct) auto

lemma at_path_Cons: "at_path (x # xs) p d \<longleftrightarrow> at_path [x] p d \<or> at_path xs p d"
  unfolding at_path_simps [of "x # xs"] at_path_simps [of "[x]"] at_path_simps [of xs] by fastforce

lemma at_path_set: "set ds = set ds' \<Longrightarrow> at_path ds p d \<longleftrightarrow> at_path ds' p d"
  unfolding at_path_simps [of ds] at_path_simps [of ds'] by simp

lemma input_at_Cons: "input_at pre (x # xs) e \<longleftrightarrow> input_at pre [x] e \<or> input_at pre xs e"
  unfolding input_at_def at_path_Cons [of x xs] by blast

lemma link_at_Cons: "link_at pre (x # xs) l \<longleftrightarrow> link_at pre [x] l \<or> link_at pre xs l"
  unfolding link_at_def at_path_Cons [of x xs] by blast

lemma at_by_name [simp]: "input_at pre (by_name ds) = input_at pre ds" "link_at pre (by_name ds) = link_at pre ds"
  using at_path_set [of "by_name ds" ds] by (simp_all add: fun_eq_iff input_at_def link_at_def by_name_def)

lemma path_in_directory:
  "at_path [(n, Directory es)] p d \<longleftrightarrow> p = [n] \<and> d = Directory es \<or> (\<exists>q. p = n # q \<and> at_path es q d)"
  unfolding at_path_simps [of "[(n, Directory es)]"] by auto

lemma name_below: "at_path es q d \<Longrightarrow> pre @ join_with ''/'' (n # q) = (pre @ n @ ''/'') @ join_with ''/'' q"
  using join_with_Cons [OF at_path_nonempty] by simp

lemma packable_Cons: "packable (n # q) \<longleftrightarrow> n \<notin> set SKIPPED_NAMES \<and> packable q"
  by (auto simp: packable_def)

lemma input_in_directory:
  assumes "n \<notin> set SKIPPED_NAMES"
  shows "input_at pre [(n, Directory es)] e \<longleftrightarrow> input_at (pre @ n @ ''/'') es e"
proof
  assume "input_at pre [(n, Directory es)] e"
  then obtain q sz first second where "at_path es q (File sz first second)" "packable (n # q)"
      "e = \<lparr>zi_name = pre @ join_with ''/'' (n # q), zi_size = sz, zi_first = first, zi_second = second\<rparr>"
    unfolding input_at_def path_in_directory by blast
  then show "input_at (pre @ n @ ''/'') es e" unfolding input_at_def packable_Cons using name_below by metis
next
  assume "input_at (pre @ n @ ''/'') es e"
  then obtain q sz first second where "at_path es q (File sz first second)" "packable q"
      "e = \<lparr>zi_name = (pre @ n @ ''/'') @ join_with ''/'' q, zi_size = sz, zi_first = first, zi_second = second\<rparr>"
    unfolding input_at_def by blast
  then show "input_at pre [(n, Directory es)] e"
    using assms name_below [of es q _ pre n] unfolding input_at_def path_in_directory
    by (intro exI [of _ "n # q"] exI [of _ sz] exI [of _ first] exI [of _ second]) (simp add: packable_Cons)
qed

lemma link_in_directory:
  assumes "n \<notin> set SKIPPED_NAMES"
  shows "link_at pre [(n, Directory es)] l \<longleftrightarrow> link_at (pre @ n @ ''/'') es l"
proof
  assume "link_at pre [(n, Directory es)] l"
  then obtain q where "at_path es q SymbolicLink" "packable (n # q)" "l = pre @ join_with ''/'' (n # q)"
    unfolding link_at_def path_in_directory by blast
  then show "link_at (pre @ n @ ''/'') es l" unfolding link_at_def packable_Cons using name_below by metis
next
  assume "link_at (pre @ n @ ''/'') es l"
  then obtain q where "at_path es q SymbolicLink" "packable q" "l = (pre @ n @ ''/'') @ join_with ''/'' q"
    unfolding link_at_def by blast
  then show "link_at pre [(n, Directory es)] l"
    using assms name_below [of es q _ pre n] unfolding link_at_def path_in_directory
    by (intro exI [of _ "n # q"]) (simp add: packable_Cons)
qed

definition gathers :: "string \<Rightarrow> (string \<times> dirent) list \<Rightarrow> collected \<Rightarrow> collected \<Rightarrow> bool" where
  "gathers pre ds c c' \<longleftrightarrow> set (co_entries c') = set (co_entries c) \<union> {e. input_at pre ds e}
     \<and> set (co_skippedSymlinks c') = set (co_skippedSymlinks c) \<union> {l. link_at pre ds l}"

lemma gathers_fold:
  "(\<And>n d c. (n, d) \<in> set xs \<Longrightarrow> gathers pre [(n, d)] c (f n d c)) \<Longrightarrow> gathers pre xs c (fold (\<lambda>(n, d). f n d) xs c)"
proof (induction xs arbitrary: c)
  case (Cons x xs)
  obtain n d where x: "x = (n, d)" by fastforce
  have "gathers pre [(n, d)] c (f n d c)" using Cons.prems x by simp
  moreover have "gathers pre xs (f n d c) (fold (\<lambda>(n, d). f n d) xs (f n d c))" using Cons.prems by (intro Cons.IH) auto
  ultimately show ?case
    unfolding x gathers_def by (auto simp: input_at_Cons [of pre "(n, d)" xs] link_at_Cons [of pre "(n, d)" xs])
next
  case Nil
  then show ?case by (auto simp: gathers_def input_at_def link_at_def elim: at_path.cases)
qed

lemma visit_gathers: "gathers pre [(n, d)] c (visit pre n d c)"
proof (induction pre n d c rule: visit.induct)
  case (1 pre n d c)
  show ?case
  proof (cases "n \<in> set SKIPPED_NAMES")
    case True
    then have "\<not> packable p" if "at_path [(n, d)] p e" for p e
      using that by (auto simp: packable_def elim: at_path.cases)
    then show ?thesis using True
      by (subst visit.simps) (auto simp: gathers_def input_at_def link_at_def)
  next
    case False
    show ?thesis
    proof (cases d)
      case (Directory es)
      have "gathers (pre @ n @ ''/'') (by_name es) c (fold (\<lambda>(m, e). visit (pre @ n @ ''/'') m e) (by_name es) c)"
        by (rule gathers_fold) (use 1 False Directory in auto)
      then show ?thesis using False Directory
        by (subst visit.simps) (simp add: gathers_def input_in_directory link_in_directory)
    qed (use False visit.simps [of pre n d c] in
        \<open>auto simp: gathers_def input_at_def link_at_def packable_def at_path_simps [of "[_]"]\<close>)
  qed
qed

lemma collectDirectory_gathers:
  "set (co_entries (collectDirectory ds)) = {e. input_at [] ds e}" "set (co_skippedSymlinks (collectDirectory ds)) = {l. link_at [] ds l}"
proof -
  have "gathers [] (by_name ds) \<lparr>co_entries = [], co_skippedSymlinks = [], co_totalSize = 0\<rparr> (collectDirectory ds)"
    unfolding collectDirectory_def by (rule gathers_fold) (rule visit_gathers)
  then show "set (co_entries (collectDirectory ds)) = {e. input_at [] ds e}" "set (co_skippedSymlinks (collectDirectory ds)) = {l. link_at [] ds l}"
    by (simp_all add: gathers_def)
qed

lemma written_zip:
  assumes "writeStoredZip entries = Inr (archive, n)" and "list_all unchanged entries"
  shows "n = length archive \<and> unzip archive = Some (map (\<lambda>e. (name_bytes (zi_name e), concat (zi_first e))) entries)"
proof -
  have guard: "guardZip32 entries (foldl (\<lambda>n e. n + zi_size e) 0 entries) = None"
    using assms(1) by (auto simp: writeStoredZip_def Let_def split: option.splits)
  then obtain z where "write_entries entries \<lparr>zw_out = [], zw_central = [], zw_offset = 0\<rparr> = Inr z"
    using assms(1) by (auto simp: writeStoredZip_def Let_def split: sum.splits)
  then have "all_fit 0 entries" by (simp add: write_entries_Inr)
  moreover have "all_fit off es \<Longrightarrow> \<forall>e \<in> set es. length (name_bytes (zi_name e)) < 65536" for off es
    by (induction es arbitrary: off) (auto simp: fits_32_def)
  ultimately obtain a where "writeStoredZip entries = Inr (a, length a)"
      "unzip a = Some (map (\<lambda>e. (name_bytes (zi_name e), concat (zi_first e))) entries)"
    using zip_roundtrip [OF guard assms(2)] by blast
  with assms(1) show ?thesis by auto
qed

text \<open>C39: The archive of a directory holds the directory: when packing succeeds and no file changed under
  it, a reader that follows the format (end record, directory, local headers, the CRC of every
  file) gets exactly the regular files of the tree at any depth, under their slash-separated
  paths and with their bytes, except those with a skipped name anywhere in the path; the links
  reported are exactly the symbolic links, and none is stored or followed.\<close>

theorem directory_packed_exactly:
  assumes "zipDirectory root dirents = Inr (archive, n, links)"
    and "\<And>p sz first second. at_path dirents p (File sz first second) \<Longrightarrow>
      concat second = concat first \<and> length (concat first) = sz"
  shows "n = length archive \<and> (\<exists>files. unzip archive = Some files
    \<and> set files = {(name_bytes (join_with ''/'' p), concat first) | p sz first second.
         at_path dirents p (File sz first second) \<and> packable p}
    \<and> set links = {join_with ''/'' p | p. at_path dirents p SymbolicLink \<and> packable p})"
proof -
  let ?c = "collectDirectory dirents"
  have written: "writeStoredZip (co_entries ?c) = Inr (archive, n)" and links: "links = co_skippedSymlinks ?c"
    using assms(1) by (auto simp: zipDirectory_def Let_def split: if_splits)
  have "list_all unchanged (co_entries ?c)"
    using assms(2) by (fastforce simp: list_all_iff collectDirectory_gathers input_at_def unchanged_def)
  from written_zip [OF written this]
  have n: "n = length archive" and files: "unzip archive = Some (map (\<lambda>e. (name_bytes (zi_name e), concat (zi_first e))) (co_entries ?c))"
    by simp_all
  have "set (map (\<lambda>e. (name_bytes (zi_name e), concat (zi_first e))) (co_entries ?c)) =
      {(name_bytes (join_with ''/'' p), concat first) | p sz first second. at_path dirents p (File sz first second) \<and> packable p}"
    (is "?L = ?R")
  proof
    show "?L \<subseteq> ?R" by (fastforce simp: collectDirectory_gathers input_at_def)
    show "?R \<subseteq> ?L"
    proof
      fix x assume "x \<in> ?R"
      then obtain p sz first second where "at_path dirents p (File sz first second)" "packable p"
          and x: "x = (name_bytes (join_with ''/'' p), concat first)" by blast
      then have "\<lparr>zi_name = join_with ''/'' p, zi_size = sz, zi_first = first, zi_second = second\<rparr> \<in> set (co_entries ?c)"
        unfolding collectDirectory_gathers mem_Collect_eq input_at_def by (metis append_Nil)
      then show "x \<in> ?L" unfolding x by force
    qed
  qed
  moreover have "set links = {join_with ''/'' p | p. at_path dirents p SymbolicLink \<and> packable p}"
    by (auto simp: links collectDirectory_gathers link_at_def)
  ultimately show ?thesis using n files by blast
qed

text \<open>C40: However a file is read in pieces, the CRC written for it is the one of the bitwise definition,
  over all its bytes.\<close>

theorem crc_of_file_is_crc: "crcOfFile reads = crc_reference (concat reads)"
  by (simp add: crcOfFile_concat crc32_reference)

text \<open>The second pass notices a file that changed its length, and not one that kept it: the archive is
  written without an error and the reader refuses the file.\<close>

lemma same_length_change_unnoticed:
  assumes "fits_32 0 e" and "zi_size e + 2 * length (name_bytes (zi_name e)) < 2 ^ 31"
    and "length (concat (zi_second e)) = zi_size e" and "crc32 (concat (zi_second e)) 0 \<noteq> crcOfFile (zi_first e)"
  shows "\<exists>archive. writeStoredZip [e] = Inr (archive, length archive) \<and> unzip archive = None"
proof -
  have guard: "guardZip32 [e] (foldl (\<lambda>n e. n + zi_size e) 0 [e]) = None"
    using assms(2) by (simp add: guardZip32_def ZIP32_MAX_BYTES_def ZIP32_MAX_ENTRIES_def EOCD_SIZE_def LOCAL_HEADER_SIZE_def CENTRAL_HEADER_SIZE_def)
  have "all_fit 0 [e]" using assms(1,3) by simp
  from archive_layout [OF guard this] obtain eocd where
    eocd: "writeStoredZip [e] = Inr (stored e @ central_block 0 e @ eocd, length (stored e @ central_block 0 e @ eocd))"
      "unzip (stored e @ central_block 0 e @ eocd) = read_directory 1 (stored e @ central_block 0 e @ eocd) (length (stored e))"
    by auto
  note fields = central_block_fields [of "stored e" "length (stored e)", OF refl assms(1), of eocd]
  have "read_file (stored e @ central_block 0 e @ eocd) 0 (zi_size e) (crcOfFile (zi_first e)) = None"
    using read_file_block [of "[]" 0 e "central_block 0 e @ eocd"] assms by (simp add: stored_def)
  then have "read_directory (Suc 0) (stored e @ central_block 0 e @ eocd) (length (stored e)) = None"
    by (simp only: read_directory.simps fields of_nat_unat ucast_id) simp
  with eocd show ?thesis by auto
qed

section \<open>An instance\<close>

definition sample_tree :: "(string \<times> dirent) list" where
  "sample_tree = [(''b'', Directory [(''i'', File 1 [[7]] [[7]]), (''.git'', Directory [(''x'', File 1 [[8]] [[8]])])]), (''a'', SymbolicLink)]"

lemma sample_collected:
  "collectDirectory sample_tree = \<lparr>co_entries = [\<lparr>zi_name = ''b/i'', zi_size = 1, zi_first = [[7]], zi_second = [[7]]\<rparr>],
     co_skippedSymlinks = [''a''], co_totalSize = 1\<rparr>"
  by code_simp

lemma directory_packed_exactly_witness:
  "\<exists>archive. zipDirectory ''site'' sample_tree = Inr (archive, length archive, [''a''])
     \<and> (\<exists>files. unzip archive = Some files \<and> set files = {(name_bytes (join_with ''/'' p), concat first) | p sz first second.
         at_path sample_tree p (File sz first second) \<and> packable p})"
proof -
  have files: "concat second = concat first \<and> length (concat first) = sz" if "at_path sample_tree p (File sz first second)" for p sz first second
    using that unfolding sample_tree_def by (auto simp: at_path_simps [of "_ # _"] at_path_simps [of "[]"])
  have "length (name_bytes ''b/i'') = 3" by (simp add: name_bytes_def utf8_bytes_def utf8_char_def code_unit_def)
  then have "guardZip32 (co_entries (collectDirectory sample_tree)) (foldl (\<lambda>n e. n + zi_size e) 0 (co_entries (collectDirectory sample_tree))) = None"
      "\<forall>e \<in> set (co_entries (collectDirectory sample_tree)). length (name_bytes (zi_name e)) < 65536"
    by (simp_all add: sample_collected guardZip32_def ZIP32_MAX_BYTES_def ZIP32_MAX_ENTRIES_def EOCD_SIZE_def LOCAL_HEADER_SIZE_def CENTRAL_HEADER_SIZE_def)
  from zip_roundtrip [OF this(1) _ this(2)] obtain archive where "writeStoredZip (co_entries (collectDirectory sample_tree)) = Inr (archive, length archive)"
    by (auto simp: sample_collected unchanged_def)
  then have zip: "zipDirectory ''site'' sample_tree = Inr (archive, length archive, [''a''])"
    by (simp add: zipDirectory_def Let_def sample_collected)
  have "\<exists>files. unzip archive = Some files \<and> set files = {(name_bytes (join_with ''/'' p), concat first) | p sz first second.
         at_path sample_tree p (File sz first second) \<and> packable p}"
    using directory_packed_exactly [OF zip] files by blast
  with zip show ?thesis by blast
qed

end
