(* ===== verification/Node_Runtime.thy ===== *)
theory Node_Runtime
  imports Thumbnails Request_Pipeline
begin

text \<open>
  The two runtimes around the core. On Node: the configuration read from the environment
  (\<open>runtime/node/config.ts\<close>, \<open>adapters/tenancy.ts\<close>), the handler in front of the application
  (\<open>runtime/node/index.ts\<close>) and the cron tick that drains the outbox queues
  (\<open>runtime/node/cron.ts\<close>, \<open>container.ts\<close>). On Workers: the configuration of
  \<open>adapters/cloudflare/cloudflare-deps.ts\<close>, the dispatch of \<open>runtime/cloudflare/index.ts\<close> and the
  container launcher (\<open>adapters/cloudflare/container.ts\<close>, \<open>container-env.ts\<close>). The readings of
  \<open>new URL\<close> are functions of the record \<open>url_parser\<close>. The lemmas: a drain accounts for every message
  it claims, the client's address cannot be forged, the cron needs its secret, a launched container
  can report, and a container that hangs is stopped.
\<close>

section \<open>Configuration\<close>

type_synonym environment = "string \<Rightarrow> string option"

record url_parser =
  up_protocol :: "string \<Rightarrow> string option"
  up_hostname :: "string \<Rightarrow> string option"
  up_host :: "string \<Rightarrow> string option"
  up_origin :: "string \<Rightarrow> string option"
    \<comment> \<open>\<open>None\<close>: the constructor throws\<close>

datatype config_error =
    Isolation isolation_error
  | BadOrigins string
  | CerbosNotHttp
  | LauncherUnsupported string

datatype tenancy_config = LocalTenancy | CerbosTenancy string

definition isHttpUrl :: "url_parser \<Rightarrow> string \<Rightarrow> bool" where
  "isHttpUrl url value' =
     (case up_protocol url value' of None \<Rightarrow> False | Some p \<Rightarrow> p = ''http:'' \<or> p = ''https:'')"

definition parseTenancyConfig :: "url_parser \<Rightarrow> environment \<Rightarrow> config_error + tenancy_config" where
  "parseTenancyConfig url env =
     (let endpoint = env ''CERBOS_ENDPOINT''
      in if \<not> truthy endpoint then Inr LocalTenancy
         else if \<not> isHttpUrl url (the endpoint) then Inl CerbosNotHttp
         else Inr (CerbosTenancy (the endpoint)))"

definition or_else :: "string option \<Rightarrow> string \<Rightarrow> string" where
  \<comment> \<open>\<open>v || d\<close>\<close>
  "or_else v d = (if truthy v then the v else d)"

definition intOr :: "string option \<Rightarrow> int \<Rightarrow> int" where
  "intOr v fallback =
     (case parse_int (case v of None \<Rightarrow> [] | Some s \<Rightarrow> s) of
        None \<Rightarrow> fallback
      | Some n \<Rightarrow> if n > 0 then n else fallback)"

record object_store_config =
  oc_endpoint :: string
  oc_accessKeyId :: string
  oc_secretAccessKey :: string
  oc_bucket :: string
  oc_region :: string
  oc_pathStyle :: bool

definition objectStore :: "environment \<Rightarrow> object_store_config option" where
  "objectStore env =
     (if \<not> truthy (env ''OBJECT_STORE_ENDPOINT'') \<or> \<not> truthy (env ''OBJECT_STORE_ACCESS_KEY_ID'')
         \<or> \<not> truthy (env ''OBJECT_STORE_SECRET_ACCESS_KEY'')
      then None
      else Some \<lparr>oc_endpoint = the (env ''OBJECT_STORE_ENDPOINT''), oc_accessKeyId = the (env ''OBJECT_STORE_ACCESS_KEY_ID''),
             oc_secretAccessKey = the (env ''OBJECT_STORE_SECRET_ACCESS_KEY''),
             oc_bucket = or_else (env ''OBJECT_STORE_BUCKET'') ''reearth-serve'',
             oc_region = or_else (env ''OBJECT_STORE_REGION'') ''auto'',
             oc_pathStyle = (env ''OBJECT_STORE_PATH_STYLE'' = Some ''true'')\<rparr>)"

definition containerLauncher :: "string option \<Rightarrow> config_error + string" where
  "containerLauncher value' =
     (let kind = or_else value' ''none'' in if kind \<noteq> ''none'' then Inl (LauncherUnsupported kind) else Inr kind)"

record node_config =
  nc_port :: int
  nc_baseUrl :: string
  nc_sqlitePath :: string
  nc_internalApiSecret :: "string option"
  nc_signingSecret :: "string option"
  nc_credentialedOrigins :: "string list"
  nc_anonymousUploadEnabled :: bool
  nc_trustProxy :: bool
  nc_assetTtlSeconds :: int
  nc_oidcIssuerUrl :: "string option"
  nc_oidcAudience :: "string option"
  nc_tenancy :: tenancy_config
  nc_siteHostSuffix :: "string option"
  nc_siteDomainIsPublicSuffix :: bool
  nc_siteDnsResolverUrl :: "string option"
  nc_siteFallbackOrigin :: "string option"
  nc_objectStore :: "object_store_config option"
  nc_containerLauncher :: string

definition DEFAULT_PORT :: int where "DEFAULT_PORT = 8788"
definition DEFAULT_ASSET_TTL_SECONDS :: int where "DEFAULT_ASSET_TTL_SECONDS = 3600"

definition isolation_of :: "environment \<Rightarrow> isolation_env" where
  "isolation_of env = \<lparr>ie_suffix = env ''SITE_HOST_SUFFIX'', ie_baseUrl = env ''BASE_URL'',
     ie_domain = env ''SITE_REGISTRABLE_DOMAIN'', ie_publicSuffix = env ''SITE_DOMAIN_IS_PUBLIC_SUFFIX''\<rparr>"

definition loadConfig :: "url_parser \<Rightarrow> environment \<Rightarrow> config_error + node_config" where
  "loadConfig url env =
     (let port = intOr (env ''PORT'') DEFAULT_PORT
      in case checkSiteIsolation (up_hostname url) (isolation_of env) of
           Inl e \<Rightarrow> Inl (Isolation e)
         | Inr publicSuffix \<Rightarrow>
             (case parseCredentialedOrigins (up_origin url) (env ''CREDENTIALED_ORIGINS'') of
                Inl e \<Rightarrow> Inl (BadOrigins e)
              | Inr origins \<Rightarrow>
                  (case parseTenancyConfig url env of
                     Inl e \<Rightarrow> Inl e
                   | Inr tenancy \<Rightarrow>
                       (case containerLauncher (env ''CONTAINER_LAUNCHER'') of
                          Inl e \<Rightarrow> Inl e
                        | Inr launcher \<Rightarrow>
                            Inr \<lparr>nc_port = port,
                              nc_baseUrl = or_else (env ''BASE_URL'') (''http://localhost:'' @ show_int port),
                              nc_sqlitePath = or_else (env ''SQLITE_PATH'') '':memory:'',
                              nc_internalApiSecret = truthy_or_none (env ''INTERNAL_API_SECRET''),
                              nc_signingSecret = truthy_or_none (env ''SIGNING_SECRET''),
                              nc_credentialedOrigins = origins,
                              nc_anonymousUploadEnabled = (env ''ANONYMOUS_UPLOAD_ENABLED'' = Some ''true''),
                              nc_trustProxy = (env ''TRUST_PROXY'' = Some ''true''),
                              nc_assetTtlSeconds = intOr (env ''ASSET_TTL_SECONDS'') DEFAULT_ASSET_TTL_SECONDS,
                              nc_oidcIssuerUrl = truthy_or_none (env ''OIDC_ISSUER_URL''),
                              nc_oidcAudience = truthy_or_none (env ''OIDC_AUDIENCE''),
                              nc_tenancy = tenancy,
                              nc_siteHostSuffix = truthy_or_none (env ''SITE_HOST_SUFFIX''),
                              nc_siteDomainIsPublicSuffix = publicSuffix,
                              nc_siteDnsResolverUrl = truthy_or_none (env ''SITE_DNS_RESOLVER_URL''),
                              nc_siteFallbackOrigin = truthy_or_none (env ''SITE_FALLBACK_ORIGIN''),
                              nc_objectStore = objectStore env,
                              nc_containerLauncher = launcher\<rparr>))))"

record worker_config =
  wc_ttlSeconds :: int
  wc_baseUrl :: "string option"
  wc_anonymousUploadEnabled :: bool
  wc_siteHostSuffix :: "string option"
  wc_siteDnsResolverUrl :: "string option"
  wc_certificates :: "(string \<times> string) option"
    \<comment> \<open>the token and zone of \<open>CloudflareCustomHostnames\<close>, or the no-op provisioner\<close>
  wc_cnameTarget :: string
    \<comment> \<open>what the no-op provisioner quotes\<close>
  wc_siteFallbackOrigin :: "string option"
  wc_signingSecret :: "string option"
  wc_credentialedOrigins :: "string list"
  wc_internalApiSecret :: "string option"
  wc_oidcIssuerUrl :: "string option"
  wc_oidcAudience :: "string option"
  wc_jwksCacheTtlSeconds :: "int option option"
    \<comment> \<open>\<open>None\<close>: undefined; \<open>Some None\<close>: \<open>NaN\<close>\<close>
  wc_tenancy :: tenancy_config
  wc_objectStore :: "object_store_config option"
  wc_stuckThresholdMs :: int

definition DEFAULT_STUCK_THRESHOLD_MS :: int where "DEFAULT_STUCK_THRESHOLD_MS = 24 * 60 * 60 * 1000"

definition parse_or :: "string option \<Rightarrow> int \<Rightarrow> int" where
  \<comment> \<open>\<open>parseInt(v, 10) || d\<close>\<close>
  "parse_or v d =
     (case parse_int (case v of None \<Rightarrow> ''undefined'' | Some s \<Rightarrow> s) of
        None \<Rightarrow> d | Some n \<Rightarrow> if n = 0 then d else n)"

definition r2Credentials :: "environment \<Rightarrow> object_store_config option" where
  \<comment> \<open>without the fields only the Node runtime has\<close>
  "r2Credentials env =
     (if \<not> truthy (env ''R2_S3_ENDPOINT'') \<or> \<not> truthy (env ''R2_ACCESS_KEY_ID'') \<or> \<not> truthy (env ''R2_SECRET_ACCESS_KEY'')
      then None
      else Some \<lparr>oc_endpoint = the (env ''R2_S3_ENDPOINT''), oc_accessKeyId = the (env ''R2_ACCESS_KEY_ID''),
             oc_secretAccessKey = the (env ''R2_SECRET_ACCESS_KEY''),
             oc_bucket = or_else (env ''R2_BUCKET_NAME'') ''reearth-serve'', oc_region = ''auto'', oc_pathStyle = False\<rparr>)"

definition cname_target :: "url_parser \<Rightarrow> environment \<Rightarrow> string" where
  "cname_target url env =
     or_else (env ''SITE_FALLBACK_ORIGIN'')
       (case apexHost (up_host url (case env ''BASE_URL'' of None \<Rightarrow> [] | Some s \<Rightarrow> s)) of None \<Rightarrow> [] | Some h \<Rightarrow> h)"

definition buildDeps :: "url_parser \<Rightarrow> environment \<Rightarrow> config_error + worker_config" where
  "buildDeps url env =
     (case checkSiteIsolation (up_hostname url) (isolation_of env) of
        Inl e \<Rightarrow> Inl (Isolation e)
      | Inr _ \<Rightarrow>
          (case parseCredentialedOrigins (up_origin url) (env ''CREDENTIALED_ORIGINS'') of
             Inl e \<Rightarrow> Inl (BadOrigins e)
           | Inr origins \<Rightarrow>
               (case parseTenancyConfig url env of
                  Inl e \<Rightarrow> Inl e
                | Inr tenancy \<Rightarrow>
                    Inr \<lparr>wc_ttlSeconds = parse_or (env ''ASSET_TTL_SECONDS'') 3600,
                      wc_baseUrl = env ''BASE_URL'',
                      wc_anonymousUploadEnabled = (env ''ANONYMOUS_UPLOAD_ENABLED'' = Some ''true''),
                      wc_siteHostSuffix = truthy_or_none (env ''SITE_HOST_SUFFIX''),
                      wc_siteDnsResolverUrl = truthy_or_none (env ''SITE_DNS_RESOLVER_URL''),
                      wc_certificates = (if truthy (env ''CF_API_TOKEN'') \<and> truthy (env ''CF_ZONE_ID'')
                        then Some (the (env ''CF_API_TOKEN''), the (env ''CF_ZONE_ID'')) else None),
                      wc_cnameTarget = cname_target url env,
                      wc_siteFallbackOrigin = truthy_or_none (env ''SITE_FALLBACK_ORIGIN''),
                      wc_signingSecret = truthy_or_none (env ''SIGNING_SECRET''),
                      wc_credentialedOrigins = origins,
                      wc_internalApiSecret = env ''INTERNAL_API_SECRET'',
                      wc_oidcIssuerUrl = env ''OIDC_ISSUER_URL'',
                      wc_oidcAudience = env ''OIDC_AUDIENCE'',
                      wc_jwksCacheTtlSeconds = (if truthy (env ''JWKS_CACHE_TTL_SECONDS'')
                        then Some (parse_int (the (env ''JWKS_CACHE_TTL_SECONDS''))) else None),
                      wc_tenancy = tenancy,
                      wc_objectStore = r2Credentials env,
                      wc_stuckThresholdMs = (case parse_int (or_else (env ''EXTRACTION_STUCK_THRESHOLD_SECONDS'') []) of
                        None \<Rightarrow> DEFAULT_STUCK_THRESHOLD_MS
                      | Some n \<Rightarrow> if n * 1000 = 0 then DEFAULT_STUCK_THRESHOLD_MS else n * 1000)\<rparr>)))"

text \<open>
  Both runtimes refuse the same unsafe settings, and where both start they agree on everything that
  guards access.
\<close>

lemma runtimes_refuse_alike:
  assumes "buildDeps url env = Inl e"
  shows "loadConfig url env = Inl e"
  using assms by (simp add: buildDeps_def loadConfig_def Let_def split: sum.splits)

lemma truthy_truthy_or_none [simp]: "truthy (truthy_or_none v) = truthy v"
  by (simp add: truthy_or_none_def truthy_def)

lemma runtimes_agree:
  assumes "loadConfig url env = Inr nc" and "buildDeps url env = Inr wc"
  shows "nc_anonymousUploadEnabled nc = wc_anonymousUploadEnabled wc" "nc_credentialedOrigins nc = wc_credentialedOrigins wc"
    "nc_tenancy nc = wc_tenancy wc" "nc_siteHostSuffix nc = wc_siteHostSuffix wc" "nc_signingSecret nc = wc_signingSecret wc"
    "nc_internalApiSecret nc = truthy_or_none (wc_internalApiSecret wc)"
  using assms by (clarsimp simp: buildDeps_def loadConfig_def Let_def split: sum.splits)+

lemma intOr_pos: "0 < d \<Longrightarrow> 0 < intOr v d"
  by (simp add: intOr_def split: option.split)

text \<open>A negative lifetime is refused on Node and taken on Workers, where every upload is then expired.\<close>

lemma negative_ttl_accepted:
  "\<exists>wc nc. buildDeps url [''ASSET_TTL_SECONDS'' \<mapsto> ''-5''] = Inr wc \<and> wc_ttlSeconds wc = -5
     \<and> loadConfig url [''ASSET_TTL_SECONDS'' \<mapsto> ''-5''] = Inr nc \<and> nc_assetTtlSeconds nc = 3600"
proof -
  have "parse_int ''-5'' = Some (-5)"
    by (simp add: parse_int_def is_space_def is_digit_def decimal_value_def digit_value_def code_unit_def)
  moreover have no_origins: "vary_values None = []" by (simp add: vary_values_def js_trim_def)
  ultimately show ?thesis
    by (simp add: buildDeps_def loadConfig_def Let_def checkSiteIsolation_def isolation_of_def truthy_def
        parseCredentialedOrigins_def no_origins parseTenancyConfig_def containerLauncher_def or_else_def
        parse_or_def intOr_def DEFAULT_ASSET_TTL_SECONDS_def)
qed

section \<open>The handler in front of the application\<close>

definition pinClientIp :: "string option \<Rightarrow> http_request \<Rightarrow> http_request" where
  \<comment> \<open>the address of the socket, if it is known\<close>
  "pinClientIp address request =
     (let h = own_delete (hq_headers request) ''cf-connecting-ip''
      in request\<lparr>hq_headers := (if truthy address then own_set h ''x-forwarded-for'' (the address)
                              else own_delete h ''x-forwarded-for'')\<rparr>)"

record cron_result =
  cr_extraction :: nat
  cr_thumbnail :: nat
  cr_kvSwept :: nat
  cr_skipped :: "string list"

datatype 'r node_answer = FromApp 'r | Json nat "string + cron_result"

definition cron_handler :: "string option \<Rightarrow> http_request \<Rightarrow> ('st \<Rightarrow> (string + cron_result) \<times> 'st) \<Rightarrow> 'st \<Rightarrow> 'r node_answer \<times> 'st" where
  \<comment> \<open>\<open>cron\<close>; the third argument is \<open>runCron\<close>, with \<open>Inl\<close> where it throws\<close>
  "cron_handler expected request run st =
     (if \<not> truthy expected then (Json 503 (Inl ''Internal API not configured''), st)
      else (case bearer_token id (case header request ''Authorization'' of None \<Rightarrow> [] | Some h \<Rightarrow> h) of
              None \<Rightarrow> (Json 401 (Inl ''Unauthorized''), st)
            | Some token \<Rightarrow>
                if \<not> timingSafeEqual_app token (the expected) then (Json 401 (Inl ''Unauthorized''), st)
                else (case run st of
                        (Inl _, st') \<Rightarrow> (Json 500 (Inl ''Cron failed''), st')
                      | (Inr result, st') \<Rightarrow> (Json 200 (Inr result), st'))))"

record ('st, 'r) node_app =
  na_fetch :: "http_request \<Rightarrow> 'st \<Rightarrow> 'r \<times> 'st"
  na_runCron :: "'st \<Rightarrow> (string + cron_result) \<times> 'st"

definition createNodeHandler ::
  "url_parser \<Rightarrow> node_config \<Rightarrow> ('st, 'r) node_app \<Rightarrow> string option \<Rightarrow> string \<Rightarrow> http_request \<Rightarrow> 'st
   \<Rightarrow> string + 'r node_answer \<times> 'st" where
  \<comment> \<open>the socket's address, the host of the request's URL; \<open>Inl\<close>: the suffix is malformed and \<open>createApp\<close> throws\<close>
  "createNodeHandler url nc app address urlHost raw st =
     (let request = (if nc_trustProxy nc then raw else pinClientIp address raw)
      in case isSiteHost (Some (case header request ''Host'' of None \<Rightarrow> urlHost | Some h \<Rightarrow> h))
             (up_host url (nc_baseUrl nc)) (nc_siteHostSuffix nc) of
           Inl e \<Rightarrow> Inl e
         | Inr True \<Rightarrow> Inr (map_prod FromApp id (na_fetch app request st))
         | Inr False \<Rightarrow>
             if hq_pathname request = ''/internal/cron''
             then if hq_method request \<noteq> ''POST'' then Inr (Json 405 (Inl ''Method not allowed''), st)
                  else Inr (cron_handler (nc_internalApiSecret nc) request (na_runCron app) st)
             else if starts_with ''/api/'' (hq_pathname request) \<or> starts_with ''/files'' (hq_pathname request)
             then Inr (map_prod FromApp id (na_fetch app request st))
             else Inr (Json 404 (Inl ''Not found''), st))"

text \<open>
  The Worker decides in the other order and answers everything else with the pages of the user
  interface; a configuration that is refused answers 500.
\<close>

datatype 'r worker_answer = AppAnswer 'r | Misconfigured | UserInterface

definition worker_fetch ::
  "url_parser \<Rightarrow> environment \<Rightarrow> (worker_config \<Rightarrow> http_request \<Rightarrow> 'st \<Rightarrow> 'r \<times> 'st) \<Rightarrow> string \<Rightarrow> http_request \<Rightarrow> 'st
   \<Rightarrow> string + 'r worker_answer \<times> 'st" where
  "worker_fetch url env app urlHost request st =
     (let through = (case buildDeps url env of
            Inl _ \<Rightarrow> (Misconfigured, st)
          | Inr wc \<Rightarrow> map_prod AppAnswer id (app wc request st))
      in if starts_with ''/api/'' (hq_pathname request) \<or> starts_with ''/files'' (hq_pathname request) then Inr through
         else (case isSiteHost (Some (case header request ''Host'' of None \<Rightarrow> urlHost | Some h \<Rightarrow> h))
                      (up_host url (case env ''BASE_URL'' of None \<Rightarrow> [] | Some s \<Rightarrow> s)) (env ''SITE_HOST_SUFFIX'') of
                 Inl e \<Rightarrow> Inl e
               | Inr site \<Rightarrow> Inr (if site then through else (UserInterface, st))))"

lemma pinned_names:
  "js_lower ''CF-Connecting-IP'' = ''cf-connecting-ip''" "js_lower ''X-Forwarded-For'' = ''x-forwarded-for''"
  "js_lower ''Authorization'' = ''authorization''"
  by code_simp+

lemma header_pinned:
  "header (pinClientIp address request) ''CF-Connecting-IP'' = None"
  "header (pinClientIp address request) ''X-Forwarded-For'' = (if truthy address then address else None)"
  "header (pinClientIp address request) ''Authorization'' = header request ''Authorization''"
  by (simp_all add: header_def pinClientIp_def Let_def pinned_names truthy_def split: option.splits)

lemma clientIp_pinned:
  "clientIp (pinClientIp address request) =
     (if truthy address
      then let first = js_trim (hd (split_on (CHR '','') (the address))) in if first = [] then None else Some first
      else None)"
  by (auto simp: clientIp_def header_pinned Let_def truthy_def split: option.splits)

text \<open>
  What the limiter of passwords keys on is the address of the socket, whatever headers are sent; and
  the tick of the cron runs only for a POST on the API host that carries the secret.
\<close>

lemma address_not_forged:
  assumes "\<not> nc_trustProxy nc"
    and "\<And>r st. clientIp r = clientIp (pinClientIp address raw) \<Longrightarrow> na_fetch app r st = na_fetch app' r st"
    and "na_runCron app = na_runCron app'"
  shows "createNodeHandler url nc app address urlHost raw st = createNodeHandler url nc app' address urlHost raw st"
proof -
  have "na_fetch app (pinClientIp address raw) st = na_fetch app' (pinClientIp address raw) st" by (rule assms(2)) simp
  then show ?thesis using assms(1,3) by (simp add: createNodeHandler_def Let_def split: sum.split bool.split)
qed

lemma cron_needs_secret:
  assumes "createNodeHandler url nc \<lparr>na_fetch = \<lambda>_ st. (r, st), na_runCron = run\<rparr> address urlHost raw st = Inr (a, st')" and "st' \<noteq> st"
  shows "hq_method raw = ''POST'' \<and> hq_pathname raw = ''/internal/cron'' \<and>
    (\<exists>secret. nc_internalApiSecret nc = Some secret \<and> secret \<noteq> [] \<and>
       header raw ''Authorization'' \<noteq> None \<and> bearer_token id (the (header raw ''Authorization'')) = Some secret)"
proof -
  have same: "hq_method (pinClientIp address raw) = hq_method raw" "hq_pathname (pinClientIp address raw) = hq_pathname raw"
    by (simp_all add: pinClientIp_def Let_def)
  have none: "bearer_token id [] = None" by (simp add: bearer_token_def)
  show ?thesis
    using assms none
    by (auto simp: createNodeHandler_def cron_handler_def Let_def same header_pinned truthy_def timingSafeEqual_app_eq
        split: if_splits sum.splits option.splits bool.splits prod.splits)
qed

section \<open>The cron tick\<close>

definition BATCH_SIZE :: nat where "BATCH_SIZE = 50"
definition CLEANUP_SUBREQUEST_BUDGET :: int where "CLEANUP_SUBREQUEST_BUDGET = 100000"
definition STUCK_THRESHOLD_MS :: int where "STUCK_THRESHOLD_MS = 24 * 60 * 60 * 1000"

fun settle_all :: "string \<Rightarrow> nat \<Rightarrow> int \<Rightarrow> 'b delivery list \<Rightarrow> settlement list \<Rightarrow> 'b sql_queue \<Rightarrow> 'b sql_queue" where
  \<comment> \<open>the calls of \<open>ack\<close> and \<open>retry\<close> on the messages of a batch, in order; messages without one are left\<close>
  "settle_all queue maxAttempts now (m # ms) (Acked # ss) q = settle_all queue maxAttempts now ms ss q"
| "settle_all queue maxAttempts now (m # ms) (Retried delay # ss) q =
     settle_all queue maxAttempts now ms ss (sq_retry queue maxAttempts now m (int delay) q)"
| "settle_all queue maxAttempts now ms ss q = q"

definition drain ::
  "string \<Rightarrow> int \<Rightarrow> ('b delivery list \<Rightarrow> 'st \<Rightarrow> settlement list \<times> string option \<times> 'st)
   \<Rightarrow> 'b sql_queue \<times> 'st \<Rightarrow> (string + nat) \<times> 'b sql_queue \<times> 'st" where
  \<comment> \<open>the consumer returns what it settled and the error it threw, if any\<close>
  "drain queue now consume st =
     (case sq_receive queue now BATCH_SIZE (fst st) of
        (messages, q) \<Rightarrow>
          if messages = [] then (Inr 0, q, snd st)
          else (case consume messages (snd st) of
                  (settled, err, st') \<Rightarrow>
                    ((case err of Some e \<Rightarrow> Inl e | None \<Rightarrow> Inr (length messages)),
                     sq_flush (settle_all queue 5 now messages settled q), st')))"

record 'c container_launcher =
  la_archiveExtractorAvailable :: bool
  la_launchArchiveExtractor :: "extraction_message \<Rightarrow> string + unit"
  la_thumbnails :: "'c thumbnail_containers"

definition UnavailableContainerLauncher :: "unit container_launcher" where
  "UnavailableContainerLauncher =
     \<lparr>la_archiveExtractorAvailable = False,
      la_launchArchiveExtractor = (\<lambda>m. Inl (''no container launcher configured; cannot extract '' @ em_archiveFilename m
        @ '' (asset '' @ em_assetId m @ '')'')),
      la_thumbnails = \<lparr>tc_available = False, tc_generate = (\<lambda>j c. (Inl (''no container launcher configured; cannot thumbnail ''
        @ tj_sourceKey j @ '' (asset '' @ tj_assetId j @ '')''), c))\<rparr>\<rparr>"

record ('s, 'c) node_state =
  ns_db :: database
  ns_storage :: 's
  ns_kv :: "blob kv_table"
  ns_extraction :: "extraction_message sql_queue"
    \<comment> \<open>the rows of \<open>queue_messages\<close> with this queue's name, and the object in front of them\<close>
  ns_thumbnail :: "thumbnail_message sql_queue"
  ns_containers :: 'c

definition consume_extraction ::
  "'c container_launcher \<Rightarrow> int \<Rightarrow> extraction_message delivery list \<Rightarrow> database \<Rightarrow> settlement list \<times> string option \<times> database" where
  "consume_extraction la now messages db =
     (case handleQueue (la_archiveExtractorAvailable la) (\<lambda>m. \<not> isl (la_launchArchiveExtractor la m)) now messages db of
        (settled, db') \<Rightarrow> (settled, None, db'))"

definition consume_thumbnails ::
  "'i codec \<Rightarrow> 's file_storage \<Rightarrow> 'c container_launcher \<Rightarrow> thumbnail_message delivery list \<Rightarrow> 's \<times> 'c
   \<Rightarrow> settlement list \<times> string option \<times> 's \<times> 'c" where
  "consume_thumbnails cd fs la messages st =
     (case handleThumbnailQueue cd fs (la_thumbnails la) messages st of (settled, st') \<Rightarrow> (settled, None, st'))"

definition drain_thumbnails ::
  "'s file_storage \<Rightarrow> 'c container_launcher \<Rightarrow> 'i codec option \<Rightarrow> int \<Rightarrow> thumbnail_message sql_queue \<times> 's \<times> 'c
   \<Rightarrow> (string + nat) \<times> thumbnail_message sql_queue \<times> 's \<times> 'c" where
  \<comment> \<open>the image library, if \<open>loadThumbnailConsumer\<close> could import it\<close>
  "drain_thumbnails fs la codec now st =
     (case codec of None \<Rightarrow> (Inr 0, st) | Some cd \<Rightarrow> drain ''thumbnail'' now (consume_thumbnails cd fs la) st)"

definition runCron ::
  "'s file_storage \<Rightarrow> 'c container_launcher \<Rightarrow> 'i codec option \<Rightarrow> int \<Rightarrow> ('s, 'c) node_state
   \<Rightarrow> (string + cron_result) \<times> ('s, 'c) node_state" where
  \<comment> \<open>one reading of the clock for the tick\<close>
  "runCron fs la codec now st =
     (case handleScheduled fs (Some sql_port) (Some (sql_queue_port ''extraction'' 5, \<lambda>_. True))
             CLEANUP_SUBREQUEST_BUDGET STUCK_THRESHOLD_MS now (ns_db st, ns_storage st, ns_kv st, ns_extraction st) of
        (db1, s1, k1, q1) \<Rightarrow>
          (case drain ''extraction'' now (consume_extraction la now) (q1, db1) of
             (extraction, q2, db2) \<Rightarrow>
               (case extraction of
                  Inl e \<Rightarrow> (Inl e, st\<lparr>ns_db := db2, ns_storage := s1, ns_kv := k1, ns_extraction := q2\<rparr>)
                | Inr n \<Rightarrow>
                    (case drain_thumbnails fs la codec now (ns_thumbnail st, s1, ns_containers st) of
                       (thumbnail, t2, s2, c2) \<Rightarrow>
                         (let st2 = \<lparr>ns_db = db2, ns_storage = s2, ns_kv = k1, ns_extraction = q2, ns_thumbnail = t2, ns_containers = c2\<rparr>
                          in case thumbnail of
                               Inl e \<Rightarrow> (Inl e, st2)
                             | Inr t \<Rightarrow>
                                 (case sql_sweep_expired now k1 of
                                    (swept, k2) \<Rightarrow>
                                      (Inr \<lparr>cr_extraction = n, cr_thumbnail = t, cr_kvSwept = swept,
                                         cr_skipped = (if codec = None then [''thumbnail''] else [])\<rparr>,
                                       st2\<lparr>ns_kv := k2\<rparr>)))))))"

section \<open>A drain accounts for every message\<close>

definition acked :: "'b delivery list \<Rightarrow> settlement list \<Rightarrow> 'b multiset" where
  "acked ms ss = mset (map (dl_body \<circ> fst) (filter (\<lambda>p. snd p = Acked) (zip ms ss)))"

definition unsettled :: "'b delivery list \<Rightarrow> settlement list \<Rightarrow> 'b multiset" where
  "unsettled ms ss = mset (map dl_body (drop (length ss) ms))"

definition kept :: "string \<Rightarrow> 'b sql_queue \<Rightarrow> 'b multiset" where
  \<comment> \<open>what the table, the buffer of retries and the list of dead messages hold\<close>
  "kept queue q = image_mset fst (sq_queued queue q) + mset (sq_dead q)"

lemma retry_kept:
  assumes "sq_ok q" and "dl_attempts m = n"
  shows "kept queue (sq_retry queue 5 now m delay q) = add_mset (dl_body m) (kept queue q)" "sq_ok (sq_retry queue 5 now m delay q)"
  using sql_jobs.retry_again[OF assms(1), of m queue now delay] sql_jobs.retry_dead[of m queue now delay q]
    sql_jobs.retry_invar[OF assms(1), of queue now m delay]
  by (cases "dl_attempts m < 5"; simp add: kept_def sql_queue_port_def)+

lemma settle_all_kept:
  "sq_ok q \<Longrightarrow>
     kept queue q + image_mset dl_body (mset ms) = kept queue (settle_all queue 5 now ms ss q) + acked ms ss + unsettled ms ss
     \<and> sq_ok (settle_all queue 5 now ms ss q)"
proof (induction queue "5::nat" now ms ss q rule: settle_all.induct)
  case (2 queue now m ms delay ss q)
  then show ?case using retry_kept[of q m "dl_attempts m" queue now "int delay"] by (simp add: acked_def unsettled_def)
qed (simp_all add: acked_def unsettled_def)

lemma receive_kept:
  assumes "sq_ok q" and "sq_receive queue now limit q = (ms, q')"
  shows "kept queue q = kept queue q' + image_mset dl_body (mset ms)" "sq_ok q'" "sq_pending q' = sq_pending q"
proof -
  obtain taken where t: "sq_queued queue q = mset taken + sq_queued queue q'"
    "ms = map (\<lambda>(m, n). \<lparr>dl_body = m, dl_attempts = n + 1\<rparr>) taken"
    using sq_receive_queued[OF assms] by blast
  have "map dl_body ms = map fst taken" using t(2) by (simp add: case_prod_unfold)
  then have "image_mset dl_body (mset ms) = image_mset fst (mset taken)" by (metis mset_map)
  moreover have "sq_dead q' = sq_dead q" using assms(2) by (auto simp: sq_receive_def Let_def)
  ultimately show "kept queue q = kept queue q' + image_mset dl_body (mset ms)" using t(1) by (simp add: kept_def)
  show "sq_ok q'" using sql_jobs.receive_invar[OF assms(1), of queue now limit] assms(2) by (simp add: sql_queue_port_def)
  show "sq_pending q' = sq_pending q" using assms(2) by (auto simp: sq_receive_def Let_def)
qed

lemma flush_kept [simp]: "kept queue (sq_flush q) = kept queue q" "sq_ok (sq_flush q) = sq_ok q" "sq_pending (sq_flush q) = []"
  by (auto simp: sq_flush_def kept_def sq_queued_def sq_ok_def)

lemma drain_accounts:
  assumes "sq_ok q" and "sq_pending q = []" and "drain queue now consume (q, st) = (r, q', st')"
    and "sq_receive queue now BATCH_SIZE q = (ms, q1)" and "consume ms st = (ss, err, st1)"
  shows "kept queue q = kept queue q' + acked ms ss + unsettled ms ss \<and> sq_ok q' \<and> sq_pending q' = []"
  using receive_kept[OF assms(1,4)] settle_all_kept[of q1 queue ms now ss] assms(2-5)
  by (auto simp: drain_def acked_def unsettled_def split: if_splits)

text \<open>
  Messages that a throwing consumer had not settled are in neither place: the batch was deleted from
  the table when it was claimed.
\<close>

lemma partial_batch_lost:
  assumes "sq_ok q" and "sq_pending q = []" and "sq_receive queue now BATCH_SIZE q = (m # ms, q1)"
  shows "kept queue q = add_mset (dl_body m)
     (kept queue (fst (snd (drain queue now (\<lambda>messages st. ([], Some ''thrown'', st)) (q, st)))) + image_mset dl_body (mset ms))"
  using drain_accounts[OF assms(1,2), of queue now "\<lambda>messages st. ([], Some ''thrown'', st)" st _ _ _ "m # ms" q1]
    assms(3) by (cases "drain queue now (\<lambda>messages st. ([], Some ''thrown'', st)) (q, st)") (auto simp: acked_def unsettled_def)

section \<open>What becomes of a message\<close>

lemma launch_all_settles:
  "launch_all launch now ms db = (ss, db') \<Longrightarrow>
     length ss = length ms \<and> acked ms ss = image_mset dl_body (filter_mset (\<lambda>m. launch (dl_body m)) (mset ms))"
  by (induction launch now ms db arbitrary: ss db' rule: launch_all.induct) (auto simp: acked_def split: if_splits prod.splits)

lemma consume_extraction_settles:
  assumes "consume_extraction la now ms db = (ss, err, db')"
  shows "err = None" "unsettled ms ss = {#}"
    "\<And>b. b \<in># acked ms ss \<Longrightarrow> la_archiveExtractorAvailable la \<and> \<not> isl (la_launchArchiveExtractor la b)"
proof -
  have "err = None \<and> length ss = length ms \<and>
      (\<forall>b \<in># acked ms ss. la_archiveExtractorAvailable la \<and> \<not> isl (la_launchArchiveExtractor la b))"
  proof (cases "la_archiveExtractorAvailable la")
    case True
    then show ?thesis
      using assms launch_all_settles[of "\<lambda>m. \<not> isl (la_launchArchiveExtractor la m)" now ms db]
      by (auto simp: consume_extraction_def handleQueue_def split: prod.splits)
  next
    case False
    then show ?thesis using assms
      by (auto simp: consume_extraction_def handleQueue_def acked_def map_replicate_const zip_replicate2 o_def)
  qed
  then show "err = None" "unsettled ms ss = {#}"
    "\<And>b. b \<in># acked ms ss \<Longrightarrow> la_archiveExtractorAvailable la \<and> \<not> isl (la_launchArchiveExtractor la b)"
    by (auto simp: unsettled_def)
qed

lemma consume_thumbnails_settles:
  assumes "consume_thumbnails cd fs la ms st = (ss, err, st')"
  shows "err = None" "unsettled ms ss = {#}"
    "\<And>b. b \<in># acked ms ss \<Longrightarrow> \<exists>s. \<not> isl (fst (processMessage cd fs (la_thumbnails la) b s))"
proof -
  have "handleThumbnailQueue cd fs (la_thumbnails la) ms st = (ss, st'') \<Longrightarrow> length ss = length ms \<and>
      (\<forall>b \<in># acked ms ss. \<exists>s. \<not> isl (fst (processMessage cd fs (la_thumbnails la) b s)))" for st''
  proof (induction cd fs "la_thumbnails la" ms st arbitrary: ss st'' rule: handleThumbnailQueue.induct)
    case (2 cd fs m ms st)
    obtain r st1 where p: "processMessage cd fs (la_thumbnails la) (dl_body m) st = (r, st1)" by (rule prod.exhaust)
    obtain ss1 st2 where h: "handleThumbnailQueue cd fs (la_thumbnails la) ms st1 = (ss1, st2)" by (rule prod.exhaust)
    have "\<not> isl r \<Longrightarrow> \<exists>s. \<not> isl (fst (processMessage cd fs (la_thumbnails la) (dl_body m) s))" using p by (metis fst_conv)
    then show ?case using 2(1)[OF p[symmetric] h] 2(2) p h by (cases r) (auto simp: acked_def simp del: split_paired_Ex)
  qed (simp add: acked_def)
  then have all: "err = None \<and> length ss = length ms \<and>
      (\<forall>b \<in># acked ms ss. \<exists>s. \<not> isl (fst (processMessage cd fs (la_thumbnails la) b s)))"
    using assms by (auto simp: consume_thumbnails_def split: prod.splits)
  then show "err = None" "unsettled ms ss = {#}"
    "\<And>b. b \<in># acked ms ss \<Longrightarrow> \<exists>s. \<not> isl (fst (processMessage cd fs (la_thumbnails la) b s))"
    by (auto simp: unsettled_def)
qed

definition outbox_ok :: "string \<Rightarrow> 'b sql_queue \<Rightarrow> bool" where
  "outbox_ok queue q \<longleftrightarrow> sq_ok q \<and> sq_pending q = []"

lemma send_kept:
  "sq_ok q \<Longrightarrow> kept queue (sq_send queue now m d q) = add_mset m (kept queue q)"
  "sq_ok q \<Longrightarrow> sq_ok (sq_send queue now m d q)" "sq_pending (sq_send queue now m d q) = sq_pending q"
  using sql_jobs.send_queued[of q queue now m d] sql_jobs.send_dead[of queue now m d q] sql_jobs.send_invar[of q queue now m d]
  by (simp_all add: kept_def sql_queue_port_def) (simp add: sq_send_def)

lemma retrigger_kept:
  "sq_ok (snd st) \<Longrightarrow> sq_pending (snd st) = [] \<Longrightarrow>
   let q = snd (fold (retrigger_one (sql_queue_port queue 5) accepts now) jobs st)
   in kept queue (snd st) \<subseteq># kept queue q \<and> sq_ok q \<and> sq_pending q = []"
proof (induction jobs arbitrary: st)
  case (Cons job jobs)
  let ?st = "retrigger_one (sql_queue_port queue 5) accepts now job st"
  have "kept queue (snd st) \<subseteq># kept queue (snd ?st) \<and> sq_ok (snd ?st) \<and> sq_pending (snd ?st) = []"
    using Cons.prems by (auto simp: retrigger_one_def sql_queue_port_def send_kept Let_def split: prod.split option.split)
  then show ?case using Cons.IH[of ?st] by (auto simp: Let_def intro: subset_mset.order_trans)
qed simp

lemma scheduled_kept:
  assumes "sq_ok q" "sq_pending q = []" "handleScheduled fs cache (Some (sql_queue_port queue 5, accepts)) budget stuck now (db, s, k, q) = (db', s', k', q')"
  shows "kept queue q \<subseteq># kept queue q'" "sq_ok q'" "sq_pending q' = []"
proof -
  obtain dbx jobs where r: "fold (retrigger_one (sql_queue_port queue 5) accepts now) jobs (dbx, q) = (db', q')"
    using assms(3) by (auto simp: handleScheduled_def retriggerPendingJobs_def Let_def split: prod.splits)
  show "kept queue q \<subseteq># kept queue q'" "sq_ok q'" "sq_pending q' = []"
    using retrigger_kept[of "(dbx, q)" queue accepts now jobs] assms(1,2) r by (simp_all add: Let_def)
qed

lemma drain_fate:
  assumes "outbox_ok queue q" and "drain queue now consume (q, st) = (r, q', st')"
    and settles: "\<And>ms ss err st2. consume ms st = (ss, err, st2) \<Longrightarrow> err = None \<and> unsettled ms ss = {#} \<and> (\<forall>b \<in># acked ms ss. P b)"
  shows "\<exists>done'. kept queue q = kept queue q' + done' \<and> (\<forall>b \<in># done'. P b)" "outbox_ok queue q'" "\<not> isl r"
proof -
  obtain ms q1 where m: "sq_receive queue now BATCH_SIZE q = (ms, q1)" by (rule prod.exhaust)
  obtain ss err st1 where c: "consume ms st = (ss, err, st1)" by (metis prod.exhaust)
  have "kept queue q = kept queue q' + acked ms ss + unsettled ms ss \<and> sq_ok q' \<and> sq_pending q' = []"
    using drain_accounts[OF _ _ assms(2) m c] assms(1) by (simp add: outbox_ok_def)
  then show "\<exists>done'. kept queue q = kept queue q' + done' \<and> (\<forall>b \<in># done'. P b)" "outbox_ok queue q'"
    using settles[OF c] by (auto simp: outbox_ok_def)
  show "\<not> isl r" using assms(2) settles[OF c] m c by (auto simp: drain_def split: if_splits)
qed

lemma runCron_fate:
  assumes ok: "outbox_ok ''extraction'' (ns_extraction st)" "outbox_ok ''thumbnail'' (ns_thumbnail st)"
    and run: "runCron fs la codec now st = (r, st')"
  shows "\<exists>launched. kept ''extraction'' (ns_extraction st) \<subseteq># kept ''extraction'' (ns_extraction st') + launched
       \<and> (\<forall>m \<in># launched. la_archiveExtractorAvailable la \<and> \<not> isl (la_launchArchiveExtractor la m))"
    "\<exists>stored. kept ''thumbnail'' (ns_thumbnail st) = kept ''thumbnail'' (ns_thumbnail st') + stored
       \<and> (\<forall>m \<in># stored. \<exists>cd s. codec = Some cd \<and> \<not> isl (fst (processMessage cd fs (la_thumbnails la) m s)))"
    "outbox_ok ''extraction'' (ns_extraction st')" "outbox_ok ''thumbnail'' (ns_thumbnail st')" "\<not> isl r"
proof -
  obtain db1 s1 k1 q1 where h: "handleScheduled fs (Some sql_port) (Some (sql_queue_port ''extraction'' 5, \<lambda>_. True))
      CLEANUP_SUBREQUEST_BUDGET STUCK_THRESHOLD_MS now (ns_db st, ns_storage st, ns_kv st, ns_extraction st) = (db1, s1, k1, q1)"
    by (metis prod.exhaust)
  obtain e q2 db2 where d: "drain ''extraction'' now (consume_extraction la now) (q1, db1) = (e, q2, db2)" by (metis prod.exhaust)
  have q1: "kept ''extraction'' (ns_extraction st) \<subseteq># kept ''extraction'' q1" "outbox_ok ''extraction'' q1"
    using scheduled_kept[OF _ _ h] ok(1) by (simp_all add: outbox_ok_def)
  have settles: "err = None \<and> unsettled ms ss = {#} \<and>
      (\<forall>b \<in># acked ms ss. la_archiveExtractorAvailable la \<and> \<not> isl (la_launchArchiveExtractor la b))"
    if "consume_extraction la now ms db1 = (ss, err, st2)" for ms ss err st2
    using consume_extraction_settles[OF that] by blast
  have q2': "\<exists>launched. kept ''extraction'' q1 = kept ''extraction'' q2 + launched
       \<and> (\<forall>m \<in># launched. la_archiveExtractorAvailable la \<and> \<not> isl (la_launchArchiveExtractor la m))"
    by (rule drain_fate(1)[OF q1(2) d]) (rule settles)
  have q2_ok: "outbox_ok ''extraction'' q2" by (rule drain_fate(2)[OF q1(2) d]) (rule settles)
  have "\<not> isl e" by (rule drain_fate(3)[OF q1(2) d]) (rule settles)
  then obtain n where n: "e = Inr n" by (cases e) auto
  obtain t t2 s2 c2 where t: "drain_thumbnails fs la codec now (ns_thumbnail st, s1, ns_containers st) = (t, t2, s2, c2)"
    by (metis prod.exhaust)
  have t': "(\<exists>stored. kept ''thumbnail'' (ns_thumbnail st) = kept ''thumbnail'' t2 + stored
       \<and> (\<forall>m \<in># stored. \<exists>cd s. codec = Some cd \<and> \<not> isl (fst (processMessage cd fs (la_thumbnails la) m s))))
       \<and> outbox_ok ''thumbnail'' t2 \<and> \<not> isl t"
  proof (cases codec)
    case None
    then show ?thesis using t ok(2) by (auto simp: drain_thumbnails_def)
  next
    case (Some cd)
    then have d2: "drain ''thumbnail'' now (consume_thumbnails cd fs la) (ns_thumbnail st, s1, ns_containers st) = (t, t2, s2, c2)"
      using t by (simp add: drain_thumbnails_def)
    have stored: "err = None \<and> unsettled ms ss = {#} \<and>
        (\<forall>b \<in># acked ms ss. \<exists>s. \<not> isl (fst (processMessage cd fs (la_thumbnails la) b s)))"
      if "consume_thumbnails cd fs la ms (s1, ns_containers st) = (ss, err, st2)" for ms ss err st2
      using consume_thumbnails_settles[OF that] by blast
    have "\<exists>done'. kept ''thumbnail'' (ns_thumbnail st) = kept ''thumbnail'' t2 + done'
        \<and> (\<forall>b \<in># done'. \<exists>s. \<not> isl (fst (processMessage cd fs (la_thumbnails la) b s)))"
      by (rule drain_fate(1)[OF ok(2) d2]) (rule stored)
    moreover have "outbox_ok ''thumbnail'' t2" by (rule drain_fate(2)[OF ok(2) d2]) (rule stored)
    moreover have "\<not> isl t" by (rule drain_fate(3)[OF ok(2) d2]) (rule stored)
    ultimately show ?thesis using Some by simp
  qed
  then obtain n' where n': "t = Inr n'" by (cases t) auto
  obtain swept k2 where k: "sql_sweep_expired now k1 = (swept, k2)" by (rule prod.exhaust)
  have res: "ns_extraction st' = q2" "ns_thumbnail st' = t2" "\<not> isl r"
    using run by (auto simp: runCron_def h d n t n' k Let_def)
  show "\<exists>launched. kept ''extraction'' (ns_extraction st) \<subseteq># kept ''extraction'' (ns_extraction st') + launched
       \<and> (\<forall>m \<in># launched. la_archiveExtractorAvailable la \<and> \<not> isl (la_launchArchiveExtractor la m))"
    using q1(1) q2' res(1) by auto
  show "\<exists>stored. kept ''thumbnail'' (ns_thumbnail st) = kept ''thumbnail'' (ns_thumbnail st') + stored
       \<and> (\<forall>m \<in># stored. \<exists>cd s. codec = Some cd \<and> \<not> isl (fst (processMessage cd fs (la_thumbnails la) m s)))"
    "outbox_ok ''extraction'' (ns_extraction st')" "outbox_ok ''thumbnail'' (ns_thumbnail st')" "\<not> isl r"
    using t' q2_ok res by simp_all
qed

definition cron_ticks ::
  "'s file_storage \<Rightarrow> 'c container_launcher \<Rightarrow> 'i codec option \<Rightarrow> int list \<Rightarrow> ('s, 'c) node_state \<Rightarrow> ('s, 'c) node_state" where
  "cron_ticks fs la codec moments st = fold (\<lambda>now st. snd (runCron fs la codec now st)) moments st"

lemma ticks_fate:
  "outbox_ok ''extraction'' (ns_extraction st) \<Longrightarrow> outbox_ok ''thumbnail'' (ns_thumbnail st) \<Longrightarrow>
   (\<exists>launched. kept ''extraction'' (ns_extraction st) \<subseteq># kept ''extraction'' (ns_extraction (cron_ticks fs la codec moments st)) + launched
       \<and> (\<forall>m \<in># launched. la_archiveExtractorAvailable la \<and> \<not> isl (la_launchArchiveExtractor la m))) \<and>
   (\<exists>stored. kept ''thumbnail'' (ns_thumbnail st) = kept ''thumbnail'' (ns_thumbnail (cron_ticks fs la codec moments st)) + stored
       \<and> (\<forall>m \<in># stored. \<exists>cd s. codec = Some cd \<and> \<not> isl (fst (processMessage cd fs (la_thumbnails la) m s))))"
proof (induction moments arbitrary: st)
  case Nil
  show ?case by (intro conjI exI[of _ "{#}"]) (simp_all add: cron_ticks_def)
next
  case (Cons now moments)
  obtain r st' where run: "runCron fs la codec now st = (r, st')" by (rule prod.exhaust)
  note fate = runCron_fate[OF Cons.prems run]
  obtain l1 s1 where one: "kept ''extraction'' (ns_extraction st) \<subseteq># kept ''extraction'' (ns_extraction st') + l1"
    "\<forall>m \<in># l1. la_archiveExtractorAvailable la \<and> \<not> isl (la_launchArchiveExtractor la m)"
    "kept ''thumbnail'' (ns_thumbnail st) = kept ''thumbnail'' (ns_thumbnail st') + s1"
    "\<forall>m \<in># s1. \<exists>cd s. codec = Some cd \<and> \<not> isl (fst (processMessage cd fs (la_thumbnails la) m s))"
    using fate(1,2) by blast
  obtain l2 s2 where rest: "kept ''extraction'' (ns_extraction st') \<subseteq># kept ''extraction'' (ns_extraction (cron_ticks fs la codec moments st')) + l2"
    "\<forall>m \<in># l2. la_archiveExtractorAvailable la \<and> \<not> isl (la_launchArchiveExtractor la m)"
    "kept ''thumbnail'' (ns_thumbnail st') = kept ''thumbnail'' (ns_thumbnail (cron_ticks fs la codec moments st')) + s2"
    "\<forall>m \<in># s2. \<exists>cd s. codec = Some cd \<and> \<not> isl (fst (processMessage cd fs (la_thumbnails la) m s))"
    using Cons.IH[OF fate(3,4)] by blast
  have ticks: "cron_ticks fs la codec (now # moments) st = cron_ticks fs la codec moments st'" by (simp add: cron_ticks_def run)
  have "kept ''extraction'' (ns_extraction st) \<subseteq># kept ''extraction'' (ns_extraction (cron_ticks fs la codec moments st')) + (l2 + l1)"
    using subset_mset.order_trans[OF one(1) subset_mset.add_right_mono[OF rest(1)]] by (simp add: add.assoc)
  moreover have "kept ''thumbnail'' (ns_thumbnail st) = kept ''thumbnail'' (ns_thumbnail (cron_ticks fs la codec moments st')) + (s2 + s1)"
    using one(3) rest(3) by (simp add: add.assoc)
  ultimately show ?case unfolding ticks using one(2,4) rest(2,4) by (metis union_iff)
qed


definition demo_runtime :: "(memory_storage, unit) node_state" where
  "demo_runtime = \<lparr>ns_db = stuck_database, ns_storage = gif_store, ns_kv = [],
     ns_extraction = sq_send ''extraction'' 0 launch_message 0 sq_empty, ns_thumbnail = sq_send ''thumbnail'' 0 gif_message 0 sq_empty,
     ns_containers = ()\<rparr>"

lemma demo_runtime_ok:
  "outbox_ok ''extraction'' (ns_extraction demo_runtime)" "outbox_ok ''thumbnail'' (ns_thumbnail demo_runtime)"
  "kept ''extraction'' (ns_extraction demo_runtime) = {#launch_message#}"
  by (simp_all add: outbox_ok_def demo_runtime_def sq_send_def sq_empty_def sq_ok_def sq_insert_def kept_def sq_queued_def)


text \<open>
  Without a launcher the delivery still counts: the fifth retry of a message puts it among the dead.
\<close>

lemma settle_retried_dead:
  "sq_dead (settle_all queue 5 now ms (replicate (length ms) (Retried d)) q) =
     sq_dead q @ map dl_body (filter (\<lambda>m. 5 \<le> dl_attempts m) ms)"
  by (induction ms arbitrary: q) (simp_all add: sq_retry_def)

lemma unavailable_burns_budget:
  assumes "sq_receive ''extraction'' now BATCH_SIZE q = (ms, q1)"
    and "drain ''extraction'' now (consume_extraction UnavailableContainerLauncher now) (q, db) = (r, q', db')"
  shows "sq_dead q' = sq_dead q @ map dl_body (filter (\<lambda>m. 5 \<le> dl_attempts m) ms)"
proof -
  have "sq_dead q1 = sq_dead q" using assms(1) by (auto simp: sq_receive_def Let_def)
  moreover have "sq_dead (sq_flush x) = sq_dead x" for x :: "extraction_message sql_queue" by (simp add: sq_flush_def)
  ultimately show ?thesis using assms
    by (auto simp: drain_def consume_extraction_def handleQueue_def UnavailableContainerLauncher_def map_replicate_const
        settle_retried_dead split: if_splits)
qed

section \<open>The containers of the Worker\<close>

definition EXTRACTOR_MAX_LIFETIME_MS :: int where "EXTRACTOR_MAX_LIFETIME_MS = 24 * 60 * 60 * 1000"

record extractor_container =
  ec_running :: bool
  ec_envVars :: "(string \<times> string) list"
  ec_extractionStartedAt :: int

datatype expiry_action = Renewed | Stopped | Ignored

definition startExtraction ::
  "int \<Rightarrow> string + unit \<Rightarrow> (string \<times> string) list \<Rightarrow> extractor_container \<Rightarrow> string \<times> extractor_container" where
  \<comment> \<open>the clock, the outcome of \<open>start()\<close>\<close>
  "startExtraction now outcome envVars c =
     (let c' = c\<lparr>ec_envVars := envVars, ec_extractionStartedAt := now\<rparr>
      in case outcome of Inr _ \<Rightarrow> (''started'', c'\<lparr>ec_running := True\<rparr>) | Inl msg \<Rightarrow> (''error: '' @ msg, c'))"

definition onActivityExpired :: "int \<Rightarrow> bool option \<Rightarrow> extractor_container \<Rightarrow> expiry_action \<times> extractor_container" where
  \<comment> \<open>\<open>res.ok\<close> of the health probe, \<open>None\<close> where it throws\<close>
  "onActivityExpired now health c =
     (if \<not> ec_running c then (Ignored, c)
      else let expired = ec_extractionStartedAt c > 0 \<and> now - ec_extractionStartedAt c > EXTRACTOR_MAX_LIFETIME_MS
           in if \<not> expired \<and> health = Some True then (Renewed, c) else (Stopped, c\<lparr>ec_running := False\<rparr>))"

record object_store_credentials =
  os_endpoint :: string
  os_accessKeyId :: string
  os_secretAccessKey :: string
  os_bucket :: string

definition objectStoreEnv :: "object_store_credentials \<Rightarrow> (string \<times> string) list" where
  "objectStoreEnv os =
     [(''OBJECT_STORE_ENDPOINT'', os_endpoint os), (''OBJECT_STORE_ACCESS_KEY_ID'', os_accessKeyId os),
      (''OBJECT_STORE_SECRET_ACCESS_KEY'', os_secretAccessKey os), (''OBJECT_STORE_BUCKET'', os_bucket os),
      (''R2_ENDPOINT'', os_endpoint os), (''R2_ACCESS_KEY_ID'', os_accessKeyId os),
      (''R2_SECRET_ACCESS_KEY'', os_secretAccessKey os), (''R2_BUCKET'', os_bucket os)]"

fun archive_format_name :: "archive_format \<Rightarrow> string" where
  "archive_format_name Zip = ''zip''"
| "archive_format_name Tar = ''tar''"
| "archive_format_name TarGz = ''tar.gz''"
| "archive_format_name TarBz2 = ''tar.bz2''"

definition archiveExtractorEnv :: "extraction_message \<Rightarrow> (string \<times> string) list" where
  "archiveExtractorEnv params =
     [(''JOB_ID'', em_jobId params), (''ASSET_ID'', em_assetId params)] @
     (if truthy (em_versionId params) then [(''VERSION_ID'', the (em_versionId params))] else []) @
     [(''ARCHIVE_KEY'', em_archiveKey params), (''ARCHIVE_FILENAME'', em_archiveFilename params),
      (''ARCHIVE_FORMAT'', archive_format_name (em_archiveFormat params))]"

record launcher_config =
  lc_archiveExtractor :: bool
  lc_thumbnailGenerator :: bool
    \<comment> \<open>are the namespaces bound\<close>
  lc_baseUrl :: string
  lc_objectStore :: "object_store_credentials option"
  lc_internalApiSecret :: "string option"

type_synonym 'd durable_objects = "string \<Rightarrow> (string \<times> string) list \<Rightarrow> 'd \<Rightarrow> string \<times> 'd"
  \<comment> \<open>\<open>startExtraction\<close> on the instance of a name\<close>

definition archiveExtractorAvailable :: "launcher_config \<Rightarrow> bool" where
  "archiveExtractorAvailable lc \<longleftrightarrow> lc_archiveExtractor lc \<and> lc_objectStore lc \<noteq> None \<and> truthy (lc_internalApiSecret lc)"

definition extractor_env :: "launcher_config \<Rightarrow> extraction_message \<Rightarrow> (string \<times> string) list" where
  "extractor_env lc params =
     objectStoreEnv (the (lc_objectStore lc)) @ archiveExtractorEnv params @
     [(''WORKER_API_URL'', lc_baseUrl lc), (''INTERNAL_API_SECRET'', the (lc_internalApiSecret lc))]"

definition launchArchiveExtractor ::
  "launcher_config \<Rightarrow> 'd durable_objects \<Rightarrow> extraction_message \<Rightarrow> 'd \<Rightarrow> (string + unit) \<times> 'd" where
  "launchArchiveExtractor lc start params d =
     (if \<not> lc_archiveExtractor lc \<or> lc_objectStore lc = None \<or> \<not> truthy (lc_internalApiSecret lc)
      then (Inl ''archive extractor container is not configured'', d)
      else (case start (em_jobId params) (extractor_env lc params) d of
              (result, d') \<Rightarrow>
                (if result \<noteq> ''started'' then Inl (''extractor container failed to start: '' @ result) else Inr (), d')))"

record thumbnail_response =
  tr_status :: nat
  tr_body :: "string option"
    \<comment> \<open>\<open>None\<close>: reading it fails\<close>

definition launcher_generateThumbnails ::
  "launcher_config \<Rightarrow> (string \<Rightarrow> (string \<times> string) list \<Rightarrow> thumbnail_job \<Rightarrow> 'd \<Rightarrow> thumbnail_response \<times> 'd) \<Rightarrow> thumbnail_job \<Rightarrow> 'd
   \<Rightarrow> (string + unit) \<times> 'd" where
  \<comment> \<open>the request carries the job with an empty version where there is none\<close>
  "launcher_generateThumbnails lc generate job d =
     (if \<not> lc_thumbnailGenerator lc then (Inl ''THUMBNAIL_GENERATOR binding is not configured'', d)
      else if lc_objectStore lc = None then (Inl ''R2 S3 credentials are not configured'', d)
      else let idName = (if truthy (tj_versionId job) then tj_assetId job @ '':'' @ the (tj_versionId job) else tj_assetId job)
           in case generate idName (objectStoreEnv (the (lc_objectStore lc)))
                     (job\<lparr>tj_versionId := Some (case tj_versionId job of None \<Rightarrow> [] | Some v \<Rightarrow> v)\<rparr>) d of
                (res, d') \<Rightarrow>
                  (if 200 \<le> tr_status res \<and> tr_status res < 300 then Inr ()
                   else Inl (''container returned '' @ show_nat (tr_status res) @ '': '' @
                             (case tr_body res of None \<Rightarrow> [] | Some t \<Rightarrow> t)), d'))"

definition cloudflare_thumbnails ::
  "launcher_config \<Rightarrow> (string \<Rightarrow> (string \<times> string) list \<Rightarrow> thumbnail_job \<Rightarrow> 'd \<Rightarrow> thumbnail_response \<times> 'd) \<Rightarrow> 'd thumbnail_containers" where
  "cloudflare_thumbnails lc generate =
     \<lparr>tc_available = (lc_thumbnailGenerator lc \<and> lc_objectStore lc \<noteq> None), tc_generate = launcher_generateThumbnails lc generate\<rparr>"

lemma available_is_configured:
  "fst (launchArchiveExtractor lc start params d) = Inl ''archive extractor container is not configured'' \<Longrightarrow>
   \<not> archiveExtractorAvailable lc"
  by (auto simp: launchArchiveExtractor_def archiveExtractorAvailable_def split: if_splits prod.splits)

text \<open>
  A container that was launched knows the secret of the internal API, and a report that carries it
  is let in.
\<close>

lemma launched_container_can_report:
  assumes "archiveExtractorAvailable lc" and "lc_internalApiSecret lc = Some secret"
    and "\<not> is_space (hd secret)" and "list_all (\<lambda>c. \<not> line_terminator c) secret"
  shows "map_of (extractor_env lc params) ''INTERNAL_API_SECRET'' = Some secret"
    "internalApiAuth (lc_internalApiSecret lc) (Some (''Bearer '' @ secret)) = None"
proof -
  have ne: "secret \<noteq> []" using assms(1,2) by (auto simp: archiveExtractorAvailable_def truthy_def)
  show "map_of (extractor_env lc params) ''INTERNAL_API_SECRET'' = Some secret"
    using assms(2) by (simp add: extractor_env_def objectStoreEnv_def archiveExtractorEnv_def)
  have "takeWhile is_space (CHR '' '' # secret) = [CHR '' '']" "dropWhile is_space (CHR '' '' # secret) = secret"
    using ne assms(3) by (cases secret; simp add: is_space_def code_unit_def)+
  then show "internalApiAuth (lc_internalApiSecret lc) (Some (''Bearer '' @ secret)) = None"
    using ne assms(2,4) by (simp add: internalApiAuth_def truthy_def bearer_token_def Let_def timingSafeEqual_app_eq)
qed

text \<open>
  A container whose health probe keeps answering is renewed for a day and then stopped: with an
  expiry every five minutes, the 289th stops it. The start time is a field of the object, so an
  object that was rebuilt around a running container has forgotten it and renews for ever.
\<close>

definition expiries :: "int \<Rightarrow> nat \<Rightarrow> extractor_container \<Rightarrow> extractor_container" where
  "expiries start n c = fold (\<lambda>i c. snd (onActivityExpired (start + 300000 * (int i + 1)) (Some True) c)) [0..<n] c"

lemma expiries_running:
  assumes "0 < ec_extractionStartedAt c" and "ec_running c"
  shows "ec_running (expiries (ec_extractionStartedAt c) n c) \<longleftrightarrow> n \<le> 288"
    "ec_extractionStartedAt (expiries (ec_extractionStartedAt c) n c) = ec_extractionStartedAt c"
  using assms by (induction n) (auto simp: expiries_def onActivityExpired_def EXTRACTOR_MAX_LIFETIME_MS_def Let_def)

lemma ceiling_lost_on_restart:
  assumes "ec_running c" and "ec_extractionStartedAt c = 0"
  shows "ec_running (expiries start n c)"
proof -
  have "ec_running (expiries start n c) \<and> ec_extractionStartedAt (expiries start n c) = 0"
    using assms by (induction n) (auto simp: expiries_def onActivityExpired_def Let_def)
  then show ?thesis ..
qed

lemma silent_container_stopped:
  "ec_running c \<Longrightarrow> health \<noteq> Some True \<Longrightarrow> \<not> ec_running (snd (onActivityExpired now health c))"
  by (simp add: onActivityExpired_def Let_def)

end
