(* ===== verification/External_Services.thy ===== *)
theory External_Services
  imports Request_Pipeline Upload_Properties
begin

text \<open>
  The adapters that talk to services over HTTP: TXT lookups over DNS-over-HTTPS
  (\<open>adapters/doh/dns.ts\<close>), certificates of custom domains (\<open>adapters/cloudflare/custom-hostnames.ts\<close>,
  \<open>core/site/provisioner.ts\<close>, and the in-memory one) and signed uploads
  (\<open>adapters/cloudflare/presigned.ts\<close>). The services are functions that take a request and return
  the response; the signing of a request (\<open>aws4fetch\<close>) is a function of the request. The lemmas: a
  quoted record is read back as the text that was published, a certificate is active only when the
  service says so of both of its parts, and a signed URL names the one object its key spells.
\<close>

section \<open>TXT records over HTTPS\<close>

definition TXT :: int where "TXT = 16"

fun string_body :: "string \<Rightarrow> (string \<times> string) option" where
  \<comment> \<open>\<open>(?:[^"\\]|\\.)*"\<close> after the opening quote: the text between the quotes, and what follows\<close>
  "string_body [] = None"
| "string_body (c # s) =
     (if c = CHR 0x22 then Some ([], s)
      else if c = CHR 0x5C
      then (case s of
              [] \<Rightarrow> None
            | d # r \<Rightarrow> if line_terminator d then None else map_option (\<lambda>(b, rest). (c # d # b, rest)) (string_body r))
      else map_option (\<lambda>(b, rest). (c # b, rest)) (string_body s))"

lemma string_body_shorter: "string_body s = Some (b, r) \<Longrightarrow> length r < length s"
proof (induction s arbitrary: b rule: string_body.induct)
  case (2 c s)
  then show ?case by (fastforce split: if_splits list.splits)
qed simp

function quoted_parts :: "string \<Rightarrow> string list" where
  \<comment> \<open>the slices \<open>part.slice(1, -1)\<close> of \<open>data.match(/.../g)\<close>\<close>
  "quoted_parts [] = []"
| "quoted_parts (c # s) =
     (if c = CHR 0x22
      then (case string_body s of None \<Rightarrow> quoted_parts s | Some (b, r) \<Rightarrow> b # quoted_parts r)
      else quoted_parts s)"
  by pat_completeness auto
termination by (relation "measure length") (auto dest: string_body_shorter)

fun unescape :: "string \<Rightarrow> string" where
  \<comment> \<open>\<open>replace(/\\(.)/g, "$1")\<close>\<close>
  "unescape (c # d # s) =
     (if c = CHR 0x5C \<and> \<not> line_terminator d then d # unescape s else c # unescape (d # s))"
| "unescape s = s"

definition unquote :: "string \<Rightarrow> string" where
  "unquote data =
     (let parts = quoted_parts data in if parts = [] then js_trim data else concat (map unescape parts))"

datatype doh_response = NoResponse | Response bool "json option"
  \<comment> \<open>\<open>fetch\<close> throws; \<open>res.ok\<close> and the parsed body, \<open>None\<close> where it is not JSON\<close>

fun txt_answers :: "json list \<Rightarrow> string + string list" where
  "txt_answers [] = Inr []"
| "txt_answers (answer # answers) =
     (if answer = JNull then Inl ''TypeError''
      else map_sum id (\<lambda>rest.
             (case (json_field answer ''type'', json_field answer ''data'') of
                (Some (JNum n), Some (JStr d)) \<Rightarrow> if n = TXT then unquote d # rest else rest
              | _ \<Rightarrow> rest)) (txt_answers answers))"

definition lookupTxt :: "(string \<Rightarrow> doh_response) \<Rightarrow> string \<Rightarrow> string + string list" where
  \<comment> \<open>the resolver's answer for a name; \<open>Inl\<close>: the reading of a malformed answer throws\<close>
  "lookupTxt resolver name =
     (case resolver name of
        NoResponse \<Rightarrow> Inr []
      | Response ok body \<Rightarrow>
          if \<not> ok then Inr []
          else (case body of
                  None \<Rightarrow> Inr []
                | Some JNull \<Rightarrow> Inl ''TypeError''
                | Some j \<Rightarrow>
                    (case json_field j ''Answer'' of
                       None \<Rightarrow> Inr []
                     | Some JNull \<Rightarrow> Inr []
                     | Some (JArr answers) \<Rightarrow> txt_answers answers
                     | Some _ \<Rightarrow> Inl ''TypeError'')))"

definition escape_txt :: "string \<Rightarrow> string" where
  \<comment> \<open>how a server writes one character string\<close>
  "escape_txt s = concat (map (\<lambda>c. if c = CHR 0x22 \<or> c = CHR 0x5C then [CHR 0x5C, c] else [c]) s)"

definition quote_txt :: "string \<Rightarrow> string" where
  "quote_txt s = CHR 0x22 # escape_txt s @ [CHR 0x22]"

lemma escape_txt_simps [simp]:
  "escape_txt [] = []"
  "escape_txt (c # s) = (if c = CHR 0x22 \<or> c = CHR 0x5C then CHR 0x5C # c # escape_txt s else c # escape_txt s)"
  by (simp_all add: escape_txt_def)

lemma string_body_escaped: "string_body (escape_txt s @ CHR 0x22 # r) = Some (escape_txt s, r)"
  by (induction s) (simp_all add: line_terminator_def code_unit_def)

lemma unescape_escaped: "unescape (escape_txt s) = s"
proof (induction s)
  case (Cons c s)
  have plain: "unescape (c # t) = c # unescape t" if "c \<noteq> CHR 0x5C" for t
    using that by (cases t) simp_all
  show ?case using Cons by (simp add: plain line_terminator_def code_unit_def)
qed simp

lemma quoted_parts_quote: "quoted_parts (quote_txt s @ r) = escape_txt s # quoted_parts r"
  using string_body_escaped[of s r] by (simp add: quote_txt_def)

lemma quoted_parts_all: "quoted_parts (join_with '' '' (map quote_txt ss)) = map escape_txt ss"
proof (induction "'' ''" "map quote_txt ss" arbitrary: ss rule: join_with.induct)
  case (2 w)
  then obtain s where "ss = [s]" "w = quote_txt s" by auto
  then show ?case using quoted_parts_quote[of s "[]"] by simp
next
  case (3 w v ws)
  then obtain s t ts where ss: "ss = s # t # ts" by (metis list.simps(9) map_eq_Cons_D)
  have "quoted_parts (join_with '' '' (map quote_txt (t # ts))) = map escape_txt (t # ts)"
    using 3(1)[of "t # ts"] 3(2) ss by simp
  then show ?case using quoted_parts_quote[of s "CHR '' '' # join_with '' '' (map quote_txt (t # ts))"] by (simp add: ss)
qed simp

text \<open>
  A TXT record published as any number of quoted character strings is read as the text they
  spell together, whatever quotes and backslashes it has: the split a server makes every 255 bytes
  does not change it.
\<close>

lemma unquote_quoted:
  assumes "ss \<noteq> []"
  shows "unquote (join_with '' '' (map quote_txt ss)) = concat ss"
  using assms by (simp add: unquote_def Let_def quoted_parts_all unescape_escaped o_def)

text \<open>A resolver that does not answer publishes nothing; one that answers \<open>null\<close> takes the request down.\<close>

lemma silent_resolver: "resolver name = NoResponse \<or> (\<exists>b. resolver name = Response False b) \<Longrightarrow> lookupTxt resolver name = Inr []"
  by (auto simp: lookupTxt_def)

lemma null_answer_throws: "lookupTxt (\<lambda>_. Response True (Some JNull)) name = Inl ''TypeError''"
  by (simp add: lookupTxt_def)

lemma txt_answers_only_txt:
  "txt_answers answers = Inr rs \<Longrightarrow> r \<in> set rs \<Longrightarrow>
   \<exists>a \<in> set answers. \<exists>d. json_field a ''type'' = Some (JNum TXT) \<and> json_field a ''data'' = Some (JStr d) \<and> r = unquote d"
proof (induction answers arbitrary: rs)
  case (Cons a answers)
  then obtain rest where rest: "txt_answers answers = Inr rest" "a \<noteq> JNull"
    by (cases "txt_answers answers") (auto split: if_splits)
  from Cons.prems rest Cons.IH[OF rest(1)] show ?case
    by (auto split: if_splits option.splits json.splits)
qed simp

section \<open>Certificates of custom domains\<close>

datatype certificate_status = CertPending | CertActive

record hostname_state =
  hs_status :: certificate_status
  hs_instructions :: "string option"

record 'c certificate_provider =
  cp_provision :: "string \<Rightarrow> 'c \<Rightarrow> (string + hostname_state) \<times> 'c"
  cp_status :: "string \<Rightarrow> 'c \<Rightarrow> (string + hostname_state) \<times> 'c"
  cp_deprovision :: "string \<Rightarrow> 'c \<Rightarrow> (string + unit) \<times> 'c"

definition noop_state :: "string \<Rightarrow> string \<Rightarrow> hostname_state" where
  "noop_state target hostname =
     \<lparr>hs_status = CertActive,
      hs_instructions = Some (''Point a CNAME record for '' @ hostname @ '' at '' @ target @ ''. '' @
        ''This deployment does not issue certificates; TLS for the hostname is '' @ ''terminated by the operator.'')\<rparr>"

definition NoopProvisioner :: "string \<Rightarrow> 'c certificate_provider" where
  \<comment> \<open>the target of the customer's CNAME\<close>
  "NoopProvisioner target =
     \<lparr>cp_provision = (\<lambda>hostname c. (Inr (noop_state target hostname), c)),
      cp_status = (\<lambda>hostname c. (Inr (noop_state target hostname), c)),
      cp_deprovision = (\<lambda>_ c. (Inr (), c))\<rparr>"

record memory_hostnames =
  mh_provisioned :: "string list"
  mh_deprovisioned :: "string list"
  mh_statuses :: "(string \<times> certificate_status) list"
  mh_failure :: "string option"
  mh_default :: certificate_status

definition mh_state :: "string \<Rightarrow> memory_hostnames \<Rightarrow> hostname_state" where
  "mh_state hostname m =
     (let status = (case map_of (mh_statuses m) hostname of Some s \<Rightarrow> s | None \<Rightarrow> mh_default m)
      in \<lparr>hs_status = status, hs_instructions = (if status = CertActive then None else Some (hostname @ '' is still being issued''))\<rparr>)"

definition MemoryCustomHostnames :: "memory_hostnames certificate_provider" where
  "MemoryCustomHostnames =
     \<lparr>cp_provision = (\<lambda>hostname m. case mh_failure m of
         Some e \<Rightarrow> (Inl e, m)
       | None \<Rightarrow> (Inr (mh_state hostname m), m\<lparr>mh_provisioned := mh_provisioned m @ [hostname]\<rparr>)),
      cp_status = (\<lambda>hostname m. case mh_failure m of Some e \<Rightarrow> (Inl e, m) | None \<Rightarrow> (Inr (mh_state hostname m), m)),
      cp_deprovision = (\<lambda>hostname m. case mh_failure m of
         Some e \<Rightarrow> (Inl e, m)
       | None \<Rightarrow> (Inr (), m\<lparr>mh_deprovisioned := mh_deprovisioned m @ [hostname],
                             mh_statuses := own_delete (mh_statuses m) hostname\<rparr>))\<rparr>"

record custom_hostname =
  ch_id :: "string option"
  ch_hostname :: "string option"
  ch_status :: "string option"
  ch_verificationErrors :: "string list option"
  ch_sslStatus :: "string option"
    \<comment> \<open>\<open>ssl?.status\<close>\<close>
  ch_validationErrors :: "string option list option"
    \<comment> \<open>the messages of \<open>ssl?.validation_errors\<close>\<close>

datatype api_call = PostHostname string | GetHostnames string | DeleteHostname string
  \<comment> \<open>the body's host name; the query \<open>?hostname=\<close>; the id in the path\<close>

datatype api_result = OneHostname custom_hostname | Hostnames "custom_hostname list" | NoResult

record api_response =
  ar_ok :: bool
  ar_success :: "bool option"
    \<comment> \<open>\<open>None\<close> also for a body that is not JSON\<close>
  ar_result :: api_result

type_synonym 'c api = "api_call \<Rightarrow> 'c \<Rightarrow> (string + api_response) \<times> 'c"
  \<comment> \<open>\<open>Inl\<close>: the fetch throws\<close>

definition api_request :: "'c api \<Rightarrow> api_call \<Rightarrow> 'c \<Rightarrow> (string + api_result) \<times> 'c" where
  \<comment> \<open>\<open>call\<close>; \<open>NoResult\<close> is \<open>null\<close>\<close>
  "api_request api request c =
     (case api request c of
        (Inl e, c') \<Rightarrow> (Inl e, c')
      | (Inr res, c') \<Rightarrow> (Inr (if \<not> ar_ok res \<or> ar_success res = Some False then NoResult else ar_result res), c'))"

definition find_hostname :: "'c api \<Rightarrow> string \<Rightarrow> 'c \<Rightarrow> (string + custom_hostname option) \<times> 'c" where
  "find_hostname api hostname c =
     (case api_request api (GetHostnames hostname) c of
        (Inl e, c') \<Rightarrow> (Inl e, c')
      | (Inr (Hostnames results), c') \<Rightarrow> (Inr (find (\<lambda>r. ch_hostname r = Some hostname) results), c')
      | (Inr _, c') \<Rightarrow> (Inr None, c'))"

definition pointCname :: "string \<Rightarrow> string" where
  "pointCname hostname =
     ''Certificate issuance for '' @ hostname @ '' has not completed yet. '' @
     ''Make sure the CNAME record is in place; issuance usually finishes within minutes.''"

definition toState :: "custom_hostname \<Rightarrow> hostname_state" where
  "toState r =
     (if ch_status r = Some ''active'' \<and> ch_sslStatus r = Some ''active''
      then \<lparr>hs_status = CertActive, hs_instructions = None\<rparr>
      else let problems = (case ch_verificationErrors r of None \<Rightarrow> [] | Some es \<Rightarrow> es) @
                 map the (filter truthy (case ch_validationErrors r of None \<Rightarrow> [] | Some es \<Rightarrow> es))
           in \<lparr>hs_status = CertPending,
               hs_instructions = Some (if problems \<noteq> [] then join_with ''; '' problems
                 else pointCname (case ch_hostname r of None \<Rightarrow> ''the hostname'' | Some h \<Rightarrow> h))\<rparr>)"

definition cloudflare_status :: "'c api \<Rightarrow> string \<Rightarrow> 'c \<Rightarrow> (string + hostname_state) \<times> 'c" where
  "cloudflare_status api hostname c =
     (case find_hostname api hostname c of
        (Inl e, c') \<Rightarrow> (Inl e, c')
      | (Inr None, c') \<Rightarrow> (Inr \<lparr>hs_status = CertPending, hs_instructions = Some (pointCname hostname)\<rparr>, c')
      | (Inr (Some r), c') \<Rightarrow> (Inr (toState r), c'))"

definition cloudflare_provision :: "'c api \<Rightarrow> string \<Rightarrow> 'c \<Rightarrow> (string + hostname_state) \<times> 'c" where
  "cloudflare_provision api hostname c =
     (case api_request api (PostHostname hostname) c of
        (Inl e, c') \<Rightarrow> (Inl e, c')
      | (Inr (OneHostname created), c') \<Rightarrow> (Inr (toState created), c')
      | (Inr _, c') \<Rightarrow> cloudflare_status api hostname c')"

definition cloudflare_deprovision :: "'c api \<Rightarrow> string \<Rightarrow> 'c \<Rightarrow> (string + unit) \<times> 'c" where
  "cloudflare_deprovision api hostname c =
     (case find_hostname api hostname c of
        (Inl e, c') \<Rightarrow> (Inl e, c')
      | (Inr found, c') \<Rightarrow>
          if found = None \<or> \<not> truthy (ch_id (the found)) then (Inr (), c')
          else (case api_request api (DeleteHostname (the (ch_id (the found)))) c' of
                  (Inl e, c'') \<Rightarrow> (Inl e, c'') | (Inr _, c'') \<Rightarrow> (Inr (), c'')))"

definition CloudflareCustomHostnames :: "'c api \<Rightarrow> 'c certificate_provider" where
  "CloudflareCustomHostnames api =
     \<lparr>cp_provision = cloudflare_provision api, cp_status = cloudflare_status api, cp_deprovision = cloudflare_deprovision api\<rparr>"

text \<open>
  A certificate counts as active only when the service reported both the host name and its
  certificate active; a failing or empty answer is pending.
\<close>

lemma toState_active: "hs_status (toState r) = CertActive \<longleftrightarrow> ch_status r = Some ''active'' \<and> ch_sslStatus r = Some ''active''"
  by (simp add: toState_def Let_def)

lemma found_reported:
  assumes "find_hostname api hostname c = (Inr (Some r), c')"
  shows "\<exists>res results. api (GetHostnames hostname) c = (Inr res, c') \<and> ar_ok res \<and> ar_result res = Hostnames results
    \<and> r \<in> set results \<and> ch_hostname r = Some hostname"
proof -
  obtain res where a: "api (GetHostnames hostname) c = (Inr res, c')" "ar_ok res"
    and f: "(case ar_result res of Hostnames results \<Rightarrow> find (\<lambda>r. ch_hostname r = Some hostname) results | _ \<Rightarrow> None) = Some r"
    using assms by (auto simp: find_hostname_def api_request_def split: prod.splits sum.splits api_result.splits if_splits)
  then obtain results where "ar_result res = Hostnames results" "find (\<lambda>r. ch_hostname r = Some hostname) results = Some r"
    by (cases "ar_result res") auto
  with a show ?thesis by (auto simp: find_Some_iff)
qed

lemma status_active_reported:
  assumes "cloudflare_status api hostname c = (Inr st, c')" and "hs_status st = CertActive"
  shows "\<exists>res results r. api (GetHostnames hostname) c = (Inr res, c') \<and> ar_ok res \<and> ar_result res = Hostnames results \<and> r \<in> set results
    \<and> ch_hostname r = Some hostname \<and> ch_status r = Some ''active'' \<and> ch_sslStatus r = Some ''active''"
proof -
  obtain r where "find_hostname api hostname c = (Inr (Some r), c')" "hs_status (toState r) = CertActive"
    using assms by (auto simp: cloudflare_status_def split: prod.splits sum.splits option.splits)
  then show ?thesis using found_reported toState_active by metis
qed

section \<open>Signed requests to the object store\<close>

record signed_request =
  sr_method :: string
  sr_path :: string
    \<comment> \<open>the path given to \<open>new URL\<close>\<close>
  sr_query :: "(string \<times> string) list"
  sr_headers :: "(string \<times> string) list"
  sr_body :: "string option"

definition object_path :: "string \<Rightarrow> string \<Rightarrow> string" where
  "object_path bucket key = ''/'' @ bucket @ ''/'' @ join_with ''/'' (map encodeURIComponent (split_on (CHR ''/'') key))"

definition encoding_headers :: "string \<Rightarrow> string option \<Rightarrow> (string \<times> string) list" where
  "encoding_headers contentType contentEncoding =
     (''Content-Type'', contentType) # (if truthy contentEncoding then [(''Content-Encoding'', the contentEncoding)] else [])"

definition put_request :: "string \<Rightarrow> string \<Rightarrow> string \<Rightarrow> int \<Rightarrow> string option \<Rightarrow> signed_request" where
  "put_request bucket key contentType expiresInSeconds contentEncoding =
     \<lparr>sr_method = ''PUT'', sr_path = object_path bucket key, sr_query = [(''X-Amz-Expires'', show_int expiresInSeconds)],
      sr_headers = encoding_headers contentType contentEncoding, sr_body = None\<rparr>"

definition part_request :: "string \<Rightarrow> string \<Rightarrow> string \<Rightarrow> int \<Rightarrow> int \<Rightarrow> signed_request" where
  "part_request bucket key uploadId partNumber expiresInSeconds =
     \<lparr>sr_method = ''PUT'', sr_path = object_path bucket key,
      sr_query = [(''partNumber'', show_int partNumber), (''uploadId'', uploadId), (''X-Amz-Expires'', show_int expiresInSeconds)],
      sr_headers = [], sr_body = None\<rparr>"

record store_response =
  sp_ok :: bool
  sp_status :: nat
  sp_text :: string

fun until_close :: "string \<Rightarrow> string option" where
  \<comment> \<open>\<open>(.*?)</UploadId>\<close>: the shortest text before the closing tag, on one line\<close>
  "until_close s =
     (if starts_with ''</UploadId>'' s then Some []
      else (case s of
              [] \<Rightarrow> None
            | c # r \<Rightarrow> if line_terminator c then None else map_option ((#) c) (until_close r)))"

declare until_close.simps [simp del]

fun upload_id_in :: "string \<Rightarrow> string option" where
  \<comment> \<open>\<open>xml.match(/<UploadId>(.+?)<\/UploadId>/)\<close>; the first character is taken whatever follows\<close>
  "upload_id_in [] = None"
| "upload_id_in (c # s) =
     (let here = (if starts_with ''<UploadId>'' (c # s)
                  then (case drop 10 (c # s) of
                          [] \<Rightarrow> None
                        | d # r \<Rightarrow> if line_terminator d then None else map_option ((#) d) (until_close r))
                  else None)
      in if here \<noteq> None then here else upload_id_in s)"

definition r2_createMultipartUpload ::
  "(signed_request \<Rightarrow> 'c \<Rightarrow> store_response \<times> 'c) \<Rightarrow> string \<Rightarrow> string \<Rightarrow> string \<Rightarrow> string option \<Rightarrow> 'c \<Rightarrow> (string + string) \<times> 'c" where
  "r2_createMultipartUpload fetch bucket key contentType contentEncoding c =
     (case fetch \<lparr>sr_method = ''POST'', sr_path = object_path bucket key, sr_query = [(''uploads'', [])],
             sr_headers = encoding_headers contentType contentEncoding, sr_body = None\<rparr> c of
        (res, c') \<Rightarrow>
          ((if \<not> sp_ok res then Inl (''CreateMultipartUpload failed ('' @ show_nat (sp_status res) @ ''): '' @ sp_text res)
            else (case upload_id_in (sp_text res) of
                    None \<Rightarrow> Inl ''Failed to parse UploadId from CreateMultipartUpload response''
                  | Some i \<Rightarrow> Inr i)), c'))"

definition part_xml :: "upload_part \<Rightarrow> string" where
  "part_xml p = ''<Part><PartNumber>'' @ show_int (part_number p) @ ''</PartNumber><ETag>'' @ part_etag p @ ''</ETag></Part>''"

definition complete_body :: "upload_part list \<Rightarrow> string" where
  "complete_body parts =
     ''<CompleteMultipartUpload>'' @ concat (map part_xml (order_asc part_number parts)) @ ''</CompleteMultipartUpload>''"

definition r2_completeMultipartUpload ::
  "(signed_request \<Rightarrow> 'c \<Rightarrow> store_response \<times> 'c) \<Rightarrow> string \<Rightarrow> string \<Rightarrow> string \<Rightarrow> upload_part list \<Rightarrow> 'c \<Rightarrow> (string + unit) \<times> 'c" where
  "r2_completeMultipartUpload fetch bucket key uploadId parts c =
     (case fetch \<lparr>sr_method = ''POST'', sr_path = object_path bucket key, sr_query = [(''uploadId'', uploadId)],
             sr_headers = [(''Content-Type'', ''application/xml'')], sr_body = Some (complete_body parts)\<rparr> c of
        (res, c') \<Rightarrow>
          ((if sp_ok res then Inr ()
            else Inl (''CompleteMultipartUpload failed ('' @ show_nat (sp_status res) @ ''): '' @ sp_text res)), c'))"

definition r2_abortMultipartUpload ::
  "(signed_request \<Rightarrow> 'c \<Rightarrow> store_response \<times> 'c) \<Rightarrow> string \<Rightarrow> string \<Rightarrow> string \<Rightarrow> 'c \<Rightarrow> (string + unit) \<times> 'c" where
  "r2_abortMultipartUpload fetch bucket key uploadId c =
     (case fetch \<lparr>sr_method = ''DELETE'', sr_path = object_path bucket key, sr_query = [(''uploadId'', uploadId)],
             sr_headers = [], sr_body = None\<rparr> c of
        (res, c') \<Rightarrow>
          ((if sp_ok res then Inr ()
            else Inl (''AbortMultipartUpload failed ('' @ show_nat (sp_status res) @ ''): '' @ sp_text res)), c'))"

definition r2_presigned :: "(signed_request \<Rightarrow> string) \<Rightarrow> string \<Rightarrow> (string \<Rightarrow> string \<Rightarrow> string option \<Rightarrow> string) \<Rightarrow> presigned_port" where
  \<comment> \<open>\<open>signer\<close> is \<open>client.sign\<close> with \<open>signQuery\<close>\<close>
  "r2_presigned signer bucket create =
     \<lparr>ps_putUrl = (\<lambda>key contentType expires encoding. signer (put_request bucket key contentType expires encoding)),
      ps_createMultipart = create,
      ps_partUrl = (\<lambda>key uploadId n expires. signer (part_request bucket key uploadId n expires))\<rparr>"

section \<open>What a signed URL names\<close>

text \<open>
  \<open>url_segments\<close> is the path state of the URL parser, for a text without white space, controls
  and characters the parser would encode: the query and fragment are cut off, a backslash counts as
  a slash, and dot segments are resolved. \<open>named_object\<close> is how the object store reads the result.
\<close>

definition single_dot :: "string \<Rightarrow> bool" where
  "single_dot s \<longleftrightarrow> s \<in> {''.'', ''%2e'', ''%2E''}"

definition double_dot :: "string \<Rightarrow> bool" where
  "double_dot s \<longleftrightarrow> s \<in> {''..'', ''.%2e'', ''.%2E'', ''%2e.'', ''%2E.'', ''%2e%2e'', ''%2e%2E'', ''%2E%2e'', ''%2E%2E''}"

fun resolve_dots :: "string list \<Rightarrow> string list \<Rightarrow> string list" where
  \<comment> \<open>the resolved segments so far, the last one first\<close>
  "resolve_dots acc [] = rev acc"
| "resolve_dots acc (s # ss) =
     (if double_dot s then (if ss = [] then rev ([] # drop 1 acc) else resolve_dots (drop 1 acc) ss)
      else if single_dot s then (if ss = [] then rev ([] # acc) else resolve_dots acc ss)
      else resolve_dots (s # acc) ss)"

definition url_segments :: "string \<Rightarrow> string list option" where
  \<comment> \<open>\<open>None\<close>: two slashes begin a host\<close>
  "url_segments t =
     (let path = map (\<lambda>c. if c = CHR 0x5C then CHR ''/'' else c) (takeWhile (\<lambda>c. c \<noteq> CHR ''?'' \<and> c \<noteq> CHR ''#'') t)
      in if \<not> starts_with ''/'' path \<or> starts_with ''//'' path then None
         else Some (resolve_dots [] (split_on (CHR ''/'') (drop 1 path))))"

definition hex_value :: "char \<Rightarrow> nat option" where
  "hex_value c =
     (let n = code_unit c
      in if 48 \<le> n \<and> n \<le> 57 then Some (n - 48)
         else if 65 \<le> n \<and> n \<le> 70 then Some (n - 55)
         else if 97 \<le> n \<and> n \<le> 102 then Some (n - 87) else None)"

fun percent_decode :: "string \<Rightarrow> string" where
  "percent_decode (c # a # b # s) =
     (if c = CHR ''%'' then
        (case (hex_value a, hex_value b) of
           (Some m, Some n) \<Rightarrow> char_of (16 * m + n) # percent_decode s
         | _ \<Rightarrow> c # percent_decode (a # b # s))
      else c # percent_decode (a # b # s))"
| "percent_decode s = s"

definition named_object :: "string \<Rightarrow> (string \<times> string) option" where
  \<comment> \<open>the bucket and the bytes of the key\<close>
  "named_object t =
     (case url_segments t of
        Some (bucket # key) \<Rightarrow> Some (percent_decode bucket, join_with ''/'' (map percent_decode key))
      | _ \<Rightarrow> None)"

lemma percent_decode_plain: "c \<noteq> CHR ''%'' \<Longrightarrow> percent_decode (c # s) = c # percent_decode s"
proof (cases s)
  case (Cons d r)
  then show "c \<noteq> CHR ''%'' \<Longrightarrow> ?thesis" by (cases r) auto
qed simp

lemma hex_value_digit: "n < 16 \<Longrightarrow> hex_value (upper_hex_digit n) = Some n"
  by (simp add: hex_value_def upper_hex_digit_def code_unit_def)

lemma percent_decode_byte: "percent_decode (percent_byte b @ s) = b # percent_decode s"
proof -
  have "code_unit b div 16 < 16" using code_unit_less[of b] by linarith
  moreover have "char_of (16 * (code_unit b div 16) + code_unit b mod 16) = b"
    by (simp add: code_unit_def)
  ultimately show ?thesis by (simp add: percent_byte_def hex_value_digit)
qed

lemma percent_decode_bytes: "percent_decode (concat (map percent_byte bs) @ s) = bs @ percent_decode s"
  by (induction bs) (simp_all add: percent_decode_byte)

lemma uri_unreserved_plain: "uri_unreserved c \<Longrightarrow> c \<noteq> CHR ''%'' \<and> c \<noteq> CHR ''/'' \<and> c \<noteq> CHR ''?'' \<and> c \<noteq> CHR ''#'' \<and> c \<noteq> CHR 0x5C"
  by (auto simp: uri_unreserved_def is_lower_def is_upper_def is_digit_def code_unit_def)

lemma uri_unreserved_ascii: "uri_unreserved c \<Longrightarrow> utf8_char c = [c]"
  by (auto simp: uri_unreserved_def is_lower_def is_upper_def is_digit_def code_unit_def utf8_char_def Let_def)

lemma encode_Cons:
  "encodeURIComponent (c # s) = (if uri_unreserved c then [c] else concat (map percent_byte (utf8_char c))) @ encodeURIComponent s"
  by (simp add: encodeURIComponent_def)

lemma percent_decode_encode: "percent_decode (encodeURIComponent s) = utf8_bytes s"
proof (induction s)
  case Nil
  then show ?case by (simp add: encodeURIComponent_def utf8_bytes_def)
next
  case (Cons c s)
  then show ?case
    by (auto simp: encode_Cons percent_decode_plain uri_unreserved_plain percent_decode_bytes utf8_bytes_def uri_unreserved_ascii)
qed

lemma encode_unreserved: "list_all uri_unreserved s \<Longrightarrow> encodeURIComponent s = s"
  by (induction s) (simp_all add: encode_Cons, simp add: encodeURIComponent_def)

lemma dots_decode:
  "double_dot s \<Longrightarrow> percent_decode s = ''..''" "single_dot s \<Longrightarrow> percent_decode s = ''.''"
proof -
  have dot: "char_of (46 :: nat) = CHR ''.''" by code_simp
  show "double_dot s \<Longrightarrow> percent_decode s = ''..''" "single_dot s \<Longrightarrow> percent_decode s = ''.''"
    by (auto simp: double_dot_def single_dot_def percent_decode_plain hex_value_def code_unit_def dot)
qed

lemma encoded_not_dots:
  assumes "s \<noteq> ''.''" and "s \<noteq> ''..''"
  shows "\<not> single_dot (encodeURIComponent s)" "\<not> double_dot (encodeURIComponent s)"
proof -
  have a: "utf8_bytes ''.'' = ''.''" "utf8_bytes ''..'' = ''..''" by (simp_all add: code_unit_def)
  show "\<not> single_dot (encodeURIComponent s)" "\<not> double_dot (encodeURIComponent s)"
    using dots_decode[of "encodeURIComponent s"] assms a by (metis percent_decode_encode utf8_bytes_inj)+
qed

lemma resolve_no_dots: "\<forall>s \<in> set ss. \<not> single_dot s \<and> \<not> double_dot s \<Longrightarrow> resolve_dots acc ss = rev acc @ ss"
  by (induction ss arbitrary: acc) auto

lemma encoded_chars: "c \<in> set (encodeURIComponent s) \<Longrightarrow> c \<noteq> CHR ''/'' \<and> c \<noteq> CHR ''?'' \<and> c \<noteq> CHR ''#'' \<and> c \<noteq> CHR 0x5C"
  using encodeURIComponent_chars[of c s] uri_unreserved_plain[of c] by auto

lemma set_join_with: "set (join_with sep ws) \<subseteq> set sep \<union> \<Union> (set ` set ws)"
  by (induction sep ws rule: join_with.induct) auto

lemma utf8_bytes_join: "join_with ''/'' (map utf8_bytes ws) = utf8_bytes (join_with ''/'' ws)"
proof -
  have slash: "utf8_bytes (''/'' @ t) = ''/'' @ utf8_bytes t" for t by (simp add: utf8_bytes_def utf8_char_def code_unit_def)
  have "utf8_bytes (s @ t) = utf8_bytes s @ utf8_bytes t" for s t by (simp add: utf8_bytes_def)
  with slash show ?thesis by (induction "''/''" ws rule: join_with.induct) (auto simp: utf8_bytes_def)
qed

definition bucket_ok :: "string \<Rightarrow> bool" where
  "bucket_ok b \<longleftrightarrow> b \<noteq> [] \<and> list_all uri_unreserved b \<and> b \<noteq> ''.'' \<and> b \<noteq> ''..''"

lemma object_path_named:
  assumes "bucket_ok bucket" and "\<forall>s \<in> set (split_on (CHR ''/'') key). s \<noteq> ''.'' \<and> s \<noteq> ''..''"
  shows "named_object (object_path bucket key) = Some (bucket, utf8_bytes key)"
proof -
  define ws where "ws = bucket # map encodeURIComponent (split_on (CHR ''/'') key)"
  have enc: "encodeURIComponent bucket = bucket" "percent_decode bucket = bucket"
  proof -
    show e: "encodeURIComponent bucket = bucket"
      using assms(1) by (simp add: bucket_ok_def encode_unreserved)
    have "is_ascii bucket" using assms(1)
      by (auto simp: bucket_ok_def is_ascii_def list_all_iff uri_unreserved_def is_lower_def is_upper_def is_digit_def code_unit_def)
    then show "percent_decode bucket = bucket" using percent_decode_encode[of bucket] e by simp
  qed
  have path: "object_path bucket key = ''/'' @ join_with ''/'' ws"
    by (simp add: object_path_def ws_def join_with_Cons)
  have ws: "ws = map encodeURIComponent (bucket # split_on (CHR ''/'') key)" by (simp add: ws_def enc(1))
  have clean: "c \<noteq> CHR ''?'' \<and> c \<noteq> CHR ''#'' \<and> c \<noteq> CHR 0x5C" if "c \<in> set (object_path bucket key)" for c
  proof -
    have "c = CHR ''/'' \<or> (\<exists>s. c \<in> set (encodeURIComponent s))"
      using that set_join_with[of "''/''" ws] unfolding path ws by auto
    then show ?thesis using encoded_chars by auto
  qed
  have cut: "takeWhile (\<lambda>c. c \<noteq> CHR ''?'' \<and> c \<noteq> CHR ''#'') (object_path bucket key) = object_path bucket key"
    using clean by (simp add: takeWhile_eq_all_conv)
  have slashes: "map (\<lambda>c. if c = CHR 0x5C then CHR ''/'' else c) (object_path bucket key) = object_path bucket key"
    using clean by (intro map_idI) auto
  obtain b bs where bucket: "bucket = b # bs" using assms(1) by (cases bucket) (auto simp: bucket_ok_def)
  have "b \<noteq> CHR ''/''" using assms(1) uri_unreserved_plain[of b] by (simp add: bucket bucket_ok_def)
  then have host: "starts_with ''/'' (object_path bucket key)" "\<not> starts_with ''//'' (object_path bucket key)"
    by (simp_all add: object_path_def starts_with_def bucket)
  have rest: "drop 1 (object_path bucket key) = join_with ''/'' ws" by (simp add: path)
  have split: "split_on (CHR ''/'') (join_with ''/'' ws) = ws"
  proof (rule split_on_join)
    show "\<forall>w \<in> set ws. CHR ''/'' \<notin> set w" unfolding ws using encoded_chars by auto
  qed (simp add: ws_def)
  have "\<forall>s \<in> set ws. \<not> single_dot s \<and> \<not> double_dot s"
    unfolding ws using encoded_not_dots assms by (auto simp: bucket_ok_def)
  then have "url_segments (object_path bucket key) = Some ws"
    unfolding url_segments_def cut slashes Let_def rest split by (simp add: host resolve_no_dots)
  then show ?thesis
    by (simp add: named_object_def ws_def enc(2) o_def percent_decode_encode utf8_bytes_join join_split_on)
qed

lemma storageKey_segments:
  assumes "isSafeFilename name" and "CHR ''/'' \<notin> set i"
  shows "split_on (CHR ''/'') (storageKey i name) = [''assets'', i, name]"
proof -
  have "CHR ''/'' \<notin> set name" using assms(1) by (auto simp: isSafeFilename_def list_ex_iff)
  then show ?thesis using assms(2) by (simp add: storageKey_def split_on_append_sep split_on_id)
qed

fun urls_of :: "session_reply \<Rightarrow> string list" where
  "urls_of (SinglePut i url headers encoding expires) = [url]"
| "urls_of (Multipart i parts encoding expires) = map snd parts"

text \<open>
  C24: Every URL an upload session hands out is a signed PUT of exactly one object: the one under the
  new asset's own prefix with the file name that was asked for, byte for byte. No name a session is
  created for can reach into another asset or another bucket.
\<close>

theorem upload_urls_name_own_object:
  assumes "bucket_ok bucket" and "isSafeFilename (sq_filename params)"
    and "CHR ''/'' \<notin> set (ae_freshId env)" and "ae_freshId env \<noteq> ''.''" and "ae_freshId env \<noteq> ''..''"
    and "url \<in> set (urls_of (fst (createUploadSession env (r2_presigned signer bucket create) params sessionId projectId skip st)))"
  shows "\<exists>req. url = signer req \<and> sr_method req = ''PUT''
    \<and> named_object (sr_path req) = Some (bucket, utf8_bytes (storageKey (ae_freshId env) (sq_filename params)))"
proof -
  let ?key = "storageKey (ae_freshId env) (sq_filename params)"
  have "\<forall>s \<in> set (split_on (CHR ''/'') ?key). s \<noteq> ''.'' \<and> s \<noteq> ''..''"
    using storageKey_segments[OF assms(2,3)] assms(2,4,5) by (auto simp: isSafeFilename_def)
  note named = object_path_named[OF assms(1) this]
  have "\<exists>req. url = signer req \<and> sr_method req = ''PUT'' \<and> sr_path req = object_path bucket ?key"
    using assms(6)
    by (force simp: createUploadSession_def Let_def r2_presigned_def put_request_def part_request_def
        split: option.splits if_splits)
  then show ?thesis using named by metis
qed

theorem upload_urls_name_own_object_witness:
  "list_all (\<lambda>url. \<exists>req :: signed_request. url = sr_path req \<and> sr_method req = ''PUT'' \<and>
       named_object (sr_path req) = Some (''bucket'', utf8_bytes ''assets/b2/%2e%2e?x''))
     (urls_of (fst (createUploadSession (upload_env Committed) (r2_presigned sr_path ''bucket'' (\<lambda>_ _ _. ''u''))
        \<lparr>sq_filename = ''%2e%2e?x'', sq_contentType = ''text/plain'', sq_size = 10, sq_partCount = Some 2\<rparr> None None False
        (upload_state empty_database))))"
proof -
  have "bucket_ok ''bucket''" "isSafeFilename ''%2e%2e?x''" by code_simp+
  moreover have "ae_freshId (upload_env Committed) = ''b2''" by (simp add: upload_env_def)
  moreover note upload_urls_name_own_object[OF calculation(1), of "\<lparr>sq_filename = ''%2e%2e?x'', sq_contentType = ''text/plain'', sq_size = 10,
      sq_partCount = Some 2\<rparr>" "upload_env Committed" _ sr_path "\<lambda>_ _ _. ''u''" None None False "upload_state empty_database"]
  ultimately show ?thesis unfolding list_all_iff by (auto simp: storageKey_def)
qed

text \<open>
  The parts are sent in ascending order, whatever order the client lists them in; an entity tag is
  written into the document as it is, so one tag can spell a second part.
\<close>

lemma complete_body_order:
  assumes "mset ps = mset qs" and "distinct (map part_number ps)"
  shows "complete_body ps = complete_body qs"
proof -
  have "sort_key part_number ps = sort_key part_number qs"
  proof (rule properties_for_sort_key)
    fix k assume k: "k \<in> set (sort_key part_number qs)"
    have inj: "inj_on part_number (set ps)" using assms(2) by (simp add: distinct_map)
    have filt: "filter (\<lambda>y. part_number k = part_number y) xs = replicate (count (mset xs) k) k" if "mset xs = mset ps" for xs
    proof -
      have xs: "set xs = set ps" using that by (metis set_mset_mset)
      have "k \<in> set ps" using k assms(1) by (metis set_mset_mset mset_sort)
      then have "filter (\<lambda>y. part_number k = part_number y) xs = filter (\<lambda>y. y = k) xs"
        using inj xs by (auto intro!: filter_cong simp: inj_on_def)
      moreover have "filter (\<lambda>y. y = k) xs = replicate (count (mset xs) k) k" by (induction xs) auto
      ultimately show ?thesis by simp
    qed
    show "filter (\<lambda>y. part_number k = part_number y) (sort_key part_number qs) = filter (\<lambda>y. part_number k = part_number y) ps"
      using filt[of "sort_key part_number qs"] filt[of ps] assms(1) by simp
  qed (simp_all add: assms(1))
  then show ?thesis by (simp add: complete_body_def order_asc_def)
qed

lemma etag_spells_part:
  "complete_body [\<lparr>part_number = 1, part_etag = ''a</ETag></Part><Part><PartNumber>2</PartNumber><ETag>b''\<rparr>] =
     complete_body [\<lparr>part_number = 1, part_etag = ''a''\<rparr>, \<lparr>part_number = 2, part_etag = ''b''\<rparr>]"
  by code_simp

end
