(* ===== verification/Spec2Isabelle.thy ===== *)
theory Spec2Isabelle
  imports Serve_Prelude Key_Value Site_Rules Data_Model Base64 Sql_Tables Asset_Store
    Authorization Tenancy Http Rate_Limit Password_Proof Access_Gate
    File_Storage File_Headers File_Delivery Delivery_Properties
    Site_Names Site_Hosts Site_Resolution Site_Api Site_Middleware
    Cleanup Job_Queue Extraction_Jobs
    Asset_Uploads Upload_Properties Asset_Api Api_Properties
    Image_Headers Thumbnails Request_Pipeline Zip_Archive Node_Runtime External_Services
begin

text \<open>
  reearth-serve stores files and unpacked archives and serves them, under a path of the API
  host or under a site name of their own. This development models its TypeScript core. A request
  passes the host middleware, is authorized, and reads or writes four stores: SQL tables, an
  object store, a key-value cache and a job queue. Jobs are run by containers that report back;
  a scheduled run deletes what has expired and recovers what is stuck.

  Every effect is explicit. A database is a record of tables (lists of rows, with the list
  semantics of each statement), an object store, a cache and a queue are values of a type
  parameter behind a record of operations (a port), and the clock, random identifiers, hashes and
  external services are arguments. A handler returns the status and body of its reply with the new
  state. Times and sizes are unbounded integers, as JavaScript numbers below \<open>2^53\<close>; strings are
  lists of characters, so names outside Latin-1 are not covered.

  \<^bold>\<open>Data and stores.\<close> \<open>Serve_Prelude\<close> holds what several theories use: the JavaScript string
  functions (\<open>trim\<close>, \<open>toLowerCase\<close>, \<open>split\<close>), JSON values and the simplification collections.
  \<open>Data_Model\<close> has the models of \<open>core/*/model.ts\<close>. \<open>Base64\<close> and \<open>Sql_Tables\<close> model
  \<open>adapters/sql/helpers.ts\<close> and \<open>tenancy.ts\<close> (rows, cursors, pages), \<open>Asset_Store\<close> models
  \<open>adapters/sql/stores.ts\<close>, \<open>site-hosts.ts\<close> and \<open>writes.ts\<close>; \<open>Key_Value\<close> the two
  key-value stores, \<open>File_Storage\<close> the two object stores, \<open>Job_Queue\<close> the two queues. Shown:
  rows round trip, pages are complete, storage counters are exact, a password version is never
  reused, the in-memory store keeps to its capacity, and no queue loses or doubles a message.

  \<^bold>\<open>Access.\<close> \<open>Authorization\<close> models \<open>core/auth/permissions.ts\<close>, \<open>authorizer.ts\<close> and
  \<open>access.ts\<close>; \<open>Tenancy\<close> the workspace, member and project use cases and handlers;
  \<open>Rate_Limit\<close>, \<open>Password_Proof\<close> and \<open>Access_Gate\<close> the password protection of
  \<open>core/access/\<close>. Shown: nobody outside a tenant learns that a thing exists, roles are not
  escalated, a workspace keeps an owner, guesses are throttled, cookies open what they were
  minted for.

  \<^bold>\<open>Delivery.\<close> \<open>Http\<close> has requests and responses, \<open>Site_Rules\<close> the language of
  \<open>_headers\<close> and \<open>_redirects\<close>, \<open>File_Headers\<close> caching, CORS, disposition and ranges,
  \<open>File_Delivery\<close> the routes of \<open>core/file/handler.ts\<close>; \<open>Delivery_Properties\<close> shows that
  a protected byte needs a proof, is never publicly cacheable, and that nothing uploaded runs on
  the shared origin.

  \<^bold>\<open>Site hosts.\<close> \<open>Site_Names\<close> and \<open>Site_Hosts\<close> model \<open>core/site/names.ts\<close>,
  \<open>custom.ts\<close>, \<open>url.ts\<close>, \<open>isolation.ts\<close>, \<open>resolver.ts\<close> and \<open>usecase.ts\<close>;
  \<open>Site_Api\<close> the routes and \<open>Site_Middleware\<close> the middleware in front of the application.
  \<open>Site_Resolution\<close> runs claims, switches, verifications, releases, purges and visits as
  events over the table and a cache, and shows that the cached resolver refines the table.

  \<^bold>\<open>Jobs and cleanup.\<close> \<open>Extraction_Jobs\<close> models \<open>core/extraction/\<close>, \<open>core/job/handler.ts\<close>,
  the rule files read on completion (\<open>core/site/hosting.ts\<close>) and \<open>core/cleanup/handler.ts\<close>;
  \<open>Cleanup\<close> models \<open>core/cleanup/usecase.ts\<close>. Shown: the queue of deletions drains, the sweep
  touches expired assets only, a stuck job is retried a bounded number of times and then failed.

  \<^bold>\<open>Uploads and deletions.\<close> \<open>Asset_Uploads\<close> models \<open>core/asset/usecase/\<close> and the sessions of
  \<open>core/kv/stores.ts\<close>; the batch a call writes has a fate (committed, rejected, committed with the
  answer lost). \<open>Upload_Properties\<close> shows that a failed upload leaves nothing, a lost message can
  be recomputed, completing a session is repeatable, and a deleted asset is gone. \<open>Asset_Api\<close> models
  every route of \<open>core/asset/handler/\<close>; \<open>Api_Properties\<close> shows that the tables stay well-formed, that
  a call changes only what its caller is authorized for, and that an upload belongs to its caller.

  \<^bold>\<open>Thumbnails.\<close> \<open>Image_Headers\<close> models \<open>core/thumbnail/dimensions.ts\<close> on lists of 8-bit words:
  no read leaves the buffer, and a header is read back as it was laid out. \<open>Thumbnails\<close> models
  \<open>core/thumbnail/generator.ts\<close> and \<open>handler.ts\<close> over an image library that is a parameter; the
  floating point arithmetic of the extents is written out, so every thumbnail provably has the long
  edge of its size, and what an acknowledged message stored is what file delivery serves.

  \<^bold>\<open>The way in.\<close> \<open>Request_Pipeline\<close> models what \<open>core/app.ts\<close> runs before a handler: token
  verification with the keys cached per isolate and in the shared store (\<open>core/auth/\<close>), the anonymous
  session (\<open>core/session/\<close>) and the secret of the internal API. Shown, for any sequence of
  requests: a user is the subject of a token in the request, under keys of the issuer that are at
  most two cache lifetimes old; a session was handed out by the server; a credential is never
  ignored; the internal API needs its secret.

  \<^bold>\<open>Runtimes and services.\<close> \<open>Node_Runtime\<close> models what stands around the core on both platforms:
  the settings read from the environment, the handler in front of the application, the cron tick of
  \<open>runtime/node/\<close>, and the container launcher of \<open>adapters/cloudflare/container.ts\<close> with the life
  cycle of a container. \<open>External_Services\<close> models the adapters for DNS, certificates and signed
  uploads. Shown: both runtimes refuse the same unsafe settings, a client cannot forge the address the
  password limiter counts, ticks lose no message, a hanging container is stopped after a day, a TXT
  record is read as it was published, and a signed URL names one object.

  \<^bold>\<open>Site archives.\<close> \<open>Zip_Archive\<close> models \<open>cli/zip.ts\<close>, the writer with which the
  command line client packs a directory for upload, byte by byte. A reader of the format that is
  defined beside it gets exactly the files of the tree back, and the checksum table computes the
  bitwise CRC.

  \<^bold>\<open>Interfaces.\<close> The locales state what a client relies on: the two key-value stores, the
  member store, the rate-limit stores, the host cache, the key cache and session store of the way in, the object store of the deletion loop and
  the job queue; each is interpreted on the models of both adapters, or on the one under \<open>src/\<close>.

  \<^bold>\<open>Loops.\<close> Recursion is structural or by a measure: the deletion and scan loops by the budget
  that is left, the streaming slice by the bytes that are left. \<open>fetch_pages\<close> follows cursors with
  the number of rows plus one as fuel, which is enough because each page but the last has a row
  the earlier ones do not have.

  \<^bold>\<open>Not modelled.\<close> The adapters that only forward to a platform service (D1, Workers KV,
  Queues), the construction of adapters in the composition roots, the cryptography of tokens and
  signatures, decoding and encoding of
  pixels, the OpenAPI document, the page of the user interface, the rest of the command line client,
  the Go containers, tests and scripts. A failing store is modelled where the code has a branch for it and
  the text of the theory says so; elsewhere the stores answer.
\<close>

end
